(* ===== verification/Prelude.thy ===== *)
theory Prelude
  imports Main "HOL-Library.AList" "HOL-Library.Word"
begin

text \<open>
  The vocabulary every component theory shares.

  \<^item> \<open>fault\<close> names the ways a C++ operation of the agent can leave its normal path: an
    exception of the standard library, a failed library assertion, or one of the undefined
    behaviours (null, end-of-container and freed-object dereference, out-of-bounds access). A
    fallible operation returns \<open>'a result\<close>, so each of these is a branch of the model.
  \<^item> \<open>std::unordered_map\<close> and \<open>std::map\<close> are association lists with distinct keys
    (\<open>AList.update\<close>, \<open>AList.delete\<close>, \<open>map_of\<close>), and \<open>std::map\<close>, whose iteration order
    the code observes, is kept sorted by \<open>smap_put\<close>.
  \<^item> The collections \<open>cpp_simps\<close> and \<open>inv_intros\<close> gather the facts the component proofs use.
\<close>

named_theorems cpp_simps
named_theorems inv_intros

section \<open>Faults and results\<close>

datatype fault =
    Null_Deref
  | End_Deref
  | Dangling_Deref
  | Out_Of_Bounds
  | Assert_Failed
  | Out_Of_Range
  | Range_Error
  | Invalid_Argument
  | Uninitialised_Read
  | Signed_Overflow
  | Bad_Variant
  | Process_Exit
  | Bad_Format
  | Division_By_Zero
  | Diverges

type_synonym 'a result = "fault + 'a"

definition bind_r :: "'a result \<Rightarrow> ('a \<Rightarrow> 'b result) \<Rightarrow> 'b result" where
  "bind_r r f = (case r of Inl e \<Rightarrow> Inl e | Inr a \<Rightarrow> f a)"

lemma bind_r_simps [simp]:
  "bind_r (Inl e) f = Inl e"
  "bind_r (Inr a) f = f a"
  by (simp_all add: bind_r_def)

lemma bind_r_eq_Inr [cpp_simps]: "bind_r r f = Inr b \<longleftrightarrow> (\<exists>a. r = Inr a \<and> f a = Inr b)"
  by (cases r) auto

lemma bind_r_eq_Inl [cpp_simps]:
  "bind_r r f = Inl e \<longleftrightarrow> r = Inl e \<or> (\<exists>a. r = Inr a \<and> f a = Inl e)"
  by (cases r) auto

lemma bind_r_assoc: "bind_r (bind_r r f) g = bind_r r (\<lambda>a. bind_r (f a) g)"
  by (cases r) auto

text \<open>A loop over a list whose body may fault: the first fault stops it.\<close>

fun fold_r :: "('a \<Rightarrow> 's \<Rightarrow> 's result) \<Rightarrow> 'a list \<Rightarrow> 's \<Rightarrow> 's result" where
  "fold_r f [] s = Inr s"
| "fold_r f (x # xs) s = bind_r (f x s) (fold_r f xs)"

lemma fold_r_append: "fold_r f (xs @ ys) s = bind_r (fold_r f xs s) (fold_r f ys)"
proof (induction xs arbitrary: s)
  case (Cons x xs)
  then show ?case by (cases "f x s") auto
qed simp

lemma fold_r_invariant:
  assumes "fold_r f xs s = Inr t" and "P s"
    and "\<And>x s t. x \<in> set xs \<Longrightarrow> P s \<Longrightarrow> f x s = Inr t \<Longrightarrow> P t"
  shows "P t"
  using assms
proof (induction xs arbitrary: s)
  case Nil
  then show ?case by simp
next
  case (Cons x xs)
  from Cons.prems(1) obtain u where u: "f x s = Inr u" "fold_r f xs u = Inr t"
    by (auto simp: cpp_simps)
  have "P u" by (rule Cons.prems(3) [OF _ Cons.prems(2) u(1)]) simp
  show ?case
    by (rule Cons.IH [OF u(2) \<open>P u\<close>]) (rule Cons.prems(3), simp_all)
qed

lemma fold_r_total:
  assumes "\<And>x s. x \<in> set xs \<Longrightarrow> f x s = Inr (g x s)"
  shows "fold_r f xs s = Inr (fold g xs s)"
  using assms by (induction xs arbitrary: s) auto

text \<open>A loop that appends one result per element.\<close>

fun map_r :: "('a \<Rightarrow> 'b result) \<Rightarrow> 'a list \<Rightarrow> 'b list result" where
  "map_r f [] = Inr []"
| "map_r f (x # xs) = bind_r (f x) (\<lambda>y. bind_r (map_r f xs) (\<lambda>ys. Inr (y # ys)))"

lemma map_r_Inr_iff: "map_r f xs = Inr ys \<longleftrightarrow> list_all2 (\<lambda>x y. f x = Inr y) xs ys"
proof (induction xs arbitrary: ys)
  case (Cons x xs)
  then show ?case by (cases ys) (auto simp: cpp_simps)
qed auto

lemma map_r_total: "\<forall>x\<in>set xs. \<exists>y. f x = Inr y \<Longrightarrow> \<exists>ys. map_r f xs = Inr ys"
  by (induction xs) fastforce+

lemma map_r_Inr: "\<forall>x\<in>set xs. f x = Inr (g x) \<Longrightarrow> map_r f xs = Inr (map g xs)"
  by (induction xs) auto

section \<open>Maps as association lists\<close>

text \<open>\<open>m[k] = v\<close>, \<open>m.erase(k)\<close> and \<open>m.find(k)\<close> on an \<open>unordered_map\<close>.\<close>

definition umap_ok :: "('k \<times> 'v) list \<Rightarrow> bool" where
  "umap_ok m \<longleftrightarrow> distinct (map fst m)"

lemma umap_ok_Nil [simp, inv_intros]: "umap_ok []"
  by (simp add: umap_ok_def)

lemma umap_ok_update [inv_intros]: "umap_ok m \<Longrightarrow> umap_ok (AList.update k v m)"
  by (simp add: umap_ok_def AList.distinct_update)

lemma umap_ok_delete [inv_intros]: "umap_ok m \<Longrightarrow> umap_ok (AList.delete k m)"
  by (simp add: umap_ok_def AList.distinct_delete)

lemma umap_size: "umap_ok m \<Longrightarrow> length m = card (dom (map_of m))"
  by (metis distinct_card dom_map_of_conv_image_fst length_map list.set_map umap_ok_def)

text \<open>\<open>m[k] = v\<close> on a \<open>std::map\<close>, whose entries iterate in key order.\<close>

fun smap_put :: "'k::linorder \<Rightarrow> 'v \<Rightarrow> ('k \<times> 'v) list \<Rightarrow> ('k \<times> 'v) list" where
  "smap_put k v [] = [(k, v)]"
| "smap_put k v ((k', v') # m) =
     (if k < k' then (k, v) # (k', v') # m
      else if k = k' then (k, v) # m
      else (k', v') # smap_put k v m)"

definition smap_ok :: "('k::linorder \<times> 'v) list \<Rightarrow> bool" where
  "smap_ok m \<longleftrightarrow> sorted_wrt (<) (map fst m)"

lemma smap_ok_Nil [simp, inv_intros]: "smap_ok []"
  by (simp add: smap_ok_def)

lemma map_of_smap_put [simp]: "smap_ok m \<Longrightarrow> map_of (smap_put k v m) = (map_of m)(k \<mapsto> v)"
proof (induction m)
  case Nil
  then show ?case by simp
next
  case (Cons p m)
  have "smap_ok m" using Cons.prems by (simp add: smap_ok_def)
  with Cons show ?case by (cases p) (auto simp: fun_eq_iff)
qed

lemma set_smap_put_keys: "fst ` set (smap_put k v m) = insert k (fst ` set m)"
proof (induction m)
  case (Cons p m)
  then show ?case by (cases p) auto
qed simp

lemma smap_ok_put [inv_intros]: "smap_ok m \<Longrightarrow> smap_ok (smap_put k v m)"
proof (induction m)
  case (Cons p m)
  then show ?case
    using set_smap_put_keys [of k v m]
    by (cases p) (fastforce simp: smap_ok_def)
qed (simp add: smap_ok_def)

lemma smap_ok_distinct: "smap_ok m \<Longrightarrow> distinct (map fst m)"
  by (auto simp: smap_ok_def strict_sorted_iff)

lemma length_smap_put:
  "smap_ok m \<Longrightarrow> length (smap_put k v m) = (if map_of m k = None then Suc (length m) else length m)"
proof (induction m)
  case (Cons p m)
  have *: "map_of m k = None" if "k < fst p"
    using Cons.prems that by (auto simp: smap_ok_def map_of_eq_None_iff)
  have "smap_ok m" using Cons.prems by (simp add: smap_ok_def)
  with Cons * show ?case by (cases p) auto
qed simp

section \<open>Small list facts\<close>

lemma filter_id_iff: "filter P xs = xs \<longleftrightarrow> (\<forall>x\<in>set xs. P x)"
  by (auto simp: filter_id_conv)

lemma take_append_Cons:
  "length xs < n \<Longrightarrow> take n (xs @ y # ys) = xs @ y # take (n - Suc (length xs)) ys"
  by (simp add: take_Cons')

lemma distinct_map_fst_unique:
  "distinct (map fst xs) \<Longrightarrow> (a, b) \<in> set xs \<Longrightarrow> (a, c) \<in> set xs \<Longrightarrow> b = c"
  by (metis eq_key_imp_eq_value)

end
