(* ===== verification/Cpp_Strings.thy ===== *)
theory Cpp_Strings
  imports Prelude "HOL-Library.Char_ord" "HOL-Library.List_Lexorder"
begin

text \<open>
  The operations of \<open>std::string\<close>, \<open>std::string_view\<close> and the C string library that the
  agent's own code calls, on \<open>string = char list\<close> (bytes). Positions are \<open>nat\<close>,
  \<open>npos\<close> is \<open>None\<close>. A \<open>size_t\<close> that only indexes a string in memory does not
  overflow and is a \<open>nat\<close> here; integers that can overflow are words or are clamped
  explicitly (\<open>strtol\<close>).
\<close>

section \<open>Searching and cutting\<close>

fun starts_with :: "'a list \<Rightarrow> 'a list \<Rightarrow> bool" where
  "starts_with [] s = True"
| "starts_with (p # ps) [] = False"
| "starts_with (p # ps) (c # cs) = (p = c \<and> starts_with ps cs)"

lemma starts_with_iff: "starts_with p s \<longleftrightarrow> (\<exists>t. s = p @ t)"
  by (induction p s rule: starts_with.induct) auto

lemma starts_with_append [simp]: "starts_with p (p @ t)"
  by (auto simp: starts_with_iff)

lemma starts_with_length: "starts_with p s \<Longrightarrow> length p \<le> length s"
  by (auto simp: starts_with_iff)

lemma starts_with_take: "starts_with p s \<longleftrightarrow> take (length p) s = p"
  by (metis append_eq_conv_conj append_take_drop_id starts_with_iff)

fun find_sub :: "'a list \<Rightarrow> 'a list \<Rightarrow> nat option" where
  "find_sub p [] = (if starts_with p [] then Some 0 else None)"
| "find_sub p (c # cs) =
     (if starts_with p (c # cs) then Some 0 else map_option Suc (find_sub p cs))"

text \<open>\<open>find_sub\<close> returns the first position where the pattern occurs, if there is one.\<close>

lemma find_sub_Some:
  "find_sub p s = Some i \<Longrightarrow>
     i \<le> length s \<and> starts_with p (drop i s) \<and> (\<forall>j<i. \<not> starts_with p (drop j s))"
proof (induction s arbitrary: i)
  case Nil
  then show ?case by (auto split: if_splits)
next
  case (Cons c cs)
  show ?case
  proof (cases "starts_with p (c # cs)")
    case True
    with Cons.prems show ?thesis by simp
  next
    case False
    with Cons.prems obtain k where k: "find_sub p cs = Some k" "i = Suc k" by auto
    have "\<not> starts_with p (drop j (c # cs))" if "j < i" for j
      using that False Cons.IH [OF k(1)] k(2) by (cases j) auto
    with k Cons.IH [OF k(1)] show ?thesis by simp
  qed
qed

lemma find_sub_None: "find_sub p s = None \<longleftrightarrow> (\<forall>j\<le>length s. \<not> starts_with p (drop j s))"
proof (induction s)
  case (Cons c cs)
  have "(\<forall>j\<le>length (c # cs). \<not> starts_with p (drop j (c # cs))) \<longleftrightarrow>
        \<not> starts_with p (c # cs) \<and> (\<forall>j\<le>length cs. \<not> starts_with p (drop j cs))"
    by (metis (no_types, lifting) Suc_le_mono bot_nat_0.extremum drop0 drop_Suc_Cons length_Cons not0_implies_Suc)
  with Cons.IH show ?case by auto
qed simp

lemma find_sub_split: "find_sub p s = Some i \<Longrightarrow> \<exists>a b. s = a @ p @ b \<and> length a = i"
  by (metis append_take_drop_id find_sub_Some length_take min.absorb2 starts_with_iff)

text \<open>\<open>s.find(pat, pos)\<close>, \<open>s.find(c)\<close>, \<open>s.rfind(c)\<close>.\<close>

definition string_find :: "string \<Rightarrow> string \<Rightarrow> nat \<Rightarrow> nat option" where
  "string_find s p pos = (if pos > length s then None else map_option ((+) pos) (find_sub p (drop pos s)))"

fun find_char :: "char \<Rightarrow> string \<Rightarrow> nat option" where
  "find_char c [] = None"
| "find_char c (x # xs) = (if x = c then Some 0 else map_option Suc (find_char c xs))"

definition rfind_char :: "char \<Rightarrow> string \<Rightarrow> nat option" where
  "rfind_char c s = map_option (\<lambda>i. length s - 1 - i) (find_char c (rev s))"

lemma find_char_Some:
  "find_char c s = Some i \<Longrightarrow> i < length s \<and> s ! i = c \<and> c \<notin> set (take i s)"
proof (induction s arbitrary: i)
  case (Cons x xs)
  then show ?case by (cases i) (auto split: if_splits)
qed simp

lemma find_char_None: "find_char c s = None \<longleftrightarrow> c \<notin> set s"
  by (induction s) auto

lemma find_char_append:
  "find_char c (xs @ ys) =
     (case find_char c xs of Some i \<Rightarrow> Some i | None \<Rightarrow> map_option ((+) (length xs)) (find_char c ys))"
proof (induction xs)
  case Nil
  then show ?case by (cases "find_char c ys") auto
next
  case (Cons x xs)
  then show ?case
    by (cases "find_char c xs"; cases "find_char c ys") auto
qed

lemma find_char_first: "c \<notin> set xs \<Longrightarrow> find_char c (xs @ c # ys) = Some (length xs)"
  by (induction xs) auto

lemma rfind_char_last: "c \<notin> set ys \<Longrightarrow> rfind_char c (xs @ c # ys) = Some (length xs)"
proof -
  assume "c \<notin> set ys"
  then have "find_char c (rev ys @ c # rev xs) = Some (length (rev ys))"
    by (intro find_char_first) simp
  then show ?thesis by (simp add: rfind_char_def)
qed

text \<open>\<open>s.substr(pos, n)\<close> throws \<open>std::out_of_range\<close> when \<open>pos > s.size()\<close>.\<close>

definition substr :: "string \<Rightarrow> nat \<Rightarrow> nat \<Rightarrow> string result" where
  "substr s pos n = (if pos > length s then Inl Out_Of_Range else Inr (take n (drop pos s)))"

definition substr_from :: "string \<Rightarrow> nat \<Rightarrow> string result" where
  "substr_from s pos = (if pos > length s then Inl Out_Of_Range else Inr (drop pos s))"

section \<open>Character classes\<close>

definition is_digit :: "char \<Rightarrow> bool" where
  "is_digit c \<longleftrightarrow> 48 \<le> (of_char c :: nat) \<and> (of_char c :: nat) \<le> 57"

definition is_space :: "char \<Rightarrow> bool" where
  "is_space c \<longleftrightarrow> (of_char c :: nat) = 32 \<or> 9 \<le> (of_char c :: nat) \<and> (of_char c :: nat) \<le> 13"

definition digit_val :: "char \<Rightarrow> nat" where
  "digit_val c = of_char c - 48"

definition digit_char :: "nat \<Rightarrow> char" where
  "digit_char d = char_of (48 + d)"

text \<open>\<open>std::transform(..., ::tolower)\<close> in the C locale.\<close>

definition lower :: "string \<Rightarrow> string" where
  "lower s = map (\<lambda>c. if 65 \<le> (of_char c :: nat) \<and> (of_char c :: nat) \<le> 90 then char_of (of_char c + 32 :: nat) else c) s"

lemma of_char_digit_char: "d < 10 \<Longrightarrow> of_char (digit_char d) = 48 + d"
  by (simp add: digit_char_def)

lemma is_digit_digit_char [simp]: "d < 10 \<Longrightarrow> is_digit (digit_char d)"
  by (simp add: is_digit_def of_char_digit_char)

lemma digit_val_digit_char [simp]: "d < 10 \<Longrightarrow> digit_val (digit_char d) = d"
  by (simp add: digit_val_def of_char_digit_char)

lemma digit_val_less: "is_digit c \<Longrightarrow> digit_val c < 10"
  by (auto simp: is_digit_def digit_val_def)

section \<open>Decimal numbers\<close>

text \<open>\<open>std::to_string\<close> of an unsigned value, and the value of a string of digits.\<close>

function dec_of_nat :: "nat \<Rightarrow> string" where
  "dec_of_nat n = (if n < 10 then [digit_char n] else dec_of_nat (n div 10) @ [digit_char (n mod 10)])"
  by pat_completeness auto
termination by (relation "measure id") auto

declare dec_of_nat.simps [simp del]

definition nat_of_digits :: "string \<Rightarrow> nat" where
  "nat_of_digits ds = foldl (\<lambda>a c. 10 * a + digit_val c) 0 ds"

lemma nat_of_digits_snoc [simp]:
  "nat_of_digits (ds @ [c]) = 10 * nat_of_digits ds + digit_val c"
  by (simp add: nat_of_digits_def)

lemma nat_of_digits_Nil [simp]: "nat_of_digits [] = 0"
  by (simp add: nat_of_digits_def)

lemma nat_of_digits_dec_of_nat [simp]: "nat_of_digits (dec_of_nat n) = n"
proof (induction n rule: dec_of_nat.induct)
  case (1 n)
  show ?case
  proof (cases "n < 10")
    case True
    then show ?thesis by (simp add: dec_of_nat.simps [of n] nat_of_digits_def)
  next
    case False
    with 1 show ?thesis by (simp add: dec_of_nat.simps [of n])
  qed
qed

lemma dec_of_nat_digits: "\<forall>c\<in>set (dec_of_nat n). is_digit c"
proof (induction n rule: dec_of_nat.induct)
  case (1 n)
  then show ?case by (cases "n < 10") (auto simp: dec_of_nat.simps [of n])
qed

lemma dec_of_nat_nonempty [simp]: "dec_of_nat n \<noteq> []"
  by (simp add: dec_of_nat.simps [of n])

lemma dec_of_nat_inj: "dec_of_nat m = dec_of_nat n \<longleftrightarrow> m = n"
  by (metis nat_of_digits_dec_of_nat)

lemma nat_of_digits_bound:
  "\<forall>c\<in>set ds. is_digit c \<Longrightarrow> nat_of_digits ds < 10 ^ length ds"
proof (induction ds rule: rev_induct)
  case (snoc c ds)
  then have "digit_val c < 10" "nat_of_digits ds < 10 ^ length ds"
    by (auto intro: digit_val_less)
  then show ?case by simp
qed simp

definition dec_of_int :: "int \<Rightarrow> string" where
  "dec_of_int i = (if i < 0 then CHR ''-'' # dec_of_nat (nat (- i)) else dec_of_nat (nat i))"

text \<open>
  The subject of \<open>strtol(s, \&end, 10)\<close>: blanks, an optional sign, digits. \<open>None\<close> when no
  conversion could be performed (\<open>end == s\<close>); otherwise the mathematical value.
\<close>

definition scan_int :: "string \<Rightarrow> int option" where
  "scan_int s =
     (let t = dropWhile is_space s;
          neg = (t \<noteq> [] \<and> hd t = CHR ''-'');
          u = (if t \<noteq> [] \<and> (hd t = CHR ''-'' \<or> hd t = CHR ''+'') then tl t else t);
          ds = takeWhile is_digit u
      in if ds = [] then None
         else Some (if neg then - int (nat_of_digits ds) else int (nat_of_digits ds)))"

definition long_min :: int where "long_min = - (2 ^ 63)"
definition long_max :: int where "long_max = 2 ^ 63 - 1"

definition clamp_long :: "int \<Rightarrow> int" where
  "clamp_long v = (if v > long_max then long_max else if v < long_min then long_min else v)"

text \<open>
  \<open>strtol\<close> saturates; \<open>std::stol\<close> throws on no conversion and on overflow; \<open>atoi\<close> is
  glibc's, \<open>strtol\<close> cut to 32 bits.
\<close>

definition strtol :: "string \<Rightarrow> int option" where
  "strtol s = map_option clamp_long (scan_int s)"

definition stol :: "string \<Rightarrow> (64 word) result" where
  "stol s = (case scan_int s of
      None \<Rightarrow> Inl Invalid_Argument
    | Some v \<Rightarrow> if v > long_max \<or> v < long_min then Inl Out_Of_Range else Inr (word_of_int v))"

definition atoi :: "string \<Rightarrow> int" where
  "atoi s = (case strtol s of None \<Rightarrow> 0 | Some v \<Rightarrow> sint (word_of_int v :: 32 word))"

lemma digit_not_space: "is_digit c \<Longrightarrow> \<not> is_space c"
  by (auto simp: is_digit_def is_space_def)

lemma digit_not_sign: "is_digit c \<Longrightarrow> c \<noteq> CHR ''-'' \<and> c \<noteq> CHR ''+''"
  by (auto simp: is_digit_def)

lemma scan_int_digits:
  assumes "ds \<noteq> []" "\<forall>c\<in>set ds. is_digit c" "rest = [] \<or> \<not> is_digit (hd rest)"
  shows "scan_int (ds @ rest) = Some (int (nat_of_digits ds))"
proof -
  obtain d ds' where ds: "ds = d # ds'" using assms(1) by (cases ds) auto
  then have d: "is_digit d" using assms(2) by simp
  have tw: "takeWhile is_digit (ds @ rest) = ds"
    using assms(2,3) by (cases rest) (auto simp: takeWhile_append2 takeWhile_eq_all_conv)
  show ?thesis
    using tw d assms(1) by (simp add: scan_int_def Let_def ds digit_not_space digit_not_sign)
qed

lemma scan_int_dec_of_nat [simp]: "scan_int (dec_of_nat n) = Some (int n)"
  using scan_int_digits [of "dec_of_nat n" "[]"] by (simp add: dec_of_nat_digits)

lemma stol_dec_of_nat: "n < 2 ^ 63 \<Longrightarrow> stol (dec_of_nat n) = Inr (of_nat n)"
  by (simp add: stol_def long_max_def long_min_def)

section \<open>Hexadecimal output\<close>

text \<open>\<open>std::hex\<close> and \<open>%x\<close>, and a width filled with zeros on the left.\<close>

definition hex_char :: "nat \<Rightarrow> char" where
  "hex_char d = (if d < 10 then char_of (48 + d) else char_of (87 + d))"

function hex_of_nat :: "nat \<Rightarrow> string" where
  "hex_of_nat n = (if n < 16 then [hex_char n] else hex_of_nat (n div 16) @ [hex_char (n mod 16)])"
  by pat_completeness auto
termination by (relation "measure id") auto

declare hex_of_nat.simps [simp del]

definition zero_padded :: "nat \<Rightarrow> string \<Rightarrow> string" where
  "zero_padded w s = replicate (w - length s) (CHR ''0'') @ s"

end
