(* ===== verification/Trace_Model.thy ===== *)
theory Trace_Model
  imports Cpp_Strings
begin

text \<open>
  The data the trace interceptors work on: OpenTelemetry attribute values, spans and resources as
  far as the code reads them (generated protobuf classes, \<open>int_value()\<close> and \<open>string_value()\<close>
  give 0 and the empty string for another alternative), the layer enumerations and attribute
  names of app/include/common/const.h, and the conversions \<open>attrToMap\<close>, \<open>linkAttrToMap\<close> and
  \<open>loadResource\<close>. Doubles are opaque (\<open>'d\<close>): the code only copies them.
\<close>

section \<open>Attribute values\<close>

datatype 'd any_value =
    AV_Unset
  | AV_Bool bool
  | AV_Int "64 word"
  | AV_Double 'd
  | AV_String string
  | AV_Array "'d any_value list"

fun int_value :: "'d any_value \<Rightarrow> 64 word" where
  "int_value (AV_Int n) = n"
| "int_value _ = 0"

fun string_value :: "'d any_value \<Rightarrow> string" where
  "string_value (AV_String s) = s"
| "string_value _ = []"

text \<open>The alternatives of \<open>OwnedAttributeValue\<close>; byte vectors fall through every branch.\<close>

datatype 'd owned_value =
    Own_Bool bool
  | Own_Int32 "32 word"
  | Own_Int64 "64 word"
  | Own_Uint32 "32 word"
  | Own_Uint64 "64 word"
  | Own_Double 'd
  | Own_String string
  | Own_Bools "bool list"
  | Own_Int32s "32 word list"
  | Own_Uint32s "32 word list"
  | Own_Int64s "64 word list"
  | Own_Uint64s "64 word list"
  | Own_Doubles "'d list"
  | Own_Strings "string list"
  | Own_Bytes "8 word list"

fun proto_value :: "'d owned_value \<Rightarrow> 'd any_value" where
  "proto_value (Own_Bool b) = AV_Bool b"
| "proto_value (Own_Int32 n) = AV_Int (scast n)"
| "proto_value (Own_Int64 n) = AV_Int n"
| "proto_value (Own_Uint32 n) = AV_Int (ucast n)"
| "proto_value (Own_Uint64 n) = AV_Int n"
| "proto_value (Own_Double d) = AV_Double d"
| "proto_value (Own_String s) = AV_String s"
| "proto_value (Own_Bools bs) = AV_Array (map AV_Bool bs)"
| "proto_value (Own_Int32s ns) = AV_Array (map (\<lambda>n. AV_Int (scast n)) ns)"
| "proto_value (Own_Uint32s ns) = AV_Array (map (\<lambda>n. AV_Int (ucast n)) ns)"
| "proto_value (Own_Int64s ns) = AV_Array (map AV_Int ns)"
| "proto_value (Own_Uint64s ns) = AV_Array (map AV_Int ns)"
| "proto_value (Own_Doubles ds) = AV_Array (map AV_Double ds)"
| "proto_value (Own_Strings ss) = AV_Array (map AV_String ss)"
| "proto_value (Own_Bytes bs) = AV_Unset"

section \<open>Spans\<close>

datatype span_kind = Kind_Unspecified | Kind_Internal | Kind_Server | Kind_Client | Kind_Producer | Kind_Consumer

datatype status_code = Status_Unset | Status_Ok | Status_Error

type_synonym 'd attributes = "(string \<times> 'd any_value) list"
type_synonym 'd attr_map = "string \<Rightarrow> 'd any_value option"

record 'd span =
  span_name :: string
  span_kind :: span_kind
  status :: status_code
  start_nanos :: "64 word"
  end_nanos :: "64 word"
  attrs :: "'d attributes"
  links :: "'d attributes list"

record 'd recordable =
  rec_span :: "'d span"
  resource :: "(string \<times> 'd owned_value) list"

text \<open>\<open>attrs[key] = value\<close> for each attribute in turn.\<close>

fun attr_to_map_from :: "'d attributes \<Rightarrow> 'd attr_map \<Rightarrow> 'd attr_map" where
  "attr_to_map_from [] m = m"
| "attr_to_map_from ((k, v) # as) m = attr_to_map_from as (m(k \<mapsto> v))"

definition attr_to_map :: "'d span \<Rightarrow> 'd attr_map" where
  "attr_to_map s = attr_to_map_from (attrs s) Map.empty"

definition link_attr_to_map :: "'d attributes \<Rightarrow> 'd attr_map" where
  "link_attr_to_map as = attr_to_map_from as Map.empty"

fun load_resource_from :: "(string \<times> 'd owned_value) list \<Rightarrow> 'd attr_map \<Rightarrow> 'd attr_map" where
  "load_resource_from [] m = m"
| "load_resource_from ((k, v) # rs) m = load_resource_from rs (m(k \<mapsto> proto_value v))"

definition load_resource :: "'d attr_map \<Rightarrow> (string \<times> 'd owned_value) list \<Rightarrow> 'd attr_map" where
  "load_resource m rs = (if rs = [] then m else load_resource_from rs m)"

lemma attr_to_map_from_eq: "attr_to_map_from as m = m ++ map_of (rev as)"
  by (induction as arbitrary: m) (auto simp: fun_eq_iff map_add_def split: option.splits)

lemma load_resource_from_eq: "load_resource_from rs m = m ++ map_of (rev (map (apsnd proto_value) rs))"
  by (induction rs arbitrary: m) (auto simp: fun_eq_iff map_add_def split: option.splits)

text \<open>A span attribute keeps its last value, and a resource attribute of the same name wins.\<close>

lemma span_attribute_lookup:
  "load_resource (attr_to_map s) rs k =
     (case map_of (rev rs) k of
        Some v \<Rightarrow> Some (proto_value v)
      | None \<Rightarrow> map_of (rev (attrs s)) k)"
proof -
  have "map_of (rev (map (apsnd proto_value) rs)) k = map_option proto_value (map_of (rev rs) k)"
    by (simp add: rev_map apsnd_def map_prod_def map_of_map comp_def)
  then show ?thesis
    by (auto simp: load_resource_def attr_to_map_def load_resource_from_eq attr_to_map_from_eq map_add_def
        split: option.splits)
qed

section \<open>Names and layers (const.h)\<close>

definition UserEndpointName :: string where "UserEndpointName = ''User''"
definition UserInstanceName :: string where "UserInstanceName = ''User''"
definition UserServiceName :: string where "UserServiceName = ''User''"
definition AttributeRefType :: string where "AttributeRefType = ''refType''"
definition AttributeParentService :: string where "AttributeParentService = ''parent.service''"
definition AttributeParentInstance :: string where "AttributeParentInstance = ''parent.service.instance''"
definition AttributeParentEndpoint :: string where "AttributeParentEndpoint = ''parent.endpoint''"
definition AttributeNetworkAddressUsedAtPeer :: string where
  "AttributeNetworkAddressUsedAtPeer = ''network.AddressUsedAtPeer''"
definition AttributePeer :: string where "AttributePeer = ''sw8.peer''"
definition AttributeComponentId :: string where "AttributeComponentId = ''sw8.componentId''"
definition AttributeLayer :: string where "AttributeLayer = ''sw8.layer''"
definition AttributeSkywalkingSegmentID :: string where "AttributeSkywalkingSegmentID = ''sw8.segment_id''"
definition AttributeSkywalkingSpanID :: string where "AttributeSkywalkingSpanID = ''sw8.span_id''"
definition AttributeSkywalkingTraceID :: string where "AttributeSkywalkingTraceID = ''sw8.trace_id''"
definition AttributeSkywalkingParentSpanID :: string where
  "AttributeSkywalkingParentSpanID = ''sw8.parent_span_id''"
definition AttributeSkywalkingParentSegmentID :: string where
  "AttributeSkywalkingParentSegmentID = ''sw8.parent_segment_id''"
definition AttributeServiceName :: string where "AttributeServiceName = ''service.name''"
definition AttributeServiceInstanceID :: string where "AttributeServiceInstanceID = ''service.instance.id''"

text \<open>The enumerators of \<open>LAYER\<close>, numbered in order.\<close>

datatype layer =
    L_UNDEFINED | L_MESH | L_GENERAL | L_OS_LINUX | L_K8S | L_FAAS | L_MESH_CP | L_MESH_DP
  | L_DATABASE | L_CACHE | L_BROWSER | L_SO11Y_OAP | L_SO11Y_SATELLITE | L_MQ
  | L_VIRTUAL_DATABASE | L_VIRTUAL_MQ | L_VIRTUAL_GATEWAY | L_K8S_SERVICE | L_MYSQL | L_VIRTUAL_CACHE
  | L_POSTGRESQL | L_APISIX | L_AWS_EKS | L_OS_WINDOWS | L_AWS_S3 | L_AWS_DYNAMODB | L_AWS_GATEWAY
  | L_REDIS | L_ELASTICSEARCH | L_RABBITMQ | L_MONGODB | L_KAFKA | L_PULSAR | L_BOOKKEEPER | L_NGINX
  | L_ROCKETMQ | L_CLICKHOUSE | L_ACTIVEMQ | L_CILIUM_SERVICE | L_SO11Y_JAVA_AGENT | L_KONG

definition layer_order :: "layer list" where
  "layer_order =
    [L_UNDEFINED, L_MESH, L_GENERAL, L_OS_LINUX, L_K8S, L_FAAS, L_MESH_CP, L_MESH_DP,
     L_DATABASE, L_CACHE, L_BROWSER, L_SO11Y_OAP, L_SO11Y_SATELLITE, L_MQ,
     L_VIRTUAL_DATABASE, L_VIRTUAL_MQ, L_VIRTUAL_GATEWAY, L_K8S_SERVICE, L_MYSQL, L_VIRTUAL_CACHE,
     L_POSTGRESQL, L_APISIX, L_AWS_EKS, L_OS_WINDOWS, L_AWS_S3, L_AWS_DYNAMODB, L_AWS_GATEWAY,
     L_REDIS, L_ELASTICSEARCH, L_RABBITMQ, L_MONGODB, L_KAFKA, L_PULSAR, L_BOOKKEEPER, L_NGINX,
     L_ROCKETMQ, L_CLICKHOUSE, L_ACTIVEMQ, L_CILIUM_SERVICE, L_SO11Y_JAVA_AGENT, L_KONG]"

fun index_in :: "'a \<Rightarrow> 'a list \<Rightarrow> nat" where
  "index_in x [] = 0"
| "index_in x (y # ys) = (if x = y then 0 else Suc (index_in x ys))"

definition layer_code :: "layer \<Rightarrow> 32 word" where
  "layer_code l = word_of_nat (index_in l layer_order)"

lemma layer_code_simps [simp]:
  "layer_code L_UNDEFINED = 0" "layer_code L_GENERAL = 2" "layer_code L_FAAS = 5" "layer_code L_MQ = 13"
  "layer_code L_VIRTUAL_DATABASE = 14" "layer_code L_VIRTUAL_MQ = 15" "layer_code L_VIRTUAL_CACHE = 19"
  by (simp_all add: layer_code_def layer_order_def)

end
