(* ===== verification/Otlp_Recordable.thy ===== *)
theory Otlp_Recordable
  imports Trace_Model
begin

text \<open>
  The recordable that turns span operations into an OTLP span message
  (app/source/common/opentelemetry/recordable.cc) and the conversion of attribute values it uses
  (otlp_populate_attribute_utils.cc). The OTLP span extends the span of \<open>Trace_Model\<close> by the parts
  only the exporter reads. The SDK's value and context classes are data; the header of a trace
  state is given with the context.
\<close>

section \<open>Attribute values\<close>

text \<open>The sixteen alternatives of \<open>AttributeValue\<close>.\<close>

datatype 'd attr_value =
    Att_Bool bool
  | Att_Int32 "32 word"
  | Att_Int64 "64 word"
  | Att_Uint32 "32 word"
  | Att_Uint64 "64 word"
  | Att_Double 'd
  | Att_Chars string
  | Att_View string
  | Att_Bytes "8 word list"
  | Att_Bools "bool list"
  | Att_Int32s "32 word list"
  | Att_Int64s "64 word list"
  | Att_Uint32s "32 word list"
  | Att_Uint64s "64 word list"
  | Att_Doubles "'d list"
  | Att_Views "string list"

text \<open>\<open>set_string_value(const char*)\<close> stops at the first null character.\<close>

definition c_string :: "string \<Rightarrow> string" where
  "c_string s = takeWhile (\<lambda>c. c \<noteq> CHR 0x00) s"

fun PopulateAnyValue :: "'d attr_value \<Rightarrow> 'd any_value" where
  "PopulateAnyValue (Att_Bool b) = AV_Bool b"
| "PopulateAnyValue (Att_Int32 n) = AV_Int (scast n)"
| "PopulateAnyValue (Att_Int64 n) = AV_Int n"
| "PopulateAnyValue (Att_Uint32 n) = AV_Int (ucast n)"
| "PopulateAnyValue (Att_Uint64 n) = AV_Int n"
| "PopulateAnyValue (Att_Double d) = AV_Double d"
| "PopulateAnyValue (Att_Chars s) = AV_String (c_string s)"
| "PopulateAnyValue (Att_View s) = AV_String s"
| "PopulateAnyValue (Att_Bytes bs) = AV_Array (map (\<lambda>b. AV_Int (ucast b)) bs)"
| "PopulateAnyValue (Att_Bools bs) = AV_Array (map AV_Bool bs)"
| "PopulateAnyValue (Att_Int32s ns) = AV_Array (map (\<lambda>n. AV_Int (scast n)) ns)"
| "PopulateAnyValue (Att_Int64s ns) = AV_Array (map AV_Int ns)"
| "PopulateAnyValue (Att_Uint32s ns) = AV_Array (map (\<lambda>n. AV_Int (ucast n)) ns)"
| "PopulateAnyValue (Att_Uint64s ns) = AV_Array (map AV_Int ns)"
| "PopulateAnyValue (Att_Doubles ds) = AV_Array (map AV_Double ds)"
| "PopulateAnyValue (Att_Views ss) = AV_Array (map AV_String ss)"

text \<open>The overload for owned values, of the resources.\<close>

fun PopulateOwnedValue :: "'d owned_value \<Rightarrow> 'd any_value" where
  "PopulateOwnedValue (Own_Bool b) = AV_Bool b"
| "PopulateOwnedValue (Own_Int32 n) = AV_Int (scast n)"
| "PopulateOwnedValue (Own_Int64 n) = AV_Int n"
| "PopulateOwnedValue (Own_Uint32 n) = AV_Int (ucast n)"
| "PopulateOwnedValue (Own_Uint64 n) = AV_Int n"
| "PopulateOwnedValue (Own_Double d) = AV_Double d"
| "PopulateOwnedValue (Own_String s) = AV_String s"
| "PopulateOwnedValue (Own_Bools bs) = AV_Array (map AV_Bool bs)"
| "PopulateOwnedValue (Own_Int32s ns) = AV_Array (map (\<lambda>n. AV_Int (scast n)) ns)"
| "PopulateOwnedValue (Own_Uint32s ns) = AV_Array (map (\<lambda>n. AV_Int (ucast n)) ns)"
| "PopulateOwnedValue (Own_Int64s ns) = AV_Array (map AV_Int ns)"
| "PopulateOwnedValue (Own_Uint64s ns) = AV_Array (map AV_Int ns)"
| "PopulateOwnedValue (Own_Doubles ds) = AV_Array (map AV_Double ds)"
| "PopulateOwnedValue (Own_Strings ss) = AV_Array (map AV_String ss)"
| "PopulateOwnedValue (Own_Bytes bs) = AV_Unset"

definition PopulateAttribute :: "string \<Rightarrow> 'd attr_value \<Rightarrow> string \<times> 'd any_value" where
  "PopulateAttribute key v = (key, PopulateAnyValue v)"

definition PopulateResource :: "(string \<times> 'd owned_value) list \<Rightarrow> 'd attributes" where
  "PopulateResource rs = map (\<lambda>(k, v). (k, PopulateOwnedValue v)) rs"

text \<open>The topology processor and the exporter convert resource values alike.\<close>

lemma populate_owned_eq: "PopulateOwnedValue v = proto_value v"
  by (cases v) simp_all

section \<open>The recordable\<close>

type_synonym bytes = "8 word list"

record span_context =
  ctx_trace_id :: bytes
  ctx_span_id :: bytes
  ctx_trace_state :: string

record 'd otlp_span = "'d span" +
  trace_id :: bytes
  span_id :: bytes
  parent_span_id :: bytes
  trace_state :: string
  status_message :: string
  span_flags :: "32 word"
  span_events :: "(string \<times> 64 word \<times> 'd attributes) list"
  link_ids :: "(bytes \<times> bytes \<times> string) list"

record 'd otlp_recordable =
  otlp :: "'d otlp_span"
  resource_ptr :: "(string \<times> 'd owned_value) list option"
  scope :: "(string \<times> string) option"

definition recordable_new :: "'d otlp_recordable" where
  "recordable_new =
     \<lparr>otlp = \<lparr>span_name = [], span_kind = Kind_Unspecified, status = Status_Unset, start_nanos = 0, end_nanos = 0,
              attrs = [], links = [], trace_id = [], span_id = [], parent_span_id = [], trace_state = [],
              status_message = [], span_flags = 0, span_events = [], link_ids = []\<rparr>,
      resource_ptr = None, scope = None\<rparr>"

datatype otel_kind = kInternal | kServer | kClient | kProducer | kConsumer

definition SetIdentity :: "span_context \<Rightarrow> bytes \<Rightarrow> 'd otlp_recordable \<Rightarrow> 'd otlp_recordable" where
  "SetIdentity ctx parent r =
     (let s = (otlp r)\<lparr>trace_id := ctx_trace_id ctx, span_id := ctx_span_id ctx\<rparr>;
          s1 = (if \<exists>b\<in>set parent. b \<noteq> 0 then s\<lparr>parent_span_id := parent\<rparr> else s)
      in r\<lparr>otlp := s1\<lparr>trace_state := ctx_trace_state ctx\<rparr>\<rparr>)"

definition ProtoResource :: "'d otlp_recordable \<Rightarrow> 'd attributes" where
  "ProtoResource r = (case resource_ptr r of None \<Rightarrow> [] | Some rs \<Rightarrow> PopulateResource rs)"

definition SetResource :: "(string \<times> 'd owned_value) list \<Rightarrow> 'd otlp_recordable \<Rightarrow> 'd otlp_recordable" where
  "SetResource rs r = r\<lparr>resource_ptr := Some rs\<rparr>"

definition SetInstrumentationScope :: "string \<times> string \<Rightarrow> 'd otlp_recordable \<Rightarrow> 'd otlp_recordable" where
  "SetInstrumentationScope sc r = r\<lparr>scope := Some sc\<rparr>"

definition SetAttribute :: "string \<Rightarrow> 'd attr_value \<Rightarrow> 'd otlp_recordable \<Rightarrow> 'd otlp_recordable" where
  "SetAttribute key v r = r\<lparr>otlp := (otlp r)\<lparr>attrs := attrs (otlp r) @ [PopulateAttribute key v]\<rparr>\<rparr>"

definition AddEvent ::
  "string \<Rightarrow> 64 word \<Rightarrow> (string \<times> 'd attr_value) list \<Rightarrow> 'd otlp_recordable \<Rightarrow> 'd otlp_recordable" where
  "AddEvent name timestamp kvs r =
     r\<lparr>otlp := (otlp r)\<lparr>span_events := span_events (otlp r) @
         [(name, timestamp, map (\<lambda>(k, v). PopulateAttribute k v) kvs)]\<rparr>\<rparr>"

definition AddLink ::
  "span_context \<Rightarrow> (string \<times> 'd attr_value) list \<Rightarrow> 'd otlp_recordable \<Rightarrow> 'd otlp_recordable" where
  "AddLink ctx kvs r =
     r\<lparr>otlp := (otlp r)\<lparr>links := links (otlp r) @ [map (\<lambda>(k, v). PopulateAttribute k v) kvs],
                       link_ids := link_ids (otlp r) @ [(ctx_trace_id ctx, ctx_span_id ctx, ctx_trace_state ctx)]\<rparr>\<rparr>"

definition SetStatus :: "status_code \<Rightarrow> string \<Rightarrow> 'd otlp_recordable \<Rightarrow> 'd otlp_recordable" where
  "SetStatus c description r =
     (let s = (otlp r)\<lparr>status := c\<rparr>
      in r\<lparr>otlp := (if c = Status_Error then s\<lparr>status_message := description\<rparr> else s)\<rparr>)"

definition SetName :: "string \<Rightarrow> 'd otlp_recordable \<Rightarrow> 'd otlp_recordable" where
  "SetName name r = r\<lparr>otlp := (otlp r)\<lparr>span_name := name\<rparr>\<rparr>"

definition SetTraceFlags :: "8 word \<Rightarrow> 32 word \<Rightarrow> 'd otlp_recordable \<Rightarrow> 'd otlp_recordable" where
  "SetTraceFlags flags flag_mask r = r\<lparr>otlp := (otlp r)\<lparr>span_flags := and (ucast flags) flag_mask\<rparr>\<rparr>"

fun proto_kind :: "otel_kind \<Rightarrow> span_kind" where
  "proto_kind kInternal = Kind_Internal"
| "proto_kind kServer = Kind_Server"
| "proto_kind kClient = Kind_Client"
| "proto_kind kProducer = Kind_Producer"
| "proto_kind kConsumer = Kind_Consumer"

definition SetSpanKind :: "otel_kind \<Rightarrow> 'd otlp_recordable \<Rightarrow> 'd otlp_recordable" where
  "SetSpanKind k r = r\<lparr>otlp := (otlp r)\<lparr>span_kind := proto_kind k\<rparr>\<rparr>"

definition SetStartTime :: "64 word \<Rightarrow> 'd otlp_recordable \<Rightarrow> 'd otlp_recordable" where
  "SetStartTime nanos r = r\<lparr>otlp := (otlp r)\<lparr>start_nanos := nanos\<rparr>\<rparr>"

definition SetDuration :: "64 word \<Rightarrow> 'd otlp_recordable \<Rightarrow> 'd otlp_recordable" where
  "SetDuration d r = r\<lparr>otlp := (otlp r)\<lparr>end_nanos := start_nanos (otlp r) + d\<rparr>\<rparr>"

text \<open>What the topology processor sees of a recordable.\<close>

definition seen_by_topology :: "'d otlp_recordable \<Rightarrow> 'd recordable" where
  "seen_by_topology r =
     \<lparr>rec_span = span.truncate (otlp r), resource = (case resource_ptr r of None \<Rightarrow> [] | Some rs \<Rightarrow> rs)\<rparr>"

lemmas recordable_defs =
  SetIdentity_def SetResource_def SetInstrumentationScope_def SetAttribute_def AddEvent_def AddLink_def
  SetStatus_def SetName_def SetTraceFlags_def SetSpanKind_def SetStartTime_def SetDuration_def Let_def

end
