(* ===== verification/Sky_Ids.thy ===== *)
theory Sky_Ids
  imports Cpp_Strings
begin

text \<open>
  Identifiers of SkyWalking segments as OpenTelemetry ids:
  app/include/common/hex.h (\<open>HexDecode\<close>, \<open>isUint128\<close>, the digit conversions) and
  app/source/intercept/opentelemetry/trace/skywlking/skywalkingproto_to_traces_util.cc with its
  header. Ids are lists of bytes; the 128-bit decimal of the PHP agent is a word of that width.
  A \<open>nostd::span\<close> that is returned is a reference: to the caller's array, to an array of the
  function that has ended, or null, and reading it is a fault in the last two cases.
  \<open>uuid_parse\<close> is a parameter (\<open>None\<close> for a non-zero result). The segment-id function proves out to
  be injective in the span id, which is what makes span ids unique within a segment.
\<close>

section \<open>Hexadecimal digits\<close>

definition ToHexUpper :: "32 word \<Rightarrow> char" where
  "ToHexUpper v = ''0123456789ABCDEF'' ! unat (and v 0xF)"

definition ToHexLower :: "32 word \<Rightarrow> char" where
  "ToHexLower v = ''0123456789abcdef'' ! unat (and v 0xF)"

definition FromHex :: "nat \<Rightarrow> int" where
  "FromHex c =
     (if 48 \<le> c \<and> c \<le> 57 then int (c - 48)
      else if 65 \<le> c \<and> c \<le> 70 then int (c - 65 + 10)
      else if 97 \<le> c \<and> c \<le> 102 then int (c - 97 + 10)
      else - 1)"

text \<open>\<open>unsigned\<close> from a \<open>char\<close>: sign-extended.\<close>

definition uint_of_char :: "char \<Rightarrow> 32 word" where
  "uint_of_char c = scast (of_char c :: 8 word)"

definition chex_fromxdigit :: "32 word \<Rightarrow> 8 word" where
  "chex_fromxdigit h = ucast (and h 0xF + drop_bit 6 h * 9)"

text \<open>\<open>HexDecode(hex, res)\<close>: the terminating null stands in for a missing last digit, and writing
  past the sixteen bytes of \<open>res\<close> is out of bounds.\<close>

fun hex_decode_from :: "string \<Rightarrow> nat \<Rightarrow> 8 word list \<Rightarrow> 8 word list result" where
  "hex_decode_from [] count res = Inr res"
| "hex_decode_from [a] count res =
     (if count < length res
      then Inr (res[count := or (push_bit 4 (chex_fromxdigit (uint_of_char a)))
                               (chex_fromxdigit (uint_of_char (CHR 0x00)))])
      else Inl Out_Of_Bounds)"
| "hex_decode_from (a # b # rest) count res =
     (if count < length res
      then hex_decode_from rest (count + 1)
             (res[count := or (push_bit 4 (chex_fromxdigit (uint_of_char a))) (chex_fromxdigit (uint_of_char b))])
      else Inl Out_Of_Bounds)"

definition hex_decode :: "string \<Rightarrow> 8 word list \<Rightarrow> 8 word list result" where
  "hex_decode hex res = hex_decode_from hex 0 res"

section \<open>isUint128\<close>

fun uint128_loop :: "string \<Rightarrow> 128 word \<Rightarrow> 128 word \<times> bool" where
  "uint128_loop [] result = (result, True)"
| "uint128_loop (c # cs) result =
     (if \<not> is_digit c then (0, False) else uint128_loop cs (result * 10 + of_nat (digit_val c)))"

definition isUint128 :: "string \<Rightarrow> 128 word \<times> bool" where
  "isUint128 str =
     (if str = [] then (0, False) else if length str > 40 then (0, False) else uint128_loop str 0)"

section \<open>Mixing bytes into an id\<close>

text \<open>\<open>for (i = from; i < from + n; i++) \{ uid[i] ^= uint8_t(x); x >>= 8; \}\<close>; the shift of a signed
  value is arithmetic.\<close>

fun xor_bytes :: "('w::len word \<Rightarrow> 'w word) \<Rightarrow> nat \<Rightarrow> nat \<Rightarrow> 'w word \<Rightarrow> 8 word list \<Rightarrow> 8 word list" where
  "xor_bytes shift i 0 x uid = uid"
| "xor_bytes shift i (Suc n) x uid =
     xor_bytes shift (Suc i) n (shift x) (uid[i := xor (uid ! i) (ucast x)])"

definition swUint128tToUUID :: "128 word \<Rightarrow> 32 word \<Rightarrow> 8 word list \<Rightarrow> 8 word list" where
  "swUint128tToUUID value extra uid =
     (let u1 = xor_bytes (drop_bit 8) 0 4 extra uid;
          low = ucast value :: 64 word;
          high = ucast (drop_bit 64 value) :: 64 word;
          u2 = xor_bytes (drop_bit 8) 4 4 low u1
      in xor_bytes (drop_bit 8) 8 8 high u2)"

definition swStringToUUID :: "string \<Rightarrow> 32 word \<Rightarrow> 8 word list \<Rightarrow> (bool \<times> 8 word list) result" where
  "swStringToUUID s extra uid =
     (if length s < 32 then Inr (False, uid)
      else
        bind_r (substr s 0 32) (\<lambda>sub.
        bind_r (hex_decode sub uid) (\<lambda>u1.
        let u2 = xor_bytes (drop_bit 8) 0 4 extra u1 in
        if length s = 32 then Inr (True, u2)
        else
          case (find_char CHR ''.'' s, rfind_char CHR ''.'' s) of
            (Some index1, Some index2) \<Rightarrow>
              if index1 \<noteq> 32 then Inr (False, u2)
              else
                let size = index2 - index1;
                    size1 = (if size > 0 then size - 1 else size)
                in bind_r (substr s (index1 + 1) size1) (\<lambda>midStr.
                   bind_r (stol midStr) (\<lambda>mid.
                   bind_r (substr s (index2 + 1) (length s)) (\<lambda>lastStr.
                   bind_r (stol lastStr) (\<lambda>last.
                   let u3 = xor_bytes (signed_drop_bit 8) 4 4 mid u2
                   in Inr (True, xor_bytes (signed_drop_bit 8) 8 8 last u3)))))
          | _ \<Rightarrow> Inr (False, u2))))"

fun uuidTo8Bytes_from :: "nat \<Rightarrow> nat \<Rightarrow> 8 word list \<Rightarrow> 8 word list \<Rightarrow> 8 word list" where
  "uuidTo8Bytes_from i 0 uuid dst = dst"
| "uuidTo8Bytes_from i (Suc n) uuid dst =
     uuidTo8Bytes_from (Suc i) n uuid (dst[i := xor (uuid ! i) (uuid ! (i + 8))])"

definition uuidTo8Bytes :: "8 word list \<Rightarrow> 8 word list \<Rightarrow> 8 word list" where
  "uuidTo8Bytes uuid dst = uuidTo8Bytes_from 0 8 uuid dst"

section \<open>Trace and span ids\<close>

datatype span_ref = Null_Span | Dead_Span "8 word list" | Caller_Span "8 word list"

definition read_span :: "span_ref \<Rightarrow> 8 word list result" where
  "read_span r = (case r of Null_Span \<Rightarrow> Inl Null_Deref | Dead_Span _ \<Rightarrow> Inl Dangling_Deref | Caller_Span bs \<Rightarrow> Inr bs)"

text \<open>The first \<open>n\<close> bytes of a value on a little-endian machine (\<open>memcpy\<close>).\<close>

definition le_bytes :: "nat \<Rightarrow> 'w::len word \<Rightarrow> 8 word list" where
  "le_bytes n x = map (\<lambda>i. ucast (drop_bit (8 * i) x)) [0..<n]"

text \<open>The PHP branch returns a view of the local \<open>bytes\<close> and the UUID branch one of the local \<open>u\<close>.\<close>

definition swTraceIdToTraceId ::
  "(string \<Rightarrow> 8 word list option) \<Rightarrow> string \<Rightarrow> 8 word list \<Rightarrow> span_ref result" where
  "swTraceIdToTraceId uuid_parse trace_id ret =
     (let (value, isInt) = isUint128 trace_id
      in if isInt
         then Inr (Dead_Span (le_bytes 8 (ucast value :: 64 word) @ le_bytes 8 (ucast (drop_bit 64 value) :: 64 word)))
         else if length trace_id \<le> 36
         then (case uuid_parse trace_id of
                 None \<Rightarrow> bind_r (swStringToUUID trace_id 0 ret) (\<lambda>(ok, r).
                           if \<not> ok then Inr Null_Span else Inr (Caller_Span r))
               | Some u \<Rightarrow> Inr (Dead_Span u))
         else bind_r (swStringToUUID trace_id 0 ret) (\<lambda>(ok, r).
                if \<not> ok then Inr Null_Span else Inr (Caller_Span r)))"

text \<open>A short segment id returns \<open>\{nullptr, 16\}\<close> as a span of extent 8: the constructor's
  precondition fails. An undecodable one returns \<open>ret\<close> as it came.\<close>

definition segmentIDToSpanID :: "string \<Rightarrow> 32 word \<Rightarrow> 8 word list \<Rightarrow> 8 word list result" where
  "segmentIDToSpanID segmentId spanId ret =
     (if length segmentId < 32 then Inl Assert_Failed
      else
        let uuid = replicate 16 0;
            (value, isInt) = isUint128 segmentId
        in if isInt then Inr (uuidTo8Bytes (swUint128tToUUID value spanId uuid) ret)
           else bind_r (swStringToUUID segmentId spanId uuid) (\<lambda>(ok, u).
                  if \<not> ok then Inr ret else Inr (uuidTo8Bytes u ret)))"

section \<open>What the loops compute\<close>

lemma length_xor_bytes [simp]: "length (xor_bytes sh i n x uid) = length uid"
  by (induction sh i n x uid rule: xor_bytes.induct) simp_all

lemma nth_xor_bytes:
  "i + n \<le> length uid \<Longrightarrow> k < length uid \<Longrightarrow>
     xor_bytes sh i n x uid ! k =
       (if i \<le> k \<and> k < i + n then xor (uid ! k) (ucast ((sh ^^ (k - i)) x)) else uid ! k)"
proof (induction n arbitrary: i x uid)
  case (Suc n)
  have "(sh ^^ (k - i)) x = (sh ^^ (k - Suc i)) (sh x)" if "i < k"
    using that by (metis Suc_diff_Suc funpow_Suc_right o_apply)
  then show ?case using Suc.prems by (auto simp: Suc.IH nth_list_update)
qed auto

lemma length_uuidTo8Bytes_from [simp]: "length (uuidTo8Bytes_from i n uuid dst) = length dst"
  by (induction i n uuid dst rule: uuidTo8Bytes_from.induct) simp_all

lemma nth_uuidTo8Bytes_from:
  "i + n \<le> length dst \<Longrightarrow> k < length dst \<Longrightarrow>
     uuidTo8Bytes_from i n uuid dst ! k =
       (if i \<le> k \<and> k < i + n then xor (uuid ! k) (uuid ! (k + 8)) else dst ! k)"
  by (induction n arbitrary: i dst) (auto simp: nth_list_update)

lemma nth_uuidTo8Bytes: "length dst = 8 \<Longrightarrow> k < 8 \<Longrightarrow> uuidTo8Bytes uuid dst ! k = xor (uuid ! k) (uuid ! (k + 8))"
  by (simp add: uuidTo8Bytes_def nth_uuidTo8Bytes_from)

lemma length_uuidTo8Bytes [simp]: "length (uuidTo8Bytes uuid dst) = length dst"
  by (simp add: uuidTo8Bytes_def)

lemma funpow_drop_bit: "((drop_bit 8 :: 'w::len word \<Rightarrow> 'w word) ^^ k) x = drop_bit (8 * k) x"
  by (induction k) (simp_all add: ac_simps)

text \<open>The low byte does not see whether a 64-bit shift by less than 64 was arithmetic.\<close>

lemma funpow_signed_drop_bit_byte:
  "k < 8 \<Longrightarrow> (ucast (((signed_drop_bit 8 :: 64 word \<Rightarrow> 64 word) ^^ k) x) :: 8 word) = ucast (drop_bit (8 * k) x)"
proof -
  assume k: "k < 8"
  have "((signed_drop_bit 8 :: 64 word \<Rightarrow> 64 word) ^^ k) x = signed_drop_bit (8 * k) x"
    by (induction k) (simp_all add: signed_drop_bit_signed_drop_bit ac_simps)
  then show ?thesis
    using k by (intro bit_word_eqI) (auto simp: bit_simps bit_signed_drop_bit_iff)
qed

lemma hex_decode_length:
  "hex_decode_from s c res = Inr r \<Longrightarrow> length r = length res"
  by (induction s c res rule: hex_decode_from.induct) (auto split: if_splits)

lemma hex_decode_total:
  "length s \<le> 2 * (length res - c) \<Longrightarrow> c \<le> length res \<Longrightarrow> \<exists>r. hex_decode_from s c res = Inr r"
  by (induction s c res rule: hex_decode_from.induct) auto

lemma hex_decode_32: "length s = 32 \<Longrightarrow> length uid = 16 \<Longrightarrow> \<exists>r. hex_decode s uid = Inr r \<and> length r = 16"
  using hex_decode_total [of s uid 0] hex_decode_length [of s 0 uid] by (auto simp: hex_decode_def)

section \<open>Decoding segment ids\<close>

lemma nth_le_bytes [simp]: "k < n \<Longrightarrow> le_bytes n x ! k = ucast (drop_bit (8 * k) x)"
  by (simp add: le_bytes_def)

lemma length_le_bytes [simp]: "length (le_bytes n x) = n"
  by (simp add: le_bytes_def)

lemma xor_bytes_all:
  fixes mid last :: "64 word" and extra :: "32 word"
  assumes "length u = 16"
  shows "xor_bytes (signed_drop_bit 8) 8 8 last (xor_bytes (signed_drop_bit 8) 4 4 mid (xor_bytes (drop_bit 8) 0 4 extra u)) =
         map2 xor u (le_bytes 4 extra @ le_bytes 4 mid @ le_bytes 8 last)"
  using assms
  by (intro nth_equalityI)
    (auto simp: nth_xor_bytes nth_append funpow_drop_bit funpow_signed_drop_bit_byte)

lemma dec_no_dot: "CHR ''.'' \<notin> set (dec_of_nat n)"
  using dec_of_nat_digits [of n] by (auto simp: is_digit_def)

lemma swStringToUUID_java:
  assumes "length start = 32" "CHR ''.'' \<notin> set start" "m < 2 ^ 63" "l < 2 ^ 63" "length uid = 16"
    and "hex_decode start uid = Inr u"
  shows "swStringToUUID (start @ ''.'' @ dec_of_nat m @ ''.'' @ dec_of_nat l) extra uid =
         Inr (True, map2 xor u (le_bytes 4 extra @ le_bytes 4 (of_nat m :: 64 word) @ le_bytes 8 (of_nat l :: 64 word)))"
proof -
  let ?s = "start @ ''.'' @ dec_of_nat m @ ''.'' @ dec_of_nat l"
  have i1: "find_char CHR ''.'' ?s = Some 32"
    using find_char_first [OF assms(2), of "dec_of_nat m @ ''.'' @ dec_of_nat l"] assms(1) by simp
  have i2: "rfind_char CHR ''.'' ?s = Some (33 + length (dec_of_nat m))"
    using rfind_char_last [OF dec_no_dot [of l], of "start @ ''.'' @ dec_of_nat m"] assms(1) by simp
  have "length u = 16" using hex_decode_length assms(5,6) by (fastforce simp: hex_decode_def)
  then show ?thesis
    using assms i1 i2
    by (simp add: swStringToUUID_def substr_def Let_def stol_dec_of_nat xor_bytes_all del: upt_Suc)
qed

text \<open>However the segment id is written, the span id enters as the first four bytes and nothing else
  of the id depends on it.\<close>

definition extra_enters :: "(32 word \<Rightarrow> 8 word list) \<Rightarrow> bool" where
  "extra_enters f \<longleftrightarrow>
     (\<exists>h t. \<forall>e. length (f e) = 16 \<and> (\<forall>k<4. f e ! k = xor (h k) (ucast (drop_bit (8 * k) e))) \<and>
                (\<forall>k. 8 \<le> k \<and> k < 16 \<longrightarrow> f e ! k = t k))"

lemma xor_sandwich:
  fixes x y h t :: "'w::len word"
  assumes "xor (xor h x) t = xor (xor h y) t"
  shows "x = y"
proof (rule bit_word_eqI)
  fix n assume "n < LENGTH('w)"
  then show "bit x n = bit y n"
    using arg_cong [OF assms, of "\<lambda>w. bit w n"] by (auto simp: bit_simps)
qed

lemma extra_enters_word:
  fixes f :: "32 word \<Rightarrow> 8 word list"
  assumes "extra_enters f" "length ret = 8" "uuidTo8Bytes (f a) ret = uuidTo8Bytes (f b) ret"
  shows "a = b"
proof -
  obtain h t where ht: "\<And>e k. k < 4 \<Longrightarrow> f e ! k = xor (h k) (ucast (drop_bit (8 * k) e))"
    "\<And>e k. 8 \<le> k \<Longrightarrow> k < 16 \<Longrightarrow> f e ! k = t k"
    using assms(1) unfolding extra_enters_def by metis
  have byte: "(ucast (drop_bit (8 * k) a) :: 8 word) = ucast (drop_bit (8 * k) b)" if "k < 4" for k
  proof -
    have "uuidTo8Bytes (f a) ret ! k = uuidTo8Bytes (f b) ret ! k" using assms(3) by simp
    then have "xor (xor (h k) (ucast (drop_bit (8 * k) a))) (t (k + 8)) =
               xor (xor (h k) (ucast (drop_bit (8 * k) b))) (t (k + 8))"
      using that assms(2) by (simp add: nth_uuidTo8Bytes ht)
    then show ?thesis by (rule xor_sandwich)
  qed
  show ?thesis
  proof (rule bit_word_eqI)
    fix n assume "n < LENGTH(32)"
    then have "n div 8 < 4" by simp
    from byte [OF this] have "bit (ucast (drop_bit (8 * (n div 8)) a) :: 8 word) (n mod 8) =
        bit (ucast (drop_bit (8 * (n div 8)) b) :: 8 word) (n mod 8)" by simp
    then show "bit a n = bit b n" by (simp add: bit_simps)
  qed
qed

lemma extra_enters_string:
  assumes "swStringToUUID s e0 uid = Inr (True, u0)" "length uid = 16"
  shows "\<exists>f. extra_enters f \<and> (\<forall>e. swStringToUUID s e uid = Inr (True, f e))"
proof -
  have len: "\<not> length s < 32" using assms(1) by (auto simp: swStringToUUID_def)
  obtain u1 where u1: "hex_decode (take 32 s) uid = Inr u1" "length u1 = 16"
    using hex_decode_32 [of "take 32 s" uid] len assms(2) by auto
  let ?f = "\<lambda>e. xor_bytes (drop_bit 8) 0 4 (e :: 32 word) u1"
  have base: "extra_enters ?f"
    unfolding extra_enters_def
    by (intro exI [of _ "\<lambda>k. u1 ! k"] allI conjI impI) (simp_all add: nth_xor_bytes u1 funpow_drop_bit)
  show ?thesis
  proof (cases "length s = 32")
    case True
    then have "\<forall>e. swStringToUUID s e uid = Inr (True, ?f e)"
      using u1(1) by (simp add: swStringToUUID_def substr_def Let_def)
    with base show ?thesis by blast
  next
    case False
    have sub: "substr s 0 32 = Inr (take 32 s)" by (simp add: substr_def)
    obtain i2 ms mid ls last where p: "find_char CHR ''.'' s = Some 32" "rfind_char CHR ''.'' s = Some i2"
      "substr s 33 (if i2 - 32 > 0 then i2 - 32 - 1 else i2 - 32) = Inr ms" "stol ms = Inr mid"
      "substr s (i2 + 1) (length s) = Inr ls" "stol ls = Inr last"
      using assms(1) len u1(1) False
      by (auto simp: swStringToUUID_def sub Let_def cpp_simps split: option.splits if_splits)
    then have ml: "swStringToUUID s e uid =
        Inr (True, xor_bytes (signed_drop_bit 8) 8 8 last (xor_bytes (signed_drop_bit 8) 4 4 (mid :: 64 word) (?f e)))" for e
      using len u1(1) False by (simp add: swStringToUUID_def sub Let_def split del: if_split)
    let ?g = "\<lambda>e. xor_bytes (signed_drop_bit 8) 8 8 last (xor_bytes (signed_drop_bit 8) 4 4 mid (?f e))"
    have "extra_enters ?g"
      unfolding extra_enters_def
      by (intro exI [of _ "\<lambda>k. u1 ! k"] exI [of _ "\<lambda>k. ?g 0 ! k"] allI conjI impI)
        (simp_all add: nth_xor_bytes u1 funpow_drop_bit)
    with ml show ?thesis by blast
  qed
qed

lemma extra_enters_uint128: "extra_enters (\<lambda>e. swUint128tToUUID value e (replicate 16 0))"
  unfolding extra_enters_def
  by (intro exI [of _ "\<lambda>k. 0"] exI [of _ "\<lambda>k. swUint128tToUUID value 0 (replicate 16 0) ! k"] allI conjI impI)
    (simp_all add: swUint128tToUUID_def nth_xor_bytes funpow_drop_bit Let_def)

text \<open>A segment id in one of the formats: a 128-bit decimal, or one \<open>swStringToUUID\<close> accepts.\<close>

definition segment_id_ok :: "string \<Rightarrow> bool" where
  "segment_id_ok s \<longleftrightarrow>
     32 \<le> length s \<and> (snd (isUint128 s) \<or> (\<exists>u. swStringToUUID s 0 (replicate 16 0) = Inr (True, u)))"

lemma segmentIDToSpanID_ok:
  assumes "segment_id_ok s"
  shows "\<exists>f. extra_enters f \<and> (\<forall>e ret. segmentIDToSpanID s e ret = Inr (uuidTo8Bytes (f e) ret))"
proof (cases "isUint128 s")
  case (Pair v isInt)
  show ?thesis
  proof (cases isInt)
    case True
    then have "\<forall>e ret. segmentIDToSpanID s e ret =
        Inr (uuidTo8Bytes (swUint128tToUUID v e (replicate 16 0)) ret)"
      using assms Pair by (simp add: segmentIDToSpanID_def segment_id_ok_def Let_def)
    then show ?thesis using extra_enters_uint128 [of v] by blast
  next
    case False
    then obtain u where "swStringToUUID s 0 (replicate 16 0) = Inr (True, u)"
      using assms Pair by (auto simp: segment_id_ok_def)
    from extra_enters_string [OF this] obtain f where
      f: "extra_enters f" "\<forall>e. swStringToUUID s e (replicate 16 0) = Inr (True, f e)" by auto
    then have "\<forall>e ret. segmentIDToSpanID s e ret = Inr (uuidTo8Bytes (f e) ret)"
      using assms Pair False by (simp add: segmentIDToSpanID_def segment_id_ok_def Let_def)
    with f(1) show ?thesis by blast
  qed
qed

lemma segmentIDToSpanID_length:
  "segment_id_ok s \<Longrightarrow> length ret = 8 \<Longrightarrow> \<exists>x. segmentIDToSpanID s e ret = Inr x \<and> length x = 8"
  using segmentIDToSpanID_ok by fastforce

lemma segment_total: "segment_id_ok s \<Longrightarrow> \<exists>x. segmentIDToSpanID s e (replicate 8 0) = Inr x"
  using segmentIDToSpanID_ok by blast

lemma segmentIDToSpanID_inj:
  assumes "segment_id_ok s" "length ret = 8" "segmentIDToSpanID s a ret = segmentIDToSpanID s b ret"
  shows "a = b"
proof -
  obtain f where "extra_enters f" "\<forall>e ret. segmentIDToSpanID s e ret = Inr (uuidTo8Bytes (f e) ret)"
    using segmentIDToSpanID_ok [OF assms(1)] by blast
  then show ?thesis using extra_enters_word [of f ret a b] assms(2,3) by simp
qed

section \<open>Properties\<close>

text \<open>C16: within a segment the span id is recovered from the OpenTelemetry span id: for every segment id
  that decodes, \<open>segmentIDToSpanID\<close> gives eight bytes, and different span ids give different ones.\<close>

theorem span_ids_unique:
  assumes "segment_id_ok s"
  shows "\<exists>f. (\<forall>e. segmentIDToSpanID s e (replicate 8 0) = Inr (f e) \<and> length (f e) = 8) \<and> inj f"
proof -
  obtain f where f: "\<forall>e ret. segmentIDToSpanID s e ret = Inr (uuidTo8Bytes (f e) ret)"
    using segmentIDToSpanID_ok [OF assms] by blast
  have "inj (\<lambda>e. uuidTo8Bytes (f e) (replicate 8 0))"
    using segmentIDToSpanID_inj [OF assms, of "replicate 8 0"] f by (auto intro!: injI)
  then show ?thesis using f by (intro exI [of _ "\<lambda>e. uuidTo8Bytes (f e) (replicate 8 0)"]) simp
qed

definition sample_segment :: string where
  "sample_segment = ''56a5e1c519ae4c76a2b8b11d92cead7f.12.16563474296430001''"

lemma sample_segment_eq:
  "sample_segment = ''56a5e1c519ae4c76a2b8b11d92cead7f'' @ ''.'' @ dec_of_nat 12 @ ''.'' @ dec_of_nat 16563474296430001"
  by (simp add: sample_segment_def dec_of_nat.simps digit_char_def char_of_def bit_0)

lemma java_id_decodes:
  assumes "length start = 32" "CHR ''.'' \<notin> set start" "m < 2 ^ 63" "l < 2 ^ 63"
  shows "segment_id_ok (start @ ''.'' @ dec_of_nat m @ ''.'' @ dec_of_nat l)"
proof -
  obtain u where "hex_decode start (replicate 16 0) = Inr u"
    using hex_decode_32 [OF assms(1), of "replicate 16 0"] by auto
  then show ?thesis
    using swStringToUUID_java [OF assms, of "replicate 16 0" u 0] assms(1) by (simp add: segment_id_ok_def)
qed

theorem span_ids_unique_witness:
  "\<exists>f. (\<forall>e. segmentIDToSpanID sample_segment e (replicate 8 0) = Inr (f e) \<and> length (f e) = 8) \<and> inj f"
proof (rule span_ids_unique)
  show "segment_id_ok sample_segment"
    unfolding sample_segment_eq by (rule java_id_decodes) simp_all
qed

lemma uint128_loop_nondigit: "c \<in> set s \<Longrightarrow> \<not> is_digit c \<Longrightarrow> uint128_loop s r = (0, False)"
  by (induction s r rule: uint128_loop.induct) auto

lemma isUint128_nondigit: "c \<in> set s \<Longrightarrow> \<not> is_digit c \<Longrightarrow> isUint128 s = (0, False)"
  by (auto simp: isUint128_def uint128_loop_nondigit)

text \<open>A trace id of the Java agent, \<open>hex32.mid.last\<close>, becomes the bytes of its hexadecimal part
  xor-ed with the little-endian bytes of \<open>0\<close>, \<open>mid\<close> (four) and \<open>last\<close> (eight), in the caller's array.\<close>

lemma java_trace_id:
  assumes "length start = 32" "CHR ''.'' \<notin> set start" "m < 2 ^ 63" "l < 2 ^ 63"
    and "length ret = 16" "hex_decode start ret = Inr u"
    and "uuid_parse (start @ ''.'' @ dec_of_nat m @ ''.'' @ dec_of_nat l) = None"
  shows "swTraceIdToTraceId uuid_parse (start @ ''.'' @ dec_of_nat m @ ''.'' @ dec_of_nat l) ret =
         Inr (Caller_Span (map2 xor u
           (le_bytes 4 (0 :: 32 word) @ le_bytes 4 (of_nat m :: 64 word) @ le_bytes 8 (of_nat l :: 64 word))))"
proof -
  have "isUint128 (start @ ''.'' @ dec_of_nat m @ ''.'' @ dec_of_nat l) = (0, False)"
    by (rule isUint128_nondigit [of "CHR ''.''"]) (simp_all add: is_digit_def)
  then show ?thesis
    using assms(7) swStringToUUID_java [OF assms(1-6), of 0] by (simp add: swTraceIdToTraceId_def)
qed

lemma java_trace_id_witness:
  "\<exists>u. swTraceIdToTraceId (\<lambda>_. None) (''56a5e1c519ae4c76a2b8b11d92cead7f'' @ ''.'' @ dec_of_nat 12 @ ''.'' @ dec_of_nat 1656)
         (replicate 16 0) =
       Inr (Caller_Span (map2 xor u
         (le_bytes 4 (0 :: 32 word) @ le_bytes 4 (of_nat 12 :: 64 word) @ le_bytes 8 (of_nat 1656 :: 64 word))))"
proof -
  obtain u where u: "hex_decode ''56a5e1c519ae4c76a2b8b11d92cead7f'' (replicate 16 0) = Inr u"
    using hex_decode_32 [of "''56a5e1c519ae4c76a2b8b11d92cead7f''" "replicate 16 0"] by auto
  show ?thesis by (intro exI [of _ u] java_trace_id) (simp_all add: u)
qed

text \<open>For a trace id in UUID format the returned span is a view of the local \<open>uuid_t\<close> of a function
  that has ended: whoever reads it reads freed stack memory.\<close>

lemma uuid_trace_id_dangles:
  assumes "uuid_parse s = Some u" "length s \<le> 36" "c \<in> set s" "\<not> is_digit c"
  shows "bind_r (swTraceIdToTraceId uuid_parse s ret) read_span = Inl Dangling_Deref"
  using assms isUint128_nondigit [OF assms(3,4)] by (simp add: swTraceIdToTraceId_def read_span_def)

lemma uuid_trace_id_dangles_witness:
  "bind_r (swTraceIdToTraceId (\<lambda>_. Some (replicate 16 7)) ''de5980b8-fce3-4a37-aab9-b4ac3af7eedd'' (replicate 16 0)) read_span =
     Inl Dangling_Deref"
  by (rule uuid_trace_id_dangles [where c = "CHR ''-''"]) (simp_all add: is_digit_def)

end
