(* ===== verification/Sky_Processor.thy ===== *)
theory Sky_Processor
  imports Otlp_Recordable Sky_Ids
begin

text \<open>
  The SkyWalking trace interceptor
  (app/source/intercept/opentelemetry/trace/skywlking/processor.cc): every span of a segment
  becomes an OTLP recordable. The generated SkyWalking messages are records of the fields that are
  read; \<open>sky_env\<close> holds what is not in the repository: \<open>uuid_parse\<close>, the wire number of the
  message-queue layer, the semantic-convention names and the clock.
\<close>

section \<open>Segments\<close>

datatype sky_span_type = Type_Entry | Type_Exit | Type_Local | Type_Other

record sky_ref =
  ref_type :: "32 word"
  ref_trace_id :: string
  ref_parent_segment :: string
  ref_parent_span :: "32 word"
  ref_parent_service :: string
  ref_parent_instance :: string
  ref_parent_endpoint :: string
  ref_network_address :: string

record sky_span =
  sw_span_id :: "32 word"
  sw_parent_span_id :: "32 word"
  sw_start :: "64 word"
  sw_end :: "64 word"
  sw_refs :: "sky_ref list"
  sw_operation :: string
  sw_peer :: string
  sw_type :: sky_span_type
  sw_layer :: "32 word"
  sw_component :: "32 word"
  sw_is_error :: bool
  sw_tags :: "(string \<times> string) list"
  sw_logs :: "(string \<times> string) list list"

record segment =
  seg_trace_id :: string
  seg_segment_id :: string
  seg_service :: string
  seg_instance :: string
  seg_spans :: "sky_span list"

record sky_env =
  uuid_parse :: "string \<Rightarrow> 8 word list option"
  mq_layer :: "32 word"
  kUrlFull :: string
  kHttpResponseStatusCode :: string
  kDbSystem :: string
  kDbName :: string
  kServerAddress :: string
  now :: "64 word"

definition otSpanTagsMapping :: "sky_env \<Rightarrow> string \<Rightarrow> string option" where
  "otSpanTagsMapping P =
     [''url'' \<mapsto> kUrlFull P, ''status_code'' \<mapsto> kHttpResponseStatusCode P, ''db.type'' \<mapsto> kDbSystem P,
      ''db.instance'' \<mapsto> kDbName P, ''mq.broker'' \<mapsto> kServerAddress P]"

definition default_scope :: "string \<times> string" where
  "default_scope = (''trace-agent'', ''0.1'')"

section \<open>The parts of process\<close>

definition setInternalSpanStatus :: "sky_span \<Rightarrow> 'd otlp_recordable \<Rightarrow> 'd otlp_recordable" where
  "setInternalSpanStatus s r =
     (if sw_is_error s then SetStatus Status_Error ''ERROR'' r else SetStatus Status_Ok ''SUCCESS'' r)"

text \<open>\<open>AttributeMap::SetAttribute\<close> assigns in an unordered map.\<close>

definition swTagsToInternalResource ::
  "sky_env \<Rightarrow> sky_span \<Rightarrow> (string \<times> 'd owned_value) list \<Rightarrow> (string \<times> 'd owned_value) list" where
  "swTagsToInternalResource P s attr =
     (if sw_tags s = [] then attr
      else fold (\<lambda>(k, v) a. case otSpanTagsMapping P k of None \<Rightarrow> a | Some n \<Rightarrow> AList.update n (Own_String v) a)
             (sw_tags s) attr)"

text \<open>All logs of a span are merged into the attributes of one event.\<close>

definition swLogsToSpanEvents :: "sky_env \<Rightarrow> sky_span \<Rightarrow> 'd otlp_recordable \<Rightarrow> 'd otlp_recordable" where
  "swLogsToSpanEvents P s r =
     (if sw_logs s = [] then r
      else
        let attributes = fold (fold (\<lambda>(k, v). smap_put k v)) (sw_logs s) []
        in AddEvent ''logs'' (now P) (map (\<lambda>(k, v). (k, Att_View v)) attributes) r)"

definition swSpanKindToSpanKind :: "sky_env \<Rightarrow> sky_span \<Rightarrow> 'd otlp_recordable \<Rightarrow> 'd otlp_recordable" where
  "swSpanKindToSpanKind P s r =
     (if sw_layer s = mq_layer P \<and> sw_type s = Type_Entry then SetSpanKind kConsumer r
      else if sw_layer s = mq_layer P \<and> sw_type s = Type_Exit then SetSpanKind kProducer r
      else (case sw_type s of
              Type_Entry \<Rightarrow> SetSpanKind kServer r
            | Type_Exit \<Rightarrow> SetSpanKind kClient r
            | Type_Local \<Rightarrow> SetSpanKind kInternal r
            | Type_Other \<Rightarrow> SetSpanKind kInternal r))"

text \<open>The attributes of a link, a \<open>std::map\<close>.\<close>

definition ref_attributes :: "sky_ref \<Rightarrow> (string \<times> 'd attr_value) list" where
  "ref_attributes ref =
     fold (\<lambda>(k, v). smap_put k v)
       [(AttributeParentService, Att_View (ref_parent_service ref)),
        (AttributeParentInstance, Att_View (ref_parent_instance ref)),
        (AttributeParentEndpoint, Att_View (ref_parent_endpoint ref)),
        (AttributeNetworkAddressUsedAtPeer, Att_View (ref_network_address ref)),
        (AttributeRefType, Att_Int32 (ref_type ref)),
        (AttributeSkywalkingTraceID, Att_View (ref_trace_id ref)),
        (AttributeSkywalkingParentSegmentID, Att_View (ref_parent_segment ref)),
        (AttributeSkywalkingParentSpanID, Att_Int32 (ref_parent_span ref))] []"

text \<open>The constructors \<open>TraceId\<close> and \<open>SpanId\<close> copy what the span refers to.\<close>

definition swReferenceToSpanLink :: "sky_env \<Rightarrow> sky_ref \<Rightarrow> 'd otlp_recordable \<Rightarrow> 'd otlp_recordable result" where
  "swReferenceToSpanLink P ref r =
     bind_r (bind_r (swTraceIdToTraceId (uuid_parse P) (ref_trace_id ref) (replicate 16 0)) read_span) (\<lambda>traceId.
     bind_r (segmentIDToSpanID (ref_parent_segment ref) (ref_parent_span ref) (replicate 8 0)) (\<lambda>spanId.
     Inr (AddLink \<lparr>ctx_trace_id = traceId, ctx_span_id = spanId, ctx_trace_state = []\<rparr> (ref_attributes ref) r)))"

definition swReferencesToSpanLinks :: "sky_env \<Rightarrow> sky_span \<Rightarrow> 'd otlp_recordable \<Rightarrow> 'd otlp_recordable result" where
  "swReferencesToSpanLinks P s r =
     (if sw_refs s = [] then Inr r else fold_r (swReferenceToSpanLink P) (sw_refs s) r)"

section \<open>process\<close>

definition resource_attributes ::
  "sky_env \<Rightarrow> (string \<Rightarrow> string option) \<Rightarrow> segment \<Rightarrow> (string \<times> 'd owned_value) list" where
  "resource_attributes P meta object =
     (let a0 = fold (swTagsToInternalResource P) (seg_spans object) [];
          a1 = AList.update AttributeServiceName (Own_String (seg_service object)) a0;
          a2 = AList.update AttributeServiceInstanceID (Own_String (seg_instance object)) a1;
          a3 = AList.update AttributeSkywalkingTraceID (Own_String (seg_trace_id object)) a2
      in case meta ''authentication'' of
           None \<Rightarrow> a3
         | Some authentication \<Rightarrow> AList.update ''token'' (Own_String authentication) a3)"

text \<open>The parent: of the same segment, of the only reference, or none.\<close>

definition parent_id :: "segment \<Rightarrow> sky_span \<Rightarrow> bytes result" where
  "parent_id object s =
     (if sw_parent_span_id s \<noteq> - 1
      then segmentIDToSpanID (seg_segment_id object) (sw_parent_span_id s) (replicate 8 0)
      else if length (sw_refs s) = 1
      then segmentIDToSpanID (ref_parent_segment (hd (sw_refs s))) (ref_parent_span (hd (sw_refs s))) (replicate 8 0)
      else Inr (replicate 8 0))"

text \<open>The attributes in the order of the \<open>SetAttribute\<close> calls.\<close>

definition span_attributes :: "string \<Rightarrow> segment \<Rightarrow> sky_span \<Rightarrow> (string \<times> 'd attr_value) list" where
  "span_attributes authentication object s =
     map (\<lambda>(k, v). (k, Att_View v)) (sw_tags s) @
     [(AttributeSkywalkingSegmentID, Att_View (seg_segment_id object)),
      (AttributeSkywalkingSpanID, Att_Int32 (sw_span_id s)),
      (AttributeSkywalkingParentSpanID, Att_Int32 (sw_parent_span_id s)),
      (AttributePeer, Att_View (sw_peer s)),
      (AttributeComponentId, Att_Int32 (sw_component s)),
      (AttributeLayer, Att_Int32 (sw_layer s))] @
     (if authentication \<noteq> [] then [(''token'', Att_View authentication)] else [])"

definition millis_to_nanos :: "64 word \<Rightarrow> 64 word" where
  "millis_to_nanos ms = ms * 1000000"

definition process_span ::
  "sky_env \<Rightarrow> string \<Rightarrow> segment \<Rightarrow> bytes \<Rightarrow> (string \<times> 'd owned_value) list \<Rightarrow> sky_span \<Rightarrow> 'd otlp_recordable result" where
  "process_span P authentication object traceId rs s =
     bind_r (segmentIDToSpanID (seg_segment_id object) (sw_span_id s) (replicate 8 0)) (\<lambda>spanId.
     bind_r (parent_id object s) (\<lambda>parent.
     let r1 = SetIdentity \<lparr>ctx_trace_id = traceId, ctx_span_id = spanId, ctx_trace_state = []\<rparr> parent recordable_new;
         r2 = SetInstrumentationScope default_scope (SetName (sw_operation s) r1);
         r3 = SetDuration (millis_to_nanos (sw_end s - sw_start s)) (SetStartTime (millis_to_nanos (sw_start s)) r2);
         r4 = SetResource rs r3;
         r5 = fold (\<lambda>(k, v). SetAttribute k v) (span_attributes authentication object s) r4;
         r6 = swSpanKindToSpanKind P s (swLogsToSpanEvents P s (setInternalSpanStatus s r5))
     in if sw_refs s \<noteq> [] then swReferencesToSpanLinks P s r6
        else Inr (AddLink \<lparr>ctx_trace_id = traceId, ctx_span_id = parent, ctx_trace_state = []\<rparr>
                    [(AttributeRefType, Att_Int32 0)] r6)))"

text \<open>An event without data or spans, or with an invalid trace id, yields nothing.\<close>

definition process ::
  "sky_env \<Rightarrow> (string \<Rightarrow> string option) \<Rightarrow> segment option \<Rightarrow> 'd otlp_recordable list result" where
  "process P meta event =
     (case event of
        None \<Rightarrow> Inr []
      | Some object \<Rightarrow>
          if seg_spans object = [] then Inr []
          else
            bind_r (swTraceIdToTraceId (uuid_parse P) (seg_trace_id object) (replicate 16 0)) (\<lambda>tmp.
            if tmp = Null_Span then Inr []
            else
              bind_r (read_span tmp) (\<lambda>traceId.
              let authentication = (case meta ''authentication'' of None \<Rightarrow> [] | Some a \<Rightarrow> a);
                  rs = resource_attributes P meta object
              in map_r (process_span P authentication object traceId rs) (seg_spans object))))"

text \<open>\<open>intercept\<close> replaces the batch by the recordables of all its events.\<close>

definition sky_intercept ::
  "sky_env \<Rightarrow> ((string \<Rightarrow> string option) \<times> segment option) list \<Rightarrow> 'd otlp_recordable list result" where
  "sky_intercept P events =
     bind_r (map_r (\<lambda>(meta, event). process P meta event) events) (\<lambda>lists. Inr (concat lists))"

section \<open>What a processed span holds\<close>

definition sky_kind :: "sky_env \<Rightarrow> sky_span \<Rightarrow> span_kind" where
  "sky_kind P s =
     (case sw_type s of
        Type_Entry \<Rightarrow> if sw_layer s = mq_layer P then Kind_Consumer else Kind_Server
      | Type_Exit \<Rightarrow> if sw_layer s = mq_layer P then Kind_Producer else Kind_Client
      | _ \<Rightarrow> Kind_Internal)"

definition core ::
  "'d otlp_recordable \<Rightarrow> bytes \<times> bytes \<times> span_kind \<times> 'd attributes \<times> (string \<times> 'd owned_value) list option \<times>
     64 word \<times> 64 word \<times> status_code" where
  "core r = (trace_id (otlp r), span_id (otlp r), span_kind (otlp r), attrs (otlp r), resource_ptr r,
             start_nanos (otlp r), end_nanos (otlp r), status (otlp r))"

lemma fold_SetAttribute:
  "fold (\<lambda>(k, v). SetAttribute k v) kvs r =
     r\<lparr>otlp := (otlp r)\<lparr>attrs := attrs (otlp r) @ map (\<lambda>(k, v). PopulateAttribute k v) kvs\<rparr>\<rparr>"
  by (induction kvs arbitrary: r) (auto simp: SetAttribute_def)

lemma links_step:
  assumes "swReferenceToSpanLink P ref r = Inr r'"
  shows "core r' = core r \<and> length (links (otlp r')) = Suc (length (links (otlp r)))"
  using assms by (auto simp: swReferenceToSpanLink_def cpp_simps AddLink_def core_def)

lemma links_run:
  "fold_r (swReferenceToSpanLink P) refs r = Inr r' \<Longrightarrow>
     core r' = core r \<and> length (links (otlp r')) = length (links (otlp r)) + length refs"
proof (induction refs arbitrary: r)
  case (Cons ref refs)
  then obtain t where t: "swReferenceToSpanLink P ref r = Inr t" "fold_r (swReferenceToSpanLink P) refs t = Inr r'"
    by (auto simp: cpp_simps)
  show ?case using links_step [OF t(1)] Cons.IH [OF t(2)] by simp
qed simp

definition span_core ::
  "sky_env \<Rightarrow> string \<Rightarrow> segment \<Rightarrow> bytes \<Rightarrow> bytes \<Rightarrow> (string \<times> 'd owned_value) list \<Rightarrow> sky_span \<Rightarrow>
     bytes \<times> bytes \<times> span_kind \<times> 'd attributes \<times> (string \<times> 'd owned_value) list option \<times> 64 word \<times> 64 word \<times> status_code" where
  "span_core P au object t i rs s =
     (t, i, sky_kind P s, map (\<lambda>(k, v). PopulateAttribute k v) (span_attributes au object s), Some rs,
      millis_to_nanos (sw_start s), millis_to_nanos (sw_start s) + millis_to_nanos (sw_end s - sw_start s),
      if sw_is_error s then Status_Error else Status_Ok)"

lemma process_span_before_links:
  assumes "process_span P au object t rs s = Inr r"
  shows "\<exists>i parent r6. segmentIDToSpanID (seg_segment_id object) (sw_span_id s) (replicate 8 0) = Inr i \<and>
           core r6 = span_core P au object t i rs s \<and> links (otlp r6) = [] \<and>
           (if sw_refs s \<noteq> [] then swReferencesToSpanLinks P s r6
            else Inr (AddLink \<lparr>ctx_trace_id = t, ctx_span_id = parent, ctx_trace_state = []\<rparr>
                        [(AttributeRefType, Att_Int32 0)] r6)) = Inr r"
proof -
  obtain i parent where ip:
    "segmentIDToSpanID (seg_segment_id object) (sw_span_id s) (replicate 8 0) = Inr i"
    "parent_id object s = Inr parent"
    using assms by (auto simp: process_span_def cpp_simps)
  define r5 where "r5 = fold (\<lambda>(k, v). SetAttribute k v) (span_attributes au object s)
    (SetResource rs (SetDuration (millis_to_nanos (sw_end s - sw_start s)) (SetStartTime (millis_to_nanos (sw_start s))
      (SetInstrumentationScope default_scope (SetName (sw_operation s)
        (SetIdentity \<lparr>ctx_trace_id = t, ctx_span_id = i, ctx_trace_state = []\<rparr> parent recordable_new))))))"
  define r6 where "r6 = swSpanKindToSpanKind P s (swLogsToSpanEvents P s (setInternalSpanStatus s r5))"
  have c5: "trace_id (otlp r5) = t" "span_id (otlp r5) = i" "resource_ptr r5 = Some rs"
    "attrs (otlp r5) = map (\<lambda>(k, v). PopulateAttribute k v) (span_attributes au object s)"
    "start_nanos (otlp r5) = millis_to_nanos (sw_start s)" "links (otlp r5) = []"
    "end_nanos (otlp r5) = millis_to_nanos (sw_start s) + millis_to_nanos (sw_end s - sw_start s)"
    by (simp_all add: r5_def fold_SetAttribute recordable_defs recordable_new_def)
  have c6: "core r6 = span_core P au object t i rs s" "links (otlp r6) = []"
    using c5
    by (auto simp: r6_def core_def span_core_def setInternalSpanStatus_def swLogsToSpanEvents_def
        swSpanKindToSpanKind_def SetStatus_def AddEvent_def SetSpanKind_def sky_kind_def Let_def
        split: sky_span_type.splits)
  have "(if sw_refs s \<noteq> [] then swReferencesToSpanLinks P s r6
     else Inr (AddLink \<lparr>ctx_trace_id = t, ctx_span_id = parent, ctx_trace_state = []\<rparr> [(AttributeRefType, Att_Int32 0)] r6)) = Inr r"
    using assms by (simp only: process_span_def ip bind_r_simps Let_def r5_def r6_def)
  with ip(1) c6 show ?thesis by blast
qed

lemma process_span_core:
  assumes "process_span P au object t rs s = Inr r"
  shows "\<exists>i. segmentIDToSpanID (seg_segment_id object) (sw_span_id s) (replicate 8 0) = Inr i \<and>
             core r = span_core P au object t i rs s \<and>
             length (links (otlp r)) = (if sw_refs s = [] then 1 else length (sw_refs s))"
proof -
  obtain i parent r6 where r6:
    "segmentIDToSpanID (seg_segment_id object) (sw_span_id s) (replicate 8 0) = Inr i"
    "core r6 = span_core P au object t i rs s" "links (otlp r6) = []"
    "(if sw_refs s \<noteq> [] then swReferencesToSpanLinks P s r6
      else Inr (AddLink \<lparr>ctx_trace_id = t, ctx_span_id = parent, ctx_trace_state = []\<rparr> [(AttributeRefType, Att_Int32 0)] r6)) = Inr r"
    using process_span_before_links [OF assms] by blast
  show ?thesis
    using r6 links_run [of P "sw_refs s" r6 r]
    by (auto simp: swReferencesToSpanLinks_def AddLink_def core_def split: if_splits)
qed

text \<open>The stand-in link carries the reference type and nothing of a parent.\<close>

lemma process_span_stand_in:
  assumes "process_span P au object t rs s = Inr r" "sw_refs s = []"
  shows "links (otlp r) = [[(AttributeRefType, AV_Int 0)]]"
  using process_span_before_links [OF assms(1)] assms(2) by (auto simp: AddLink_def PopulateAttribute_def)

section \<open>Segments that can be processed\<close>

definition ref_ok :: "sky_env \<Rightarrow> sky_ref \<Rightarrow> bool" where
  "ref_ok P ref \<longleftrightarrow>
     segment_id_ok (ref_parent_segment ref) \<and>
     (\<exists>t. swTraceIdToTraceId (uuid_parse P) (ref_trace_id ref) (replicate 16 0) = Inr (Caller_Span t))"

definition segment_ok :: "sky_env \<Rightarrow> segment \<Rightarrow> bool" where
  "segment_ok P object \<longleftrightarrow>
     segment_id_ok (seg_segment_id object) \<and>
     (\<exists>t. swTraceIdToTraceId (uuid_parse P) (seg_trace_id object) (replicate 16 0) = Inr (Caller_Span t)) \<and>
     (\<forall>s\<in>set (seg_spans object). \<forall>ref\<in>set (sw_refs s). ref_ok P ref)"

lemma links_total:
  "\<forall>ref\<in>set refs. ref_ok P ref \<Longrightarrow> \<exists>r'. fold_r (swReferenceToSpanLink P) refs r = Inr r'"
proof (induction refs arbitrary: r)
  case (Cons ref refs)
  obtain t where "swTraceIdToTraceId (uuid_parse P) (ref_trace_id ref) (replicate 16 0) = Inr (Caller_Span t)"
    using Cons.prems by (auto simp: ref_ok_def)
  moreover obtain i where "segmentIDToSpanID (ref_parent_segment ref) (ref_parent_span ref) (replicate 8 0) = Inr i"
    using segment_total [of "ref_parent_segment ref"] Cons.prems by (auto simp: ref_ok_def)
  ultimately obtain r1 where "swReferenceToSpanLink P ref r = Inr r1"
    by (simp add: swReferenceToSpanLink_def read_span_def)
  then show ?case using Cons by simp
qed simp

lemma process_span_total:
  fixes rs :: "(string \<times> 'd owned_value) list"
  assumes "segment_ok P object" "s \<in> set (seg_spans object)"
  shows "\<exists>r. process_span P au object t rs s = Inr r"
proof -
  have sid: "segment_id_ok (seg_segment_id object)" and refs: "\<forall>ref\<in>set (sw_refs s). ref_ok P ref"
    using assms by (auto simp: segment_ok_def)
  obtain i where i: "segmentIDToSpanID (seg_segment_id object) (sw_span_id s) (replicate 8 0) = Inr i"
    using segment_total [OF sid] by blast
  have "\<exists>p. parent_id object s = Inr p"
  proof -
    have "\<exists>p. segmentIDToSpanID (ref_parent_segment (hd (sw_refs s))) x (replicate 8 0) = Inr p"
      if "length (sw_refs s) = 1" for x
    proof -
      have "hd (sw_refs s) \<in> set (sw_refs s)" using that by (cases "sw_refs s") auto
      then show ?thesis
        using segment_total refs by (auto simp: ref_ok_def)
    qed
    moreover have "\<exists>p. segmentIDToSpanID (seg_segment_id object) x (replicate 8 0) = Inr p" for x
      using segment_total [OF sid] by blast
    ultimately show ?thesis by (simp add: parent_id_def)
  qed
  then obtain p where p: "parent_id object s = Inr p" by blast
  have "\<exists>r'. fold_r (swReferenceToSpanLink P) (sw_refs s) r = Inr r'" for r :: "'d otlp_recordable"
    by (rule links_total [OF refs])
  then show ?thesis by (simp add: process_span_def i p Let_def swReferencesToSpanLinks_def)
qed

lemma process_result:
  assumes "segment_ok P object" "seg_spans object \<noteq> []"
  shows "\<exists>t rs au (recs :: 'd otlp_recordable list). process P meta (Some object) = Inr recs \<and>
           list_all2 (\<lambda>s r. process_span P au object t rs s = Inr r) (seg_spans object) recs"
proof -
  obtain t where t: "swTraceIdToTraceId (uuid_parse P) (seg_trace_id object) (replicate 16 0) = Inr (Caller_Span t)"
    using assms(1) by (auto simp: segment_ok_def)
  define au where "au = (case meta ''authentication'' of None \<Rightarrow> [] | Some a \<Rightarrow> a)"
  define rs :: "(string \<times> 'd owned_value) list" where "rs = resource_attributes P meta object"
  obtain recs where recs: "map_r (process_span P au object t rs) (seg_spans object) = Inr recs"
    using map_r_total [of "seg_spans object" "process_span P au object t rs"] process_span_total [OF assms(1)] by blast
  then have "process P meta (Some object) = Inr recs"
    using t assms(2) by (simp add: process_def read_span_def Let_def au_def rs_def)
  then show ?thesis using recs unfolding map_r_Inr_iff by blast
qed

lemma process_cores:
  assumes "segment_ok P object" "seg_spans object \<noteq> []"
  shows "\<exists>t rs au (recs :: 'd otlp_recordable list). process P meta (Some object) = Inr recs \<and>
           list_all2 (\<lambda>s r. \<exists>i. segmentIDToSpanID (seg_segment_id object) (sw_span_id s) (replicate 8 0) = Inr i \<and>
                              core r = span_core P au object t i rs s \<and>
                              length (links (otlp r)) = (if sw_refs s = [] then 1 else length (sw_refs s)))
             (seg_spans object) recs"
proof -
  obtain t rs au and recs :: "'d otlp_recordable list" where r: "process P meta (Some object) = Inr recs"
    "list_all2 (\<lambda>s r. process_span P au object t rs s = Inr r) (seg_spans object) recs"
    using process_result [OF assms] by blast
  show ?thesis
    by (intro exI conjI, rule r(1), rule list_all2_mono [OF r(2)], rule process_span_core)
qed

lemma span_core_simps:
  assumes "core r = span_core P au object t i rs s"
  shows "trace_id (otlp r) = t" "span_id (otlp r) = i" "span_kind (otlp r) = sky_kind P s"
    "attrs (otlp r) = map (\<lambda>(k, v). PopulateAttribute k v) (span_attributes au object s)"
    "resource_ptr r = Some rs" "start_nanos (otlp r) = millis_to_nanos (sw_start s)"
    "end_nanos (otlp r) = millis_to_nanos (sw_start s) + millis_to_nanos (sw_end s - sw_start s)"
    "status (otlp r) = (if sw_is_error s then Status_Error else Status_Ok)"
  using assms by (simp_all add: core_def span_core_def)

section \<open>Properties\<close>


definition sample_sky_env :: sky_env where
  "sample_sky_env =
     \<lparr>uuid_parse = (\<lambda>_. None), mq_layer = 4, kUrlFull = ''url.full'', kHttpResponseStatusCode = ''http.response.status_code'',
      kDbSystem = ''db.system'', kDbName = ''db.name'', kServerAddress = ''server.address'', now = 0\<rparr>"

definition sample_sky_ref :: sky_ref where
  "sample_sky_ref =
     \<lparr>ref_type = 0, ref_trace_id = sample_segment, ref_parent_segment = sample_segment, ref_parent_span = 1,
      ref_parent_service = ''gateway'', ref_parent_instance = ''gw@10.0.0.1'', ref_parent_endpoint = ''/'',
      ref_network_address = ''10.0.0.2:80''\<rparr>"

definition sample_sky_span :: "32 word \<Rightarrow> sky_span_type \<Rightarrow> sky_ref list \<Rightarrow> sky_span" where
  "sample_sky_span i ty refs =
     \<lparr>sw_span_id = i, sw_parent_span_id = - 1, sw_start = 1000, sw_end = 1020, sw_refs = refs, sw_operation = ''/cart'',
      sw_peer = ''10.0.0.3:3306'', sw_type = ty, sw_layer = 3, sw_component = 1, sw_is_error = False,
      sw_tags = [(''url'', ''/cart'')], sw_logs = []\<rparr>"

definition sample_sky_segment :: "sky_span list \<Rightarrow> segment" where
  "sample_sky_segment ss =
     \<lparr>seg_trace_id = sample_segment, seg_segment_id = sample_segment, seg_service = ''web'', seg_instance = ''web@10.0.0.2'',
      seg_spans = ss\<rparr>"

lemma sample_trace_decodes:
  "\<exists>t. swTraceIdToTraceId (\<lambda>_. None) sample_segment (replicate 16 0) = Inr (Caller_Span t)"
proof -
  obtain u where u: "hex_decode ''56a5e1c519ae4c76a2b8b11d92cead7f'' (replicate 16 0) = Inr u"
    using hex_decode_32 [of "''56a5e1c519ae4c76a2b8b11d92cead7f''" "replicate 16 0"] by auto
  have int: "isUint128 sample_segment = (0, False)"
    by (rule isUint128_nondigit [of "CHR ''.''"]) (simp_all add: sample_segment_def is_digit_def)
  have "\<exists>w. swStringToUUID sample_segment 0 (replicate 16 0) = Inr (True, w)"
    unfolding sample_segment_eq
    by (rule exI, rule swStringToUUID_java [OF _ _ _ _ _ u]) simp_all
  then show ?thesis by (auto simp: swTraceIdToTraceId_def int)
qed

lemma sample_segment_ok:
  assumes "\<forall>s\<in>set ss. \<forall>ref\<in>set (sw_refs s). ref = sample_sky_ref"
  shows "segment_ok sample_sky_env (sample_sky_segment ss)"
proof -
  have seg: "segment_id_ok sample_segment"
    unfolding sample_segment_eq by (rule java_id_decodes) simp_all
  then have "ref_ok sample_sky_env sample_sky_ref"
    using sample_trace_decodes by (simp add: ref_ok_def sample_sky_ref_def sample_sky_env_def)
  then show ?thesis
    using assms seg sample_trace_decodes
    by (auto simp: segment_ok_def sample_sky_segment_def sample_sky_env_def)
qed


text \<open>Spans of one segment with different span ids get different OpenTelemetry span ids.\<close>

lemma segment_span_ids_distinct:
  assumes "segment_ok P object" "distinct (map sw_span_id (seg_spans object))"
    and "process P meta (Some object) = Inr (recs :: 'd otlp_recordable list)"
  shows "distinct (map (\<lambda>r. span_id (otlp r)) recs)"
proof (cases "seg_spans object = []")
  case True
  then show ?thesis using assms(3) by (simp add: process_def)
next
  case False
  have sid: "segment_id_ok (seg_segment_id object)" using assms(1) by (simp add: segment_ok_def)
  obtain t rs au and recs' :: "'d otlp_recordable list" where c: "process P meta (Some object) = Inr recs'"
    "list_all2 (\<lambda>s r. \<exists>i. segmentIDToSpanID (seg_segment_id object) (sw_span_id s) (replicate 8 0) = Inr i \<and>
        core r = span_core P au object t i rs s \<and>
        length (links (otlp r)) = (if sw_refs s = [] then 1 else length (sw_refs s))) (seg_spans object) recs'"
    using process_cores [OF assms(1) False] by blast
  have "list_all2 (\<lambda>s r. segmentIDToSpanID (seg_segment_id object) (sw_span_id s) (replicate 8 0) = Inr (span_id (otlp r)))
      (seg_spans object) recs'"
    by (rule list_all2_mono [OF c(2)]) (auto dest: span_core_simps(2))
  moreover have "recs' = recs" using c(1) assms(3) by simp
  ultimately have "list_all2 (\<lambda>s r. segmentIDToSpanID (seg_segment_id object) (sw_span_id s) (replicate 8 0) = Inr (span_id (otlp r)))
      (seg_spans object) recs" by simp
  then have "map (\<lambda>r. Inr (span_id (otlp r))) recs =
      map (\<lambda>e. segmentIDToSpanID (seg_segment_id object) e (replicate 8 0)) (map sw_span_id (seg_spans object))"
    by (induction rule: list_all2_induct) simp_all
  moreover have "distinct \<dots>"
    using assms(2) segmentIDToSpanID_inj [OF sid, of "replicate 8 0"]
    by (subst distinct_map) (auto intro!: inj_onI)
  ultimately have "distinct (map (Inr :: bytes \<Rightarrow> bytes result) (map (\<lambda>r. span_id (otlp r)) recs))"
    by (simp add: comp_def)
  then show ?thesis by (simp only: distinct_map)
qed

lemma segment_span_ids_distinct_witness:
  "\<exists>recs :: unit otlp_recordable list.
     process sample_sky_env Map.empty (Some (sample_sky_segment [sample_sky_span 0 Type_Entry [], sample_sky_span 1 Type_Exit []])) =
       Inr recs \<and> distinct (map (\<lambda>r. span_id (otlp r)) recs)"
proof -
  let ?o = "sample_sky_segment [sample_sky_span 0 Type_Entry [], sample_sky_span 1 Type_Exit []]"
  have ok: "segment_ok sample_sky_env ?o" by (rule sample_segment_ok) (simp add: sample_sky_span_def)
  have ids: "distinct (map sw_span_id (seg_spans ?o))" and ne: "seg_spans ?o \<noteq> []"
    by (simp_all add: sample_sky_segment_def sample_sky_span_def)
  obtain recs :: "unit otlp_recordable list" where r: "process sample_sky_env Map.empty (Some ?o) = Inr recs"
    using process_result [OF ok ne] by blast
  show ?thesis using r segment_span_ids_distinct [OF ok ids r] by blast
qed

end
