(* ===== verification/Sky_Ownership.thy ===== *)
theory Sky_Ownership
  imports Sky_Processor "HOL-Library.Multiset"
begin

text \<open>
  Who owns the resource of a segment: \<open>Processor::process\<close> of
  app/source/intercept/opentelemetry/trace/skywlking/processor.cc allocates one resource for all spans of a
  segment and gives each recordable the pointer, but only the first the duty to delete it
  (app/include/intercept/opentelemetry/trace/skywalking/skyrecordable.h). The sink's
  \<open>OtlpRecordableUtils::PopulateRequest\<close> reads the resources and then drops its recordables, in an order that
  hash tables decide. Here the pointers are addresses in a heap of live resources; a read or a delete of an
  address that is not live is a fault.
\<close>

section \<open>Recordables with their pointer\<close>

type_synonym 'd resource_contents = "(string \<times> 'd owned_value) list"

record 'd sky_recordable =
  own_recordable :: "'d otlp_recordable"
  isFreeResource :: bool
  own_resource :: "nat option"

record 'd resource_heap =
  live_resources :: "(nat \<times> 'd resource_contents) list"
  next_resource :: nat

definition SkyRecordable_new :: "'d otlp_recordable \<Rightarrow> 'd sky_recordable" where
  "SkyRecordable_new r = \<lparr>own_recordable = r, isFreeResource = False, own_resource = None\<rparr>"

definition flagFree :: "'d sky_recordable \<Rightarrow> 'd sky_recordable" where
  "flagFree r = r\<lparr>isFreeResource := True\<rparr>"

definition Sky_SetResource :: "nat \<Rightarrow> 'd sky_recordable \<Rightarrow> 'd sky_recordable" where
  "Sky_SetResource a r = r\<lparr>own_resource := Some a\<rparr>"

definition Sky_GetResource :: "'d resource_heap \<Rightarrow> 'd sky_recordable \<Rightarrow> ('d resource_contents option) result" where
  "Sky_GetResource h r =
     (case own_resource r of
        None \<Rightarrow> Inr None
      | Some a \<Rightarrow> (case map_of (live_resources h) a of None \<Rightarrow> Inl Dangling_Deref | Some c \<Rightarrow> Inr (Some c)))"

definition SkyRecordable_delete :: "'d sky_recordable \<Rightarrow> 'd resource_heap \<Rightarrow> 'd resource_heap result" where
  "SkyRecordable_delete r h =
     (if isFreeResource r
      then (case own_resource r of
              None \<Rightarrow> Inr h
            | Some a \<Rightarrow>
                if a \<in> fst ` set (live_resources h)
                then Inr (h\<lparr>live_resources := filter (\<lambda>p. fst p \<noteq> a) (live_resources h)\<rparr>)
                else Inl Dangling_Deref)
      else Inr h)"

section \<open>A segment and a batch\<close>

text \<open>The loop over the spans, with \<open>count\<close>: only the first is flagged.\<close>

fun own_spans :: "nat \<Rightarrow> nat \<Rightarrow> 'd otlp_recordable list \<Rightarrow> 'd sky_recordable list" where
  "own_spans a n [] = []"
| "own_spans a n (r # rs) =
     Sky_SetResource a (if n = 0 then flagFree (SkyRecordable_new r) else SkyRecordable_new r) # own_spans a (Suc n) rs"

text \<open>Where \<open>process\<close> returns early it has made no recordable and no resource.\<close>

definition own_process ::
  "sky_env \<Rightarrow> (string \<Rightarrow> string option) \<Rightarrow> segment option \<Rightarrow> 'd resource_heap \<Rightarrow> ('d sky_recordable list \<times> 'd resource_heap) result" where
  "own_process P meta event h =
     bind_r (process P meta event) (\<lambda>recs.
     Inr (case event of
            None \<Rightarrow> ([], h)
          | Some object \<Rightarrow>
              if recs = [] then ([], h)
              else (own_spans (next_resource h) 0 recs,
                    h\<lparr>live_resources := (next_resource h, resource_attributes P meta object) # live_resources h,
                      next_resource := Suc (next_resource h)\<rparr>)))"

definition own_intercept ::
  "sky_env \<Rightarrow> ((string \<Rightarrow> string option) \<times> segment option) list \<Rightarrow> 'd resource_heap \<Rightarrow> ('d sky_recordable list \<times> 'd resource_heap) result" where
  "own_intercept P events h =
     fold_r (\<lambda>(meta, event) (rs, h). bind_r (own_process P meta event h) (\<lambda>(rs', h'). Inr (rs @ rs', h'))) events ([], h)"

text \<open>\<open>PopulateRequest\<close>: the resources are read while every recordable is held by the index, which is then
  dropped in the order \<open>ds\<close>.\<close>

definition own_populate ::
  "'d sky_recordable list \<Rightarrow> 'd sky_recordable list \<Rightarrow> 'd resource_heap \<Rightarrow> ('d resource_contents option list \<times> 'd resource_heap) result" where
  "own_populate rs ds h =
     bind_r (map_r (Sky_GetResource h) rs) (\<lambda>cs. bind_r (fold_r SkyRecordable_delete ds h) (\<lambda>h'. Inr (cs, h')))"

section \<open>Lemmas\<close>

definition heap_ok :: "'d resource_heap \<Rightarrow> bool" where
  "heap_ok h \<longleftrightarrow> distinct (map fst (live_resources h)) \<and> (\<forall>a\<in>fst ` set (live_resources h). a < next_resource h)"

text \<open>The addresses that deleting the recordables frees, in order.\<close>

definition owned :: "'d sky_recordable list \<Rightarrow> nat list" where
  "owned rs = map (the \<circ> own_resource) (filter (\<lambda>r. isFreeResource r \<and> own_resource r \<noteq> None) rs)"

lemma owned_simps [simp]: "owned [] = []" "owned (rs @ ss) = owned rs @ owned ss"
  by (simp_all add: owned_def)

lemma owned_Cons:
  "owned (r # rs) = (if isFreeResource r \<and> own_resource r \<noteq> None then the (own_resource r) # owned rs else owned rs)"
  by (simp add: owned_def)

lemma delete_all:
  "distinct (owned ds) \<Longrightarrow> set (owned ds) \<subseteq> fst ` set (live_resources h) \<Longrightarrow>
     fold_r SkyRecordable_delete ds h =
       Inr (h\<lparr>live_resources := filter (\<lambda>p. fst p \<notin> set (owned ds)) (live_resources h)\<rparr>)"
proof (induction ds arbitrary: h)
  case (Cons r ds)
  show ?case
  proof (cases "isFreeResource r \<and> own_resource r \<noteq> None")
    case True
    then obtain a where a: "own_resource r = Some a" "isFreeResource r" by auto
    let ?h = "h\<lparr>live_resources := filter (\<lambda>p. fst p \<noteq> a) (live_resources h)\<rparr>"
    have "a \<in> fst ` set (live_resources h)" "a \<notin> set (owned ds)" "distinct (owned ds)"
      using Cons.prems a by (auto simp: owned_Cons)
    moreover have "set (owned ds) \<subseteq> fst ` set (live_resources ?h)"
      using Cons.prems(2) \<open>a \<notin> set (owned ds)\<close> a by (force simp: owned_Cons)
    ultimately show ?thesis
      using Cons.IH [of ?h] a by (simp add: SkyRecordable_delete_def owned_Cons conj_commute cong: conj_cong)
  next
    case False
    then have "SkyRecordable_delete r h = Inr h" "owned (r # ds) = owned ds"
      by (auto simp: SkyRecordable_delete_def owned_def split: option.splits)
    then show ?thesis using Cons by simp
  qed
qed simp

lemma own_spans_facts:
  "map own_recordable (own_spans a n rs) = rs" "\<forall>r\<in>set (own_spans a n rs). own_resource r = Some a"
  "owned (own_spans a (Suc n) rs) = []" "owned (own_spans a 0 rs) = (if rs = [] then [] else [a])"
proof -
  show "map own_recordable (own_spans a n rs) = rs"
    by (induction rs arbitrary: n) (simp_all add: Sky_SetResource_def flagFree_def SkyRecordable_new_def)
  show "\<forall>r\<in>set (own_spans a n rs). own_resource r = Some a"
    by (induction rs arbitrary: n) (simp_all add: Sky_SetResource_def)
  have later: "owned (own_spans a (Suc n) rs) = []" for n and rs :: "'a otlp_recordable list"
    by (induction rs arbitrary: n) (simp_all add: owned_Cons Sky_SetResource_def SkyRecordable_new_def)
  then show "owned (own_spans a (Suc n) rs) = []" .
  show "owned (own_spans a 0 rs) = (if rs = [] then [] else [a])"
    using later [of 0] by (cases rs) (simp_all add: owned_Cons Sky_SetResource_def flagFree_def SkyRecordable_new_def)
qed

lemma process_resource:
  assumes "process P meta (Some object) = Inr recs" "r \<in> set recs"
  shows "resource_ptr r = Some (resource_attributes P meta object)"
proof -
  have "core x = span_core P au object t i rs s \<Longrightarrow> resource_ptr x = Some rs" for x :: "'a otlp_recordable" and au t i rs s
    by (simp add: core_def span_core_def)
  then have "process_span P au object t rs s = Inr x \<Longrightarrow> resource_ptr x = Some rs" for x :: "'a otlp_recordable" and au t rs s
    using process_span_core by blast
  note span = this
  obtain au t where "map_r (process_span P au object t (resource_attributes P meta object)) (seg_spans object) = Inr recs"
    using assms by (auto simp: process_def Let_def cpp_simps split: if_splits)
  then show ?thesis
    using assms(2) span by (auto simp: map_r_Inr_iff list_all2_conv_all_nth in_set_conv_nth)
qed

text \<open>After a batch: the new resources are in front of the old ones, each owned by exactly one recordable, and
  every recordable points to a live copy of its own resource.\<close>

definition batch_owned :: "'d resource_heap \<Rightarrow> 'd sky_recordable list \<Rightarrow> 'd resource_heap \<Rightarrow> bool" where
  "batch_owned h0 rs h \<longleftrightarrow>
     heap_ok h \<and> distinct (owned rs) \<and>
     (\<exists>new. live_resources h = new @ live_resources h0 \<and> set (owned rs) = fst ` set new) \<and>
     (\<forall>r\<in>set rs. \<exists>a c. own_resource r = Some a \<and> map_of (live_resources h) a = Some c \<and>
        resource_ptr (own_recordable r) = Some c)"

lemma own_process_step:
  assumes "batch_owned h0 rs h" "process P meta event = Inr recs"
  shows "\<exists>rs' h'. own_process P meta event h = Inr (rs', h') \<and> map own_recordable rs' = recs \<and> batch_owned h0 (rs @ rs') h'"
proof (cases "event = None \<or> recs = []")
  case True
  then have "own_process P meta event h = Inr ([], h)" "recs = []"
    using assms(2) by (auto simp: own_process_def process_def split: option.splits)
  then show ?thesis using assms(1) by simp
next
  case False
  then obtain object where ev: "event = Some object" and recs: "recs \<noteq> []" by auto
  let ?a = "next_resource h" and ?c = "resource_attributes P meta object"
  let ?rs = "own_spans ?a 0 recs"
  let ?h = "h\<lparr>live_resources := (?a, ?c) # live_resources h, next_resource := Suc ?a\<rparr>"
  have run: "own_process P meta event h = Inr (?rs, ?h)" using ev recs assms(2) by (simp add: own_process_def)
  obtain new where new: "live_resources h = new @ live_resources h0" "set (owned rs) = fst ` set new"
    and ok: "heap_ok h" "distinct (owned rs)"
    and old: "\<forall>r\<in>set rs. \<exists>a c. own_resource r = Some a \<and> map_of (live_resources h) a = Some c \<and> resource_ptr (own_recordable r) = Some c"
    using assms(1) by (auto simp: batch_owned_def)
  have fresh: "?a \<notin> fst ` set (live_resources h)" using ok(1) by (auto simp: heap_ok_def)
  have "heap_ok ?h" using ok(1) fresh by (auto simp: heap_ok_def less_Suc_eq)
  moreover have "distinct (owned (rs @ ?rs))"
    using ok(2) fresh new recs by (auto simp: own_spans_facts)
  moreover have "live_resources ?h = ((?a, ?c) # new) @ live_resources h0 \<and> set (owned (rs @ ?rs)) = fst ` set ((?a, ?c) # new)"
    using new recs by (auto simp: own_spans_facts)
  moreover have "\<exists>a c. own_resource r = Some a \<and> map_of (live_resources ?h) a = Some c \<and> resource_ptr (own_recordable r) = Some c"
    if "r \<in> set (rs @ ?rs)" for r
  proof (cases "r \<in> set rs")
    case True
    then obtain a c where "own_resource r = Some a" "map_of (live_resources h) a = Some c" "resource_ptr (own_recordable r) = Some c"
      using old by blast
    moreover then have "a \<noteq> ?a" using fresh by (metis map_of_SomeD fst_conv image_eqI)
    ultimately show ?thesis by auto
  next
    case False
    then have "r \<in> set ?rs" using that by simp
    moreover have "own_recordable r \<in> set (map own_recordable ?rs)" using calculation by simp
    ultimately have "own_resource r = Some ?a" "own_recordable r \<in> set recs"
      using own_spans_facts(1,2) [of ?a 0 recs] by auto
    then show ?thesis using process_resource assms(2) ev by auto
  qed
  ultimately have "batch_owned h0 (rs @ ?rs) ?h" unfolding batch_owned_def by blast
  then show ?thesis using run own_spans_facts(1) by blast
qed

lemma own_intercept_from:
  assumes "batch_owned h0 rs h" "map_r (\<lambda>(meta, event). process P meta event) events = Inr rss"
  shows "\<exists>rs' h'. fold_r (\<lambda>(meta, event) (rs, h). bind_r (own_process P meta event h) (\<lambda>(rs', h'). Inr (rs @ rs', h'))) events (rs, h) =
      Inr (rs @ rs', h') \<and> map own_recordable rs' = concat rss \<and> batch_owned h0 (rs @ rs') h'"
  using assms
proof (induction events arbitrary: rs h rss)
  case (Cons e events)
  obtain meta event where e: "e = (meta, event)" by force
  obtain recs rss' where l: "process P meta event = Inr recs" "rss = recs # rss'"
    "map_r (\<lambda>(meta, event). process P meta event) events = Inr rss'"
    using Cons.prems(2) e by (auto simp: cpp_simps)
  obtain rs1 h1 where s: "own_process P meta event h = Inr (rs1, h1)" "map own_recordable rs1 = recs" "batch_owned h0 (rs @ rs1) h1"
    using own_process_step [OF Cons.prems(1) l(1)] by blast
  obtain rs2 h2 where "fold_r (\<lambda>(meta, event) (rs, h). bind_r (own_process P meta event h) (\<lambda>(rs', h'). Inr (rs @ rs', h'))) events (rs @ rs1, h1) =
      Inr ((rs @ rs1) @ rs2, h2)" "map own_recordable rs2 = concat rss'" "batch_owned h0 ((rs @ rs1) @ rs2) h2"
    using Cons.IH [OF s(3) l(3)] by blast
  then show ?case using s l(2) e by (intro exI [of _ "rs1 @ rs2"] exI [of _ h2]) simp
qed (use assms in simp)

text \<open>Deleting the first recordable of a segment leaves the others with a stale pointer.\<close>

lemma others_dangle:
  fixes h :: "'d resource_heap" and r :: "'d otlp_recordable"
  assumes "process P meta (Some object) = Inr (r # s # rest)"
  shows "\<exists>rs h' h''. own_process P meta (Some object) h = Inr (rs, h') \<and> SkyRecordable_delete (rs ! 0) h' = Inr h'' \<and>
    Sky_GetResource h'' (rs ! 1) = Inl Dangling_Deref"
proof -
  let ?a = "next_resource h"
  let ?h = "h\<lparr>live_resources := (?a, resource_attributes P meta object) # live_resources h, next_resource := Suc ?a\<rparr>"
  let ?g = "?h\<lparr>live_resources := filter (\<lambda>p. fst p \<noteq> ?a) (live_resources h)\<rparr>"
  let ?rs = "own_spans ?a 0 (r # s # rest)"
  have "own_process P meta (Some object) h = Inr (?rs, ?h)" by (simp add: own_process_def assms)
  moreover have "SkyRecordable_delete (?rs ! 0) ?h = Inr ?g"
    by (simp add: SkyRecordable_delete_def Sky_SetResource_def flagFree_def SkyRecordable_new_def)
  moreover have "map_of (live_resources ?g) ?a = None" by (auto simp: map_of_eq_None_iff)
  then have "Sky_GetResource ?g (?rs ! 1) = Inl Dangling_Deref"
    by (simp add: Sky_GetResource_def Sky_SetResource_def SkyRecordable_new_def)
  ultimately show ?thesis by blast
qed

section \<open>Properties\<close>

text \<open>C8: the resource of a segment is deleted exactly once and never read after that. After the trace
  interceptor has worked on a batch, every recordable's pointer leads to its own segment's attributes; and
  in whatever order the sink drops the recordables once it has read them, no pointer is stale and the heap
  is again what it was before the batch.\<close>

theorem resources_freed_once:
  fixes recs :: "'d otlp_recordable list"
  assumes "heap_ok h" "sky_intercept P events = Inr recs"
  shows "\<exists>rs h'. own_intercept P events h = Inr (rs, h') \<and> map own_recordable rs = recs \<and>
    (\<forall>ds. mset ds = mset rs \<longrightarrow>
       (\<exists>h''. own_populate rs ds h' = Inr (map resource_ptr recs, h'') \<and> live_resources h'' = live_resources h))"
proof -
  obtain rss where l: "map_r (\<lambda>(meta, event). process P meta event) events = Inr rss" "recs = concat rss"
    using assms(2) by (auto simp: sky_intercept_def cpp_simps)
  have "batch_owned h [] h" using assms(1) by (simp add: batch_owned_def)
  then obtain rs h' where rs: "own_intercept P events h = Inr (rs, h')" "map own_recordable rs = recs" "batch_owned h rs h'"
    using own_intercept_from [OF _ l(1)] l(2) by (fastforce simp: own_intercept_def)
  have "\<forall>r\<in>set rs. Sky_GetResource h' r = Inr (resource_ptr (own_recordable r))"
    using rs(3) by (fastforce simp: batch_owned_def Sky_GetResource_def)
  then have read: "map_r (Sky_GetResource h') rs = Inr (map resource_ptr recs)"
    using map_r_Inr [of rs "Sky_GetResource h'" "\<lambda>r. resource_ptr (own_recordable r)"] rs(2) by (auto simp: comp_def)
  obtain new where new: "live_resources h' = new @ live_resources h" "set (owned rs) = fst ` set new"
    and d: "distinct (owned rs)" "distinct (map fst (live_resources h'))"
    using rs(3) by (auto simp: batch_owned_def heap_ok_def)
  have "own_populate rs ds h' = Inr (map resource_ptr recs, h'\<lparr>live_resources := live_resources h\<rparr>)" if "mset ds = mset rs" for ds
  proof -
    have "mset (owned ds) = mset (owned rs)" using that by (simp add: owned_def)
    then have o: "distinct (owned ds)" "set (owned ds) = fst ` set new"
      using d(1) new(2) mset_eq_imp_distinct_iff mset_eq_setD by metis+
    have "filter (\<lambda>p. fst p \<notin> fst ` set new) new = []" by (simp add: filter_empty_conv)
    moreover have "fst ` set new \<inter> fst ` set (live_resources h) = {}" using d(2) new(1) by auto
    then have "filter (\<lambda>p. fst p \<notin> fst ` set new) (live_resources h) = live_resources h"
      by (intro filter_True) blast
    ultimately have "filter (\<lambda>p. fst p \<notin> fst ` set new) (live_resources h') = live_resources h"
      using new(1) by simp
    moreover have "set (owned ds) \<subseteq> fst ` set (live_resources h')" using o(2) new(1) by auto
    ultimately show ?thesis
      using delete_all [OF o(1), of h'] o(2) read by (simp add: own_populate_def)
  qed
  then show ?thesis using rs(1,2) by (intro exI [of _ rs] exI [of _ h']) auto
qed

theorem resources_freed_once_witness:
  "\<exists>(rs :: unit sky_recordable list) h'.
     own_intercept sample_sky_env [(Map.empty, Some (sample_sky_segment [sample_sky_span 0 Type_Entry [], sample_sky_span 1 Type_Exit []]))]
       \<lparr>live_resources = [], next_resource = 0\<rparr> = Inr (rs, h') \<and> length rs = 2 \<and>
     (\<exists>cs h''. own_populate rs (rev rs) h' = Inr (cs, h'') \<and> live_resources h'' = [])"
proof -
  let ?o = "sample_sky_segment [sample_sky_span 0 Type_Entry [], sample_sky_span 1 Type_Exit []]"
  have "segment_ok sample_sky_env ?o" by (rule sample_segment_ok) (simp add: sample_sky_span_def)
  then obtain recs :: "unit otlp_recordable list" where recs: "process sample_sky_env Map.empty (Some ?o) = Inr recs"
    "length (seg_spans ?o) = length recs"
    using process_cores [of sample_sky_env ?o Map.empty] by (force simp: sample_sky_segment_def dest: list_all2_lengthD)
  then have "length recs = 2" by (simp add: sample_sky_segment_def)
  moreover have "sky_intercept sample_sky_env [(Map.empty, Some ?o)] = Inr recs" using recs(1) by (simp add: sky_intercept_def)
  ultimately show ?thesis
    using resources_freed_once [of "\<lparr>live_resources = [], next_resource = 0\<rparr>" sample_sky_env "[(Map.empty, Some ?o)]" recs]
    by (auto simp: heap_ok_def) (metis length_map mset_rev)
qed

end
