(* ===== verification/Runner.thy ===== *)
theory Runner
  imports Cpp_Strings
begin

text \<open>
  The agent from its command line to its end: src/main.cc is outside the implementation directories, so this
  theory starts at app/source/config/trace_agent_config.cc (with nova_agent_config.h) and models
  app/source/runner.cc with the thread of app/include/common/base_thread.h and the start, wait and stop
  of app/source/source/skywalking/grpc/source.cc. The JSON parser of protobuf is an argument. The main
  thread works off a list of actions; the thread of the trace server runs beside it.
\<close>

section \<open>Configuration\<close>

record agent_config =
  cluster_name :: string
  company :: string
  node_report_addr :: "string \<times> 32 word"
  oltp_exporter_addr :: "string \<times> 32 word"
  trace_server_config :: "bool option"
  host_collect_config :: "bool option"
  http_server_config :: "(string \<times> 32 word \<times> bool) option"
  kubernetes_discovery_config :: "(bool \<times> string) option"
  log_level :: string
  log_file :: string
  is_initialized :: bool

definition address_text :: "string \<times> 32 word \<Rightarrow> string" where
  "address_text a = fst a @ '':'' @ dec_of_nat (unat (snd a))"

definition NodeReportHost :: "agent_config \<Rightarrow> string" where
  "NodeReportHost cfg = address_text (node_report_addr cfg)"

definition OLTPExporterAddress :: "agent_config \<Rightarrow> string" where
  "OLTPExporterAddress cfg = address_text (oltp_exporter_addr cfg)"

definition LogLevel :: "agent_config \<Rightarrow> string" where
  "LogLevel cfg = (if log_level cfg = [] then ''info'' else log_level cfg)"

definition LogFile :: "agent_config \<Rightarrow> string" where
  "LogFile cfg = (if log_file cfg = [] \<or> log_file cfg = ''stdout'' then [] else log_file cfg)"

text \<open>\<open>None\<close>: the file cannot be read, or is no such message.\<close>

definition ReadConfigFromFile ::
  "(string \<Rightarrow> string option) \<Rightarrow> (string \<Rightarrow> agent_config option) \<Rightarrow> string \<Rightarrow> agent_config option" where
  "ReadConfigFromFile files json path = (case files path of None \<Rightarrow> None | Some content \<Rightarrow> json content)"

definition trace_enabled :: "agent_config \<Rightarrow> bool" where
  "trace_enabled cfg \<longleftrightarrow> trace_server_config cfg = Some True"

definition host_enabled :: "agent_config \<Rightarrow> bool" where
  "host_enabled cfg \<longleftrightarrow> host_collect_config cfg = Some True"

definition http_enabled :: "agent_config \<Rightarrow> bool" where
  "http_enabled cfg \<longleftrightarrow> (case http_server_config cfg of None \<Rightarrow> False | Some (addr, port, enable) \<Rightarrow> enable)"

definition kube_enabled :: "agent_config \<Rightarrow> bool" where
  "kube_enabled cfg \<longleftrightarrow> (case kubernetes_discovery_config cfg of None \<Rightarrow> False | Some (enable, conf) \<Rightarrow> enable)"

section \<open>The program of the main thread\<close>

datatype part = Metric_Exporter | Trace_Server | Http_Server | Thread_Pool | Host_Collect | Kube_Discovery

datatype action = Add_Signal | Start part | Stop part | Spawn_Source | Join_Source | Await_Latch | Main_Loop

text \<open>\<open>init\<close> and \<open>start\<close> of a part are one action, as are \<open>stop\<close> and \<open>finish\<close>; the trace server starts
  listening in its \<open>init\<close>. \<open>run\<close> returns early for a message with a missing required field.\<close>

definition runner_program :: "agent_config \<Rightarrow> action list" where
  "runner_program cfg =
     [Add_Signal, Start Metric_Exporter] @
     (if \<not> is_initialized cfg then []
      else (if trace_enabled cfg then [Start Trace_Server, Spawn_Source] else []) @
           (if http_enabled cfg then [Start Http_Server] else []) @
           [Start Thread_Pool] @
           (if host_enabled cfg then [Start Host_Collect] else []) @
           (if kube_enabled cfg then [Start Kube_Discovery] else []) @
           [Main_Loop] @
           (if trace_enabled cfg then [Stop Trace_Server, Join_Source, Await_Latch] else []) @
           (if host_enabled cfg then [Stop Host_Collect] else []) @
           (if http_enabled cfg then [Stop Http_Server] else []) @
           (if kube_enabled cfg then [Stop Kube_Discovery] else []) @
           [Stop Metric_Exporter, Stop Thread_Pool])"

section \<open>Two threads\<close>

datatype thread_state = Not_Started | Spawned | Waiting | Ended

record agent =
  todo :: "action list"
  running :: "part list"
  source_thread :: thread_state
  latch :: nat

definition agent_new :: "agent_config \<Rightarrow> agent" where
  "agent_new cfg = \<lparr>todo = runner_program cfg, running = [], source_thread = Not_Started, latch = 1\<rparr>"

definition effect :: "action \<Rightarrow> part list \<Rightarrow> part list" where
  "effect a ps = (case a of Start p \<Rightarrow> ps @ [p] | Stop p \<Rightarrow> remove1 p ps | _ \<Rightarrow> ps)"

text \<open>\<open>BaseThread::stop\<close> joins the thread, and the latch is waited for until it is zero; the loop ends with the
  signal. The source thread waits for the server to be shut down, then counts the latch down.\<close>

inductive agent_step :: "agent \<Rightarrow> agent \<Rightarrow> bool" where
  Act: "todo s = a # rest \<Longrightarrow> a \<noteq> Spawn_Source \<Longrightarrow> (a = Join_Source \<Longrightarrow> source_thread s = Ended) \<Longrightarrow>
    (a = Await_Latch \<Longrightarrow> latch s = 0) \<Longrightarrow> agent_step s (s\<lparr>todo := rest, running := effect a (running s)\<rparr>)"
| Spawn: "todo s = Spawn_Source # rest \<Longrightarrow> agent_step s (s\<lparr>todo := rest, source_thread := Spawned\<rparr>)"
| Source_Starts: "source_thread s = Spawned \<Longrightarrow> agent_step s (s\<lparr>source_thread := Waiting\<rparr>)"
| Source_Ends: "source_thread s = Waiting \<Longrightarrow> Trace_Server \<notin> set (running s) \<Longrightarrow>
    agent_step s (s\<lparr>source_thread := Ended, latch := latch s - 1\<rparr>)"

inductive agent_run :: "agent_config \<Rightarrow> agent \<Rightarrow> bool" for cfg where
  Run_new: "agent_run cfg (agent_new cfg)"
| Run_step: "agent_run cfg s \<Longrightarrow> agent_step s s' \<Longrightarrow> agent_run cfg s'"

inductive_cases agent_stepE: "agent_step s s'"

section \<open>Invariant\<close>

fun thread_rank :: "thread_state \<Rightarrow> nat" where
  "thread_rank Not_Started = 0"
| "thread_rank Spawned = 2"
| "thread_rank Waiting = 1"
| "thread_rank Ended = 0"

text \<open>What is left to do: spawning the thread adds its two steps.\<close>

definition work :: "agent \<Rightarrow> nat" where
  "work s = 3 * length (todo s) + thread_rank (source_thread s)"

text \<open>The actions done so far tell everything but how far the thread is.\<close>

definition agent_ok :: "agent_config \<Rightarrow> agent \<Rightarrow> bool" where
  "agent_ok cfg s \<longleftrightarrow>
     (\<exists>ds. runner_program cfg = ds @ todo s \<and> running s = fold effect ds [] \<and>
        (source_thread s = Not_Started \<longleftrightarrow> Spawn_Source \<notin> set ds) \<and>
        (latch s = (if source_thread s = Ended then 0 else 1)) \<and>
        (Join_Source \<in> set ds \<longrightarrow> source_thread s = Ended))"

lemma agent_ok_new: "agent_ok cfg (agent_new cfg)"
  by (simp add: agent_ok_def agent_new_def)

text \<open>An action that occurs once splits the program where it stands.\<close>

lemma split_once: "xs = ds @ x # rest \<Longrightarrow> count_list xs x \<le> 1 \<Longrightarrow> ds = takeWhile (\<lambda>a. a \<noteq> x) xs"
proof -
  assume xs: "xs = ds @ x # rest" and "count_list xs x \<le> 1"
  then have "x \<notin> set ds" by (auto simp: count_list_0_iff)
  then have "takeWhile (\<lambda>a. a \<noteq> x) ds = ds" "\<forall>y\<in>set ds. y \<noteq> x" by (auto simp: takeWhile_eq_all_conv)
  then show ?thesis by (simp add: xs takeWhile_append2)
qed

lemma once:
  "count_list (runner_program cfg) Spawn_Source \<le> 1" "count_list (runner_program cfg) Join_Source \<le> 1"
  "count_list (runner_program cfg) Await_Latch \<le> 1"
  by (simp_all add: runner_program_def)

lemma enabled_if: "a \<in> {Spawn_Source, Join_Source, Await_Latch} \<Longrightarrow> a \<in> set (runner_program cfg) \<Longrightarrow>
    is_initialized cfg \<and> trace_enabled cfg"
  by (auto simp: runner_program_def split: if_splits)

lemma before_spawn:
  "runner_program cfg = ds @ Spawn_Source # rest \<Longrightarrow> Spawn_Source \<notin> set ds \<and> Join_Source \<notin> set ds"
proof -
  assume p: "runner_program cfg = ds @ Spawn_Source # rest"
  then have "is_initialized cfg" "trace_enabled cfg" using enabled_if [of Spawn_Source cfg] by simp_all
  then show ?thesis using split_once [OF p once(1)] by (auto simp: runner_program_def)
qed

lemma before_join:
  assumes "runner_program cfg = ds @ Join_Source # rest"
  shows "Spawn_Source \<in> set ds \<and> Trace_Server \<notin> set (fold effect ds [])"
proof -
  have "is_initialized cfg" "trace_enabled cfg" using enabled_if [of Join_Source cfg] assms by simp_all
  then show ?thesis using split_once [OF assms once(2)] by (auto simp: runner_program_def effect_def)
qed

lemma before_await: "runner_program cfg = ds @ Await_Latch # rest \<Longrightarrow> Join_Source \<in> set ds"
proof -
  assume p: "runner_program cfg = ds @ Await_Latch # rest"
  then have "is_initialized cfg" "trace_enabled cfg" using enabled_if [of Await_Latch cfg] by simp_all
  then show ?thesis using split_once [OF p once(3)] by (auto simp: runner_program_def)
qed

lemma agent_ok_step:
  assumes "agent_ok cfg s" "agent_step s s'"
  shows "agent_ok cfg s'"
proof -
  obtain ds where ds: "runner_program cfg = ds @ todo s" "running s = fold effect ds []"
    "source_thread s = Not_Started \<longleftrightarrow> Spawn_Source \<notin> set ds" "latch s = (if source_thread s = Ended then 0 else 1)"
    "Join_Source \<in> set ds \<longrightarrow> source_thread s = Ended"
    using assms(1) by (auto simp: agent_ok_def)
  from assms(2) show ?thesis
  proof (cases rule: agent_step.cases)
    case (Act a rest)
    then show ?thesis using ds unfolding agent_ok_def by (intro exI [of _ "ds @ [a]"]) auto
  next
    case (Spawn rest)
    then have "Spawn_Source \<notin> set ds" "Join_Source \<notin> set ds" using before_spawn ds(1) by simp_all
    then show ?thesis using Spawn ds unfolding agent_ok_def
      by (intro exI [of _ "ds @ [Spawn_Source]"]) (auto simp: effect_def)
  next
    case Source_Starts
    then show ?thesis using ds unfolding agent_ok_def by (intro exI [of _ ds]) auto
  next
    case Source_Ends
    then show ?thesis using ds unfolding agent_ok_def by (intro exI [of _ ds]) auto
  qed
qed

lemma agent_run_ok: "agent_run cfg s \<Longrightarrow> agent_ok cfg s"
  by (induction rule: agent_run.induct) (auto intro: agent_ok_new agent_ok_step)

lemma work_decreases: "agent_step s s' \<Longrightarrow> work s' < work s"
  by (erule agent_stepE) (auto simp: work_def)

section \<open>Properties\<close>

lemma agent_progress:
  assumes "agent_ok cfg s" "todo s \<noteq> []"
  shows "\<exists>s'. agent_step s s'"
proof -
  obtain ds where ds: "runner_program cfg = ds @ todo s" "running s = fold effect ds []"
    "source_thread s = Not_Started \<longleftrightarrow> Spawn_Source \<notin> set ds" "latch s = (if source_thread s = Ended then 0 else 1)"
    "Join_Source \<in> set ds \<longrightarrow> source_thread s = Ended"
    using assms(1) by (auto simp: agent_ok_def)
  obtain a rest where a: "todo s = a # rest" using assms(2) by (cases "todo s") auto
  consider "a = Spawn_Source" | "a = Join_Source" | "a = Await_Latch" | "a \<notin> {Spawn_Source, Join_Source, Await_Latch}" by auto
  then show ?thesis
  proof cases
    case 1
    then show ?thesis using Spawn a by blast
  next
    case 2
    then have "Spawn_Source \<in> set ds" "Trace_Server \<notin> set (running s)" using before_join ds(1,2) a by auto
    then show ?thesis using ds(3) Act [of s a rest] a 2 Source_Starts [of s] Source_Ends [of s]
      by (cases "source_thread s") auto
  next
    case 3
    then have "source_thread s = Ended" using before_await ds(1,5) a by auto
    then show ?thesis using ds(4) Act [of s a rest] a 3 by auto
  next
    case 4
    then show ?thesis using Act [of s a rest] a by auto
  qed
qed

lemma agent_finished:
  assumes "agent_ok cfg s" "todo s = []"
  shows "running s = (if is_initialized cfg then [] else [Metric_Exporter])"
    and "source_thread s = (if is_initialized cfg \<and> trace_enabled cfg then Ended else Not_Started)"
proof -
  have ds: "running s = fold effect (runner_program cfg) []"
    "source_thread s = Not_Started \<longleftrightarrow> Spawn_Source \<notin> set (runner_program cfg)"
    "Join_Source \<in> set (runner_program cfg) \<longrightarrow> source_thread s = Ended"
    using assms by (auto simp: agent_ok_def)
  show "running s = (if is_initialized cfg then [] else [Metric_Exporter])"
    by (simp add: ds(1) runner_program_def effect_def)
  show "source_thread s = (if is_initialized cfg \<and> trace_enabled cfg then Ended else Not_Started)"
    using ds(2,3) by (auto simp: runner_program_def)
qed


definition sample_agent_config :: agent_config where
  "sample_agent_config = \<lparr>cluster_name = ''k'', company = ''c'', node_report_addr = (''n'', 1), oltp_exporter_addr = (''o'', 2),
     trace_server_config = Some True, host_collect_config = Some True, http_server_config = None,
     kubernetes_discovery_config = Some (True, ''conf''), log_level = [], log_file = [], is_initialized = True\<rparr>"


end
