(* ===== verification/Machine_Id.thy ===== *)
theory Machine_Id
  imports Cpp_Strings "HOL-Library.Word"
begin

text \<open>
  The id of the machine, app/include/common/machine.h: a hash of the first line of /etc/machine-id or, without
  that file, of the processor's identification and the addresses of its interfaces, kept in a global that
  zero marks as not computed. The hash function, which is not part of the repository, is an argument, as is
  what the system answers; the first access to the registers of \<open>cpuid\<close> is one of them.
\<close>

section \<open>Environment\<close>

text \<open>An interface has its six bytes of hardware address, or no address at all.\<close>

record machine_env =
  machine_id_file :: "string option"
  cpu_info :: "32 word \<times> 32 word \<times> 32 word \<times> 32 word"
  ifaddrs :: "(8 word list) option list"
  hash_of :: "string \<Rightarrow> 64 word"

section \<open>Texts\<close>

text \<open>\<open>std::setw\<close> holds for one output, so only the first number of each group is padded.\<close>

definition cpu_text :: "32 word \<times> 32 word \<times> 32 word \<times> 32 word \<Rightarrow> string" where
  "cpu_text c =
     (let (a, b, cx, dx) = c
      in zero_padded 8 (hex_of_nat (unat b)) @ hex_of_nat (unat dx) @ hex_of_nat (unat cx) @ hex_of_nat (unat dx))"

definition mac_text :: "8 word list \<Rightarrow> string" where
  "mac_text m =
     CHR ''-'' # zero_padded 2 (hex_of_nat (unat (m ! 0))) @ hex_of_nat (unat (m ! 1)) @ '':'' @
     zero_padded 2 (hex_of_nat (unat (m ! 2))) @ hex_of_nat (unat (m ! 3)) @ '':'' @
     zero_padded 2 (hex_of_nat (unat (m ! 4))) @ hex_of_nat (unat (m ! 5))"

text \<open>Every interface of the list is read, the null addresses too.\<close>

fun mac_texts :: "(8 word list) option list \<Rightarrow> string result" where
  "mac_texts [] = Inr []"
| "mac_texts (None # is) = Inl Null_Deref"
| "mac_texts (Some m # is) =
     (if length m < 6 then Inl Out_Of_Bounds else bind_r (mac_texts is) (\<lambda>t. Inr (mac_text m @ t)))"

section \<open>The id\<close>

definition compute_id :: "machine_env \<Rightarrow> (64 word) result" where
  "compute_id E =
     (case machine_id_file E of
        Some contents \<Rightarrow> Inr (hash_of E (takeWhile (\<lambda>c. c \<noteq> CHR 0x0A) contents))
      | None \<Rightarrow> bind_r (mac_texts (ifaddrs E)) (\<lambda>t. Inr (hash_of E (cpu_text (cpu_info E) @ t))))"

text \<open>The id and the global after the call.\<close>

definition get_machine_id :: "machine_env \<Rightarrow> 64 word \<Rightarrow> (64 word \<times> 64 word) result" where
  "get_machine_id E objectId =
     (if objectId > 0 then Inr (objectId, objectId) else bind_r (compute_id E) (\<lambda>i. Inr (i, i)))"

section \<open>Lemmas\<close>

text \<open>Once an id has been computed it stays, whatever becomes of the machine, unless it is zero.\<close>

lemma machine_id_stays:
  "get_machine_id E g = Inr (i, g') \<Longrightarrow> i \<noteq> 0 \<Longrightarrow> get_machine_id F g' = Inr (i, i)"
  by (auto simp: get_machine_id_def cpp_simps word_gt_0 split: if_splits)

text \<open>An interface without an address, as a tunnel has, stops the agent on a machine without the file.\<close>

lemma tunnel_stops_the_agent:
  "machine_id_file E = None \<Longrightarrow> ifaddrs E = [Some m, None] \<Longrightarrow> length m = 6 \<Longrightarrow> get_machine_id E 0 = Inl Null_Deref"
  by (simp add: get_machine_id_def compute_id_def)

text \<open>Different registers have one text, since only the first of the four is padded.\<close>

lemma cpu_texts_collide: "cpu_text (1, 0, 0x111, 1) = cpu_text (1, 0, 1, 0x11)"
  by code_simp

end
