(* ===== verification/C_Scan.thy ===== *)
theory C_Scan
  imports Cpp_Strings
begin

text \<open>
  Reading unsigned decimal numbers as the collectors do, with \<open>sscanf\<close> of the C library: a
  conversion skips blanks, takes a sign and digits (\<open>strtoull\<close>: a negative value wraps, one that
  does not fit is \<open>ULLONG_MAX\<close>), and the first one that finds no digit ends the call, leaving the
  remaining targets as they were. Printing a number and scanning it gives it back.
\<close>

definition ulong_max :: nat where "ulong_max = 2 ^ 64 - 1"

text \<open>\<open>%lu\<close>, \<open>%llu\<close> and \<open>%Lu\<close>: the value and the rest of the input.\<close>

definition scan_ulong :: "string \<Rightarrow> (64 word \<times> string) option" where
  "scan_ulong s =
     (let t = dropWhile is_space s;
          neg = (t \<noteq> [] \<and> hd t = CHR ''-'');
          u = (if t \<noteq> [] \<and> (hd t = CHR ''-'' \<or> hd t = CHR ''+'') then tl t else t);
          ds = takeWhile is_digit u;
          n = nat_of_digits ds
      in if ds = [] then None
         else Some (if n > ulong_max then of_nat ulong_max else if neg then - of_nat n else of_nat n,
                    dropWhile is_digit u))"

text \<open>\<open>sscanf(s, "%lu %lu ...", ...)\<close> on a list of targets, each a way to store a value.\<close>

fun scan_fields :: "(64 word \<Rightarrow> 's \<Rightarrow> 's) list \<Rightarrow> string \<Rightarrow> 's \<Rightarrow> 's" where
  "scan_fields [] s st = st"
| "scan_fields (f # fs) s st =
     (case scan_ulong s of None \<Rightarrow> st | Some (v, rest) \<Rightarrow> scan_fields fs rest (f v st))"

definition blanks :: "string \<Rightarrow> bool" where
  "blanks s \<longleftrightarrow> (\<forall>c\<in>set s. is_space c)"

lemma dropWhile_blanks: "blanks b \<Longrightarrow> s \<noteq> [] \<Longrightarrow> \<not> is_space (hd s) \<Longrightarrow> dropWhile is_space (b @ s) = s"
  by (induction b) (auto simp: blanks_def neq_Nil_conv)

lemma scan_ulong_dec:
  assumes "blanks b" "n \<le> ulong_max" "rest = [] \<or> \<not> is_digit (hd rest)"
  shows "scan_ulong (b @ dec_of_nat n @ rest) = Some (of_nat n, rest)"
proof -
  obtain d ds where d: "dec_of_nat n = d # ds" by (cases "dec_of_nat n") auto
  have digit: "is_digit d" using dec_of_nat_digits [of n] by (simp add: d)
  have drop: "dropWhile is_space (b @ dec_of_nat n @ rest) = dec_of_nat n @ rest"
    by (rule dropWhile_blanks [OF assms(1)]) (simp_all add: d digit_not_space digit)
  have take: "takeWhile is_digit (dec_of_nat n @ rest) = dec_of_nat n"
    "dropWhile is_digit (dec_of_nat n @ rest) = rest"
    using dec_of_nat_digits [of n] assms(3)
    by (cases rest; simp add: takeWhile_append2 dropWhile_append2)+
  have sign: "hd (dec_of_nat n) \<noteq> CHR ''-''" "hd (dec_of_nat n) \<noteq> CHR ''+''"
    using digit_not_sign [OF digit] by (simp_all add: d)
  show ?thesis
    using assms(2) by (simp add: scan_ulong_def Let_def drop take sign)
qed

text \<open>A row of numbers, each behind at least one blank.\<close>

fun print_row :: "string \<Rightarrow> nat list \<Rightarrow> string" where
  "print_row sep [] = []"
| "print_row sep (n # ns) = sep @ dec_of_nat n @ print_row sep ns"

lemma print_row_hd: "blanks sep \<Longrightarrow> sep \<noteq> [] \<Longrightarrow> rest = [] \<or> \<not> is_digit (hd rest) \<Longrightarrow>
    print_row sep ns @ rest = [] \<or> \<not> is_digit (hd (print_row sep ns @ rest))"
  by (cases ns; cases sep) (auto simp: blanks_def dest: digit_not_space)

lemma scan_fields_print:
  assumes "blanks sep" "sep \<noteq> []" "length fs = length ns" "\<forall>n\<in>set ns. n \<le> ulong_max"
    and "rest = [] \<or> \<not> is_digit (hd rest)"
  shows "scan_fields fs (print_row sep ns @ rest) st = fold (\<lambda>(f, n). f (of_nat n)) (zip fs ns) st"
  using assms(3,4)
proof (induction fs ns arbitrary: st rule: list_induct2)
  case (Cons f fs n ns)
  have "scan_ulong (sep @ dec_of_nat n @ print_row sep ns @ rest) = Some (of_nat n, print_row sep ns @ rest)"
    using Cons.prems by (intro scan_ulong_dec assms(1) print_row_hd [OF assms(1,2,5)]) simp
  then show ?case using Cons by simp
qed simp

end
