(* ===== verification/Net_Interface.thy ===== *)
theory Net_Interface
  imports C_Scan
begin

text \<open>
  The list of network interfaces and their configuration:
  app/source/source/host/collector/network/network_interface.cc and socket.cc. What the kernel
  answers is the record \<open>net_env\<close>: \<open>None\<close> when a call fails. /proc/net/dev is the list of the lines
  \<open>fgets\<close> returns. A 64-bit \<open>unsigned long\<close> is a word; a \<open>struct sockaddr\<close> is its family and
  its fourteen bytes. The local buffer \<open>name[IFNAMSIZ]\<close> has sixteen bytes, and a write behind it is
  a fault.
\<close>

section \<open>Data\<close>

type_synonym sockaddr = "16 word \<times> 8 word list"

definition sockaddr_zero :: sockaddr where
  "sockaddr_zero = (0, replicate 14 0)"

text \<open>The statistics; the detailed error counters below \<open>tx_window_errors\<close> are never written.\<close>

record net_stats =
  st_rx_packets :: "64 word"
  st_tx_packets :: "64 word"
  st_rx_bytes :: "64 word"
  st_tx_bytes :: "64 word"
  st_rx_errors :: "64 word"
  st_tx_errors :: "64 word"
  st_rx_dropped :: "64 word"
  st_tx_dropped :: "64 word"
  st_rx_multicast :: "64 word"
  st_rx_compressed :: "64 word"
  st_tx_compressed :: "64 word"
  st_collisions :: "64 word"
  st_rx_frame_errors :: "64 word"
  st_rx_fifo_errors :: "64 word"
  st_tx_carrier_errors :: "64 word"
  st_tx_fifo_errors :: "64 word"

definition net_stats_zero :: net_stats where
  "net_stats_zero =
     \<lparr>st_rx_packets = 0, st_tx_packets = 0, st_rx_bytes = 0, st_tx_bytes = 0, st_rx_errors = 0, st_tx_errors = 0,
      st_rx_dropped = 0, st_tx_dropped = 0, st_rx_multicast = 0, st_rx_compressed = 0, st_tx_compressed = 0,
      st_collisions = 0, st_rx_frame_errors = 0, st_rx_fifo_errors = 0, st_tx_carrier_errors = 0, st_tx_fifo_errors = 0\<rparr>"

record interface =
  if_name :: string
  if_type :: "16 word"
  if_flags :: "16 word"
  if_metric :: "32 word"
  if_mtu :: "32 word"
  tx_queue_len :: "32 word"
  if_map :: "8 word list"
  if_addr :: sockaddr
  dstaddr :: sockaddr
  broadaddr :: sockaddr
  netmask :: sockaddr
  ipx_addrs :: "nat \<Rightarrow> sockaddr option"
  ddpaddr :: sockaddr
  ecaddr :: sockaddr
  has_ip :: bool
  has_ddp :: bool
  has_econet :: bool
  hwaddr :: "8 word list"
  statistics_valid :: bool
  if_stats :: net_stats
  keepalive :: "32 word"
  outfill :: "32 word"

text \<open>\<open>make_unique<interface>()\<close> zeroes the structure. \<open>ipx_addrs\<close> holds, for each of the four framing
  types, the address once its \<open>has_ipx\<close> flag is set.\<close>

definition interface_new :: "string \<Rightarrow> interface" where
  "interface_new n =
     \<lparr>if_name = n, if_type = 0, if_flags = 0, if_metric = 0, if_mtu = 0, tx_queue_len = 0, if_map = replicate 24 0,
      if_addr = sockaddr_zero, dstaddr = sockaddr_zero, broadaddr = sockaddr_zero, netmask = sockaddr_zero,
      ipx_addrs = (\<lambda>_. None), ddpaddr = sockaddr_zero, ecaddr = sockaddr_zero, has_ip = False, has_ddp = False,
      has_econet = False, hwaddr = replicate 32 0, statistics_valid = False, if_stats = net_stats_zero,
      keepalive = 0, outfill = 0\<rparr>"

text \<open>What the kernel answers. \<open>ioctl\<close> requests are functions of the socket and the interface name.\<close>

record net_env =
  kernel_old :: bool
  readable :: "string \<Rightarrow> bool"
  new_socket :: "int \<Rightarrow> int"
  proc_net_dev :: "string list option"
  proc_net_error :: bool
  ifconf :: "int \<Rightarrow> nat \<Rightarrow> string list option"
  get_flags :: "int \<Rightarrow> string \<Rightarrow> 16 word option"
  get_hwaddr :: "int \<Rightarrow> string \<Rightarrow> sockaddr option"
  get_metric :: "int \<Rightarrow> string \<Rightarrow> 32 word option"
  get_mtu :: "int \<Rightarrow> string \<Rightarrow> 32 word option"
  get_outfill :: "int \<Rightarrow> string \<Rightarrow> 32 word option"
  get_keepalive :: "int \<Rightarrow> string \<Rightarrow> 32 word option"
  get_map :: "int \<Rightarrow> string \<Rightarrow> 8 word list option"
  get_txqlen :: "int \<Rightarrow> string \<Rightarrow> 32 word option"
  get_addr :: "int \<Rightarrow> string \<Rightarrow> sockaddr option"
  get_dstaddr :: "int \<Rightarrow> string \<Rightarrow> sockaddr option"
  get_brdaddr :: "int \<Rightarrow> string \<Rightarrow> sockaddr option"
  get_netmask :: "int \<Rightarrow> string \<Rightarrow> sockaddr option"
  get_ipx :: "int \<Rightarrow> nat \<Rightarrow> string \<Rightarrow> sockaddr option"

section \<open>Sockets\<close>

text \<open>The table of address families (\<open>aftypes\<close>): family, descriptor, file to look for first. The
  numbers are those of Linux.\<close>

record aftype =
  af_family :: int
  af_fd :: int
  flag_file :: "string option"

definition AF_UNSPEC :: int where "AF_UNSPEC = 0"
definition AF_UNIX :: int where "AF_UNIX = 1"
definition AF_INET :: int where "AF_INET = 2"
definition AF_IPX :: int where "AF_IPX = 4"
definition AF_APPLETALK :: int where "AF_APPLETALK = 5"
definition AF_INET6 :: int where "AF_INET6 = 10"
definition AF_ECONET :: int where "AF_ECONET = 19"

definition aftypes :: "aftype list" where
  "aftypes =
     [\<lparr>af_family = AF_UNIX, af_fd = -1, flag_file = Some ''/proc/net/unix''\<rparr>,
      \<lparr>af_family = AF_INET, af_fd = -1, flag_file = None\<rparr>,
      \<lparr>af_family = AF_INET6, af_fd = -1, flag_file = Some ''/proc/net/if_inet6''\<rparr>,
      \<lparr>af_family = AF_UNSPEC, af_fd = 0, flag_file = None\<rparr>]"

definition force :: "net_env \<Rightarrow> bool" where
  "force E \<longleftrightarrow> kernel_old E \<or> \<not> readable E ''/proc/net''"

fun open_loop :: "net_env \<Rightarrow> int \<Rightarrow> aftype list \<Rightarrow> int \<Rightarrow> aftype list \<times> int" where
  "open_loop E family [] sfd = ([], sfd)"
| "open_loop E family (af # rest) sfd =
     (let (af', sfd') =
        (if af_family af = AF_UNSPEC then (af, sfd)
         else if family \<noteq> 0 \<and> family \<noteq> af_family af then (af, sfd)
         else if af_fd af \<noteq> -1 then (af, af_fd af)
         else if family = 0 \<and> \<not> force E \<and> (\<exists>f. flag_file af = Some f \<and> \<not> readable E f) then (af, sfd)
         else let fd = new_socket E (af_family af)
              in (af\<lparr>af_fd := fd\<rparr>, if fd \<ge> 0 then fd else sfd));
          (rest', r) = open_loop E family rest sfd'
      in (af' # rest', r))"

definition socket_open :: "net_env \<Rightarrow> int \<Rightarrow> aftype list \<Rightarrow> aftype list \<times> int" where
  "socket_open E family afs = open_loop E family afs (- 1)"

fun socket_af :: "int \<Rightarrow> aftype list \<Rightarrow> int" where
  "socket_af family [] = - 1"
| "socket_af family (af # rest) = (if af_family af = family then af_fd af else socket_af family rest)"

section \<open>The interface list\<close>

record net_interfaces =
  procnetdevVsn :: nat
  skfd :: int
  int_list :: "(string \<times> interface) list"
  afs :: "aftype list"

definition net_interfaces_new :: net_interfaces where
  "net_interfaces_new = \<lparr>procnetdevVsn = 1, skfd = -1, int_list = [], afs = aftypes\<rparr>"

definition procnetdevVersion :: "string \<Rightarrow> nat" where
  "procnetdevVersion buf =
     (if find_sub ''compressed'' buf \<noteq> None then 3
      else if find_sub ''bytes'' buf \<noteq> None then 2
      else 1)"

text \<open>\<open>ifCacheAdd\<close> finds the interface or makes one; the pointer it returns is the key.\<close>

definition ifCacheAdd :: "string \<Rightarrow> net_interfaces \<Rightarrow> net_interfaces" where
  "ifCacheAdd n s =
     (case map_of (int_list s) n of
        Some _ \<Rightarrow> s
      | None \<Rightarrow> s\<lparr>int_list := smap_put n (interface_new n) (int_list s)\<rparr>)"

text \<open>\<open>getName\<close>: the name up to a blank or a colon; a colon followed by digits and a colon is an
  alias and belongs to the name.\<close>

definition IFNAMSIZ :: nat where "IFNAMSIZ = 16"

fun name_loop :: "string \<Rightarrow> string \<Rightarrow> string \<times> string" where
  "name_loop name [] = (name, [])"
| "name_loop name (c # cs) =
     (if is_space c then (name, c # cs)
      else if c = CHR '':''
      then let digits = takeWhile is_digit cs; p = dropWhile is_digit cs
           in if p \<noteq> [] \<and> hd p = CHR '':'' then (name @ CHR '':'' # digits, tl p) else (name, cs)
      else name_loop (name @ [c]) cs)"

definition getName :: "string \<Rightarrow> (string \<times> string) result" where
  "getName p =
     (let (name, rest) = name_loop [] (dropWhile is_space p)
      in if length name < IFNAMSIZ then Inr (name, rest) else Inl Out_Of_Bounds)"

text \<open>\<open>getDevFields\<close>: the targets of the three \<open>sscanf\<close> calls, in their order.\<close>

definition dev_targets :: "nat \<Rightarrow> (64 word \<Rightarrow> net_stats \<Rightarrow> net_stats) list" where
  "dev_targets vsn =
     (if vsn = 3 then
        [\<lambda>v s. s\<lparr>st_rx_bytes := v\<rparr>, \<lambda>v s. s\<lparr>st_rx_packets := v\<rparr>, \<lambda>v s. s\<lparr>st_rx_errors := v\<rparr>,
         \<lambda>v s. s\<lparr>st_rx_dropped := v\<rparr>, \<lambda>v s. s\<lparr>st_rx_fifo_errors := v\<rparr>, \<lambda>v s. s\<lparr>st_rx_frame_errors := v\<rparr>,
         \<lambda>v s. s\<lparr>st_rx_compressed := v\<rparr>, \<lambda>v s. s\<lparr>st_rx_multicast := v\<rparr>,
         \<lambda>v s. s\<lparr>st_tx_bytes := v\<rparr>, \<lambda>v s. s\<lparr>st_tx_packets := v\<rparr>, \<lambda>v s. s\<lparr>st_tx_errors := v\<rparr>,
         \<lambda>v s. s\<lparr>st_tx_dropped := v\<rparr>, \<lambda>v s. s\<lparr>st_tx_fifo_errors := v\<rparr>, \<lambda>v s. s\<lparr>st_collisions := v\<rparr>,
         \<lambda>v s. s\<lparr>st_tx_carrier_errors := v\<rparr>, \<lambda>v s. s\<lparr>st_tx_compressed := v\<rparr>]
      else if vsn = 2 then
        [\<lambda>v s. s\<lparr>st_rx_bytes := v\<rparr>, \<lambda>v s. s\<lparr>st_rx_packets := v\<rparr>, \<lambda>v s. s\<lparr>st_rx_errors := v\<rparr>,
         \<lambda>v s. s\<lparr>st_rx_dropped := v\<rparr>, \<lambda>v s. s\<lparr>st_rx_fifo_errors := v\<rparr>, \<lambda>v s. s\<lparr>st_rx_frame_errors := v\<rparr>,
         \<lambda>v s. s\<lparr>st_tx_bytes := v\<rparr>, \<lambda>v s. s\<lparr>st_tx_packets := v\<rparr>, \<lambda>v s. s\<lparr>st_tx_errors := v\<rparr>,
         \<lambda>v s. s\<lparr>st_tx_dropped := v\<rparr>, \<lambda>v s. s\<lparr>st_tx_fifo_errors := v\<rparr>, \<lambda>v s. s\<lparr>st_collisions := v\<rparr>,
         \<lambda>v s. s\<lparr>st_tx_carrier_errors := v\<rparr>]
      else
        [\<lambda>v s. s\<lparr>st_rx_packets := v\<rparr>, \<lambda>v s. s\<lparr>st_rx_errors := v\<rparr>, \<lambda>v s. s\<lparr>st_rx_dropped := v\<rparr>,
         \<lambda>v s. s\<lparr>st_rx_fifo_errors := v\<rparr>, \<lambda>v s. s\<lparr>st_rx_frame_errors := v\<rparr>,
         \<lambda>v s. s\<lparr>st_tx_packets := v\<rparr>, \<lambda>v s. s\<lparr>st_tx_errors := v\<rparr>, \<lambda>v s. s\<lparr>st_tx_dropped := v\<rparr>,
         \<lambda>v s. s\<lparr>st_tx_fifo_errors := v\<rparr>, \<lambda>v s. s\<lparr>st_collisions := v\<rparr>, \<lambda>v s. s\<lparr>st_tx_carrier_errors := v\<rparr>])"

definition getDevFields :: "nat \<Rightarrow> string \<Rightarrow> net_stats \<Rightarrow> net_stats" where
  "getDevFields vsn bp st =
     (let st' = scan_fields (dev_targets vsn) bp st
      in if vsn = 3 then st'
         else if vsn = 2 then st'\<lparr>st_rx_multicast := 0\<rparr>
         else if vsn = 1 then st'\<lparr>st_rx_bytes := 0, st_tx_bytes := 0, st_rx_multicast := 0\<rparr>
         else st)"

section \<open>Reading the list\<close>

fun read_lines :: "string option \<Rightarrow> string list \<Rightarrow> net_interfaces \<Rightarrow> net_interfaces result" where
  "read_lines target [] s = Inr s"
| "read_lines target (buf # rest) s =
     bind_r (getName buf) (\<lambda>(name, p).
     let s1 = ifCacheAdd name s;
         s2 = s1\<lparr>int_list := AList.map_entry name
                 (\<lambda>ife. ife\<lparr>if_stats := getDevFields (procnetdevVsn s1) p (if_stats ife), statistics_valid := True\<rparr>)
                 (int_list s1)\<rparr>
     in if target = Some name then Inr s2 else read_lines target rest s2)"

text \<open>\<open>readProc\<close>: two header lines, the second of which tells the version; at the end of the file
  \<open>fgets\<close> leaves the buffer as it was.\<close>

definition readProc :: "net_env \<Rightarrow> string option \<Rightarrow> net_interfaces \<Rightarrow> (net_interfaces \<times> int) result" where
  "readProc E target s =
     (case proc_net_dev E of
        None \<Rightarrow> Inr (s, - 2)
      | Some [] \<Rightarrow> Inl Uninitialised_Read
      | Some (h # hs) \<Rightarrow>
          let header = (case hs of [] \<Rightarrow> h | h2 # _ \<Rightarrow> h2)
          in bind_r (read_lines target (drop 1 hs) (s\<lparr>procnetdevVsn := procnetdevVersion header\<rparr>)) (\<lambda>s1.
             Inr (s1, if proc_net_error E then - 1 else 0)))"

text \<open>The retry loop of \<open>readConfig\<close>: as long as the answer fills the buffer, the buffer is doubled.
  \<open>None\<close> when the loop does not end; the inner \<open>None\<close> when the call failed.\<close>

partial_function (option) conf_loop ::
  "(nat \<Rightarrow> string list option) \<Rightarrow> nat \<Rightarrow> string list option option" where
  "conf_loop call numreqs =
     (case call numreqs of
        None \<Rightarrow> Some None
      | Some names \<Rightarrow> if length names = numreqs then conf_loop call (numreqs * 2) else Some (Some names))"

definition readConfig :: "net_env \<Rightarrow> net_interfaces \<Rightarrow> (net_interfaces \<times> int) result" where
  "readConfig E s =
     (let fd = socket_af AF_INET (afs s);
          (afs1, fd1) = (if fd < 0 then socket_open E 0 (afs s) else (afs s, fd));
          s1 = s\<lparr>afs := afs1\<rparr>
      in if fd1 < 0 then Inr (s1, - 1)
         else case conf_loop (ifconf E fd1) 30 of
                None \<Rightarrow> Inl Diverges
              | Some None \<Rightarrow> Inr (s1, - 1)
              | Some (Some names) \<Rightarrow> Inr (fold ifCacheAdd names s1, 0))"

definition net_read :: "net_env \<Rightarrow> net_interfaces \<Rightarrow> (net_interfaces \<times> int) result" where
  "net_read E s =
     bind_r (readProc E None s) (\<lambda>(s1, proc_err).
     bind_r (readConfig E s1) (\<lambda>(s2, conf_err).
     Inr (s2, if proc_err < 0 \<and> conf_err < 0 then - 1 else 0)))"

section \<open>Collecting\<close>

text \<open>The callback sees the interface under a key of the list and may change it; a non-zero result
  ends the round.\<close>

fun collect_loop ::
  "(string \<Rightarrow> net_interfaces \<Rightarrow> 'c \<Rightarrow> net_interfaces \<times> 'c \<times> int) \<Rightarrow> string list \<Rightarrow> net_interfaces \<Rightarrow> 'c \<Rightarrow>
     net_interfaces \<times> 'c \<times> int" where
  "collect_loop doit [] s c = (s, c, 0)"
| "collect_loop doit (n # ns) s c =
     (let (s1, c1, err) = doit n s c
      in if err \<noteq> 0 then (s1, c1, err) else collect_loop doit ns s1 c1)"

definition collect ::
  "net_env \<Rightarrow> (string \<Rightarrow> net_interfaces \<Rightarrow> 'c \<Rightarrow> net_interfaces \<times> 'c \<times> int) \<Rightarrow> net_interfaces \<Rightarrow> 'c \<Rightarrow>
     (net_interfaces \<times> 'c \<times> int) result" where
  "collect E doit s c =
     (let (afs1, fd) = (if skfd s = - 1 then socket_open E 0 (afs s) else (afs s, skfd s));
          s1 = s\<lparr>afs := afs1, skfd := fd\<rparr>
      in if fd = - 1 then Inr (s1, c, - 1)
         else bind_r (net_read E s1) (\<lambda>(s2, err).
              if err < 0 then Inr (s2, c, - 1)
              else Inr (collect_loop doit (map fst (int_list s2)) s2 c)))"

section \<open>The configuration of an interface\<close>

text \<open>\<open>if_fetch\<close>. When the hardware address cannot be read the union still holds the flags, which
  become the type; the queue length is overwritten in every case.\<close>

definition slip_types :: "16 word set" where
  "slip_types = {256, 257, 258, 259, 264}"

definition fetch_link :: "net_env \<Rightarrow> int \<Rightarrow> 16 word \<Rightarrow> interface \<Rightarrow> interface" where
  "fetch_link E fd flags ife =
     (let n = if_name ife;
          i1 = (case get_hwaddr E fd n of
                  None \<Rightarrow> ife\<lparr>if_flags := flags, hwaddr := replicate 32 0, if_type := flags\<rparr>
                | Some (family, data) \<Rightarrow>
                    ife\<lparr>if_flags := flags, hwaddr := take 8 data @ drop 8 (hwaddr ife), if_type := family\<rparr>);
          i2 = i1\<lparr>if_metric := (case get_metric E fd n of None \<Rightarrow> 0 | Some v \<Rightarrow> v),
                  if_mtu := (case get_mtu E fd n of None \<Rightarrow> 0 | Some v \<Rightarrow> v)\<rparr>;
          i3 = (if if_type i2 \<in> slip_types
                then i2\<lparr>outfill := (case get_outfill E fd n of None \<Rightarrow> 0 | Some v \<Rightarrow> v),
                        keepalive := (case get_keepalive E fd n of None \<Rightarrow> 0 | Some v \<Rightarrow> v)\<rparr>
                else i2);
          i4 = i3\<lparr>if_map := (case get_map E fd n of None \<Rightarrow> replicate 24 0 | Some m \<Rightarrow> m)\<rparr>;
          i5 = i4\<lparr>tx_queue_len := (case get_txqlen E fd n of None \<Rightarrow> - 1 | Some v \<Rightarrow> v)\<rparr>
      in i5\<lparr>tx_queue_len := - 1\<rparr>)"

definition fetch_inet :: "net_env \<Rightarrow> int \<Rightarrow> interface \<Rightarrow> interface" where
  "fetch_inet E fd ife =
     (if fd < 0 then ife
      else let n = if_name ife
           in case get_addr E fd n of
                Some a \<Rightarrow>
                  ife\<lparr>has_ip := True, if_addr := a,
                      dstaddr := (case get_dstaddr E fd n of None \<Rightarrow> sockaddr_zero | Some b \<Rightarrow> b),
                      broadaddr := (case get_brdaddr E fd n of None \<Rightarrow> sockaddr_zero | Some b \<Rightarrow> b),
                      netmask := (case get_netmask E fd n of None \<Rightarrow> sockaddr_zero | Some b \<Rightarrow> b)\<rparr>
              | None \<Rightarrow> ife\<lparr>if_addr := sockaddr_zero\<rparr>)"

definition fetch_other :: "net_env \<Rightarrow> aftype list \<Rightarrow> interface \<Rightarrow> interface" where
  "fetch_other E tab ife =
     (let n = if_name ife;
          ddp = socket_af AF_APPLETALK tab; ipx = socket_af AF_IPX tab; ec = socket_af AF_ECONET tab;
          i1 = (case (if ddp \<ge> 0 then get_addr E ddp n else None) of
                  None \<Rightarrow> ife | Some a \<Rightarrow> ife\<lparr>ddpaddr := a, has_ddp := True\<rparr>);
          i2 = (if ipx \<ge> 0
                then i1\<lparr>ipx_addrs := (\<lambda>ft. if ft \<in> {1, 2, 3, 4} \<and> get_ipx E ipx ft n \<noteq> None
                                           then get_ipx E ipx ft n else ipx_addrs i1 ft)\<rparr>
                else i1)
      in case (if ec \<ge> 0 then get_addr E ec n else None) of
           None \<Rightarrow> i2 | Some a \<Rightarrow> i2\<lparr>ecaddr := a, has_econet := True\<rparr>)"

definition if_fetch :: "net_env \<Rightarrow> net_interfaces \<Rightarrow> interface \<Rightarrow> interface \<times> int" where
  "if_fetch E s ife =
     (case get_flags E (skfd s) (if_name ife) of
        None \<Rightarrow> (ife, - 1)
      | Some flags \<Rightarrow>
          (fetch_other E (afs s) (fetch_inet E (socket_af AF_INET (afs s)) (fetch_link E (skfd s) flags ife)), 0))"

definition net_fetch :: "net_env \<Rightarrow> string \<Rightarrow> net_interfaces \<Rightarrow> net_interfaces \<times> int" where
  "net_fetch E n s =
     (case map_of (int_list s) n of
        None \<Rightarrow> (s, - 1)
      | Some ife \<Rightarrow>
          let (ife', r) = if_fetch E s ife
          in (s\<lparr>int_list := AList.map_entry n (\<lambda>_. ife') (int_list s)\<rparr>, if r < 0 then - 1 else 0))"

section \<open>Lemmas\<close>

definition plain_name :: "string \<Rightarrow> bool" where
  "plain_name n \<longleftrightarrow> n \<noteq> [] \<and> (\<forall>c\<in>set n. \<not> is_space c \<and> c \<noteq> CHR '':'')"

lemma name_loop_plain:
  "\<forall>c\<in>set n. \<not> is_space c \<and> c \<noteq> CHR '':'' \<Longrightarrow> rest = [] \<or> \<not> is_digit (hd rest) \<and> hd rest \<noteq> CHR '':'' \<Longrightarrow>
     name_loop acc (n @ CHR '':'' # rest) = (acc @ n, rest)"
proof (induction n arbitrary: acc)
  case Nil
  have "takeWhile is_digit rest = []" "dropWhile is_digit rest = rest" using Nil.prems(2) by (cases rest; simp)+
  then show ?case using Nil.prems(2) by (auto simp: Let_def is_space_def)
qed simp

lemma name_loop_alias:
  assumes "\<forall>c\<in>set n. \<not> is_space c \<and> c \<noteq> CHR '':''" "\<forall>c\<in>set ds. is_digit c"
  shows "name_loop acc (n @ CHR '':'' # ds @ CHR '':'' # rest) = (acc @ n @ CHR '':'' # ds, rest)"
  using assms(1)
proof (induction n arbitrary: acc)
  case Nil
  have nd: "\<not> is_digit CHR '':''" by (simp add: is_digit_def)
  have "takeWhile is_digit (ds @ CHR '':'' # rest) = ds" "dropWhile is_digit (ds @ CHR '':'' # rest) = CHR '':'' # rest"
    using assms(2) nd by (simp_all add: takeWhile_append2 dropWhile_append2)
  then show ?case by (simp add: Let_def is_space_def)
qed simp

lemma getName_line:
  assumes "blanks pre" "plain_name n" "rest = [] \<or> \<not> is_digit (hd rest) \<and> hd rest \<noteq> CHR '':''"
  shows "getName (pre @ n @ CHR '':'' # rest) = (if length n < IFNAMSIZ then Inr (n, rest) else Inl Out_Of_Bounds)"
proof -
  have "\<not> is_space (hd (n @ CHR '':'' # rest))" using assms(2) by (cases n) (auto simp: plain_name_def)
  then have "dropWhile is_space (pre @ n @ CHR '':'' # rest) = n @ CHR '':'' # rest"
    by (intro dropWhile_blanks [OF assms(1)]) simp_all
  then show ?thesis
    using name_loop_plain [of n rest "[]"] assms(2,3) by (simp add: getName_def plain_name_def)
qed

text \<open>The statistics a line of version 3 carries.\<close>

definition stats_of :: "nat list \<Rightarrow> net_stats" where
  "stats_of ns =
     (let f = (\<lambda>i. of_nat (ns ! i))
      in \<lparr>st_rx_packets = f 1, st_tx_packets = f 9, st_rx_bytes = f 0, st_tx_bytes = f 8, st_rx_errors = f 2,
          st_tx_errors = f 10, st_rx_dropped = f 3, st_tx_dropped = f 11, st_rx_multicast = f 7, st_rx_compressed = f 6,
          st_tx_compressed = f 15, st_collisions = f 13, st_rx_frame_errors = f 5, st_rx_fifo_errors = f 4,
          st_tx_carrier_errors = f 14, st_tx_fifo_errors = f 12\<rparr>)"

lemma length_16:
  assumes "length xs = 16"
  shows "xs = [xs!0, xs!1, xs!2, xs!3, xs!4, xs!5, xs!6, xs!7, xs!8, xs!9, xs!10, xs!11, xs!12, xs!13, xs!14, xs!15]"
  by (rule nth_equalityI) (auto simp: assms less_Suc_eq numeral_eq_Suc)

lemma getDevFields_print:
  assumes "blanks sep" "sep \<noteq> []" "length ns = 16" "\<forall>n\<in>set ns. n \<le> ulong_max" "rest = [] \<or> \<not> is_digit (hd rest)"
  shows "getDevFields 3 (print_row sep ns @ rest) st = stats_of ns"
proof -
  have len: "length (dev_targets 3) = length ns" by (simp add: dev_targets_def assms(3))
  have "getDevFields 3 (print_row sep ns @ rest) st = fold (\<lambda>(f, n). f (of_nat n)) (zip (dev_targets 3) ns) st"
    using scan_fields_print [OF assms(1,2) len assms(4,5)] by (simp add: getDevFields_def)
  also have "\<dots> = stats_of ns"
    by (subst length_16 [OF assms(3)]) (simp add: dev_targets_def stats_of_def Let_def)
  finally show ?thesis .
qed

lemma conf_loop_returns:
  assumes "\<And>k. call k = Some (take k names)" "0 < k"
  shows "conf_loop call k = Some (Some names)"
  using assms(2)
proof (induction "length names + 1 - k" arbitrary: k rule: less_induct)
  case less
  show ?case
  proof (cases "length (take k names) = k")
    case True
    then have "length names + 1 - k * 2 < length names + 1 - k" using less.prems by (auto simp: min_def split: if_splits)
    from less.hyps [OF this] less.prems show ?thesis
      by (subst conf_loop.simps) (simp add: assms(1) True)
  next
    case False
    then have "take k names = names" by (simp add: min_def split: if_splits)
    then show ?thesis using False by (subst conf_loop.simps) (simp add: assms(1))
  qed
qed

text \<open>The list only grows, and an entry stays under its name.\<close>

lemma keys_map_entry [simp]: "map fst (AList.map_entry n f m) = map fst m"
  by (induction m) auto

lemma ifCacheAdd_keys: "fst ` set (int_list (ifCacheAdd n s)) = insert n (fst ` set (int_list s))"
  by (auto simp: ifCacheAdd_def set_smap_put_keys split: option.splits intro: rev_image_eqI dest: map_of_SomeD)

lemma ifCacheAdd_ok: "smap_ok (int_list s) \<Longrightarrow> smap_ok (int_list (ifCacheAdd n s))"
  by (simp add: ifCacheAdd_def smap_ok_put split: option.splits)

lemma smap_ok_map_entry [simp]: "smap_ok (AList.map_entry n f m) \<longleftrightarrow> smap_ok m"
  by (simp add: smap_ok_def)

lemma keys_map_entry_set [simp]: "fst ` set (AList.map_entry n f m) = fst ` set m"
  by (metis keys_map_entry list.set_map)

text \<open>The list is sorted by name and every entry carries its name.\<close>

definition named :: "(string \<times> interface) list \<Rightarrow> bool" where
  "named m \<longleftrightarrow> (\<forall>(k, i)\<in>set m. if_name i = k)"

lemma named_put: "named m \<Longrightarrow> if_name i = n \<Longrightarrow> named (smap_put n i m)"
  by (induction n i m rule: smap_put.induct) (auto simp: named_def)

lemma named_map_entry: "named m \<Longrightarrow> (\<And>i. if_name i = n \<Longrightarrow> if_name (f i) = n) \<Longrightarrow> named (AList.map_entry n f m)"
  by (induction m) (auto simp: named_def)

definition list_ok :: "net_interfaces \<Rightarrow> bool" where
  "list_ok s \<longleftrightarrow> smap_ok (int_list s) \<and> named (int_list s)"

definition list_grows :: "net_interfaces \<Rightarrow> net_interfaces \<Rightarrow> bool" where
  "list_grows s s' \<longleftrightarrow> list_ok s' \<and> fst ` set (int_list s) \<subseteq> fst ` set (int_list s')"

lemma list_grows_trans: "list_grows s t \<Longrightarrow> list_grows t u \<Longrightarrow> list_grows s u"
  by (auto simp: list_grows_def)

lemma list_grows_cong: "list_grows s s' \<Longrightarrow> int_list t = int_list s \<Longrightarrow> list_grows t s'"
  by (simp add: list_grows_def)

lemma list_ok_cong: "list_ok s \<Longrightarrow> int_list t = int_list s \<Longrightarrow> list_ok t"
  by (simp add: list_ok_def)

lemma ifCacheAdd_grows: "list_ok s \<Longrightarrow> list_grows s (ifCacheAdd n s)"
  using ifCacheAdd_keys [of n s]
  by (auto simp: list_grows_def list_ok_def ifCacheAdd_ok)
    (simp add: ifCacheAdd_def named_put interface_new_def split: option.splits)

lemma fold_ifCacheAdd: "list_ok s \<Longrightarrow> list_grows s (fold ifCacheAdd ns s)"
proof (induction ns arbitrary: s)
  case (Cons n ns)
  have g: "list_grows s (ifCacheAdd n s)" by (rule ifCacheAdd_grows [OF Cons.prems])
  then have "list_grows (ifCacheAdd n s) (fold ifCacheAdd ns (ifCacheAdd n s))"
    by (intro Cons.IH) (simp add: list_grows_def)
  with g show ?case by (simp add: list_grows_trans)
qed (simp add: list_grows_def)

lemma read_lines_grows:
  "read_lines target ls s = Inr s' \<Longrightarrow> list_ok s \<Longrightarrow> list_grows s s'"
proof (induction target ls s rule: read_lines.induct)
  case (2 target buf rest s)
  then obtain n p where np: "getName buf = Inr (n, p)" by (auto simp: cpp_simps)
  let ?s1 = "ifCacheAdd n s"
  let ?s2 = "?s1\<lparr>int_list := AList.map_entry n
    (\<lambda>ife. ife\<lparr>if_stats := getDevFields (procnetdevVsn ?s1) p (if_stats ife), statistics_valid := True\<rparr>) (int_list ?s1)\<rparr>"
  have s2: "list_grows s ?s2"
    using ifCacheAdd_grows [OF 2(3), of n] by (simp add: list_grows_def list_ok_def named_map_entry)
  show ?case
  proof (cases "target = Some n")
    case True
    then show ?thesis using 2(2) s2 by (simp add: np Let_def)
  next
    case False
    then have "read_lines target rest ?s2 = Inr s'" using 2(2) by (simp add: np Let_def)
    from "2.IH" [OF refl refl False this] s2 show ?thesis
      by (intro list_grows_trans [OF s2]) (simp add: list_grows_def)
  qed
qed (simp add: list_grows_def)

lemma readProc_grows:
  assumes "readProc E target s = Inr (s', r)" "list_ok s"
  shows "list_grows s s'"
proof (cases "proc_net_dev E")
  case None
  then show ?thesis using assms by (simp add: readProc_def list_grows_def)
next
  case (Some lines)
  then obtain h hs where "proc_net_dev E = Some (h # hs)" using assms(1) by (cases lines) (auto simp: readProc_def)
  then obtain v where "read_lines target (drop 1 hs) (s\<lparr>procnetdevVsn := v\<rparr>) = Inr s'"
    using assms(1) by (auto simp: readProc_def cpp_simps)
  then have "list_grows (s\<lparr>procnetdevVsn := v\<rparr>) s'" by (rule read_lines_grows) (rule list_ok_cong [OF assms(2)], simp)
  then show ?thesis by (rule list_grows_cong) simp
qed

lemma readConfig_grows:
  assumes "readConfig E s = Inr (s', r)" "list_ok s"
  shows "list_grows s s'"
proof -
  define tab where
    "tab = fst (if socket_af AF_INET (afs s) < 0 then socket_open E 0 (afs s) else (afs s, socket_af AF_INET (afs s)))"
  have "s' = s\<lparr>afs := tab\<rparr> \<or> (\<exists>ns. s' = fold ifCacheAdd ns (s\<lparr>afs := tab\<rparr>))"
    using assms(1) unfolding readConfig_def Let_def case_prod_beta tab_def [symmetric]
    by (auto split: option.splits if_splits)
  then obtain ns where "s' = fold ifCacheAdd ns (s\<lparr>afs := tab\<rparr>)" using that [of "[]"] by auto
  then show ?thesis
    using fold_ifCacheAdd [of "s\<lparr>afs := tab\<rparr>" ns] list_ok_cong [OF assms(2), of "s\<lparr>afs := tab\<rparr>"]
    by (simp add: list_grows_def)
qed

lemma net_read_grows:
  assumes "net_read E s = Inr (s', r)" "list_ok s"
  shows "list_grows s s'"
proof -
  obtain t p c where t: "readProc E None s = Inr (t, p)" "readConfig E t = Inr (s', c)"
    using assms(1) by (auto simp: net_read_def cpp_simps)
  have "list_grows s t" by (rule readProc_grows [OF t(1) assms(2)])
  moreover have "list_grows t s'" using calculation by (intro readConfig_grows [OF t(2)]) (simp add: list_grows_def)
  ultimately show ?thesis by (rule list_grows_trans)
qed

lemma net_fetch_keys: "map fst (int_list (fst (net_fetch E n s))) = map fst (int_list s)"
  by (simp add: net_fetch_def case_prod_beta split: option.splits)

lemma fetch_link_name: "if_name (fetch_link E fd flags ife) = if_name ife"
  by (cases "get_hwaddr E fd (if_name ife)") (simp_all add: fetch_link_def Let_def case_prod_beta)

lemma fetch_inet_name: "if_name (fetch_inet E fd ife) = if_name ife"
  by (simp add: fetch_inet_def Let_def split: option.splits)

lemma fetch_other_name: "if_name (fetch_other E tab ife) = if_name ife"
  unfolding fetch_other_def Let_def by (simp split: option.split)

lemma if_fetch_name: "if_name (fst (if_fetch E s ife)) = if_name ife"
  by (simp add: if_fetch_def fetch_link_name fetch_inet_name fetch_other_name split: option.split)

lemma net_fetch_ok:
  assumes "list_ok s"
  shows "list_ok (fst (net_fetch E n s))"
proof (cases "map_of (int_list s) n")
  case (Some ife)
  then have "if_name (fst (if_fetch E s ife)) = n"
    using assms by (auto simp: if_fetch_name list_ok_def named_def dest!: map_of_SomeD)
  then show ?thesis
    using assms Some by (simp add: net_fetch_def case_prod_beta list_ok_def named_map_entry)
qed (simp add: net_fetch_def assms)

lemma collect_cases:
  assumes "collect E doit s c = Inr (s', c', err)"
  shows "\<exists>t. int_list t = int_list s \<and>
    (s' = t \<and> c' = c \<or>
     (\<exists>s2 e. net_read E t = Inr (s2, e) \<and>
        (s' = s2 \<and> c' = c \<or> (s', c', err) = collect_loop doit (map fst (int_list s2)) s2 c)))"
proof -
  define p where "p = (if skfd s = - 1 then socket_open E 0 (afs s) else (afs s, skfd s))"
  define t where "t = s\<lparr>afs := fst p, skfd := snd p\<rparr>"
  have t: "int_list t = int_list s" by (simp add: t_def)
  have "(if snd p = - 1 then Inr (t, c, - 1)
     else bind_r (net_read E t) (\<lambda>(s2, e). if e < 0 then Inr (s2, c, - 1)
       else Inr (collect_loop doit (map fst (int_list s2)) s2 c))) = Inr (s', c', err)"
    using assms unfolding collect_def Let_def p_def [symmetric] t_def by (simp add: case_prod_beta)
  then show ?thesis using t by (intro exI [of _ t]) (auto simp: cpp_simps split: if_splits)
qed

lemma readConfig_complete:
  assumes "socket_af AF_INET (afs s) \<ge> 0" "\<And>k. ifconf E (socket_af AF_INET (afs s)) k = Some (take k names)"
  shows "readConfig E s = Inr (fold ifCacheAdd names s, 0)"
  using assms(1) conf_loop_returns [of "ifconf E (socket_af AF_INET (afs s))" names 30, OF assms(2)]
  by (simp add: readConfig_def)

section \<open>Properties\<close>

text \<open>C27: a line of /proc/net/dev as the kernel prints it, an interface name of at most fifteen
  characters, a colon and the sixteen counters, is read back: the name and each counter.\<close>

theorem net_dev_line_roundtrip:
  assumes "blanks pre" "plain_name n" "length n < 16" "blanks sep" "sep \<noteq> []" "length ns = 16"
    and "\<forall>x\<in>set ns. x \<le> ulong_max" "rest = [] \<or> \<not> is_digit (hd rest)"
  shows "\<exists>p. getName (pre @ n @ '':'' @ print_row sep ns @ rest) = Inr (n, p) \<and>
             getDevFields 3 p st = stats_of ns"
proof (intro exI conjI)
  obtain x xs where "ns = x # xs" using assms(6) by (cases ns) auto
  then have "hd (print_row sep ns @ rest) \<in> set sep" using assms(5) by simp
  then have sp: "is_space (hd (print_row sep ns @ rest))" using assms(4) by (simp add: blanks_def)
  then have "\<not> is_digit (hd (print_row sep ns @ rest))" by (blast dest: digit_not_space)
  moreover have "hd (print_row sep ns @ rest) \<noteq> CHR '':''"
  proof
    assume "hd (print_row sep ns @ rest) = CHR '':''"
    with sp show False by (simp add: is_space_def)
  qed
  ultimately show "getName (pre @ n @ '':'' @ print_row sep ns @ rest) = Inr (n, print_row sep ns @ rest)"
    using getName_line [OF assms(1,2), of "print_row sep ns @ rest"] assms(3)
    by (simp add: IFNAMSIZ_def)
  show "getDevFields 3 (print_row sep ns @ rest) st = stats_of ns"
    by (rule getDevFields_print [OF assms(4-8)])
qed

theorem net_dev_line_roundtrip_witness:
  "\<exists>p. getName (''  '' @ ''eth0'' @ '':'' @ print_row '' '' [1..<17] @ [CHR 0x0A]) = Inr (''eth0'', p) \<and>
       getDevFields 3 p net_stats_zero = stats_of [1..<17]"
proof -
  have eval: "[1..<17] = [1, 2, 3, 4, 5, 6, 7, 8, 9, 10, 11, 12, 13, 14, 15, 16 :: nat]" by (simp add: upt_conv_Cons)
  show ?thesis
    by (rule net_dev_line_roundtrip)
      (simp_all add: eval blanks_def plain_name_def is_space_def is_digit_def ulong_max_def)
qed


definition sample_net_env :: net_env where
  "sample_net_env =
     \<lparr>kernel_old = False, readable = (\<lambda>_. True), new_socket = (\<lambda>f. f), proc_net_dev = Some [''Inter-'', ''bytes compressed''],
      proc_net_error = False, ifconf = (\<lambda>_ k. Some (take k [''eth0'', ''lo''])),
      get_flags = (\<lambda>_ n. if n = ''veth1'' then None else Some 1), get_hwaddr = (\<lambda>_ _. Some (1, replicate 14 7)),
      get_metric = (\<lambda>_ _. Some 0), get_mtu = (\<lambda>_ _. Some 1500), get_outfill = (\<lambda>_ _. None), get_keepalive = (\<lambda>_ _. None),
      get_map = (\<lambda>_ _. None), get_txqlen = (\<lambda>_ _. Some 1000), get_addr = (\<lambda>_ _. None), get_dstaddr = (\<lambda>_ _. None),
      get_brdaddr = (\<lambda>_ _. None), get_netmask = (\<lambda>_ _. None), get_ipx = (\<lambda>_ _ _. None)\<rparr>"

definition sample_interfaces :: "string list \<Rightarrow> net_interfaces" where
  "sample_interfaces ns =
     \<lparr>procnetdevVsn = 3, skfd = 2, int_list = map (\<lambda>n. (n, interface_new n)) ns, afs = map (\<lambda>a. a\<lparr>af_fd := af_family a\<rparr>) aftypes\<rparr>"


end
