(* ===== verification/Net_Collector.thy ===== *)
theory Net_Collector
  imports Net_Interface
begin

text \<open>
  Traffic rates and the report of a round:
  app/source/source/host/collector/network/cache_storage.cc, network_collector.cc and the clock
  functions of app/source/common/util.cc. \<open>'d\<close> is the type of doubles, of which only the
  conversion from a 64-bit counter is used. The line of /proc/uptime that is read when an interface
  is loaded, the lines of /proc/net/if_inet6 and the printing of an address are parameters.
\<close>

section \<open>The clock\<close>

text \<open>\<open>sscanf(line, "%lu.%lu", ...) == 2\<close>: hundredths of a second.\<close>

definition uptime_value :: "string option \<Rightarrow> 64 word option" where
  "uptime_value line =
     (case line of
        None \<Rightarrow> None
      | Some l \<Rightarrow>
          (case scan_ulong l of
             None \<Rightarrow> None
           | Some (up_sec, rest) \<Rightarrow>
               if rest \<noteq> [] \<and> hd rest = CHR ''.''
               then (case scan_ulong (tl rest) of None \<Rightarrow> None | Some (up_cent, _) \<Rightarrow> Some (up_sec * 100 + up_cent))
               else None))"

definition read_uptime :: "string option \<Rightarrow> 64 word \<Rightarrow> 64 word" where
  "read_uptime line uptime = (case uptime_value line of None \<Rightarrow> uptime | Some u \<Rightarrow> u)"

definition get_interval :: "64 word \<Rightarrow> 64 word \<Rightarrow> 64 word" where
  "get_interval prev_uptime curr_uptime =
     (let itv = curr_uptime - prev_uptime in if itv = 0 then 1 else itv)"

section \<open>CacheStorage\<close>

record 'd net_cache =
  c_rx_packets :: "64 word"
  c_tx_packets :: "64 word"
  c_rx_bytes :: "64 word"
  c_tx_bytes :: "64 word"
  rx_packets_bps :: 'd
  tx_packets_bps :: 'd
  rx_bytes_bps :: 'd
  tx_bytes_bps :: 'd

text \<open>\<open>uptime_cs\<close> is the pair of the two entries, \<open>cur\<close> the index of the next one to be written.\<close>

record 'd storage =
  caches :: "(string \<times> 'd net_cache) list"
  uptime_cs :: "64 word \<times> 64 word"
  cur :: bool

definition storage_new :: "'d storage" where
  "storage_new = \<lparr>caches = [], uptime_cs = (0, 0), cur = True\<rparr>"

definition uptime_at :: "bool \<Rightarrow> 'd storage \<Rightarrow> 64 word" where
  "uptime_at b s = (if b then snd (uptime_cs s) else fst (uptime_cs s))"

definition net_cache_new :: "(64 word \<Rightarrow> 'd) \<Rightarrow> 'd net_cache" where
  "net_cache_new dbl =
     \<lparr>c_rx_packets = 0, c_tx_packets = 0, c_rx_bytes = 0, c_tx_bytes = 0,
      rx_packets_bps = dbl 0, tx_packets_bps = dbl 0, rx_bytes_bps = dbl 0, tx_bytes_bps = dbl 0\<rparr>"

definition load_entry :: "(64 word \<Rightarrow> 'd) \<Rightarrow> 64 word \<Rightarrow> net_stats \<Rightarrow> 'd net_cache \<Rightarrow> 'd net_cache" where
  "load_entry dbl itv st c =
     \<lparr>c_rx_packets = st_rx_packets st, c_tx_packets = st_tx_packets st, c_rx_bytes = st_rx_bytes st,
      c_tx_bytes = st_rx_bytes st,
      rx_packets_bps = dbl ((st_rx_packets st - c_rx_packets c) div itv),
      tx_packets_bps = dbl ((st_tx_packets st - c_tx_packets c) div itv),
      rx_bytes_bps = dbl ((st_rx_bytes st - c_rx_bytes c) div itv),
      tx_bytes_bps = dbl ((st_tx_bytes st - c_tx_bytes c) div itv)\<rparr>"

definition storage_load :: "(64 word \<Rightarrow> 'd) \<Rightarrow> string option \<Rightarrow> interface \<Rightarrow> 'd storage \<Rightarrow> 'd storage" where
  "storage_load dbl line ife s =
     (let up = read_uptime line (uptime_at (cur s) s);
          s1 = s\<lparr>uptime_cs := (if cur s then (fst (uptime_cs s), up) else (up, snd (uptime_cs s)))\<rparr>;
          itv = get_interval (uptime_at (\<not> cur s1) s1) (uptime_at (cur s1) s1);
          c = (case map_of (caches s1) (if_name ife) of None \<Rightarrow> net_cache_new dbl | Some c \<Rightarrow> c)
      in s1\<lparr>caches := smap_put (if_name ife) (load_entry dbl itv (if_stats ife) c) (caches s1), cur := \<not> cur s1\<rparr>)"

text \<open>The metric callbacks resize the vector and overwrite each entry, with the device as a label.\<close>

datatype 'd metric_value = MV_Int "64 word" | MV_Double 'd

record 'd metric_data =
  md_data :: "'d metric_value"
  md_labels :: "(string \<times> string) list"

definition metric_data_new :: "'d metric_data" where
  "metric_data_new = \<lparr>md_data = MV_Int 0, md_labels = []\<rparr>"

definition resize :: "nat \<Rightarrow> 'd metric_data list \<Rightarrow> 'd metric_data list" where
  "resize n vs = take n vs @ replicate (n - length vs) metric_data_new"

definition load_values :: "('c \<Rightarrow> 'd) \<Rightarrow> (string \<times> 'c) list \<Rightarrow> 'd metric_data list \<Rightarrow> 'd metric_data list" where
  "load_values get_field entries values =
     (if entries = [] then values
      else map2 (\<lambda>v (n, c). v\<lparr>md_data := MV_Double (get_field c), md_labels := smap_put ''dev_name'' n (md_labels v)\<rparr>)
             (resize (length entries) values) entries)"

definition load_metric :: "('d net_cache \<Rightarrow> 'd) \<Rightarrow> 'd storage \<Rightarrow> 'd metric_data list \<Rightarrow> 'd metric_data list" where
  "load_metric get_field s values = load_values get_field (caches s) values"

definition loadRxPacketsBpsMetric :: "'d storage \<Rightarrow> 'd metric_data list \<Rightarrow> 'd metric_data list" where
  "loadRxPacketsBpsMetric = load_metric rx_packets_bps"

definition loadRxByteBpsMetric :: "'d storage \<Rightarrow> 'd metric_data list \<Rightarrow> 'd metric_data list" where
  "loadRxByteBpsMetric = load_metric rx_bytes_bps"

definition loadTxPacketsBpsMetric :: "'d storage \<Rightarrow> 'd metric_data list \<Rightarrow> 'd metric_data list" where
  "loadTxPacketsBpsMetric = load_metric tx_packets_bps"

definition loadTxByteBpsMetric :: "'d storage \<Rightarrow> 'd metric_data list \<Rightarrow> 'd metric_data list" where
  "loadTxByteBpsMetric = load_metric tx_bytes_bps"

definition loadRxPacketsMetric ::
  "(64 word \<Rightarrow> 'd) \<Rightarrow> 'd storage \<Rightarrow> 'd metric_data list \<Rightarrow> 'd metric_data list" where
  "loadRxPacketsMetric dbl = load_metric (\<lambda>c. dbl (c_rx_packets c))"

definition loadRxByteMetric ::
  "(64 word \<Rightarrow> 'd) \<Rightarrow> 'd storage \<Rightarrow> 'd metric_data list \<Rightarrow> 'd metric_data list" where
  "loadRxByteMetric dbl = load_metric (\<lambda>c. dbl (c_rx_bytes c))"

definition loadTxPacketsMetric ::
  "(64 word \<Rightarrow> 'd) \<Rightarrow> 'd storage \<Rightarrow> 'd metric_data list \<Rightarrow> 'd metric_data list" where
  "loadTxPacketsMetric dbl = load_metric (\<lambda>c. dbl (c_tx_packets c))"

definition loadTxBytesMetric ::
  "(64 word \<Rightarrow> 'd) \<Rightarrow> 'd storage \<Rightarrow> 'd metric_data list \<Rightarrow> 'd metric_data list" where
  "loadTxBytesMetric dbl = load_metric (\<lambda>c. dbl (c_tx_bytes c))"

section \<open>NetworkCollector\<close>

text \<open>The entry of a round's report; \<open>set_ip6\<close> keeps the last address of the device.\<close>

record network_info =
  ni_name :: string
  ni_mtu :: "32 word"
  ni_metric :: "32 word"
  ni_stats :: "net_stats option"
  ni_flags :: "16 word"
  ni_ip :: "string option"
  ni_ip6 :: "string option"

record 'd collector_env =
  net :: net_env
  to_double :: "64 word \<Rightarrow> 'd"
  uptime_line :: "string \<Rightarrow> string option"
  if_inet6 :: "(string list \<times> string) list option"
  sprint :: "sockaddr \<Rightarrow> string"

fun join_colon :: "string list \<Rightarrow> string" where
  "join_colon [] = []"
| "join_colon [a] = a"
| "join_colon (a # as) = a @ CHR '':'' # join_colon as"

definition ip6_of :: "(string list \<times> string) list option \<Rightarrow> string \<Rightarrow> string option" where
  "ip6_of lines n =
     (case lines of
        None \<Rightarrow> None
      | Some ls \<Rightarrow> fold (\<lambda>(parts, devname) a. if devname = n then Some (join_colon parts) else a) ls None)"

definition interface_info :: "'d collector_env \<Rightarrow> interface \<Rightarrow> network_info" where
  "interface_info E ife =
     \<lparr>ni_name = if_name ife, ni_mtu = if_mtu ife, ni_metric = if_metric ife,
      ni_stats = (if statistics_valid ife then Some (if_stats ife) else None), ni_flags = if_flags ife,
      ni_ip = (if has_ip ife then Some (sprint E (if_addr ife)) else None),
      ni_ip6 = ip6_of (if_inet6 E) (if_name ife)\<rparr>"

definition IFF_UP :: "16 word" where "IFF_UP = 1"

definition doit ::
  "'d collector_env \<Rightarrow> string \<Rightarrow> net_interfaces \<Rightarrow> network_info list \<times> 'd storage \<Rightarrow>
     net_interfaces \<times> (network_info list \<times> 'd storage) \<times> int" where
  "doit E n s c =
     (let (s1, res) = net_fetch (net E) n s
      in if res \<ge> 0
         then case map_of (int_list s1) n of
                None \<Rightarrow> (s1, c, res)
              | Some ife \<Rightarrow>
                  if and (if_flags ife) IFF_UP \<noteq> 0
                  then (s1, (fst c @ [interface_info E ife], storage_load (to_double E) (uptime_line E n) ife (snd c)), 0)
                  else (s1, c, res)
         else (s1, c, res))"

definition network_run ::
  "'d collector_env \<Rightarrow> net_interfaces \<Rightarrow> network_info list \<times> 'd storage \<Rightarrow>
     (net_interfaces \<times> (network_info list \<times> 'd storage)) result" where
  "network_run E s c = bind_r (collect (net E) (doit E) s c) (\<lambda>(s1, c1, err). Inr (s1, c1))"

section \<open>Lemmas\<close>

text \<open>A history of loads: the uptime line that is read and the interface.\<close>

definition load_all :: "(64 word \<Rightarrow> 'd) \<Rightarrow> (string option \<times> interface) list \<Rightarrow> 'd storage \<Rightarrow> 'd storage" where
  "load_all dbl evs s = fold (\<lambda>(line, ife). storage_load dbl line ife) evs s"

lemma load_all_simps [simp]:
  "load_all dbl [] s = s"
  "load_all dbl (evs @ [(line, ife)]) s = storage_load dbl line ife (load_all dbl evs s)"
  by (simp_all add: load_all_def)

lemma storage_load_caches:
  "caches (storage_load dbl line ife s) =
     smap_put (if_name ife)
       (load_entry dbl (get_interval (uptime_at (\<not> cur s) s) (read_uptime line (uptime_at (cur s) s))) (if_stats ife)
         (case map_of (caches s) (if_name ife) of None \<Rightarrow> net_cache_new dbl | Some c \<Rightarrow> c)) (caches s)"
  by (simp add: storage_load_def Let_def uptime_at_def)

lemma storage_load_clock:
  "uptime_at (\<not> cur (storage_load dbl line ife s)) (storage_load dbl line ife s) = read_uptime line (uptime_at (cur s) s)"
  by (simp add: storage_load_def Let_def uptime_at_def)

text \<open>The statistics of the last load of a device.\<close>

fun last_stats :: "string \<Rightarrow> (string option \<times> interface) list \<Rightarrow> net_stats" where
  "last_stats n [] = net_stats_zero"
| "last_stats n ((line, ife) # evs) =
     (if \<exists>(l, i)\<in>set evs. if_name i = n then last_stats n evs
      else if if_name ife = n then if_stats ife else net_stats_zero)"

lemma last_stats_none: "\<forall>(l, i)\<in>set evs. if_name i \<noteq> n \<Longrightarrow> last_stats n evs = net_stats_zero"
  by (induction evs) auto

lemma last_stats_snoc [simp]:
  "last_stats n (evs @ [(line, ife)]) = (if if_name ife = n then if_stats ife else last_stats n evs)"
  by (induction evs) (auto simp: last_stats_none)

definition cached :: "(64 word \<Rightarrow> 'd) \<Rightarrow> string \<Rightarrow> 'd storage \<Rightarrow> 'd net_cache" where
  "cached dbl n s = (case map_of (caches s) n of None \<Rightarrow> net_cache_new dbl | Some c \<Rightarrow> c)"

lemma cached_load:
  assumes "smap_ok (caches s)"
  shows "smap_ok (caches (storage_load dbl line ife s))"
    "cached dbl n (storage_load dbl line ife s) =
       (if if_name ife = n
        then load_entry dbl (get_interval (uptime_at (\<not> cur s) s) (read_uptime line (uptime_at (cur s) s))) (if_stats ife)
               (cached dbl n s)
        else cached dbl n s)"
  using assms by (auto simp: storage_load_caches cached_def smap_ok_put)

text \<open>What a cache entry holds is the last load of its device, but the bytes received twice.\<close>

lemma cached_history:
  "smap_ok (caches (load_all dbl evs storage_new)) \<and>
   c_rx_packets (cached dbl n (load_all dbl evs storage_new)) = st_rx_packets (last_stats n evs) \<and>
   c_tx_packets (cached dbl n (load_all dbl evs storage_new)) = st_tx_packets (last_stats n evs) \<and>
   c_rx_bytes (cached dbl n (load_all dbl evs storage_new)) = st_rx_bytes (last_stats n evs) \<and>
   c_tx_bytes (cached dbl n (load_all dbl evs storage_new)) = st_rx_bytes (last_stats n evs)"
proof (induction evs rule: rev_induct)
  case Nil
  then show ?case by (simp add: storage_new_def cached_def net_cache_new_def net_stats_zero_def)
next
  case (snoc ev evs)
  then show ?case
    by (cases ev) (auto simp: cached_load load_entry_def)
qed

section \<open>Properties\<close>

text \<open>The rates of a device after a load. The differences are to the device's own last load (for the
  bytes sent, to the bytes it had received), but they are divided by the time since the last load
  of any device: the second device of a round is divided by the milliseconds since the first.\<close>

lemma rates_since_any_load:
  assumes "uptime_value l1 = Some u1" "uptime_value l2 = Some u2"
    and "old = last_stats (if_name ife) (evs @ [(l1, ife1)])" "itv = get_interval u1 u2"
    and "c = cached dbl (if_name ife) (load_all dbl (evs @ [(l1, ife1), (l2, ife)]) storage_new)"
  shows "rx_packets_bps c = dbl ((st_rx_packets (if_stats ife) - st_rx_packets old) div itv) \<and>
         tx_packets_bps c = dbl ((st_tx_packets (if_stats ife) - st_tx_packets old) div itv) \<and>
         rx_bytes_bps c = dbl ((st_rx_bytes (if_stats ife) - st_rx_bytes old) div itv) \<and>
         tx_bytes_bps c = dbl ((st_tx_bytes (if_stats ife) - st_rx_bytes old) div itv)"
proof -
  let ?s0 = "load_all dbl evs storage_new" let ?s = "load_all dbl (evs @ [(l1, ife1)]) storage_new"
  have clock: "uptime_at (\<not> cur ?s) ?s = u1"
    by (simp add: storage_load_clock) (simp add: read_uptime_def assms(1))
  have up: "read_uptime l2 x = u2" for x by (simp add: read_uptime_def assms(2))
  note h = cached_history [of dbl "evs @ [(l1, ife1)]" "if_name ife"]
  have ok: "smap_ok (caches ?s)" using h by blast
  have "load_all dbl (evs @ [(l1, ife1), (l2, ife)]) storage_new = storage_load dbl l2 ife ?s"
    by (simp add: load_all_def)
  then have "c = load_entry dbl itv (if_stats ife) (cached dbl (if_name ife) ?s)"
    using assms(4,5) cached_load(2) [OF ok, of dbl "if_name ife" l2 ife] by (simp only: clock up if_True simp_thms)
  then show ?thesis using h by (simp add: load_entry_def assms(3))
qed

definition sample_iface :: "string \<Rightarrow> 64 word \<Rightarrow> 64 word \<Rightarrow> interface" where
  "sample_iface n rx tx =
     (interface_new n)\<lparr>if_stats := net_stats_zero\<lparr>st_rx_bytes := rx, st_tx_bytes := tx\<rparr>, statistics_valid := True\<rparr>"

lemma uptime_sample:
  "uptime_value (Some ''100.50 7'') = Some 10050" "uptime_value (Some ''100.51 7'') = Some 10051"
  "uptime_value (Some ''105.50 7'') = Some 10550"
  by (simp_all add: uptime_value_def scan_ulong_def Let_def is_space_def is_digit_def nat_of_digits_def digit_val_def
      ulong_max_def)

lemma rates_since_any_load_witness:
  "rx_bytes_bps (cached id ''eth1'' (load_all id
      [(Some ''100.50 7'', sample_iface ''eth1'' 1000 500), (Some ''105.50 7'', sample_iface ''eth0'' 9 9),
       (Some ''105.50 7'', sample_iface ''eth1'' 6000 1500)] storage_new)) = 5000 \<and>
   tx_bytes_bps (cached id ''eth1'' (load_all id
      [(Some ''100.50 7'', sample_iface ''eth1'' 1000 500), (Some ''105.50 7'', sample_iface ''eth0'' 9 9),
       (Some ''105.50 7'', sample_iface ''eth1'' 6000 1500)] storage_new)) = 500"
  using rates_since_any_load [OF uptime_sample(3) uptime_sample(3) refl refl refl,
      where dbl = id and evs = "[(Some ''100.50 7'', sample_iface ''eth1'' 1000 500)]"
        and ?ife1.0 = "sample_iface ''eth0'' 9 9" and ife = "sample_iface ''eth1'' 6000 1500"]
  by (simp add: sample_iface_def interface_new_def get_interval_def)

text \<open>The metric of the bytes sent reports the bytes received, for every device and every history.\<close>

lemma tx_bytes_metric_reports_rx:
  "loadTxBytesMetric dbl (load_all dbl evs storage_new) values = loadRxByteMetric dbl (load_all dbl evs storage_new) values"
proof -
  let ?s = "load_all dbl evs storage_new"
  have "c_tx_bytes c = c_rx_bytes c" if "(n, c) \<in> set (caches ?s)" for n c
  proof -
    have "distinct (map fst (caches ?s))" using cached_history [of dbl evs n] smap_ok_distinct by blast
    then have "map_of (caches ?s) n = Some c" using that by (rule map_of_is_SomeI)
    then show ?thesis using cached_history [of dbl evs n] by (simp add: cached_def)
  qed
  then show ?thesis
    unfolding loadTxBytesMetric_def loadRxByteMetric_def load_metric_def load_values_def
    by (intro if_cong refl arg_cong2 [where f = map] map_cong) (auto dest!: set_zip_rightD)
qed

text \<open>A device whose flags cannot be read ends the round.\<close>

lemma doit_gone:
  assumes "\<And>fd. get_flags (net E) fd n = None" "list_ok s"
  shows "\<exists>s1. doit E n s c = (s1, c, - 1)"
proof (cases "map_of (int_list s) n")
  case (Some ife)
  then have "if_name ife = n" using assms(2) by (auto simp: list_ok_def named_def dest!: map_of_SomeD)
  then show ?thesis using Some assms(1) by (simp add: doit_def net_fetch_def if_fetch_def)
qed (simp add: doit_def net_fetch_def)

lemma doit_effect:
  assumes "list_ok s"
  shows "list_ok (fst (doit E n s c)) \<and> map fst (int_list (fst (doit E n s c))) = map fst (int_list s) \<and>
    (fst (snd (doit E n s c)) = c \<or>
     (\<exists>ife. if_name ife = n \<and>
        fst (snd (doit E n s c)) = (fst c @ [interface_info E ife], storage_load (to_double E) (uptime_line E n) ife (snd c))))"
proof -
  obtain s1 res where f: "net_fetch (net E) n s = (s1, res)" by (cases "net_fetch (net E) n s")
  have s1: "list_ok s1" "map fst (int_list s1) = map fst (int_list s)"
    using net_fetch_ok [OF assms, of "net E" n] net_fetch_keys [of "net E" n s] by (simp_all add: f)
  have "if_name ife = n" if "map_of (int_list s1) n = Some ife" for ife
    using s1(1) that by (auto simp: list_ok_def named_def dest!: map_of_SomeD)
  then show ?thesis using s1 by (auto simp: doit_def f split: option.splits)
qed

definition frame_after :: "string list \<Rightarrow> network_info list \<times> 'd storage \<Rightarrow> network_info list \<times> 'd storage \<Rightarrow> bool" where
  "frame_after pre c c' \<longleftrightarrow>
     smap_ok (caches (snd c')) \<and>
     (\<exists>infos. fst c' = fst c @ infos \<and> (\<forall>i\<in>set infos. ni_name i \<in> set pre)) \<and>
     (\<forall>m. m \<notin> set pre \<longrightarrow> map_of (caches (snd c')) m = map_of (caches (snd c)) m)"

lemma frame_doit:
  assumes "list_ok s" "smap_ok (caches (snd c))" "n \<in> set pre"
  shows "frame_after pre c (fst (snd (doit E n s c)))"
  using doit_effect [OF assms(1), of E n c] assms(2,3)
  by (auto simp: frame_after_def storage_load_caches smap_ok_put interface_info_def)

lemma collect_stops:
  assumes "\<And>fd. get_flags (net E) fd n = None" "list_ok s" "smap_ok (caches (snd c))"
  shows "list_ok (fst (collect_loop (doit E) (pre @ n # post) s c)) \<and>
    map fst (int_list (fst (collect_loop (doit E) (pre @ n # post) s c))) = map fst (int_list s) \<and>
    frame_after pre c (fst (snd (collect_loop (doit E) (pre @ n # post) s c)))"
  using assms(2,3)
proof (induction pre arbitrary: s c)
  case Nil
  obtain s1 where "doit E n s c = (s1, c, - 1)" using doit_gone [OF assms(1) Nil.prems(1), of c] by blast
  then show ?case using doit_effect [OF Nil.prems(1), of E n c] Nil.prems(2) by (simp add: frame_after_def)
next
  case (Cons k pre)
  obtain s1 c1 err where d: "doit E k s c = (s1, c1, err)" by (cases "doit E k s c")
  have s1: "list_ok s1" "map fst (int_list s1) = map fst (int_list s)"
    using doit_effect [OF Cons.prems(1), of E k c] by (simp_all add: d)
  have f: "frame_after (k # pre) c c1" using frame_doit [OF Cons.prems, of k "k # pre" E] by (simp add: d)
  show ?case
  proof (cases "err = 0")
    case False
    then show ?thesis using s1 f by (simp add: d)
  next
    case True
    have "smap_ok (caches (snd c1))" using f by (simp add: frame_after_def)
    note ih = Cons.IH [OF s1(1) this]
    have "frame_after (k # pre) c (fst (snd (collect_loop (doit E) (pre @ n # post) s1 c1)))"
      using f ih by (fastforce simp: frame_after_def)
    then show ?thesis using ih s1(2) True by (simp add: d)
  qed
qed

text \<open>C26: an interface that has been listed and has since disappeared (a container's veth pair) ends every
  round: its flags cannot be read, it is never taken off the list, and no interface behind it in
  name order is reported or measured again.\<close>

theorem vanished_interface_blocks_rest:
  assumes "list_ok s" "smap_ok (caches (snd c))" "n \<in> fst ` set (int_list s)"
    and "\<And>fd. get_flags (net E) fd n = None" "network_run E s c = Inr (s', c')"
  shows "list_ok s' \<and> n \<in> fst ` set (int_list s') \<and>
    (\<exists>infos. fst c' = fst c @ infos \<and> (\<forall>i\<in>set infos. ni_name i < n)) \<and>
    (\<forall>m\<ge>n. map_of (caches (snd c')) m = map_of (caches (snd c)) m)"
proof -
  obtain err where run: "collect (net E) (doit E) s c = Inr (s', c', err)"
    using assms(5) by (auto simp: network_run_def cpp_simps)
  from collect_cases [OF run] obtain t where t: "int_list t = int_list s"
    and r: "s' = t \<and> c' = c \<or> (\<exists>s2 e. net_read (net E) t = Inr (s2, e) \<and>
        (s' = s2 \<and> c' = c \<or> (s', c', err) = collect_loop (doit E) (map fst (int_list s2)) s2 c))" by blast
  have t_ok: "list_ok t" by (rule list_ok_cong [OF assms(1) t])
  have idle: ?thesis if "list_grows t s'" "c' = c"
    using that assms(3) t by (auto simp: list_grows_def)
  from r show ?thesis
  proof (elim disjE exE conjE)
    assume "s' = t" "c' = c"
    then show ?thesis using idle t_ok by (simp add: list_grows_def)
  next
    fix s2 e assume s2: "net_read (net E) t = Inr (s2, e)" "s' = s2" "c' = c"
    then show ?thesis using idle net_read_grows [OF s2(1) t_ok] by simp
  next
    fix s2 e assume s2: "net_read (net E) t = Inr (s2, e)"
      and loop: "(s', c', err) = collect_loop (doit E) (map fst (int_list s2)) s2 c"
    have g: "list_ok s2" "n \<in> set (map fst (int_list s2))"
      using net_read_grows [OF s2 t_ok] assms(3) t by (auto simp: list_grows_def)
    obtain pre post where split: "map fst (int_list s2) = pre @ n # post" using split_list [OF g(2)] by blast
    have "sorted_wrt (<) (pre @ n # post)" using g(1) unfolding list_ok_def smap_ok_def split by blast
    then have less: "\<forall>k\<in>set pre. k < n" by (simp add: sorted_wrt_append)
    have s': "list_ok s'" "map fst (int_list s') = map fst (int_list s2)" "frame_after pre c c'"
      using collect_stops [OF assms(4) g(1) assms(2), of pre post] loop unfolding split by (metis fst_conv snd_conv)+
    then have "n \<in> fst ` set (int_list s')" using g(2) by (metis list.set_map)
    moreover obtain infos where infos: "fst c' = fst c @ infos" "\<forall>i\<in>set infos. ni_name i \<in> set pre"
      and rest: "\<forall>m. m \<notin> set pre \<longrightarrow> map_of (caches (snd c')) m = map_of (caches (snd c)) m"
      using s'(3) unfolding frame_after_def by blast
    moreover have "m \<notin> set pre" if "m \<ge> n" for m using less that by (auto simp: not_less [symmetric])
    ultimately show ?thesis using s'(1) less by (intro conjI exI [of _ infos]) blast+
  qed
qed

theorem vanished_interface_blocks_rest_witness:
  "\<exists>s' c'. network_run \<lparr>net = sample_net_env, to_double = id, uptime_line = (\<lambda>_. None), if_inet6 = None, sprint = (\<lambda>_. [])\<rparr>
       (sample_interfaces [''eth0'', ''veth1'', ''wlan0'']) ([], storage_new) = Inr (s', c') \<and>
     ''veth1'' \<in> fst ` set (int_list s') \<and> map_of (caches (snd c')) ''wlan0'' = None"
proof -
  let ?E = "\<lparr>net = sample_net_env, to_double = id :: 64 word \<Rightarrow> 64 word, uptime_line = (\<lambda>_. None), if_inet6 = None,
    sprint = (\<lambda>_. [])\<rparr>"
  let ?s = "sample_interfaces [''eth0'', ''veth1'', ''wlan0'']"
  have "readProc sample_net_env None ?s = Inr (?s\<lparr>procnetdevVsn := procnetdevVersion ''bytes compressed''\<rparr>, 0)"
    by (simp add: readProc_def sample_net_env_def)
  moreover have "readConfig sample_net_env (?s\<lparr>procnetdevVsn := v\<rparr>) =
      Inr (fold ifCacheAdd [''eth0'', ''lo''] (?s\<lparr>procnetdevVsn := v\<rparr>), 0)" for v
    by (rule readConfig_complete) (simp_all add: sample_interfaces_def aftypes_def sample_net_env_def AF_INET_def AF_UNIX_def)
  ultimately obtain s2 where read: "net_read sample_net_env ?s = Inr (s2, 0)"
    by (simp add: net_read_def del: fold_simps)
  have "?s\<lparr>afs := afs ?s, skfd := skfd ?s\<rparr> = ?s" "skfd ?s \<noteq> - 1" by (simp_all add: sample_interfaces_def)
  then have "collect sample_net_env (doit ?E) ?s c = Inr (collect_loop (doit ?E) (map fst (int_list s2)) s2 c)" for c
    by (simp add: collect_def read)
  then obtain s' c' where run: "network_run ?E ?s ([], storage_new) = Inr (s', c')"
    by (simp add: network_run_def case_prod_beta)
  have ok: "list_ok ?s"
    by (simp add: list_ok_def smap_ok_def named_def sample_interfaces_def interface_new_def)
  have "''veth1'' \<in> fst ` set (int_list ?s)" by (simp add: sample_interfaces_def)
  from vanished_interface_blocks_rest [OF ok _ this _ run] run
  show ?thesis by (auto simp: sample_net_env_def storage_new_def)
qed

end
