(* ===== verification/Parser_Util.thy ===== *)
theory Parser_Util
  imports C_Scan "HOL-Library.Sublist"
begin

text \<open>
  The helpers the /proc and cgroup readers share: app/include/common/parser.h. A \<open>string_view\<close> is
  its text; where \<open>strtol\<close> reads from \<open>data()\<close> it does not stop at the end of the view, so the
  text up to the end of the underlying buffer is an argument. Abseil's conversions and its split are
  parameters: a conversion yields whether it succeeded and what it left in the target. \<open>'d\<close> is the
  type of doubles.
\<close>

record 'd parse_env =
  SimpleAtoi_u64 :: "string \<Rightarrow> bool \<times> 64 word"
  SimpleAtoi_long :: "string \<Rightarrow> bool \<times> 64 word"
  SimpleAtoi_int :: "string \<Rightarrow> bool \<times> 32 word"
  SimpleAtod :: "string \<Rightarrow> bool \<times> 'd"
  strtod :: "string \<Rightarrow> 'd option"
  StrSplit :: "string \<Rightarrow> char \<Rightarrow> string list"

text \<open>The arithmetic of doubles the readers use.\<close>

record 'd double_ops =
  d_of_u64 :: "64 word \<Rightarrow> 'd"
  d_of_long :: "64 word \<Rightarrow> 'd"
  d_add :: "'d \<Rightarrow> 'd \<Rightarrow> 'd"
  d_sub :: "'d \<Rightarrow> 'd \<Rightarrow> 'd"
  d_mul :: "'d \<Rightarrow> 'd \<Rightarrow> 'd"
  d_div :: "'d \<Rightarrow> 'd \<Rightarrow> 'd"
  d_less :: "'d \<Rightarrow> 'd \<Rightarrow> bool"

section \<open>Numbers\<close>

text \<open>\<open>ConvertStr2Number\<close> for the three target types that occur: the result of \<open>strtol\<close> is cast, and
  on failure the target keeps its value.\<close>

definition ConvertStr2Number_u64 :: "'d parse_env \<Rightarrow> string \<Rightarrow> string \<Rightarrow> bool \<Rightarrow> 64 word \<Rightarrow> bool \<times> 64 word" where
  "ConvertStr2Number_u64 E str buf simple val =
     (if simple then SimpleAtoi_u64 E str
      else case strtol buf of None \<Rightarrow> (False, val) | Some r \<Rightarrow> (True, word_of_int r))"

definition ConvertStr2Number_int :: "'d parse_env \<Rightarrow> string \<Rightarrow> string \<Rightarrow> bool \<Rightarrow> 32 word \<Rightarrow> bool \<times> 32 word" where
  "ConvertStr2Number_int E str buf simple val =
     (if simple then SimpleAtoi_int E str
      else case strtol buf of None \<Rightarrow> (False, val) | Some r \<Rightarrow> (True, word_of_int r))"

definition ConvertStr2Number_double :: "'d parse_env \<Rightarrow> string \<Rightarrow> string \<Rightarrow> bool \<Rightarrow> 'd \<Rightarrow> bool \<times> 'd" where
  "ConvertStr2Number_double E str buf simple val =
     (if simple then SimpleAtod E str
      else case strtod E buf of None \<Rightarrow> (False, val) | Some r \<Rightarrow> (True, r))"

section \<open>Keys\<close>

text \<open>The text behind the first occurrence of a key.\<close>

definition after_key :: "string \<Rightarrow> string \<Rightarrow> string option" where
  "after_key content key = map_option (\<lambda>pos. drop (pos + length key) content) (find_sub key content)"

definition is_blank :: "char \<Rightarrow> bool" where
  "is_blank c \<longleftrightarrow> c = CHR '' '' \<or> c = CHR 0x09"

definition newline :: char where "newline = CHR 0x0A"

definition value_text :: "string \<Rightarrow> string \<Rightarrow> string option" where
  "value_text content key = map_option (dropWhile is_blank) (after_key content key)"

definition first_line :: "string \<Rightarrow> string" where
  "first_line s = takeWhile (\<lambda>c. c \<noteq> newline) s"

text \<open>\<open>ParseKeyVal\<close> wants a line end behind the value, \<open>ReadKeyVal\<close> does not. \<open>conv\<close> is the conversion for
  the type of the target.\<close>

definition ParseKeyVal ::
  "(string \<Rightarrow> string \<Rightarrow> bool \<Rightarrow> 'v \<Rightarrow> bool \<times> 'v) \<Rightarrow> string \<Rightarrow> string \<Rightarrow> bool \<Rightarrow> 'v \<Rightarrow> bool \<times> 'v" where
  "ParseKeyVal conv content key simple val =
     (case value_text content key of
        None \<Rightarrow> (False, val)
      | Some rest \<Rightarrow> if newline \<notin> set rest then (False, val) else conv (first_line rest) rest simple val)"

definition ReadKeyVal ::
  "(string \<Rightarrow> string \<Rightarrow> bool \<Rightarrow> 'v \<Rightarrow> bool \<times> 'v) \<Rightarrow> string \<Rightarrow> string \<Rightarrow> bool \<Rightarrow> bool \<Rightarrow> 'v \<Rightarrow> bool \<times> 'v" where
  "ReadKeyVal conv content key simple required val =
     (case value_text content key of
        None \<Rightarrow> (\<not> required, val)
      | Some rest \<Rightarrow> conv (first_line rest) rest simple val)"

definition take_string :: "string \<Rightarrow> string \<Rightarrow> bool \<Rightarrow> string \<Rightarrow> bool \<times> string" where
  "take_string str buf simple val = (True, str)"

text \<open>A field of a structure as the target, and a list of them: the first required one that fails ends
  the parse.\<close>

definition into :: "('s \<Rightarrow> 'v) \<Rightarrow> ('v \<Rightarrow> 's \<Rightarrow> 's) \<Rightarrow> ('v \<Rightarrow> bool \<times> 'v) \<Rightarrow> 's \<Rightarrow> bool \<times> 's" where
  "into get_field set_field parse s = (let (ok, v) = parse (get_field s) in (ok, set_field v s))"

fun parse_all :: "(('s \<Rightarrow> bool \<times> 's) \<times> bool) list \<Rightarrow> 's \<Rightarrow> bool \<times> 's" where
  "parse_all [] s = (True, s)"
| "parse_all ((parse, required) # rest) s =
     (let (ok, s1) = parse s in if \<not> ok \<and> required then (False, s1) else parse_all rest s1)"

section \<open>Lemmas\<close>

lemma after_key_Nil: "after_key [] key = (if key = [] then Some [] else None)"
  by (cases key) (simp_all add: after_key_def)

lemma after_key_Cons:
  "after_key (c # cs) key = (if starts_with key (c # cs) then Some (drop (length key) (c # cs)) else after_key cs key)"
  by (simp add: after_key_def option.map_comp comp_def)

text \<open>A piece that does not contain the first character of the key is skipped.\<close>

lemma after_key_skip: "key \<noteq> [] \<Longrightarrow> hd key \<notin> set ds \<Longrightarrow> after_key (ds @ s) key = after_key s key"
proof (induction ds)
  case (Cons d ds)
  then have "\<not> starts_with key (d # ds @ s)" by (cases key) auto
  then show ?case using Cons by (simp add: after_key_Cons)
qed simp

lemma after_key_here: "after_key (key @ s) key = Some s"
proof -
  have "find_sub key t = Some 0" if "starts_with key t" for t
    using that by (cases t) auto
  from this [of "key @ s"] show ?thesis by (simp add: after_key_def)
qed

lemma first_line_append: "newline \<notin> set v \<Longrightarrow> first_line (v @ newline # s) = v"
  unfolding first_line_def by (subst takeWhile_append2) auto

lemma strtol_dec:
  "n \<le> 2 ^ 63 - 1 \<Longrightarrow> rest = [] \<or> \<not> is_digit (hd rest) \<Longrightarrow> strtol (dec_of_nat n @ rest) = Some (int n)"
  using scan_int_digits [of "dec_of_nat n" rest] dec_of_nat_digits [of n]
  by (simp add: strtol_def clamp_long_def long_max_def long_min_def)

lemma dec_not_blank: "\<not> is_blank (hd (dec_of_nat n))"
proof -
  obtain d ds where "dec_of_nat n = d # ds" by (cases "dec_of_nat n") auto
  then have "is_digit (hd (dec_of_nat n))" using dec_of_nat_digits [of n] by simp
  then show ?thesis by (auto simp: is_blank_def is_digit_def)
qed

lemma dropWhile_blank_dec:
  "\<forall>c\<in>set b. is_blank c \<Longrightarrow> dropWhile is_blank (b @ dec_of_nat n @ rest) = dec_of_nat n @ rest"
proof (induction b)
  case Nil
  then show ?case using dec_not_blank [of n] by (cases "dec_of_nat n") auto
qed simp

text \<open>A number behind a key is read whichever way it is asked for.\<close>

lemma ReadKeyVal_dec:
  assumes "after_key content key = Some (b @ dec_of_nat n @ rest)" "\<forall>c\<in>set b. is_blank c" "n \<le> 2 ^ 63 - 1"
    and "rest = [] \<or> \<not> is_digit (hd rest)"
  shows "ReadKeyVal (ConvertStr2Number_u64 E) content key False required val = (True, of_nat n)"
  using strtol_dec [OF assms(3,4)]
  by (simp add: ReadKeyVal_def value_text_def assms(1) dropWhile_blank_dec [OF assms(2)] ConvertStr2Number_u64_def)

text \<open>A required field holds what its own parser read, when the parsers behind it leave it alone.\<close>

lemma parse_all_keeps:
  "parse_all ys s = (True, r) \<Longrightarrow> \<forall>(q, b)\<in>set ys. \<forall>s. get_field (snd (q s)) = get_field s \<Longrightarrow> get_field r = get_field s"
proof (induction ys arbitrary: s)
  case (Cons y ys)
  obtain q b where y: "y = (q, b)" by (cases y)
  obtain ok s1 where q: "q s = (ok, s1)" by (cases "q s")
  have "get_field (snd (q s)) = get_field s" using Cons.prems(2) unfolding y by simp
  then have s1: "get_field s1 = get_field s" unfolding q by simp
  have "parse_all ys s1 = (True, r)" using Cons.prems(1) y q by (simp split: if_splits)
  then show ?case using Cons.IH [of s1] Cons.prems(2) s1 by simp
qed simp

lemma parse_all_field:
  assumes "parse_all (xs @ (into get_field set_field p, True) # ys) s = (True, r)"
    and "\<forall>(q, b)\<in>set ys. \<forall>s. get_field (snd (q s)) = get_field s" "\<And>v s. get_field (set_field v s) = v"
  shows "\<exists>old. p old = (True, get_field r)"
  using assms(1)
proof (induction xs arbitrary: s)
  case Nil
  obtain ok v where p: "p (get_field s) = (ok, v)" by (cases "p (get_field s)")
  then have "ok" "parse_all ys (set_field v s) = (True, r)" using Nil by (auto simp: into_def split: if_splits)
  then have "get_field r = v" using parse_all_keeps [OF _ assms(2)] assms(3) by metis
  then show ?case using p \<open>ok\<close> by auto
next
  case (Cons q xs)
  obtain f b where "q = (f, b)" by (cases q)
  moreover obtain ok s1 where "f s = (ok, s1)" by (cases "f s")
  ultimately show ?case using Cons by (auto split: if_splits)
qed

section \<open>Files of lines "key: value"\<close>

text \<open>/proc/meminfo, /proc/<pid>/status and /proc/<pid>/io. A key is found at the first line whose key ends
  with it, not at the line it names.\<close>

type_synonym kv_line = "string \<times> string"

definition render_line :: "kv_line \<Rightarrow> string" where
  "render_line l = fst l @ CHR '':'' # snd l @ [newline]"

definition render_lines :: "kv_line list \<Rightarrow> string" where
  "render_lines ls = concat (map render_line ls)"

definition plain :: "string \<Rightarrow> bool" where
  "plain s \<longleftrightarrow> CHR '':'' \<notin> set s \<and> newline \<notin> set s"

definition plain_lines :: "kv_line list \<Rightarrow> bool" where
  "plain_lines ls \<longleftrightarrow> (\<forall>(k, v)\<in>set ls. plain k \<and> plain v)"

fun lookup_from :: "string \<Rightarrow> kv_line list \<Rightarrow> (string \<times> kv_line list) option" where
  "lookup_from k [] = None"
| "lookup_from k ((k', v) # ls) = (if suffix k k' then Some (v, ls) else lookup_from k ls)"

definition line_value :: "string \<Rightarrow> kv_line list \<Rightarrow> string option" where
  "line_value k ls = map_option fst (lookup_from k ls)"

lemma render_lines_simps [simp]:
  "render_lines [] = []"
  "render_lines (l # ls) = fst l @ CHR '':'' # snd l @ newline # render_lines ls"
  by (simp_all add: render_lines_def render_line_def)

lemma plain_lines_simps [simp]:
  "plain_lines []" "plain_lines ((k, v) # ls) \<longleftrightarrow> plain k \<and> plain v \<and> plain_lines ls"
  by (simp_all add: plain_lines_def)

lemma newline_not_colon [simp]: "newline \<noteq> CHR '':''" "CHR '':'' \<noteq> newline"
  by (simp_all add: newline_def)

lemma starts_with_colon:
  assumes "starts_with (k @ CHR '':'' # t) (ds @ c # s)" "CHR '':'' \<notin> set k" "CHR '':'' \<notin> set ds" "c \<notin> set k"
  shows "c = CHR '':'' \<and> k = ds"
  using assms
proof (induction k arbitrary: ds)
  case Nil
  then show ?case by (cases ds) auto
next
  case (Cons a k)
  then show ?case by (cases ds) auto
qed

lemma after_key_value:
  assumes "plain k" "plain v"
  shows "after_key (v @ newline # s) (k @ '':'') = after_key s (k @ '':'')"
  using assms(2)
proof (induction v)
  case Nil
  have "\<not> starts_with (k @ '':'') (newline # s)"
    using starts_with_colon [of k "[]" "[]" newline s] assms(1) by (auto simp: plain_def)
  then show ?case by (simp add: after_key_Cons)
next
  case (Cons a v)
  have "\<not> starts_with (k @ '':'') ((a # v) @ newline # s)"
    using starts_with_colon [of k "[]" "a # v" newline s] assms(1) Cons.prems by (auto simp: plain_def)
  then show ?case using Cons by (simp add: after_key_Cons plain_def)
qed

lemma after_key_key:
  assumes "plain k" "plain k'"
  shows "after_key (k' @ CHR '':'' # s) (k @ '':'') = (if suffix k k' then Some s else after_key s (k @ '':''))"
  using assms(2)
proof (induction k')
  case Nil
  show ?case
  proof (cases "k = []")
    case False
    then have "\<not> starts_with (k @ '':'') (CHR '':'' # s)"
      using assms(1) by (cases k) (auto simp: plain_def)
    then show ?thesis using False by (simp add: after_key_Cons)
  qed (simp add: after_key_Cons)
next
  case (Cons a k')
  show ?case
  proof (cases "k = a # k'")
    case True
    then show ?thesis using after_key_here [of "k @ '':''" s] by simp
  next
    case False
    then have "\<not> starts_with (k @ '':'') ((a # k') @ CHR '':'' # s)"
      using starts_with_colon [of k "[]" "a # k'" "CHR '':''" s] assms(1) Cons.prems by (auto simp: plain_def)
    then show ?thesis using Cons False by (simp add: after_key_Cons plain_def suffix_Cons)
  qed
qed

lemma after_key_lines:
  "plain k \<Longrightarrow> plain_lines ls \<Longrightarrow>
     after_key (render_lines ls) (k @ '':'') =
       map_option (\<lambda>(v, rest). v @ newline # render_lines rest) (lookup_from k ls)"
proof (induction ls)
  case (Cons l ls)
  then show ?case
    by (cases l) (simp add: after_key_key after_key_value)
qed (simp add: after_key_Nil)

text \<open>A number as the kernel prints it behind a key: blanks, digits, and perhaps a unit.\<close>

definition prints :: "nat \<Rightarrow> string \<Rightarrow> bool" where
  "prints n v \<longleftrightarrow> (\<exists>b u. v = b @ dec_of_nat n @ u \<and> (\<forall>c\<in>set b. is_blank c) \<and> (u = [] \<or> \<not> is_digit (hd u)))"

lemma newline_not_digit: "\<not> is_digit newline"
  by (simp add: newline_def is_digit_def)

lemma ReadKeyVal_line:
  assumes "plain k" "plain_lines ls" "line_value k ls = Some v" "prints n v" "n \<le> 2 ^ 63 - 1"
  shows "ReadKeyVal (ConvertStr2Number_u64 E) (render_lines ls) (k @ '':'') False required val = (True, of_nat n)"
proof -
  obtain rest where l: "lookup_from k ls = Some (v, rest)"
    using assms(3) by (auto simp: line_value_def)
  obtain b u where v: "v = b @ dec_of_nat n @ u" "\<forall>c\<in>set b. is_blank c" "u = [] \<or> \<not> is_digit (hd u)"
    using assms(4) by (auto simp: prints_def)
  have *: "after_key (render_lines ls) (k @ '':'') = Some (b @ dec_of_nat n @ u @ newline # render_lines rest)"
    using after_key_lines [OF assms(1,2)] l v(1) by simp
  have "u @ newline # render_lines rest = [] \<or> \<not> is_digit (hd (u @ newline # render_lines rest))"
    using v(3) newline_not_digit by (cases u) auto
  from ReadKeyVal_dec [OF * v(2) assms(5) this] show ?thesis .
qed

lemma ParseKeyVal_lines:
  assumes "plain k" "plain_lines ls" "lookup_from k ls = Some (v, rest)"
  shows "ParseKeyVal conv (render_lines ls) (k @ '':'') simple val =
           conv (dropWhile is_blank v) (dropWhile is_blank v @ newline # render_lines rest) simple val"
proof -
  have sub: "lookup_from k ls = Some (v, rest) \<Longrightarrow> plain_lines ls \<Longrightarrow> plain v" for ls
    by (induction ls) (auto split: if_splits)
  have v: "plain v" using sub assms(2,3) by blast
  have nb: "\<not> is_blank newline" by (simp add: is_blank_def newline_def)
  have d: "dropWhile is_blank (v @ newline # t) = dropWhile is_blank v @ newline # t" for t
    using nb by (induction v) auto
  have n: "newline \<notin> set (dropWhile is_blank v)"
    using v set_dropWhileD by (fastforce simp: plain_def)
  show ?thesis
    using after_key_lines [OF assms(1,2)] assms(3)
    by (simp add: ParseKeyVal_def value_text_def d first_line_append [OF n])
qed

section \<open>Laws of the library, and an instance of it\<close>

text \<open>Abseil documents that a split at a character yields one piece more than the text has of it.\<close>

definition split_law :: "'d parse_env \<Rightarrow> bool" where
  "split_law N \<longleftrightarrow> (\<forall>s c. length (StrSplit N s c) = Suc (count_list s c))"

text \<open>What Abseil documents of the split of joined pieces and of decimal numbers.\<close>

fun join :: "char \<Rightarrow> string list \<Rightarrow> string" where
  "join c [] = []"
| "join c [p] = p"
| "join c (p # ps) = p @ c # join c ps"

definition join_law :: "'d parse_env \<Rightarrow> bool" where
  "join_law N \<longleftrightarrow> (\<forall>c ps. ps \<noteq> [] \<longrightarrow> (\<forall>p\<in>set ps. c \<notin> set p) \<longrightarrow> StrSplit N (join c ps) c = ps)"

definition decimal_law :: "'d parse_env \<Rightarrow> bool" where
  "decimal_law N \<longleftrightarrow> (\<forall>n<2 ^ 63. SimpleAtoi_long N (dec_of_nat n) = (True, of_nat n))"

fun split_on :: "char \<Rightarrow> string \<Rightarrow> string list" where
  "split_on c [] = [[]]"
| "split_on c (x # xs) =
     (if x = c then [] # split_on c xs
      else case split_on c xs of [] \<Rightarrow> [[x]] | y # ys \<Rightarrow> (x # y) # ys)"

lemma length_split_on: "length (split_on c s) = Suc (count_list s c)"
  by (induction s) (auto split: list.splits)

definition read_number :: "string \<Rightarrow> bool \<times> 'w::len word" where
  "read_number s = (case scan_int s of None \<Rightarrow> (False, 0) | Some n \<Rightarrow> (True, word_of_int n))"

definition sample_parse_env :: "int parse_env" where
  "sample_parse_env =
     \<lparr>SimpleAtoi_u64 = read_number, SimpleAtoi_long = read_number, SimpleAtoi_int = read_number,
      SimpleAtod = (\<lambda>s. case scan_int s of None \<Rightarrow> (False, 0) | Some n \<Rightarrow> (True, n)), strtod = scan_int,
      StrSplit = (\<lambda>s c. split_on c s)\<rparr>"

definition int_doubles :: "int double_ops" where
  "int_doubles = \<lparr>d_of_u64 = uint, d_of_long = sint, d_add = (+), d_sub = (-), d_mul = (*), d_div = (div), d_less = (<)\<rparr>"

lemma split_on_piece: "c \<notin> set p \<Longrightarrow> split_on c p = [p]"
  by (induction p) auto

lemma split_on_append: "c \<notin> set p \<Longrightarrow> split_on c (p @ c # s) = p # split_on c s"
  by (induction p) auto

lemma split_on_join: "ps \<noteq> [] \<Longrightarrow> \<forall>p\<in>set ps. c \<notin> set p \<Longrightarrow> split_on c (join c ps) = ps"
  by (induction c ps rule: join.induct) (auto simp: split_on_piece split_on_append)

lemma sample_laws:
  "split_law sample_parse_env" "join_law sample_parse_env" "decimal_law sample_parse_env"
  by (auto simp: split_law_def join_law_def decimal_law_def sample_parse_env_def length_split_on split_on_join
      read_number_def)

end
