(* ===== verification/Proc_Reader.thy ===== *)
theory Proc_Reader
  imports Parser_Util
begin

text \<open>
  The reader of /proc: app/include/source/host/collector/process/proc_reader.h and
  app/source/source/host/collector/process/proc_reader.cc. The messages of the payload repository are
  records of the fields the reader sets; a field holds the value it was set to, since its declared
  type is not in this repository. Files, links, user names, the clocks, the directory /proc, the
  page size, the clock ticks and the GPU usage are parameters.
\<close>

section \<open>Data\<close>

record cpu_times =
  ct_user :: "64 word"
  ct_nice :: "64 word"
  ct_system :: "64 word"
  ct_idle :: "64 word"
  ct_iowait :: "64 word"
  ct_irq :: "64 word"
  ct_softirq :: "64 word"
  ct_steal :: "64 word"

record stat_info =
  boot_time :: "64 word"
  cpu_time :: cpu_times

definition cpu_times_new :: cpu_times where
  "cpu_times_new = \<lparr>ct_user = 0, ct_nice = 0, ct_system = 0, ct_idle = 0, ct_iowait = 0, ct_irq = 0,
     ct_softirq = 0, ct_steal = 0\<rparr>"

definition stat_info_new :: stat_info where
  "stat_info_new = \<lparr>boot_time = 0, cpu_time = cpu_times_new\<rparr>"

definition CPUIdleTime :: "cpu_times \<Rightarrow> 64 word" where
  "CPUIdleTime t = ct_idle t + ct_iowait t"

definition CPUNonIdleTime :: "cpu_times \<Rightarrow> 64 word" where
  "CPUNonIdleTime t = ct_user t + ct_nice t + ct_system t + ct_irq t + ct_softirq t + ct_steal t"

definition CPUTotalTime :: "cpu_times \<Rightarrow> 64 word" where
  "CPUTotalTime t = CPUIdleTime t + CPUNonIdleTime t"

record proc_memory_info =
  pm_total :: "64 word"
  pm_free :: "64 word"
  pm_cached :: "64 word"
  pm_buffers :: "64 word"

definition proc_memory_info_new :: proc_memory_info where
  "proc_memory_info_new = \<lparr>pm_total = 0, pm_free = 0, pm_cached = 0, pm_buffers = 0\<rparr>"

definition memory_used :: "proc_memory_info \<Rightarrow> 64 word" where
  "memory_used i = pm_total i - pm_free i - pm_cached i - pm_buffers i"

record process_status =
  ps_ppid :: "32 word"
  ps_uid :: "32 word"
  ps_gid :: "32 word"
  ps_fd_size :: "32 word"
  ps_nonvoluntary :: "32 word"
  ps_voluntary :: "32 word"
  ps_num_threads :: "32 word"
  ps_swap :: "64 word"
  ps_kthread :: "32 word"
  ps_name :: string
  ps_username :: string
  ps_state :: string

definition process_status_new :: process_status where
  "process_status_new =
     \<lparr>ps_ppid = 0, ps_uid = 0, ps_gid = 0, ps_fd_size = 0, ps_nonvoluntary = 0, ps_voluntary = 0,
      ps_num_threads = 0, ps_swap = 0, ps_kthread = 0, ps_name = [], ps_username = [], ps_state = []\<rparr>"

record 'd process_stat =
  st_running_time :: 'd
  st_utime :: "64 word"
  st_stime :: "64 word"
  st_nice :: "32 word"

record process_io =
  io_read_bytes :: "64 word"
  io_write_bytes :: "64 word"

record 'd load_avg_info =
  avg_1 :: 'd
  avg_5 :: 'd
  avg_15 :: 'd
  la_running :: "32 word"
  la_total :: "32 word"

record net_dev_info =
  nd_name :: string
  nd_rx_bytes :: "64 word"
  nd_rx_packets :: "64 word"
  nd_tx_bytes :: "64 word"
  nd_tx_packets :: "64 word"

fun rx_bytes_total :: "net_dev_info list \<Rightarrow> 64 word" where
  "rx_bytes_total [] = 0"
| "rx_bytes_total (d # ds) = nd_rx_bytes d + rx_bytes_total ds"

fun tx_bytes_total :: "net_dev_info list \<Rightarrow> 64 word" where
  "tx_bytes_total [] = 0"
| "tx_bytes_total (d # ds) = nd_tx_bytes d + tx_bytes_total ds"

text \<open>The message of a process.\<close>

datatype process_state = Unknown | Running | Sleeping | Uninterruptible | Traced | Zombie

record gpu_usage =
  gp_memory :: "32 word"
  gp_sm_util :: "32 word"
  gp_enc_util :: "32 word"
  gp_dec_util :: "32 word"

record 'd memory_usage =
  mu_vm_size :: "64 word"
  mu_resident :: "64 word"
  mu_shared :: "64 word"
  mu_text :: "64 word"
  mu_lib :: "64 word"
  mu_data :: "64 word"
  mu_dirty :: "64 word"
  mu_vm_pct :: "'d option"
  mu_rss_pct :: "'d option"

definition memory_usage_new :: "'d memory_usage" where
  "memory_usage_new =
     \<lparr>mu_vm_size = 0, mu_resident = 0, mu_shared = 0, mu_text = 0, mu_lib = 0, mu_data = 0, mu_dirty = 0,
      mu_vm_pct = None, mu_rss_pct = None\<rparr>"

record 'd process_info =
  pi_pid :: "32 word"
  pi_status :: "process_status option"
  pi_state :: process_state
  pi_user_name :: string
  pi_kernel_thread :: bool
  pi_memory :: "'d memory_usage option"
  pi_read_bytes :: "64 word"
  pi_write_bytes :: "64 word"
  pi_io_rates :: "('d \<times> 'd) option"
  pi_start_time :: "'d option"
  pi_running_time :: "'d option"
  pi_user_time :: "64 word"
  pi_system_time :: "64 word"
  pi_cpu_pct :: "('d \<times> 'd \<times> 'd) option"
  pi_container_id :: string
  pi_cmdline :: string
  pi_path :: string
  pi_work_dir :: string
  pi_gpu :: "gpu_usage option"

text \<open>The fields \<open>set_name\<close> to \<open>set_threads_num\<close> are set together from the status and are kept as it;
  a double that was never set is \<open>None\<close>.\<close>

definition process_info_new :: "'d process_info" where
  "process_info_new =
     \<lparr>pi_pid = 0, pi_status = None, pi_state = Unknown, pi_user_name = [], pi_kernel_thread = False,
      pi_memory = None, pi_read_bytes = 0, pi_write_bytes = 0, pi_io_rates = None, pi_start_time = None,
      pi_running_time = None, pi_user_time = 0, pi_system_time = 0, pi_cpu_pct = None, pi_container_id = [],
      pi_cmdline = [], pi_path = [], pi_work_dir = [], pi_gpu = None\<rparr>"

record 'd process_sample =
  io_sample_ts :: "64 word"
  cpu_sample_ts :: "64 word"
  sample_process :: "'d process_info"

definition IODiffInSeconds :: "'d process_sample \<Rightarrow> 'd process_sample \<Rightarrow> 64 word" where
  "IODiffInSeconds s other = io_sample_ts s - io_sample_ts other"

definition CPUDiffInSeconds :: "'d process_sample \<Rightarrow> 'd process_sample \<Rightarrow> 64 word" where
  "CPUDiffInSeconds s other = cpu_sample_ts s - cpu_sample_ts other"

text \<open>What the reader asks of the system. \<open>monotonic\<close> is the clock when the file of that path has been
  read; \<open>diff_field\<close> subtracts a field of a message, at the width it has there, and converts the
  difference to a double.\<close>

record 'd proc_env =
  numbers :: "'d parse_env"
  doubles :: "'d double_ops"
  read_file :: "string \<Rightarrow> string option"
  read_link :: "string \<Rightarrow> string option"
  getpwuid_r :: "32 word \<Rightarrow> string option"
  kPageSize :: "64 word"
  kClockTicksPerSecond :: "64 word"
  wall_clock :: "64 word"
  monotonic :: "string \<Rightarrow> 64 word"
  diff_field :: "64 word \<Rightarrow> 64 word \<Rightarrow> 'd"

section \<open>/proc/<pid>/status\<close>

definition GetProcessState :: "string \<Rightarrow> process_state" where
  "GetProcessState s =
     (if s = [] then Unknown
      else case map_of [(CHR ''R'', Running), (CHR ''S'', Sleeping), (CHR ''D'', Uninterruptible),
                        (CHR ''T'', Traced), (CHR ''Z'', Zombie)] (hd s) of
             None \<Rightarrow> Unknown
           | Some st \<Rightarrow> st)"

definition GetUsernameFromUID :: "'d proc_env \<Rightarrow> 32 word \<Rightarrow> string" where
  "GetUsernameFromUID E uid = (case getpwuid_r E uid of None \<Rightarrow> [] | Some n \<Rightarrow> n)"

definition conv_int :: "'d proc_env \<Rightarrow> string \<Rightarrow> string \<Rightarrow> bool \<Rightarrow> 32 word \<Rightarrow> bool \<times> 32 word" where
  "conv_int E = ConvertStr2Number_int (numbers E)"

definition conv_u64 :: "'d proc_env \<Rightarrow> string \<Rightarrow> string \<Rightarrow> bool \<Rightarrow> 64 word \<Rightarrow> bool \<times> 64 word" where
  "conv_u64 E = ConvertStr2Number_u64 (numbers E)"

definition status_parse_list ::
  "'d proc_env \<Rightarrow> string \<Rightarrow> ((process_status \<Rightarrow> bool \<times> process_status) \<times> bool) list" where
  "status_parse_list E content =
     [(into ps_name (\<lambda>v s. s\<lparr>ps_name := v\<rparr>) (ParseKeyVal take_string content ''Name:'' False), True),
      (into ps_ppid (\<lambda>v s. s\<lparr>ps_ppid := v\<rparr>) (ParseKeyVal (conv_int E) content ''PPid:'' False), True),
      (into ps_uid (\<lambda>v s. s\<lparr>ps_uid := v\<rparr>) (ParseKeyVal (conv_int E) content ''Uid:'' False), True),
      (into ps_gid (\<lambda>v s. s\<lparr>ps_gid := v\<rparr>) (ParseKeyVal (conv_int E) content ''Gid:'' False), True),
      (into ps_state (\<lambda>v s. s\<lparr>ps_state := v\<rparr>) (ParseKeyVal take_string content ''State:'' False), True),
      (into ps_fd_size (\<lambda>v s. s\<lparr>ps_fd_size := v\<rparr>) (ParseKeyVal (conv_int E) content ''FDSize:'' False), True),
      (into ps_nonvoluntary (\<lambda>v s. s\<lparr>ps_nonvoluntary := v\<rparr>)
         (ParseKeyVal (conv_int E) content ''nonvoluntary_ctxt_switches:'' False), True),
      (into ps_voluntary (\<lambda>v s. s\<lparr>ps_voluntary := v\<rparr>)
         (ParseKeyVal (conv_int E) content ''voluntary_ctxt_switches:'' False), True),
      (into ps_num_threads (\<lambda>v s. s\<lparr>ps_num_threads := v\<rparr>) (ParseKeyVal (conv_int E) content ''Threads:'' False), True),
      (into ps_swap (\<lambda>v s. s\<lparr>ps_swap := v\<rparr>) (ParseKeyVal (conv_u64 E) content ''VmSwap:'' False), False),
      (into ps_kthread (\<lambda>v s. s\<lparr>ps_kthread := v\<rparr>) (ParseKeyVal (conv_int E) content ''Kthread:'' False), False)]"

definition ParseProcessStatus :: "'d proc_env \<Rightarrow> string \<Rightarrow> process_status \<Rightarrow> bool \<times> process_status" where
  "ParseProcessStatus E content result =
     (let (ok, r) = parse_all (status_parse_list E content) result
      in if ok then (True, r\<lparr>ps_username := GetUsernameFromUID E (ps_uid r)\<rparr>) else (False, r))"

definition status_to_info :: "'d proc_env \<Rightarrow> string \<Rightarrow> 'd process_info \<Rightarrow> bool \<times> 'd process_info" where
  "status_to_info E content info =
     (let (ok, r) = ParseProcessStatus E content process_status_new
      in if \<not> ok then (False, info)
         else (True, info\<lparr>pi_status := Some r, pi_state := GetProcessState (ps_state r),
                         pi_user_name := GetUsernameFromUID E (ps_uid r),
                         pi_kernel_thread := (ps_kthread r = 1)\<rparr>))"

section \<open>/proc/<pid>/statm\<close>

fun statm_values :: "'d proc_env \<Rightarrow> string list \<Rightarrow> 64 word list option" where
  "statm_values E [] = Some []"
| "statm_values E (f # fs) =
     (let (ok, v) = SimpleAtoi_long (numbers E) f
      in if \<not> ok then None else map_option ((#) (v * kPageSize E)) (statm_values E fs))"

definition ParseProcessStatm ::
  "'d proc_env \<Rightarrow> 64 word \<Rightarrow> string \<Rightarrow> 'd memory_usage \<Rightarrow> bool \<times> 'd memory_usage" where
  "ParseProcessStatm E total_memory content mu =
     (let fl = StrSplit (numbers E) content CHR '' '' in
      if length fl \<noteq> 7 then (False, mu)
      else case statm_values E fl of
             None \<Rightarrow> (False, mu)
           | Some b \<Rightarrow>
               let mu1 = mu\<lparr>mu_vm_size := b ! 0, mu_resident := b ! 1, mu_shared := b ! 2, mu_text := b ! 3,
                            mu_lib := b ! 4, mu_data := b ! 5, mu_dirty := b ! 6\<rparr>;
                   pct = (\<lambda>v. d_div (doubles E) (d_of_long (doubles E) v) (d_of_u64 (doubles E) total_memory))
               in (True, if total_memory > 0 then mu1\<lparr>mu_vm_pct := Some (pct (b ! 0)), mu_rss_pct := Some (pct (b ! 1))\<rparr>
                         else mu1))"

section \<open>/proc/uptime, /proc/loadavg and /proc/stat\<close>

definition ParseUptime :: "'d proc_env \<Rightarrow> string \<Rightarrow> ('d \<times> 'd) option" where
  "ParseUptime E content =
     (let fl = StrSplit (numbers E) content CHR '' '' in
      if length fl \<noteq> 2 then None
      else let (ok1, up) = SimpleAtod (numbers E) (fl ! 0);
               (ok2, idle) = SimpleAtod (numbers E) (fl ! 1)
           in if ok1 \<and> ok2 then Some (up, idle) else None)"

definition GetUptime :: "'d proc_env \<Rightarrow> 'd option" where
  "GetUptime E =
     (case read_file E ''/proc/uptime'' of
        None \<Rightarrow> None
      | Some content \<Rightarrow> map_option fst (ParseUptime E content))"

text \<open>The text from field \<open>i\<close> on, where the library conversions that ignore the end of a view read.\<close>

definition field_buf :: "string \<Rightarrow> string list \<Rightarrow> nat \<Rightarrow> string" where
  "field_buf content fl i = drop (sum_list (map (\<lambda>f. length f + 1) (take i fl))) content"

definition ParseLoadavg :: "'d proc_env \<Rightarrow> string \<Rightarrow> 'd load_avg_info \<Rightarrow> bool \<times> 'd load_avg_info" where
  "ParseLoadavg E content result =
     (let N = numbers E; fl = StrSplit N content CHR '' '' in
      if length fl \<noteq> 5 then (False, result)
      else let subfields = StrSplit N (fl ! 3) CHR ''/'';
               buf = field_buf content fl;
               sub = (\<lambda>i. field_buf (buf 3) subfields i)
           in if length subfields \<noteq> 2 then (False, result)
              else parse_all
                [(into avg_1 (\<lambda>v s. s\<lparr>avg_1 := v\<rparr>) (ConvertStr2Number_double N (fl ! 0) (buf 0) False), True),
                 (into avg_5 (\<lambda>v s. s\<lparr>avg_5 := v\<rparr>) (ConvertStr2Number_double N (fl ! 1) (buf 1) False), True),
                 (into avg_15 (\<lambda>v s. s\<lparr>avg_15 := v\<rparr>) (ConvertStr2Number_double N (fl ! 2) (buf 2) False), True),
                 (into la_running (\<lambda>v s. s\<lparr>la_running := v\<rparr>) (ConvertStr2Number_int N (subfields ! 0) (sub 0) False), True),
                 (into la_total (\<lambda>v s. s\<lparr>la_total := v\<rparr>) (ConvertStr2Number_int N (subfields ! 1) (sub 1) False), True)]
                result)"

definition cpu_targets :: "(64 word \<Rightarrow> cpu_times \<Rightarrow> cpu_times) list" where
  "cpu_targets =
     [\<lambda>v t. t\<lparr>ct_user := v\<rparr>, \<lambda>v t. t\<lparr>ct_nice := v\<rparr>, \<lambda>v t. t\<lparr>ct_system := v\<rparr>, \<lambda>v t. t\<lparr>ct_idle := v\<rparr>,
      \<lambda>v t. t\<lparr>ct_iowait := v\<rparr>, \<lambda>v t. t\<lparr>ct_irq := v\<rparr>, \<lambda>v t. t\<lparr>ct_softirq := v\<rparr>, \<lambda>v t. t\<lparr>ct_steal := v\<rparr>]"

text \<open>What a failing \<open>SimpleAtoi\<close> leaves in the target is stored too.\<close>

fun store_fields :: "'d parse_env \<Rightarrow> (64 word \<Rightarrow> 's \<Rightarrow> 's) list \<Rightarrow> string list \<Rightarrow> 's \<Rightarrow> bool \<times> 's" where
  "store_fields N [] fs s = (True, s)"
| "store_fields N (t # ts) [] s = (False, s)"
| "store_fields N (t # ts) (f # fs) s =
     (let (ok, v) = SimpleAtoi_u64 N f in if ok then store_fields N ts fs (t v s) else (False, t v s))"

definition ParseStat :: "'d proc_env \<Rightarrow> string \<Rightarrow> stat_info \<Rightarrow> bool \<times> stat_info" where
  "ParseStat E content result =
     (let (ok, r) = into boot_time (\<lambda>v s. s\<lparr>boot_time := v\<rparr>) (ReadKeyVal (conv_u64 E) content ''btime'' False True) result in
      if \<not> ok then (False, r)
      else let (ok2, buffer) = ReadKeyVal take_string content ''cpu'' True True [] in
      if \<not> ok2 then (False, r)
      else let fl = StrSplit (numbers E) buffer CHR '' '' in
      if length fl \<noteq> 10 then (False, r)
      else let (ok3, t) = store_fields (numbers E) cpu_targets fl (cpu_time r) in (ok3, r\<lparr>cpu_time := t\<rparr>))"

definition GetProcStat :: "'d proc_env \<Rightarrow> stat_info \<Rightarrow> bool \<times> stat_info" where
  "GetProcStat E result =
     (case read_file E ''/proc/stat'' of None \<Rightarrow> (False, result) | Some content \<Rightarrow> ParseStat E content result)"

definition GetBootTime :: "'d proc_env \<Rightarrow> 64 word" where
  "GetBootTime E =
     (case read_file E ''/proc/stat'' of
        None \<Rightarrow> 0
      | Some content \<Rightarrow> let (ok, r) = ParseStat E content stat_info_new in if ok then boot_time r else 0)"

section \<open>/proc/<pid>/stat\<close>

definition ParseProcessStat :: "'d proc_env \<Rightarrow> string \<Rightarrow> 'd process_stat \<Rightarrow> bool \<times> 'd process_stat" where
  "ParseProcessStat E content result =
     (let N = numbers E; fl = StrSplit N content CHR '' '' in
      if length fl \<noteq> 52 then (False, result)
      else parse_all
        [(into st_running_time (\<lambda>v s. s\<lparr>st_running_time := v\<rparr>)
            (ConvertStr2Number_double N (fl ! 21) (field_buf content fl 21) True), True),
         (into st_nice (\<lambda>v s. s\<lparr>st_nice := v\<rparr>) (ConvertStr2Number_int N (fl ! 18) (field_buf content fl 18) True), True),
         (into st_utime (\<lambda>v s. s\<lparr>st_utime := v\<rparr>) (ConvertStr2Number_u64 N (fl ! 13) (field_buf content fl 13) True), True),
         (into st_stime (\<lambda>v s. s\<lparr>st_stime := v\<rparr>) (ConvertStr2Number_u64 N (fl ! 14) (field_buf content fl 14) True), True)]
        result)"

definition process_stat_new :: "'d proc_env \<Rightarrow> 'd process_stat" where
  "process_stat_new E = \<lparr>st_running_time = d_of_u64 (doubles E) 0, st_utime = 0, st_stime = 0, st_nice = 0\<rparr>"

text \<open>The shares of a sample: against the previous one, or since the start of the process.\<close>

definition cpu_shares ::
  "'d proc_env \<Rightarrow> 'd process_stat \<Rightarrow> 'd process_sample \<Rightarrow> 'd process_sample option \<Rightarrow> ('d \<times> 'd \<times> 'd) option" where
  "cpu_shares E r sample prev =
     (let D = doubles E in
      case prev of
        Some p \<Rightarrow>
          let diff_utime = diff_field E (pi_user_time (sample_process sample)) (pi_user_time (sample_process p));
              diff_system_time = diff_field E (pi_system_time (sample_process sample)) (pi_system_time (sample_process p));
              total = d_add D diff_utime diff_system_time;
              time_diff = d_of_long D (CPUDiffInSeconds sample p)
          in if d_less D (d_of_long D 0) time_diff
             then Some (d_div D diff_utime time_diff, d_div D diff_system_time time_diff, d_div D total time_diff)
             else pi_cpu_pct (sample_process sample)
      | None \<Rightarrow>
          let total = st_utime r + st_stime r; per = (\<lambda>v. d_div D (d_of_u64 D v) (st_running_time r))
          in Some (per (st_utime r), per (st_stime r), per total))"

definition stat_to_sample ::
  "'d proc_env \<Rightarrow> 64 word \<Rightarrow> string \<Rightarrow> 'd process_sample \<Rightarrow> 'd process_sample option \<Rightarrow> bool \<times> 'd process_sample" where
  "stat_to_sample E now content sample prev =
     (let D = doubles E; (ok, r0) = ParseProcessStat E content (process_stat_new E) in
      if \<not> ok then (False, sample)
      else case GetUptime E of
             None \<Rightarrow> (False, sample)
           | Some uptime \<Rightarrow>
               let r = r0\<lparr>st_running_time := d_sub D uptime (d_div D (st_running_time r0) (d_of_long D (kClockTicksPerSecond E))),
                          st_utime := st_utime r0 div kClockTicksPerSecond E,
                          st_stime := st_stime r0 div kClockTicksPerSecond E\<rparr>;
                   info = (sample_process sample)
                     \<lparr>pi_start_time := Some (d_sub D (d_of_long D (wall_clock E)) (st_running_time r)),
                      pi_running_time := Some (st_running_time r), pi_user_time := st_utime r, pi_system_time := st_stime r\<rparr>;
                   s1 = sample\<lparr>cpu_sample_ts := now, sample_process := info\<rparr>
               in (True, s1\<lparr>sample_process := info\<lparr>pi_cpu_pct := cpu_shares E r s1 prev\<rparr>\<rparr>))"

section \<open>/proc/<pid>/cgroup, io, cmdline\<close>

definition docker_scope :: string where "docker_scope = ''0::/system.slice/docker-''"

text \<open>\<open>start\<close> is only compared with \<open>npos\<close>; the id is cut behind the length of the key.\<close>

definition ParseProcessCgroup :: "string \<Rightarrow> string" where
  "ParseProcessCgroup content =
     (case find_sub docker_scope content of
        None \<Rightarrow> []
      | Some start \<Rightarrow>
          let cgroup = drop (length docker_scope) content in
          (case find_sub ''.scope'' cgroup of None \<Rightarrow> [] | Some e \<Rightarrow> take e cgroup))"

definition ParseProcessIO :: "'d proc_env \<Rightarrow> string \<Rightarrow> process_io \<Rightarrow> bool \<times> process_io" where
  "ParseProcessIO E content result =
     parse_all
       [(into io_read_bytes (\<lambda>v s. s\<lparr>io_read_bytes := v\<rparr>) (ReadKeyVal (conv_u64 E) content ''read_bytes:'' True True), True),
        (into io_write_bytes (\<lambda>v s. s\<lparr>io_write_bytes := v\<rparr>) (ReadKeyVal (conv_u64 E) content ''write_bytes:'' True True), True)]
       result"

definition io_to_sample ::
  "'d proc_env \<Rightarrow> 64 word \<Rightarrow> string \<Rightarrow> 'd process_sample \<Rightarrow> 'd process_sample option \<Rightarrow> bool \<times> 'd process_sample" where
  "io_to_sample E now content sample prev =
     (let D = doubles E; (ok, r) = ParseProcessIO E content \<lparr>io_read_bytes = 0, io_write_bytes = 0\<rparr> in
      if \<not> ok then (False, sample)
      else let s1 = sample\<lparr>io_sample_ts := now,
                 sample_process := (sample_process sample)\<lparr>pi_read_bytes := io_read_bytes r, pi_write_bytes := io_write_bytes r\<rparr>\<rparr>
           in case prev of
                None \<Rightarrow> (True, s1)
              | Some p \<Rightarrow>
                  let diff_read = diff_field E (io_read_bytes r) (pi_read_bytes (sample_process p));
                      diff_write = diff_field E (io_write_bytes r) (pi_write_bytes (sample_process p));
                      diff_time = d_of_long D (IODiffInSeconds s1 p)
                  in (True, if d_less D (d_of_long D 0) diff_time
                            then s1\<lparr>sample_process := (sample_process s1)
                              \<lparr>pi_io_rates := Some (d_div D diff_read diff_time, d_div D diff_write diff_time)\<rparr>\<rparr>
                            else s1))"

definition cmdline_text :: "string \<Rightarrow> string" where
  "cmdline_text content =
     rev (dropWhile (\<lambda>c. c = CHR '' '') (rev (map (\<lambda>c. if c = CHR 0x00 then CHR '' '' else c) content)))"

section \<open>Memory\<close>

definition kb :: "(bool \<times> 64 word) \<Rightarrow> bool \<times> 64 word" where
  "kb r = (fst r, if fst r then snd r * 1024 else snd r)"

definition ParseProcMemoryInfo :: "'d proc_env \<Rightarrow> string \<Rightarrow> proc_memory_info \<Rightarrow> bool \<times> proc_memory_info" where
  "ParseProcMemoryInfo E content info =
     parse_all
       [(into pm_total (\<lambda>v s. s\<lparr>pm_total := v\<rparr>) (\<lambda>x. kb (ReadKeyVal (conv_u64 E) content ''MemTotal:'' False True x)), True),
        (into pm_free (\<lambda>v s. s\<lparr>pm_free := v\<rparr>) (\<lambda>x. kb (ReadKeyVal (conv_u64 E) content ''MemFree:'' False True x)), True),
        (into pm_cached (\<lambda>v s. s\<lparr>pm_cached := v\<rparr>) (\<lambda>x. kb (ReadKeyVal (conv_u64 E) content ''Cached:'' False True x)), True),
        (into pm_buffers (\<lambda>v s. s\<lparr>pm_buffers := v\<rparr>) (\<lambda>x. kb (ReadKeyVal (conv_u64 E) content ''Buffers:'' False True x)), True)]
       info"

record virtual_memory_info =
  vm_free :: "64 word"
  vm_total :: "64 word"
  vm_swap_cached :: "64 word"
  vm_used :: "64 word"

definition virtual_memory_info_new :: virtual_memory_info where
  "virtual_memory_info_new = \<lparr>vm_free = 0, vm_total = 0, vm_swap_cached = 0, vm_used = 0\<rparr>"

definition GetMemoryInfo :: "'d proc_env \<Rightarrow> virtual_memory_info \<Rightarrow> virtual_memory_info" where
  "GetMemoryInfo E m =
     (case read_file E ''/proc/meminfo'' of
        None \<Rightarrow> m
      | Some content \<Rightarrow>
          let (ok, info) = ParseProcMemoryInfo E content proc_memory_info_new in
          if \<not> ok then m
          else m\<lparr>vm_free := pm_free info, vm_total := pm_total info, vm_swap_cached := pm_cached info,
                 vm_used := memory_used info\<rparr>)"

section \<open>/proc/net/dev\<close>

definition net_dev_of :: "'d proc_env \<Rightarrow> string list \<Rightarrow> net_dev_info" where
  "net_dev_of E fl =
     (let num = (\<lambda>i. snd (SimpleAtoi_u64 (numbers E) (fl ! i)))
      in \<lparr>nd_name = butlast (fl ! 0), nd_rx_bytes = num 1, nd_rx_packets = num 2, nd_tx_bytes = num 9,
          nd_tx_packets = num 10\<rparr>)"

fun net_dev_lines :: "'d proc_env \<Rightarrow> string list \<Rightarrow> net_dev_info list" where
  "net_dev_lines E [] = []"
| "net_dev_lines E (line # lines) =
     (let fl = StrSplit (numbers E) line CHR '' '' in
      if length fl \<noteq> 17 then net_dev_lines E lines else net_dev_of E fl # net_dev_lines E lines)"

definition ParseNetDev :: "'d proc_env \<Rightarrow> string \<Rightarrow> net_dev_info list \<Rightarrow> bool \<times> net_dev_info list" where
  "ParseNetDev E content result = (True, result @ net_dev_lines E (StrSplit (numbers E) content newline))"

definition GetNetDev :: "'d proc_env \<Rightarrow> net_dev_info list \<Rightarrow> bool \<times> net_dev_info list" where
  "GetNetDev E result =
     (case read_file E ''/proc/net/dev'' of None \<Rightarrow> (False, result) | Some content \<Rightarrow> ParseNetDev E content result)"

section \<open>One process\<close>

definition sample_new :: "32 word \<Rightarrow> 'd process_sample" where
  "sample_new pid =
     \<lparr>io_sample_ts = 0, cpu_sample_ts = 0, sample_process = process_info_new\<lparr>pi_pid := pid\<rparr>\<rparr>"

definition on_process :: "('d process_info \<Rightarrow> 'd process_info) \<Rightarrow> 'd process_sample \<Rightarrow> 'd process_sample" where
  "on_process f s = s\<lparr>sample_process := f (sample_process s)\<rparr>"

definition statm_to_info :: "'d proc_env \<Rightarrow> 64 word \<Rightarrow> string \<Rightarrow> 'd process_info \<Rightarrow> 'd process_info" where
  "statm_to_info E total_memory content info =
     (let mu = (case pi_memory info of None \<Rightarrow> memory_usage_new | Some m \<Rightarrow> m)
      in info\<lparr>pi_memory := Some (snd (ParseProcessStatm E total_memory content mu))\<rparr>)"

text \<open>The files in the order of the list, with whether it is a link and what is done with the content.\<close>

definition detail_list ::
  "'d proc_env \<Rightarrow> 64 word \<Rightarrow> string \<Rightarrow> 'd process_sample option \<Rightarrow>
     (string \<times> bool \<times> (string \<Rightarrow> 'd process_sample \<Rightarrow> 'd process_sample)) list" where
  "detail_list E total_memory path prev =
     [(''status'', False, \<lambda>c. on_process (\<lambda>p. snd (status_to_info E c p))),
      (''statm'', False, \<lambda>c. on_process (statm_to_info E total_memory c)),
      (''io'', False, \<lambda>c s. snd (io_to_sample E (monotonic E (path @ ''/io'')) c s prev)),
      (''stat'', False, \<lambda>c s. snd (stat_to_sample E (monotonic E (path @ ''/stat'')) c s prev)),
      (''cgroup'', False, \<lambda>c. on_process (\<lambda>p. p\<lparr>pi_container_id := ParseProcessCgroup c\<rparr>)),
      (''cmdline'', False, \<lambda>c. on_process (\<lambda>p. p\<lparr>pi_cmdline := cmdline_text c\<rparr>)),
      (''exe'', True, \<lambda>c. on_process (\<lambda>p. p\<lparr>pi_path := c\<rparr>)),
      (''cwd'', True, \<lambda>c. on_process (\<lambda>p. p\<lparr>pi_work_dir := c\<rparr>))]"

fun read_details ::
  "'d proc_env \<Rightarrow> string \<Rightarrow> (string \<times> bool \<times> (string \<Rightarrow> 'd process_sample \<Rightarrow> 'd process_sample)) list \<Rightarrow>
     'd process_sample \<Rightarrow> 'd process_sample" where
  "read_details E path [] s = s"
| "read_details E path ((filename, is_link, post_processor) # rest) s =
     (let file_path = path @ ''/'' @ filename;
          content = (if is_link then read_link E file_path else read_file E file_path)
      in read_details E path rest (case content of None \<Rightarrow> s | Some c \<Rightarrow> post_processor c s))"

definition GetProcDetail ::
  "'d proc_env \<Rightarrow> 64 word \<Rightarrow> string \<Rightarrow> 'd process_sample \<Rightarrow> 'd process_sample option \<Rightarrow> 'd process_sample" where
  "GetProcDetail E total_memory path sample prev = read_details E path (detail_list E total_memory path prev) sample"

section \<open>A scan\<close>

text \<open>\<open>process_table_\<close>, whose entries point into \<open>last_\<close>, and \<open>total_memory_\<close>.\<close>

record 'd proc_reader =
  process_table :: "(32 word \<times> 'd process_sample) list"
  last_request :: "'d process_info list"
  total_memory :: "64 word"

definition proc_reader_new :: "'d proc_reader" where
  "proc_reader_new = \<lparr>process_table = [], last_request = [], total_memory = 0\<rparr>"

definition umap_insert :: "'k \<Rightarrow> 'v \<Rightarrow> ('k \<times> 'v) list \<Rightarrow> ('k \<times> 'v) list" where
  "umap_insert k v m = (if map_of m k = None then m @ [(k, v)] else m)"

definition sample_of ::
  "'d proc_env \<Rightarrow> 'd proc_reader \<Rightarrow> (32 word \<times> gpu_usage) list \<Rightarrow> string \<Rightarrow> 32 word \<Rightarrow> 'd process_sample" where
  "sample_of E R gpu name pid =
     (let s = GetProcDetail E (total_memory R) (''/proc/'' @ name) (sample_new pid) (map_of (process_table R) pid)
      in case map_of gpu pid of
           None \<Rightarrow> s
         | Some u \<Rightarrow> on_process (\<lambda>p. p\<lparr>pi_gpu := Some u\<rparr>) s)"

fun scan_entries ::
  "'d proc_env \<Rightarrow> 'd proc_reader \<Rightarrow> (32 word \<times> gpu_usage) list \<Rightarrow> (string \<times> bool) list \<Rightarrow>
     'd process_info list \<Rightarrow> (32 word \<times> 'd process_sample) list \<Rightarrow>
     'd process_info list \<times> (32 word \<times> 'd process_sample) list" where
  "scan_entries E R gpu [] req table = (req, table)"
| "scan_entries E R gpu ((name, is_directory) # es) req table =
     (if \<not> is_directory then scan_entries E R gpu es req table
      else let (ok, pid) = SimpleAtoi_int (numbers E) name in
           if \<not> ok then scan_entries E R gpu es req table
           else let s = sample_of E R gpu name pid
                in scan_entries E R gpu es (req @ [sample_process s]) (umap_insert pid s table))"

definition GetProcList ::
  "'d proc_env \<Rightarrow> (32 word \<times> gpu_usage) list \<Rightarrow> (string \<times> bool) list \<Rightarrow> 'd proc_reader \<Rightarrow>
     'd process_info list \<times> 'd proc_reader" where
  "GetProcList E gpu entries R =
     (let R1 = (if total_memory R = 0
                then R\<lparr>total_memory := vm_total (GetMemoryInfo E virtual_memory_info_new)\<rparr> else R);
          (req, table) = scan_entries E R1 gpu entries [] []
      in (req, R1\<lparr>process_table := table, last_request := req\<rparr>))"

section \<open>Memory of the machine\<close>

lemma ParseProcMemoryInfo_lines:
  assumes ls: "plain_lines ls"
    and t: "line_value ''MemTotal'' ls = Some vt" "prints t vt" "t \<le> 2 ^ 63 - 1"
    and f: "line_value ''MemFree'' ls = Some vf" "prints f vf" "f \<le> 2 ^ 63 - 1"
    and c: "line_value ''Cached'' ls = Some vc" "prints c vc" "c \<le> 2 ^ 63 - 1"
    and b: "line_value ''Buffers'' ls = Some vb" "prints b vb" "b \<le> 2 ^ 63 - 1"
  shows "ParseProcMemoryInfo E (render_lines ls) info =
    (True, info\<lparr>pm_total := of_nat (t * 1024), pm_free := of_nat (f * 1024), pm_cached := of_nat (c * 1024),
                pm_buffers := of_nat (b * 1024)\<rparr>)"
proof -
  have p: "plain ''MemTotal''" "plain ''MemFree''" "plain ''Cached''" "plain ''Buffers''"
    by (simp_all add: plain_def newline_def)
  note r = ReadKeyVal_line [OF p(1) ls t, simplified] ReadKeyVal_line [OF p(2) ls f, simplified]
    ReadKeyVal_line [OF p(3) ls c, simplified] ReadKeyVal_line [OF p(4) ls b, simplified]
  show ?thesis
    by (simp add: ParseProcMemoryInfo_def into_def kb_def conv_u64_def r)
qed

text \<open>C36: the memory of the machine, from any /proc/meminfo of lines "key: value" whose first lines with
  keys ending in MemTotal, MemFree, Cached and Buffers hold counts of kB: total and free in bytes, the
  page cache in the field for cached swap, and used as what is left of the total.\<close>
theorem memory_info_read:
  fixes E :: "'d proc_env" and m :: virtual_memory_info
  assumes rd: "read_file E ''/proc/meminfo'' = Some (render_lines ls)" and ls: "plain_lines ls"
    and t: "line_value ''MemTotal'' ls = Some vt" "prints t vt" and t': "t < 2 ^ 54"
    and f: "line_value ''MemFree'' ls = Some vf" "prints f vf"
    and c: "line_value ''Cached'' ls = Some vc" "prints c vc"
    and b: "line_value ''Buffers'' ls = Some vb" "prints b vb"
    and le: "f + c + b \<le> t"
  shows "unat (vm_total (GetMemoryInfo E m)) = 1024 * t \<and> unat (vm_free (GetMemoryInfo E m)) = 1024 * f \<and>
    unat (vm_swap_cached (GetMemoryInfo E m)) = 1024 * c \<and>
    unat (vm_used (GetMemoryInfo E m)) = 1024 * (t - f - c - b)"
proof -
  have u: "unat (of_nat n * 1024 :: 64 word) = 1024 * n" if "n \<le> t" for n
  proof -
    have "1024 * n < 2 ^ LENGTH(64)" using that t' by simp
    then have "unat (of_nat (1024 * n) :: 64 word) = 1024 * n" by (simp only: unat_of_nat mod_less)
    then show ?thesis by (simp add: mult.commute)
  qed
  have bounds: "t \<le> 2 ^ 63 - 1" "f \<le> 2 ^ 63 - 1" "c \<le> 2 ^ 63 - 1" "b \<le> 2 ^ 63 - 1"
    using t' le by simp_all
  note g = ParseProcMemoryInfo_lines [OF ls t bounds(1) f bounds(2) c bounds(3) b bounds(4), of E proc_memory_info_new]
  have used: "of_nat (t * 1024) - of_nat (f * 1024) - of_nat (c * 1024) - of_nat (b * 1024)
      = (of_nat ((t - f - c - b) * 1024) :: 64 word)"
    using le by (simp add: of_nat_diff algebra_simps)
  have "unat (vm_total (GetMemoryInfo E m)) = 1024 * t" "unat (vm_free (GetMemoryInfo E m)) = 1024 * f"
    "unat (vm_swap_cached (GetMemoryInfo E m)) = 1024 * c"
    using le u [of t] u [of f] u [of c] by (simp_all add: GetMemoryInfo_def rd g)
  moreover have "unat (vm_used (GetMemoryInfo E m)) = 1024 * (t - f - c - b)"
    using u [of "t - f - c - b"] used by (simp add: GetMemoryInfo_def rd g memory_used_def)
  ultimately show ?thesis by simp
qed

section \<open>Names\<close>

lemma count_list_append' [simp]: "count_list (xs @ ys) c = count_list xs c + count_list ys c"
  by (induction xs) auto

lemma count_dec [simp]: "count_list (dec_of_nat n) CHR '' '' = 0"
  using dec_of_nat_digits [of n] by (auto simp: is_digit_def intro!: count_notin)

text \<open>The line of /proc/<pid>/stat of a process with a blank in its name is rejected: a pid, the name in
  parentheses and the fifty fields behind it are 52 fields only if the name is one. The sample keeps
  neither start time nor processor times.\<close>
lemma blank_in_name_loses_cpu_times:
  fixes E :: "'d proc_env" and sample :: "'d process_sample"
  assumes "split_law (numbers E)" "count_list rest CHR '' '' = 49" "CHR '' '' \<in> set comm"
  shows "stat_to_sample E now (dec_of_nat pid @ '' ('' @ comm @ '') '' @ rest) sample prev = (False, sample)"
proof -
  have "count_list comm CHR '' '' > 0" using assms(3) by (simp add: count_list_0_iff zero_less_iff_neq_zero)
  then have "length (StrSplit (numbers E) (dec_of_nat pid @ '' ('' @ comm @ '') '' @ rest) CHR '' '') \<noteq> 52"
    using assms(1,2) by (simp add: split_law_def)
  then show ?thesis by (simp add: stat_to_sample_def ParseProcessStat_def Let_def)
qed

lemma ParseProcessStatus_uid:
  assumes "ParseProcessStatus E content st = (True, r)"
  shows "\<exists>old. ParseKeyVal (conv_int E) content ''Uid:'' False old = (True, ps_uid r)"
proof -
  obtain r0 where r0: "parse_all (status_parse_list E content) st = (True, r0)" "ps_uid r = ps_uid r0"
    using assms by (cases "parse_all (status_parse_list E content) st")
      (auto simp: ParseProcessStatus_def split: if_splits)
  let ?l = "status_parse_list E content"
  have "?l = take 2 ?l @ (into ps_uid (\<lambda>v s. s\<lparr>ps_uid := v\<rparr>) (ParseKeyVal (conv_int E) content ''Uid:'' False), True) # drop 3 ?l"
    by (simp add: status_parse_list_def)
  then have "parse_all (take 2 ?l @ (into ps_uid (\<lambda>v s. s\<lparr>ps_uid := v\<rparr>) (ParseKeyVal (conv_int E) content ''Uid:'' False), True) # drop 3 ?l) st = (True, r0)"
    using r0(1) by simp
  moreover have "\<forall>(q, b)\<in>set (drop 3 ?l). \<forall>s. ps_uid (snd (q s)) = ps_uid s"
    by (simp add: status_parse_list_def into_def split_def Let_def)
  ultimately show ?thesis unfolding r0(2) by (rule parse_all_field) simp
qed

text \<open>Keys are looked up anywhere in the file, and the first line is the name, which a process chooses:
  one that names itself "Uid:" and a number is reported with that number as its user, and with that
  user's name, whatever its Uid line says.\<close>
lemma name_sets_uid:
  fixes E :: "'d proc_env" and info info' :: "'d process_info"
  assumes "k < 2 ^ 31"
    and "status_to_info E (''Name:'' @ CHR 0x09 # ''Uid:'' @ dec_of_nat k @ newline # rest) info = (True, info')"
  shows "map_option ps_uid (pi_status info') = Some (of_nat k) \<and> pi_user_name info' = GetUsernameFromUID E (of_nat k)"
proof -
  let ?content = "''Name:'' @ CHR 0x09 # ''Uid:'' @ dec_of_nat k @ newline # rest"
  obtain r where r: "ParseProcessStatus E ?content process_status_new = (True, r)"
      "pi_status info' = Some r" "pi_user_name info' = GetUsernameFromUID E (ps_uid r)"
    using assms(2) by (cases "ParseProcessStatus E ?content process_status_new")
      (auto simp: status_to_info_def split: if_splits)
  obtain old where p: "ParseKeyVal (conv_int E) ?content ''Uid:'' False old = (True, ps_uid r)"
    using ParseProcessStatus_uid [OF r(1)] by blast
  have "value_text ?content ''Uid:'' = Some (dec_of_nat k @ newline # rest)"
    using dropWhile_blank_dec [of "[]" k "newline # rest"] by (simp add: value_text_def after_key_Cons)
  moreover have "strtol (dec_of_nat k @ newline # rest) = Some (int k)"
    using assms(1) newline_not_digit by (intro strtol_dec) auto
  ultimately have "ps_uid r = of_nat k"
    using p by (simp add: ParseKeyVal_def conv_int_def ConvertStr2Number_int_def)
  then show ?thesis using r by simp
qed

section \<open>Interfaces\<close>

text \<open>The kernel prints the counters of an interface in columns, filled with blanks on the left.\<close>

definition column :: "nat \<Rightarrow> string \<Rightarrow> string" where
  "column w s = replicate (w - length s) CHR '' '' @ s"

definition dev_widths :: "nat list" where
  "dev_widths = [7, 7, 4, 4, 4, 5, 10, 9, 8, 7, 4, 4, 4, 5, 7, 10]"

fun dev_columns :: "nat list \<Rightarrow> nat list \<Rightarrow> string" where
  "dev_columns (w # ws) (n # ns) = CHR '' '' # column w (dec_of_nat n) @ dev_columns ws ns"
| "dev_columns _ _ = []"

definition dev_line :: "string \<Rightarrow> nat list \<Rightarrow> string" where
  "dev_line name ns = column 6 name @ '':'' @ dev_columns dev_widths ns"

lemma count_replicate [simp]: "count_list (replicate n c) c = n"
  by (induction n) auto

lemma count_column: "count_list (column w s) CHR '' '' = (w - length s) + count_list s CHR '' ''"
  by (simp add: column_def)

lemma count_columns:
  "length ws = length ns \<Longrightarrow>
     length ns \<le> count_list (dev_columns ws ns) CHR '' '' \<and>
     (count_list (dev_columns ws ns) CHR '' '' = length ns \<longleftrightarrow> list_all2 (\<lambda>w n. w \<le> length (dec_of_nat n)) ws ns)"
  by (induction ws ns rule: list_induct2) (auto simp: count_column)

text \<open>A line of /proc/net/dev as the kernel prints it is read only if the name and every counter fill
  their columns; otherwise the padding adds fields, the line is skipped, and the traffic of the
  interface is missing from the totals.\<close>
lemma padded_dev_line_skipped:
  fixes E :: "'d proc_env"
  assumes "split_law (numbers E)" "length ns = 16" "CHR '' '' \<notin> set name"
  shows "net_dev_lines E (dev_line name ns # lines) =
    (if 6 \<le> length name \<and> list_all2 (\<lambda>w n. w \<le> length (dec_of_nat n)) dev_widths ns
     then net_dev_of E (StrSplit (numbers E) (dev_line name ns) CHR '' '') # net_dev_lines E lines
     else net_dev_lines E lines)"
proof -
  have "count_list name CHR '' '' = 0" using assms(3) by (simp add: count_list_0_iff)
  then have "count_list (dev_line name ns) CHR '' '' = (6 - length name) + count_list (dev_columns dev_widths ns) CHR '' ''"
    by (simp add: dev_line_def count_column)
  moreover have "length dev_widths = length ns" using assms(2) by (simp add: dev_widths_def)
  note count_columns [OF this]
  ultimately have "count_list (dev_line name ns) CHR '' '' = 16 \<longleftrightarrow>
      6 \<le> length name \<and> list_all2 (\<lambda>w n. w \<le> length (dec_of_nat n)) dev_widths ns"
    using assms(2) by auto
  then have "length (StrSplit (numbers E) (dev_line name ns) CHR '' '') = 17 \<longleftrightarrow>
      6 \<le> length name \<and> list_all2 (\<lambda>w n. w \<le> length (dec_of_nat n)) dev_widths ns"
    using assms(1) by (simp add: split_law_def)
  then show ?thesis by (simp add: Let_def)
qed

section \<open>The table of processes\<close>

text \<open>The directories of /proc whose name is a number, with their pids.\<close>

definition pid_entries :: "'d proc_env \<Rightarrow> (string \<times> bool) list \<Rightarrow> (string \<times> 32 word) list" where
  "pid_entries E entries =
     map (\<lambda>(n, d). (n, snd (SimpleAtoi_int (numbers E) n)))
       (filter (\<lambda>(n, d). d \<and> fst (SimpleAtoi_int (numbers E) n)) entries)"

lemma pid_entries_simps [simp]:
  "pid_entries E [] = []"
  "pid_entries E ((n, d) # es) =
     (if d \<and> fst (SimpleAtoi_int (numbers E) n)
      then (n, snd (SimpleAtoi_int (numbers E) n)) # pid_entries E es else pid_entries E es)"
  by (simp_all add: pid_entries_def)

lemma scan_request:
  "fst (scan_entries E R gpu es req table) =
     req @ map (\<lambda>(n, pid). sample_process (sample_of E R gpu n pid)) (pid_entries E es)"
  by (induction es arbitrary: req table) (auto simp: Let_def split: prod.splits)

lemma map_of_umap_insert: "map_of (umap_insert k v m) = (\<lambda>x. if x = k \<and> map_of m k = None then Some v else map_of m x)"
  by (auto simp: umap_insert_def fun_eq_iff map_add_def split: option.splits)

lemma scan_table:
  "map_of (snd (scan_entries E R gpu es req table)) pid =
     (case map_of table pid of
        Some s \<Rightarrow> Some s
      | None \<Rightarrow> map_option (\<lambda>n. sample_of E R gpu n pid) (map_of (map (\<lambda>(n, p). (p, n)) (pid_entries E es)) pid))"
  by (induction es arbitrary: req table) (auto simp: Let_def map_of_umap_insert split: prod.splits option.splits)

lemma umap_ok_insert [inv_intros]: "umap_ok m \<Longrightarrow> umap_ok (umap_insert k v m)"
  by (auto simp: umap_ok_def umap_insert_def map_of_eq_None_iff)

lemma scan_umap_ok: "umap_ok table \<Longrightarrow> umap_ok (snd (scan_entries E R gpu es req table))"
  by (induction es arbitrary: req table) (auto simp: Let_def umap_ok_insert split: prod.splits)

definition keeps_pid :: "(string \<Rightarrow> 'd process_sample \<Rightarrow> 'd process_sample) \<Rightarrow> bool" where
  "keeps_pid p \<longleftrightarrow> (\<forall>c s. pi_pid (sample_process (p c s)) = pi_pid (sample_process s))"

lemma read_details_pid:
  "\<forall>(f, l, p)\<in>set ds. keeps_pid p \<Longrightarrow>
     pi_pid (sample_process (read_details E path ds s)) = pi_pid (sample_process s)"
  by (induction ds arbitrary: s) (auto simp: Let_def keeps_pid_def split: option.splits)

lemma details_keep_pid: "\<forall>(f, l, p)\<in>set (detail_list E t path prev). keeps_pid p"
  by (auto simp: detail_list_def keeps_pid_def on_process_def status_to_info_def statm_to_info_def io_to_sample_def
      stat_to_sample_def Let_def split_def split: option.splits)

lemma sample_of_pid [simp]: "pi_pid (sample_process (sample_of E R gpu name pid)) = pid"
  by (simp add: sample_of_def GetProcDetail_def on_process_def sample_new_def Let_def
      read_details_pid [OF details_keep_pid] split: option.splits)

text \<open>A table is sound when it has one entry per pid, of that process, whose message is one of the last
  request, which owns it.\<close>

definition table_sound :: "'d proc_reader \<Rightarrow> bool" where
  "table_sound R \<longleftrightarrow> umap_ok (process_table R) \<and>
     (\<forall>(pid, s)\<in>set (process_table R). pi_pid (sample_process s) = pid \<and> sample_process s \<in> set (last_request R))"

definition entry_names :: "'d proc_env \<Rightarrow> (string \<times> bool) list \<Rightarrow> 32 word \<rightharpoonup> string" where
  "entry_names E entries = map_of (map (\<lambda>(n, p). (p, n)) (pid_entries E entries))"

definition with_memory :: "'d proc_env \<Rightarrow> 'd proc_reader \<Rightarrow> 'd proc_reader" where
  "with_memory E R =
     (if total_memory R = 0 then R\<lparr>total_memory := vm_total (GetMemoryInfo E virtual_memory_info_new)\<rparr> else R)"

lemma GetProcList_eq:
  "GetProcList E gpu entries R =
     (let (req, table) = scan_entries E (with_memory E R) gpu entries [] []
      in (req, (with_memory E R)\<lparr>process_table := table, last_request := req\<rparr>))"
  by (simp add: GetProcList_def with_memory_def Let_def)

lemma GetProcList_table:
  "map_of (process_table (snd (GetProcList E gpu entries R))) pid =
     map_option (\<lambda>n. sample_of E (with_memory E R) gpu n pid) (entry_names E entries pid)"
  using scan_table [of E "with_memory E R" gpu entries "[]" "[]" pid]
  by (simp add: GetProcList_eq Let_def split_def entry_names_def)

lemma with_memory_table [simp]: "process_table (with_memory E R) = process_table R"
  by (simp add: with_memory_def)


section \<open>A sample system\<close>

definition sample_meminfo :: "kv_line list" where
  "sample_meminfo =
     [(''MemTotal'', ''       9000 kB''), (''MemFree'', ''        3000 kB''), (''MemAvailable'', ''    5000 kB''),
      (''Buffers'', ''         500 kB''), (''Cached'', ''         1500 kB''), (''SwapCached'', ''         70 kB'')]"

definition sample_proc_env :: "int proc_env" where
  "sample_proc_env =
     \<lparr>numbers = sample_parse_env, doubles = int_doubles,
      read_file = (\<lambda>path. if path = ''/proc/meminfo'' then Some (render_lines sample_meminfo) else None),
      read_link = (\<lambda>path. None), getpwuid_r = (\<lambda>u. if u = 0 then Some ''root'' else None), kPageSize = 4096,
      kClockTicksPerSecond = 100, wall_clock = 1000, monotonic = (\<lambda>path. 0),
      diff_field = (\<lambda>x y. uint x - uint y)\<rparr>"

lemma sample_split_law: "split_law (numbers sample_proc_env)"
  by (simp add: sample_proc_env_def sample_laws)

lemma prints_kB: "\<forall>c\<in>set b. is_blank c \<Longrightarrow> v = b @ dec_of_nat n @ '' kB'' \<Longrightarrow> prints n v"
  unfolding prints_def by (intro exI [of _ b] exI [of _ "'' kB''"]) (simp add: is_digit_def)

theorem memory_info_read_witness:
  "unat (vm_total (GetMemoryInfo sample_proc_env virtual_memory_info_new)) = 1024 * 9000 \<and>
   unat (vm_free (GetMemoryInfo sample_proc_env virtual_memory_info_new)) = 1024 * 3000 \<and>
   unat (vm_swap_cached (GetMemoryInfo sample_proc_env virtual_memory_info_new)) = 1024 * 1500 \<and>
   unat (vm_used (GetMemoryInfo sample_proc_env virtual_memory_info_new)) = 1024 * (9000 - 3000 - 1500 - 500)"
proof (rule memory_info_read)
  show "read_file sample_proc_env ''/proc/meminfo'' = Some (render_lines sample_meminfo)"
    by (simp add: sample_proc_env_def)
  show "plain_lines sample_meminfo" by (simp add: sample_meminfo_def plain_def newline_def)
  show "line_value ''MemTotal'' sample_meminfo = Some ''       9000 kB''"
    "line_value ''MemFree'' sample_meminfo = Some ''        3000 kB''"
    "line_value ''Cached'' sample_meminfo = Some ''         1500 kB''"
    "line_value ''Buffers'' sample_meminfo = Some ''         500 kB''"
    by (simp_all add: sample_meminfo_def line_value_def suffix_def)
  show "prints 9000 ''       9000 kB''"
    by (rule prints_kB [of "''       ''"]) (simp_all add: is_blank_def dec_of_nat.simps digit_char_def char_of_def bit_0)
  show "prints 3000 ''        3000 kB''"
    by (rule prints_kB [of "''        ''"]) (simp_all add: is_blank_def dec_of_nat.simps digit_char_def char_of_def bit_0)
  show "prints 1500 ''         1500 kB''"
    by (rule prints_kB [of "''         ''"]) (simp_all add: is_blank_def dec_of_nat.simps digit_char_def char_of_def bit_0)
  show "prints 500 ''         500 kB''"
    by (rule prints_kB [of "''         ''"]) (simp_all add: is_blank_def dec_of_nat.simps digit_char_def char_of_def bit_0)
qed simp_all

lemma blank_in_name_loses_cpu_times_witness:
  "stat_to_sample sample_proc_env 7 (dec_of_nat 12 @ '' ('' @ ''tmux: server'' @ '') '' @ replicate 49 CHR '' '')
     (sample_new 12) None = (False, sample_new 12)"
  by (rule blank_in_name_loses_cpu_times [OF sample_split_law]) simp_all

definition spoofed_status :: string where
  "spoofed_status = concat (map (\<lambda>l. l @ [newline])
     [''PPid: 1'', ''Uid: 1000'', ''Gid: 1000'', ''State: S'', ''FDSize: 64'',
      ''voluntary_ctxt_switches: 5'', ''nonvoluntary_ctxt_switches: 6'', ''Threads: 1''])"

lemma name_sets_uid_witness:
  "map_option ps_uid (pi_status (snd (status_to_info sample_proc_env
      (''Name:'' @ CHR 0x09 # ''Uid:'' @ dec_of_nat 0 @ newline # spoofed_status) process_info_new))) = Some (of_nat 0) \<and>
   pi_user_name (snd (status_to_info sample_proc_env
      (''Name:'' @ CHR 0x09 # ''Uid:'' @ dec_of_nat 0 @ newline # spoofed_status) process_info_new)) =
     GetUsernameFromUID sample_proc_env (of_nat 0)"
proof (rule name_sets_uid)
  have "fst (status_to_info sample_proc_env
      (''Name:'' @ CHR 0x09 # ''Uid:'' @ dec_of_nat 0 @ newline # spoofed_status) process_info_new)"
    by code_simp
  then show "status_to_info sample_proc_env
      (''Name:'' @ CHR 0x09 # ''Uid:'' @ dec_of_nat 0 @ newline # spoofed_status) process_info_new =
      (True, snd (status_to_info sample_proc_env
        (''Name:'' @ CHR 0x09 # ''Uid:'' @ dec_of_nat 0 @ newline # spoofed_status) process_info_new))"
    by (simp add: prod_eq_iff)
qed simp

lemma padded_dev_line_skipped_witness:
  "net_dev_lines sample_proc_env (dev_line ''eth0'' (replicate 16 0) # []) =
    (if 6 \<le> length ''eth0'' \<and> list_all2 (\<lambda>w n. w \<le> length (dec_of_nat n)) dev_widths (replicate 16 0)
     then net_dev_of sample_proc_env (StrSplit (numbers sample_proc_env) (dev_line ''eth0'' (replicate 16 0)) CHR '' '')
            # net_dev_lines sample_proc_env []
     else net_dev_lines sample_proc_env [])"
  by (rule padded_dev_line_skipped [OF sample_split_law]) simp_all

end
