(* ===== verification/Host_Metrics.thy ===== *)
theory Host_Metrics
  imports Net_Collector Proc_Reader
begin

text \<open>
  Observable gauges and the metrics of the machine:
  app/include/source/host/collector/oltp/oltp_metric.h, app/source/source/host/collector/oltp/oltp.cc
  and app/source/source/host/collector/cpu/cpu_usage.cc. A gauge is created for 64-bit integers or
  for doubles, and its observer is a variant of the two: observing a value of the other type throws.
  A callback that fills a value or a list of values is a function on them and on its own state.
\<close>

section \<open>Gauges\<close>

datatype gauge_type = Int64_Gauge | Double_Gauge

type_synonym 'd observation = "'d metric_value \<times> (string \<times> string) list"

fun fits :: "gauge_type \<Rightarrow> 'd metric_value \<Rightarrow> bool" where
  "fits Int64_Gauge (MV_Int i) = True"
| "fits Double_Gauge (MV_Double d) = True"
| "fits _ _ = False"

definition ReportSingleValue :: "gauge_type \<Rightarrow> 'd metric_value \<Rightarrow> 'd observation list result" where
  "ReportSingleValue g v = (if fits g v then Inr [(v, [])] else Inl Bad_Variant)"

definition ReportMultiValue :: "gauge_type \<Rightarrow> 'd metric_data list \<Rightarrow> 'd observation list result" where
  "ReportMultiValue g vs = map_r (\<lambda>v. if fits g (md_data v) then Inr (md_data v, md_labels v) else Inl Bad_Variant) vs"

datatype ('d, 's) gauge_callback =
    Single_Value "'s \<Rightarrow> 'd metric_value \<Rightarrow> ('d metric_value \<times> 's) result"
  | Multi_Value "'s \<Rightarrow> 'd metric_data list \<Rightarrow> ('d metric_data list \<times> 's) result"

text \<open>A fresh \<open>SingleValue\<close> holds the integer zero.\<close>

definition Report :: "gauge_type \<Rightarrow> ('d, 's) gauge_callback \<Rightarrow> 's \<Rightarrow> ('d observation list \<times> 's) result" where
  "Report g callback s =
     (case callback of
        Single_Value f \<Rightarrow>
          bind_r (f s (MV_Int 0)) (\<lambda>(v, s1). bind_r (ReportSingleValue g v) (\<lambda>obs. Inr (obs, s1)))
      | Multi_Value f \<Rightarrow>
          bind_r (f s []) (\<lambda>(vs, s1). bind_r (ReportMultiValue g vs) (\<lambda>obs. Inr (obs, s1))))"

section \<open>Memory and traffic\<close>

definition ratio :: "'d proc_env \<Rightarrow> 64 word \<Rightarrow> 64 word \<Rightarrow> 'd" where
  "ratio E a b = d_div (doubles E) (d_of_u64 (doubles E) a) (d_of_u64 (doubles E) b)"

definition system_mem_pct_total_used :: "'d proc_env \<Rightarrow> ('d, unit) gauge_callback" where
  "system_mem_pct_total_used E =
     Single_Value (\<lambda>s v.
       let m = GetMemoryInfo E virtual_memory_info_new
       in Inr (if vm_total m > 0 then MV_Double (ratio E (vm_used m) (vm_total m)) else v, s))"

definition system_mem_pct_usable :: "'d proc_env \<Rightarrow> ('d, unit) gauge_callback" where
  "system_mem_pct_usable E =
     Single_Value (\<lambda>s v.
       let m = GetMemoryInfo E virtual_memory_info_new
       in Inr (if vm_total m > 0 then MV_Double (ratio E (vm_free m) (vm_total m)) else v, s))"

definition sum_system_net_bytes_rcvd :: "'d proc_env \<Rightarrow> ('d, unit) gauge_callback" where
  "sum_system_net_bytes_rcvd E = Single_Value (\<lambda>s v. Inr (MV_Int (rx_bytes_total (snd (GetNetDev E []))), s))"

definition sum_system_net_bytes_sent :: "'d proc_env \<Rightarrow> ('d, unit) gauge_callback" where
  "sum_system_net_bytes_sent E = Single_Value (\<lambda>s v. Inr (MV_Int (tx_bytes_total (snd (GetNetDev E []))), s))"

text \<open>The gauges of \<open>OltpCollector\<close>, by name.\<close>

definition misc_metrics :: "'d proc_env \<Rightarrow> (string \<times> gauge_type \<times> ('d, unit) gauge_callback) list" where
  "misc_metrics E =
     [(''system_mem_pct_total_used'', Double_Gauge, system_mem_pct_total_used E),
      (''system_mem_pct_usable'', Double_Gauge, system_mem_pct_usable E),
      (''sum_system_net_bytes_rcvd'', Int64_Gauge, sum_system_net_bytes_rcvd E),
      (''sum_system_net_bytes_sent'', Int64_Gauge, sum_system_net_bytes_sent E)]"

section \<open>Processor usage\<close>

text \<open>The state is \<open>last_\<close>. A file that cannot be read leaves the new counters as far as they were read.\<close>

definition cpu_usage_value :: "'d proc_env \<Rightarrow> stat_info \<Rightarrow> stat_info \<Rightarrow> 'd" where
  "cpu_usage_value E last_stat now_stat =
     (let D = doubles E; c = cpu_time now_stat; l = cpu_time last_stat;
          zero = d_of_long D 0;
          total_delta = d_of_u64 D (CPUTotalTime c - CPUTotalTime l);
          idle_delta = d_of_u64 D (CPUIdleTime c - CPUIdleTime l)
      in if CPUTotalTime l \<noteq> 0 \<and> d_less D zero total_delta
         then d_div D (d_sub D total_delta idle_delta) total_delta else zero)"

definition GetCpuUsage :: "'d proc_env \<Rightarrow> ('d, stat_info) gauge_callback" where
  "GetCpuUsage E =
     Single_Value (\<lambda>last_stat v.
       let now_stat = snd (GetProcStat E stat_info_new)
       in Inr (MV_Double (cpu_usage_value E last_stat now_stat), now_stat))"

section \<open>Lemmas\<close>

lemma ReportMultiValue_iff:
  "(\<exists>obs. ReportMultiValue g vs = Inr obs) \<longleftrightarrow> (\<forall>v\<in>set vs. fits g (md_data v))"
  by (induction vs) (auto simp: ReportMultiValue_def cpp_simps)

lemma cpu_usage_reported:
  "Report Double_Gauge (GetCpuUsage E) last_stat =
     Inr ([(MV_Double (cpu_usage_value E last_stat (snd (GetProcStat E stat_info_new))), [])],
          snd (GetProcStat E stat_info_new))"
  by (simp add: Report_def GetCpuUsage_def ReportSingleValue_def Let_def)

lemma report_shares:
  "Report Double_Gauge (system_mem_pct_total_used E) () = Inl Bad_Variant \<longleftrightarrow> vm_total (GetMemoryInfo E virtual_memory_info_new) = 0"
  "Report Double_Gauge (system_mem_pct_usable E) () = Inl Bad_Variant \<longleftrightarrow> vm_total (GetMemoryInfo E virtual_memory_info_new) = 0"
  using word_gt_0 [of "vm_total (GetMemoryInfo E virtual_memory_info_new)"]
  by (auto simp: Report_def system_mem_pct_total_used_def system_mem_pct_usable_def ReportSingleValue_def Let_def)

lemma report_traffic:
  "Report Int64_Gauge (sum_system_net_bytes_rcvd E) () \<noteq> Inl Bad_Variant"
  "Report Int64_Gauge (sum_system_net_bytes_sent E) () \<noteq> Inl Bad_Variant"
  by (simp_all add: Report_def sum_system_net_bytes_rcvd_def sum_system_net_bytes_sent_def ReportSingleValue_def)

text \<open>A gauge of the machine throws instead of reporting exactly when it is one of the two memory shares
  and no total of the memory is known: the value that the callback leaves alone is an integer, and the
  gauge is one of doubles.\<close>
lemma memory_share_without_total_throws:
  fixes E :: "'d proc_env"
  assumes "(name, g, callback) \<in> set (misc_metrics E)"
  shows "Report g callback () = Inl Bad_Variant \<longleftrightarrow>
    name \<in> {''system_mem_pct_total_used'', ''system_mem_pct_usable''} \<and> vm_total (GetMemoryInfo E virtual_memory_info_new) = 0"
proof -
  let ?P = "\<lambda>(name, g, callback). Report g callback () = Inl Bad_Variant \<longleftrightarrow>
    name \<in> {''system_mem_pct_total_used'', ''system_mem_pct_usable''} \<and> vm_total (GetMemoryInfo E virtual_memory_info_new) = 0"
  have "list_all ?P (misc_metrics E)"
    by (simp only: misc_metrics_def list.pred_inject prod.case report_shares) (simp add: report_traffic)
  then show ?thesis using assms unfolding list_all_iff by fast
qed

lemma memory_share_without_total_throws_witness:
  "Report Double_Gauge (system_mem_pct_usable sample_proc_env) () = Inl Bad_Variant \<longleftrightarrow>
    ''system_mem_pct_usable'' \<in> {''system_mem_pct_total_used'', ''system_mem_pct_usable''} \<and>
    vm_total (GetMemoryInfo sample_proc_env virtual_memory_info_new) = 0"
  by (rule memory_share_without_total_throws) (simp add: misc_metrics_def)

text \<open>The counters read after a failure are zero, and the usage is computed from wrapped differences.\<close>

lemma usage_after_failed_read:
  assumes "read_file E ''/proc/stat'' = None" "CPUTotalTime (cpu_time last_stat) \<noteq> 0"
    and "d_less (doubles E) (d_of_long (doubles E) 0) (d_of_u64 (doubles E) (- CPUTotalTime (cpu_time last_stat)))"
  shows "cpu_usage_value E last_stat (snd (GetProcStat E stat_info_new)) =
    (let D = doubles E; t = d_of_u64 D (- CPUTotalTime (cpu_time last_stat))
     in d_div D (d_sub D t (d_of_u64 D (- CPUIdleTime (cpu_time last_stat)))) t)"
  using assms
  by (simp add: GetProcStat_def cpu_usage_value_def stat_info_new_def cpu_times_new_def CPUTotalTime_def CPUIdleTime_def
      CPUNonIdleTime_def Let_def)

end
