(* ===== verification/Gpu_Reader.thy ===== *)
theory Gpu_Reader
  imports Host_Metrics
begin

text \<open>
  Graphics processors: app/source/source/host/collector/gpu/gpu_reader.cc and gpu_collector.cc. NVML is a
  parameter: each query yields a value or fails, and a query for a list is given the room of the
  buffer and fills it, asks for more or fails. \<open>'v\<close> is the type of device handles, \<open>None\<close> the null
  handle of a device that could not be opened.
\<close>

datatype 'a nvml_answer = Filled "'a list" | Insufficient_Size | Nvml_Error

record gpu_process =
  pi_pid :: "32 word"
  pi_used :: "64 word"

record process_util =
  pu_pid :: "32 word"
  pu_sm :: "32 word"
  pu_enc :: "32 word"
  pu_dec :: "32 word"

record 'v nvml =
  nvmlInit :: bool
  nvmlDeviceGetCount :: "32 word option"
  nvmlHandle :: "nat \<Rightarrow> 'v option"
  nvmlUUID :: "'v option \<Rightarrow> string option"
  nvmlUtilization :: "'v option \<Rightarrow> (32 word \<times> 32 word) option"
  nvmlMemory :: "'v option \<Rightarrow> (64 word \<times> 64 word) option"
  nvmlTemperature :: "'v option \<Rightarrow> 32 word option"
  nvmlPower :: "'v option \<Rightarrow> 32 word option"
  nvmlClock :: "'v option \<Rightarrow> 32 word option"
  nvmlFan :: "'v option \<Rightarrow> 32 word option"
  nvmlPcieRx :: "'v option \<Rightarrow> 32 word option"
  nvmlPcieTx :: "'v option \<Rightarrow> 32 word option"
  nvmlEcc :: "'v option \<Rightarrow> 64 word option"
  nvmlProcesses :: "'v option \<Rightarrow> 32 word \<Rightarrow> gpu_process nvml_answer"
  nvmlProcessUtil :: "'v option \<Rightarrow> 64 word \<Rightarrow> 32 word \<Rightarrow> process_util nvml_answer"

section \<open>The reader\<close>

record 'v gpu_reader =
  gr_devices :: "'v option list"
  gr_uuid :: "string list"
  last_sample_ts :: "64 word"

definition gpu_reader_new :: "'v nvml \<Rightarrow> 'v gpu_reader" where
  "gpu_reader_new N =
     (let n = (if \<not> nvmlInit N then 0 else case nvmlDeviceGetCount N of None \<Rightarrow> 0 | Some c \<Rightarrow> unat c)
      in \<lparr>gr_devices = map (nvmlHandle N) [0..<n],
          gr_uuid = map (\<lambda>i. if nvmlHandle N i = None then []
                             else case nvmlUUID N (nvmlHandle N i) of None \<Rightarrow> [] | Some u \<Rightarrow> u) [0..<n],
          last_sample_ts = 0\<rparr>)"

definition IsGPUAvailable :: "'v gpu_reader \<Rightarrow> bool" where
  "IsGPUAvailable r \<longleftrightarrow> gr_devices r \<noteq> []"

definition GetGPUCount :: "'v gpu_reader \<Rightarrow> nat" where
  "GetGPUCount r = length (gr_devices r)"

definition GetGPUData ::
  "'v gpu_reader \<Rightarrow> ('v option \<Rightarrow> 'd metric_value) \<Rightarrow> 'd metric_data list \<Rightarrow> 'd metric_data list" where
  "GetGPUData r f values =
     map2 (\<lambda>v (dev, uuid). v\<lparr>md_data := f dev, md_labels := smap_put ''gpu_uuid'' uuid (md_labels v)\<rparr>)
       (resize (length (gr_devices r)) values) (zip (gr_devices r) (gr_uuid r))"

text \<open>A query that fails counts as zero.\<close>

definition query_int :: "('v option \<Rightarrow> (64 word) option) \<Rightarrow> 'v option \<Rightarrow> 'd metric_value" where
  "query_int q dev = MV_Int (case q dev of None \<Rightarrow> 0 | Some v \<Rightarrow> v)"

definition narrow :: "('v option \<Rightarrow> (32 word) option) \<Rightarrow> 'v option \<Rightarrow> (64 word) option" where
  "narrow q dev = map_option ucast (q dev)"

definition GetGPUUsage :: "'v nvml \<Rightarrow> 'v gpu_reader \<Rightarrow> 'd metric_data list \<Rightarrow> 'd metric_data list" where
  "GetGPUUsage N r = GetGPUData r (query_int (narrow (\<lambda>d. map_option fst (nvmlUtilization N d))))"

definition GetGPUMemoryUsage :: "'v nvml \<Rightarrow> 'v gpu_reader \<Rightarrow> 'd metric_data list \<Rightarrow> 'd metric_data list" where
  "GetGPUMemoryUsage N r = GetGPUData r (query_int (narrow (\<lambda>d. map_option snd (nvmlUtilization N d))))"

definition GetGPUMemoryUsed :: "'v nvml \<Rightarrow> 'v gpu_reader \<Rightarrow> 'd metric_data list \<Rightarrow> 'd metric_data list" where
  "GetGPUMemoryUsed N r = GetGPUData r (query_int (\<lambda>d. map_option fst (nvmlMemory N d)))"

definition GetGPUMemoryFree :: "'v nvml \<Rightarrow> 'v gpu_reader \<Rightarrow> 'd metric_data list \<Rightarrow> 'd metric_data list" where
  "GetGPUMemoryFree N r = GetGPUData r (query_int (\<lambda>d. map_option snd (nvmlMemory N d)))"

definition GetGPUTemperature :: "'v nvml \<Rightarrow> 'v gpu_reader \<Rightarrow> 'd metric_data list \<Rightarrow> 'd metric_data list" where
  "GetGPUTemperature N r = GetGPUData r (query_int (narrow (nvmlTemperature N)))"

definition GetGPUPowerDraw :: "'v nvml \<Rightarrow> 'v gpu_reader \<Rightarrow> 'd metric_data list \<Rightarrow> 'd metric_data list" where
  "GetGPUPowerDraw N r = GetGPUData r (query_int (narrow (nvmlPower N)))"

definition GetGPUCoreClock :: "'v nvml \<Rightarrow> 'v gpu_reader \<Rightarrow> 'd metric_data list \<Rightarrow> 'd metric_data list" where
  "GetGPUCoreClock N r = GetGPUData r (query_int (narrow (nvmlClock N)))"

definition GetGPUFanSpeed :: "'v nvml \<Rightarrow> 'v gpu_reader \<Rightarrow> 'd metric_data list \<Rightarrow> 'd metric_data list" where
  "GetGPUFanSpeed N r = GetGPUData r (query_int (narrow (nvmlFan N)))"

definition GetGPUPCIERXBandwidth :: "'v nvml \<Rightarrow> 'v gpu_reader \<Rightarrow> 'd metric_data list \<Rightarrow> 'd metric_data list" where
  "GetGPUPCIERXBandwidth N r = GetGPUData r (query_int (narrow (nvmlPcieRx N)))"

definition GetGPUPCIETXBandwidth :: "'v nvml \<Rightarrow> 'v gpu_reader \<Rightarrow> 'd metric_data list \<Rightarrow> 'd metric_data list" where
  "GetGPUPCIETXBandwidth N r = GetGPUData r (query_int (narrow (nvmlPcieTx N)))"

definition GetGPUEccErrors :: "'v nvml \<Rightarrow> 'v gpu_reader \<Rightarrow> 'd metric_data list \<Rightarrow> 'd metric_data list" where
  "GetGPUEccErrors N r = GetGPUData r (query_int (nvmlEcc N))"

section \<open>Processes\<close>

text \<open>The buffer is doubled until it is large enough; what is passed is the low half of its size. The
  result is the buffer and the number of entries filled, or nothing after an error.\<close>

partial_function (option) fill_loop ::
  "(32 word \<Rightarrow> 'a nvml_answer) \<Rightarrow> 'a \<Rightarrow> 'a list \<Rightarrow> (('a list \<times> nat) option) option" where
  "fill_loop ask zero buf =
     (case ask (of_nat (length buf)) of
        Filled xs \<Rightarrow> Some (Some (xs @ drop (length xs) buf, length xs))
      | Nvml_Error \<Rightarrow> Some None
      | Insufficient_Size \<Rightarrow> fill_loop ask zero (buf @ replicate (length buf) zero))"

definition no_process :: gpu_process where "no_process = \<lparr>pi_pid = 0, pi_used = 0\<rparr>"
definition no_util :: process_util where "no_util = \<lparr>pu_pid = 0, pu_sm = 0, pu_enc = 0, pu_dec = 0\<rparr>"

definition read_processes :: "'v nvml \<Rightarrow> 'v option \<Rightarrow> ((gpu_process list \<times> nat) option) result" where
  "read_processes N dev =
     (case fill_loop (nvmlProcesses N dev) no_process (replicate 1024 no_process) of
        None \<Rightarrow> Inl Diverges | Some r \<Rightarrow> Inr r)"

text \<open>The entry that is read is that of the device's index.\<close>

definition process_value :: "string \<Rightarrow> gpu_process \<Rightarrow> 'd metric_data" where
  "process_value uuid p =
     metric_data_new\<lparr>md_data := MV_Int (pi_used p),
       md_labels := smap_put ''pid'' (dec_of_nat (unat (pi_pid p))) (smap_put ''gpu_uuid'' uuid [])\<rparr>"

definition process_values :: "nat \<Rightarrow> string \<Rightarrow> gpu_process list \<times> nat \<Rightarrow> 'd metric_data list result" where
  "process_values i uuid r =
     (let (infos, n) = r
      in if 0 < n \<and> length infos \<le> i then Inl Out_Of_Bounds
         else Inr (replicate n (process_value uuid (infos ! i))))"

definition GetGPUProcessMemoryUsage ::
  "'v nvml \<Rightarrow> 'v gpu_reader \<Rightarrow> 'd metric_data list \<Rightarrow> 'd metric_data list result" where
  "GetGPUProcessMemoryUsage N r values =
     fold_r (\<lambda>i vs. bind_r (read_processes N (gr_devices r ! i)) (\<lambda>p.
               case p of None \<Rightarrow> Inr vs | Some q \<Rightarrow> bind_r (process_values i (gr_uuid r ! i) q) (\<lambda>ws. Inr (vs @ ws))))
       [0..<length (gr_devices r)] values"

record gpu_process_usage =
  gu_pid :: "32 word"
  gu_memory :: "32 word"
  gu_sm :: "32 word"
  gu_enc :: "32 word"
  gu_dec :: "32 word"

definition gpu_process_usage_new :: gpu_process_usage where
  "gpu_process_usage_new = \<lparr>gu_pid = 0, gu_memory = 0, gu_sm = 0, gu_enc = 0, gu_dec = 0\<rparr>"

definition usage_at :: "32 word \<Rightarrow> (32 word \<times> gpu_process_usage) list \<Rightarrow> gpu_process_usage" where
  "usage_at pid m = (case map_of m pid of None \<Rightarrow> gpu_process_usage_new | Some u \<Rightarrow> u)"

definition add_memory :: "nat \<Rightarrow> gpu_process list \<times> nat \<Rightarrow> (32 word \<times> gpu_process_usage) list \<Rightarrow> ((32 word \<times> gpu_process_usage) list) result" where
  "add_memory i r m =
     (let (infos, n) = r
      in if n = 0 then Inr m
         else if length infos \<le> i then Inl Out_Of_Bounds
         else let p = infos ! i
              in Inr (AList.update (pi_pid p) ((usage_at (pi_pid p) m)\<lparr>gu_memory := ucast (pi_used p)\<rparr>) m))"

definition add_utils :: "process_util list \<Rightarrow> (32 word \<times> gpu_process_usage) list \<Rightarrow> (32 word \<times> gpu_process_usage) list" where
  "add_utils us m =
     fold (\<lambda>u m. AList.update (pu_pid u)
             ((usage_at (pu_pid u) m)\<lparr>gu_pid := pu_pid u, gu_sm := pu_sm u, gu_enc := pu_enc u, gu_dec := pu_dec u\<rparr>) m) us m"

text \<open>\<open>now i\<close> is the clock when the samples of device \<open>i\<close> have been read.\<close>

definition GetGPUProcessUsage ::
  "'v nvml \<Rightarrow> (nat \<Rightarrow> 64 word) \<Rightarrow> 'v gpu_reader \<Rightarrow> ('v gpu_reader \<times> (32 word \<times> gpu_process_usage) list) result" where
  "GetGPUProcessUsage N now r =
     fold_r (\<lambda>i (r, m). bind_r (read_processes N (gr_devices r ! i)) (\<lambda>p.
               bind_r (case p of None \<Rightarrow> Inr m | Some q \<Rightarrow> add_memory i q m) (\<lambda>m1.
                 case fill_loop (nvmlProcessUtil N (gr_devices r ! i) (last_sample_ts r)) no_util (replicate 1024 no_util) of
                   None \<Rightarrow> Inl Diverges
                 | Some None \<Rightarrow> Inr (r, m1)
                 | Some (Some (us, n)) \<Rightarrow> Inr (r\<lparr>last_sample_ts := now i\<rparr>, add_utils (take n us) m1))))
       [0..<length (gr_devices r)] (r, [])"

section \<open>The collector\<close>

text \<open>The gauges are made only when there is a device; their names in the order of creation.\<close>

definition gpu_gauges :: "'v nvml \<Rightarrow> (string \<times> ('d, 'v gpu_reader) gauge_callback) list" where
  "gpu_gauges N =
     [(''gpu_usage'', Multi_Value (\<lambda>r vs. Inr (GetGPUUsage N r vs, r))),
      (''gpu_memory_usage'', Multi_Value (\<lambda>r vs. Inr (GetGPUMemoryUsage N r vs, r))),
      (''gpu_memory_used'', Multi_Value (\<lambda>r vs. Inr (GetGPUMemoryUsed N r vs, r))),
      (''gpu_memory_free'', Multi_Value (\<lambda>r vs. Inr (GetGPUMemoryFree N r vs, r))),
      (''gpu_temperature'', Multi_Value (\<lambda>r vs. Inr (GetGPUTemperature N r vs, r))),
      (''gpu_power_draw'', Multi_Value (\<lambda>r vs. Inr (GetGPUPowerDraw N r vs, r))),
      (''gpu_core_clock'', Multi_Value (\<lambda>r vs. Inr (GetGPUCoreClock N r vs, r))),
      (''gpu_process_memory_usage'', Multi_Value (\<lambda>r vs. bind_r (GetGPUProcessMemoryUsage N r vs) (\<lambda>ws. Inr (ws, r)))),
      (''gpu_pcie_rx_bandwidth'', Multi_Value (\<lambda>r vs. Inr (GetGPUPCIERXBandwidth N r vs, r))),
      (''gpu_pcie_tx_bandwidth'', Multi_Value (\<lambda>r vs. Inr (GetGPUPCIETXBandwidth N r vs, r))),
      (''gpu_ecc_errors'', Multi_Value (\<lambda>r vs. Inr (GetGPUEccErrors N r vs, r)))]"

definition gpu_collector :: "'v nvml \<Rightarrow> 'v gpu_reader \<Rightarrow> (string \<times> ('d, 'v gpu_reader) gauge_callback) list" where
  "gpu_collector N r = (if IsGPUAvailable r then gpu_gauges N else [])"

section \<open>Lemmas\<close>

text \<open>What NVML documents of a query for a list: it fills a buffer that has room, and asks for more otherwise.\<close>

definition answers :: "(32 word \<Rightarrow> 'a nvml_answer) \<Rightarrow> 'a list \<Rightarrow> bool" where
  "answers ask xs \<longleftrightarrow> (\<forall>n. ask n = (if length xs \<le> unat n then Filled xs else Insufficient_Size))"

lemma fill_loop_ends:
  assumes "answers ask xs" "length xs \<le> 2 ^ 31" "buf = replicate (2 ^ (10 + k)) zero" "k \<le> 21"
  shows "\<exists>n. fill_loop ask zero buf = Some (Some (xs @ replicate n zero, length xs)) \<and> 2 ^ (10 + k) \<le> length xs + n"
  using assms(3,4)
proof (induction "21 - k" arbitrary: k buf)
  case 0
  have k: "k = 21" using 0 by simp
  have "unat (of_nat (length buf) :: 32 word) = 2 ^ 31" using 0(2) k by simp
  then have "ask (of_nat (length buf)) = Filled xs" using assms(1,2) by (simp add: answers_def)
  then show ?case using assms(2) 0(2) k by (subst fill_loop.simps) simp
next
  case (Suc d)
  then have k: "k < 21" by simp
  have len: "length buf = 2 ^ (10 + k)" using Suc.prems(1) by simp
  have "(2::nat) ^ (10 + k) < 2 ^ 32" using k by (intro power_strict_increasing) simp_all
  then have "length buf < 2 ^ 32" using len by simp
  then have u: "unat (of_nat (length buf) :: 32 word) = length buf"
    by (intro trans [OF unat_of_nat mod_less]) simp
  show ?case
  proof (cases "length xs \<le> length buf")
    case True
    then have "ask (of_nat (length buf)) = Filled xs" using assms(1) u by (simp add: answers_def)
    then show ?thesis using True len Suc.prems(1) by (subst fill_loop.simps) simp
  next
    case False
    then have "ask (of_nat (length buf)) = Insufficient_Size" using assms(1) u by (simp add: answers_def)
    then have step: "fill_loop ask zero buf = fill_loop ask zero (buf @ replicate (length buf) zero)"
      by (subst fill_loop.simps) simp
    have "d = 21 - Suc k" "Suc k \<le> 21" using Suc.hyps(2) k by simp_all
    moreover have "buf @ replicate (length buf) zero = replicate (2 ^ (10 + Suc k)) zero"
      using Suc.prems(1) by (simp add: replicate_add [symmetric] power_add)
    ultimately obtain n where "fill_loop ask zero (buf @ replicate (length buf) zero) = Some (Some (xs @ replicate n zero, length xs))"
      "2 ^ (10 + Suc k) \<le> length xs + n" using Suc.hyps(1) by blast
    then show ?thesis unfolding step by (intro exI [of _ n]) (simp add: power_add)
  qed
qed

text \<open>The entry at a position of the filled buffer.\<close>

definition entry_at :: "nat \<Rightarrow> gpu_process list \<Rightarrow> gpu_process" where
  "entry_at i ps = (if i < length ps then ps ! i else no_process)"

lemma read_processes_ends:
  assumes "answers (nvmlProcesses N dev) ps" "length ps \<le> 2 ^ 31"
  shows "\<exists>n. read_processes N dev = Inr (Some (ps @ replicate n no_process, length ps)) \<and> 1024 \<le> length ps + n"
  using fill_loop_ends [OF assms, of "replicate 1024 no_process" 0 no_process] by (auto simp: read_processes_def)

lemma read_processes_values:
  assumes "answers (nvmlProcesses N dev) ps" "length ps \<le> 2 ^ 31" "i < 1024"
  shows "\<exists>q. read_processes N dev = Inr (Some q) \<and>
    process_values i uuid q = Inr (replicate (length ps) (process_value uuid (entry_at i ps)))"
proof -
  obtain n where n: "read_processes N dev = Inr (Some (ps @ replicate n no_process, length ps))" "1024 \<le> length ps + n"
    using read_processes_ends [OF assms(1,2)] by blast
  then have "(ps @ replicate n no_process) ! i = entry_at i ps"
    using assms(3) by (auto simp: entry_at_def nth_append)
  then show ?thesis using n assms(3) by (auto simp: process_values_def)
qed

section \<open>Properties\<close>

text \<open>C35: reading the processes of the devices always ends, since the buffer is doubled until NVML can
  fill it, and yields one value for each process; but all values of a device are the same: they carry the
  process that stands at the index of the device, or none when there are fewer processes.\<close>

theorem gpu_process_values_repeat:
  fixes vals :: "'d metric_data list"
  assumes "list_all (\<lambda>i. answers (nvmlProcesses N (gr_devices r ! i)) (ps i) \<and> length (ps i) \<le> 2 ^ 31)
             [0..<length (gr_devices r)]"
    and "length (gr_devices r) \<le> 1024"
  shows "GetGPUProcessMemoryUsage N r vals =
    Inr (vals @ concat (map (\<lambda>i. replicate (length (ps i)) (process_value (gr_uuid r ! i) (entry_at i (ps i))))
                            [0..<length (gr_devices r)]))"
proof -
  let ?v = "\<lambda>i. replicate (length (ps i)) (process_value (gr_uuid r ! i) (entry_at i (ps i))) :: 'd metric_data list"
  let ?f = "\<lambda>i (vs :: 'd metric_data list). bind_r (read_processes N (gr_devices r ! i)) (\<lambda>p.
      case p of None \<Rightarrow> Inr vs | Some q \<Rightarrow> bind_r (process_values i (gr_uuid r ! i) q) (\<lambda>ws. Inr (vs @ ws)))"
  have "?f i vs = Inr (vs @ ?v i)" if "i \<in> set [0..<length (gr_devices r)]" for i vs
  proof -
    have "answers (nvmlProcesses N (gr_devices r ! i)) (ps i)" "length (ps i) \<le> 2 ^ 31" "i < 1024"
      using assms that by (auto simp: list_all_iff)
    from read_processes_values [OF this] obtain q where "read_processes N (gr_devices r ! i) = Inr (Some q)"
      "(process_values i (gr_uuid r ! i) q :: 'd metric_data list result) = Inr (?v i)" by blast
    then show ?thesis by simp
  qed
  then have "fold_r ?f [0..<length (gr_devices r)] vals = Inr (fold (\<lambda>i vs. vs @ ?v i) [0..<length (gr_devices r)] vals)"
    by (rule fold_r_total)
  moreover have "fold (\<lambda>i vs. vs @ ?v i) is vs = vs @ concat (map ?v is)" for "is" and vs :: "'d metric_data list"
    by (induction "is" arbitrary: vs) auto
  ultimately show ?thesis by (simp add: GetGPUProcessMemoryUsage_def)
qed

definition two_processes :: "gpu_process list" where
  "two_processes = [\<lparr>pi_pid = 7, pi_used = 100\<rparr>, \<lparr>pi_pid = 9, pi_used = 300\<rparr>]"

definition sample_nvml :: "unit nvml" where
  "sample_nvml =
     \<lparr>nvmlInit = True, nvmlDeviceGetCount = Some 1, nvmlHandle = (\<lambda>_. Some ()), nvmlUUID = (\<lambda>_. Some ''GPU-1''),
      nvmlUtilization = (\<lambda>_. None), nvmlMemory = (\<lambda>_. None), nvmlTemperature = (\<lambda>_. None), nvmlPower = (\<lambda>_. None),
      nvmlClock = (\<lambda>_. None), nvmlFan = (\<lambda>_. None), nvmlPcieRx = (\<lambda>_. None), nvmlPcieTx = (\<lambda>_. None), nvmlEcc = (\<lambda>_. None),
      nvmlProcesses = (\<lambda>_ n. if 2 \<le> unat n then Filled two_processes else Insufficient_Size),
      nvmlProcessUtil = (\<lambda>_ _ _. Nvml_Error)\<rparr>"

theorem gpu_process_values_repeat_witness:
  "GetGPUProcessMemoryUsage sample_nvml (gpu_reader_new sample_nvml) [] =
     Inr (replicate 2 (process_value ''GPU-1'' \<lparr>pi_pid = 7, pi_used = 100\<rparr>) :: int metric_data list)"
proof -
  have r: "gr_devices (gpu_reader_new sample_nvml) = [Some ()]" "gr_uuid (gpu_reader_new sample_nvml) = [''GPU-1'']"
    by (simp_all add: gpu_reader_new_def sample_nvml_def)
  have "answers (nvmlProcesses sample_nvml (Some ())) two_processes"
    by (simp add: answers_def sample_nvml_def two_processes_def)
  then have h: "list_all (\<lambda>i. answers (nvmlProcesses sample_nvml (gr_devices (gpu_reader_new sample_nvml) ! i)) two_processes \<and>
      length two_processes \<le> 2 ^ 31) [0..<length (gr_devices (gpu_reader_new sample_nvml))]"
    by (simp add: r) (simp add: two_processes_def)
  have "length (gr_devices (gpu_reader_new sample_nvml)) \<le> 1024" by (simp add: r)
  from gpu_process_values_repeat [OF h this, of "[] :: int metric_data list"] show ?thesis
    by (simp add: r entry_at_def) (simp add: two_processes_def numeral_2_eq_2)
qed

end
