(* ===== verification/Json_Api.thy ===== *)
theory Json_Api
  imports Cpp_Strings
begin

text \<open>
  RapidJSON as the Kubernetes objects and the watcher use it. The library is not part of the
  repository: its document values are an abstract type and its accessors a record \<open>json_api\<close> that
  every definition takes as a parameter. What is relied on is its documented contract:
  \<open>FindMember\<close> and \<open>HasMember\<close> need an object, \<open>GetArray\<close> an array, \<open>GetString\<close> a string,
  \<open>GetUint\<close> an unsigned number, else \<open>RAPIDJSON_ASSERT\<close> fails (\<open>Assert_Failed\<close>);
  dereferencing the result of a failed \<open>FindMember\<close> is \<open>End_Deref\<close>.
  The datatype \<open>json\<close> with \<open>json_dom\<close> is one concrete document type, used by witnesses only.
\<close>

section \<open>Accessors\<close>

record 'j json_api =
  is_object :: "'j \<Rightarrow> bool"
  is_array :: "'j \<Rightarrow> bool"
  is_string :: "'j \<Rightarrow> bool"
  is_uint :: "'j \<Rightarrow> bool"
  find_member :: "'j \<Rightarrow> string \<Rightarrow> 'j option"
  array_elems :: "'j \<Rightarrow> 'j list"
  object_members :: "'j \<Rightarrow> (string \<times> 'j) list"
  string_val :: "'j \<Rightarrow> string"
  uint_val :: "'j \<Rightarrow> 32 word"

definition has_member :: "'j json_api \<Rightarrow> 'j \<Rightarrow> string \<Rightarrow> bool result" where
  "has_member J v k = (if is_object J v then Inr (find_member J v k \<noteq> None) else Inl Assert_Failed)"

definition member_value :: "'j json_api \<Rightarrow> 'j \<Rightarrow> string \<Rightarrow> 'j result" where
  "member_value J v k =
     (if is_object J v
      then (case find_member J v k of None \<Rightarrow> Inl End_Deref | Some x \<Rightarrow> Inr x)
      else Inl Assert_Failed)"

definition get_string :: "'j json_api \<Rightarrow> 'j \<Rightarrow> string result" where
  "get_string J v = (if is_string J v then Inr (string_val J v) else Inl Assert_Failed)"

definition get_uint :: "'j json_api \<Rightarrow> 'j \<Rightarrow> (32 word) result" where
  "get_uint J v = (if is_uint J v then Inr (uint_val J v) else Inl Assert_Failed)"

definition get_array :: "'j json_api \<Rightarrow> 'j \<Rightarrow> 'j list result" where
  "get_array J v = (if is_array J v then Inr (array_elems J v) else Inl Assert_Failed)"

definition get_object :: "'j json_api \<Rightarrow> 'j \<Rightarrow> (string \<times> 'j) list result" where
  "get_object J v = (if is_object J v then Inr (object_members J v) else Inl Assert_Failed)"

text \<open>\<open>if (!c) return d;\<close> followed by the rest of the function.\<close>

definition guard_r :: "bool result \<Rightarrow> 'a \<Rightarrow> 'a result \<Rightarrow> 'a result" where
  "guard_r c d rest = bind_r c (\<lambda>b. if b then rest else Inr d)"

lemma guard_r_simps [simp]:
  "guard_r (Inr True) d rest = rest"
  "guard_r (Inr False) d rest = Inr d"
  "guard_r (Inl e) d rest = Inl e"
  by (simp_all add: guard_r_def)

lemma guard_r_True [cpp_simps]:
  "guard_r c (False, d) rest = Inr (True, x) \<longleftrightarrow> c = Inr True \<and> rest = Inr (True, x)"
  by (auto simp: guard_r_def cpp_simps split: if_splits)

lemma guard_r_eq_Inl [cpp_simps]:
  "guard_r c d rest = Inl e \<longleftrightarrow> c = Inl e \<or> (c = Inr True \<and> rest = Inl e)"
  by (auto simp: guard_r_def cpp_simps split: if_splits)

lemma guard_r_eq_Inr:
  "guard_r c d rest = Inr x \<longleftrightarrow> (c = Inr True \<and> rest = Inr x) \<or> (c = Inr False \<and> x = d)"
  by (auto simp: guard_r_def cpp_simps split: if_splits)

lemma has_member_eq [cpp_simps]:
  "has_member J v k = Inr b \<longleftrightarrow> is_object J v \<and> b = (find_member J v k \<noteq> None)"
  "has_member J v k = Inl e \<longleftrightarrow> \<not> is_object J v \<and> e = Assert_Failed"
  by (auto simp: has_member_def)

lemma member_value_eq_Inr [cpp_simps]:
  "member_value J v k = Inr x \<longleftrightarrow> is_object J v \<and> find_member J v k = Some x"
  by (auto simp: member_value_def split: option.splits)

lemma member_value_eq_Inl [cpp_simps]:
  "member_value J v k = Inl e \<longleftrightarrow>
     (if is_object J v then find_member J v k = None \<and> e = End_Deref else e = Assert_Failed)"
  by (auto simp: member_value_def split: option.splits)

lemma get_array_eq [cpp_simps]:
  "get_array J v = Inr xs \<longleftrightarrow> is_array J v \<and> xs = array_elems J v"
  "get_array J v = Inl e \<longleftrightarrow> \<not> is_array J v \<and> e = Assert_Failed"
  by (auto simp: get_array_def)

lemma get_uint_eq [cpp_simps]:
  "get_uint J v = Inr n \<longleftrightarrow> is_uint J v \<and> n = uint_val J v"
  "get_uint J v = Inl e \<longleftrightarrow> \<not> is_uint J v \<and> e = Assert_Failed"
  by (auto simp: get_uint_def)

lemma get_string_eq [cpp_simps]:
  "get_string J v = Inr s \<longleftrightarrow> is_string J v \<and> s = string_val J v"
  "get_string J v = Inl e \<longleftrightarrow> \<not> is_string J v \<and> e = Assert_Failed"
  by (auto simp: get_string_def)

section \<open>Paths in a document\<close>

fun json_path :: "'j json_api \<Rightarrow> 'j \<Rightarrow> string list \<Rightarrow> 'j option" where
  "json_path J v [] = Some v"
| "json_path J v (k # ks) =
     (if is_object J v then (case find_member J v k of None \<Rightarrow> None | Some x \<Rightarrow> json_path J x ks) else None)"

definition json_str :: "'j json_api \<Rightarrow> 'j \<Rightarrow> string list \<Rightarrow> string option" where
  "json_str J v ks =
     (case json_path J v ks of
        Some x \<Rightarrow> (if is_string J x then Some (string_val J x) else None)
      | None \<Rightarrow> None)"

lemma json_str_Some [cpp_simps]:
  "json_str J v ks = Some s \<longleftrightarrow> (\<exists>x. json_path J v ks = Some x \<and> is_string J x \<and> s = string_val J x)"
  by (auto simp: json_str_def split: option.splits)

lemma json_path_Cons [cpp_simps]:
  "json_path J v (k # ks) = Some y \<longleftrightarrow>
     is_object J v \<and> (\<exists>x. find_member J v k = Some x \<and> json_path J x ks = Some y)"
  by (auto split: option.splits)

declare json_path.simps(2) [simp del]

section \<open>A concrete document type\<close>

datatype json =
    JObject "(string \<times> json) list"
  | JArray "json list"
  | JString string
  | JUint "32 word"
  | JBool bool
  | JNull

definition json_dom :: "json json_api" where
  "json_dom =
     \<lparr>is_object = (\<lambda>v. case v of JObject _ \<Rightarrow> True | _ \<Rightarrow> False),
      is_array = (\<lambda>v. case v of JArray _ \<Rightarrow> True | _ \<Rightarrow> False),
      is_string = (\<lambda>v. case v of JString _ \<Rightarrow> True | _ \<Rightarrow> False),
      is_uint = (\<lambda>v. case v of JUint _ \<Rightarrow> True | _ \<Rightarrow> False),
      find_member = (\<lambda>v k. case v of JObject ms \<Rightarrow> map_of ms k | _ \<Rightarrow> None),
      array_elems = (\<lambda>v. case v of JArray xs \<Rightarrow> xs | _ \<Rightarrow> []),
      object_members = (\<lambda>v. case v of JObject ms \<Rightarrow> ms | _ \<Rightarrow> []),
      string_val = (\<lambda>v. case v of JString s \<Rightarrow> s | _ \<Rightarrow> []),
      uint_val = (\<lambda>v. case v of JUint n \<Rightarrow> n | _ \<Rightarrow> 0)\<rparr>"

lemma json_dom_simps [simp]:
  "is_object json_dom (JObject ms)" "is_array json_dom (JArray xs)"
  "is_string json_dom (JString s)" "is_uint json_dom (JUint n)"
  "\<not> is_object json_dom (JArray xs)" "\<not> is_object json_dom (JString s)"
  "\<not> is_uint json_dom (JString s)" "\<not> is_string json_dom (JUint n)"
  "find_member json_dom (JObject ms) k = map_of ms k"
  "array_elems json_dom (JArray xs) = xs"
  "object_members json_dom (JObject ms) = ms"
  "string_val json_dom (JString s) = s" "uint_val json_dom (JUint n) = n"
  by (simp_all add: json_dom_def)

end
