(* ===== verification/Kube_Objects.thy ===== *)
theory Kube_Objects
  imports Json_Api
begin

text \<open>
  The Kubernetes objects of app/include/common/kubernetes (\<open>Pod\<close>, \<open>Endpoint\<close>, \<open>Service\<close>) and
  their \<open>parseFromString\<close> methods (app/source/common/kubernetes/pod.cc, endpoint.cc, service.cc).

  A method that returns \<open>false\<close> half-way leaves the fields it already wrote: the result is the
  pair of the returned flag and the object as it stands.
\<close>

section \<open>The objects\<close>

record pod =
  pod_name :: string
  pod_namespace :: string
  pod_ip :: string

record endpoint =
  ep_name :: string
  ep_namespace :: string
  addresses :: "string list"

record service_port =
  protocol :: string
  port :: "16 word"
  target_port :: "16 word"

text \<open>\<open>ports\<close> holds \<open>unique_ptr\<close>s: \<open>resize\<close> fills it with null pointers.\<close>

record service =
  svc_name :: string
  svc_namespace :: string
  ports :: "service_port option list"
  selector :: "(string \<times> string) list"
  cluster_ip :: string
  cluster_ips :: "string list"
  svc_type :: string
  session_affinity :: string
  ip_families :: "string list"
  ip_family_policy :: string
  internal_traffic_policy :: string
  peers :: "string list"

definition empty_pod :: pod where
  "empty_pod = \<lparr>pod_name = [], pod_namespace = [], pod_ip = []\<rparr>"

definition empty_endpoint :: endpoint where
  "empty_endpoint = \<lparr>ep_name = [], ep_namespace = [], addresses = []\<rparr>"

definition empty_service :: service where
  "empty_service = \<lparr>svc_name = [], svc_namespace = [], ports = [], selector = [], cluster_ip = [],
     cluster_ips = [], svc_type = [], session_affinity = [], ip_families = [],
     ip_family_policy = [], internal_traffic_policy = [], peers = []\<rparr>"

section \<open>Pod::parseFromString\<close>

definition pod_parse :: "'j json_api \<Rightarrow> 'j \<Rightarrow> pod \<Rightarrow> (bool \<times> pod) result" where
  "pod_parse J document p =
     guard_r (has_member J document ''object'') (False, p) (
     bind_r (member_value J document ''object'') (\<lambda>object.
     guard_r (Inr (is_object J object)) (False, p) (
     guard_r (has_member J object ''metadata'') (False, p) (
     bind_r (member_value J object ''metadata'') (\<lambda>metadata.
     guard_r (Inr (is_object J metadata)) (False, p) (
     guard_r (has_member J metadata ''name'') (False, p) (
     bind_r (bind_r (member_value J metadata ''name'') (get_string J)) (\<lambda>name.
     let p1 = p\<lparr>pod_name := name\<rparr> in
     guard_r (has_member J metadata ''namespace'') (False, p1) (
     guard_r (has_member J object ''status'') (False, p1) (
     bind_r (member_value J object ''status'') (\<lambda>status.
     guard_r (Inr (is_object J status)) (False, p1) (
     guard_r (has_member J status ''podIP'') (False, p1) (
     bind_r (member_value J status ''podIP'') (\<lambda>ip.
     guard_r (Inr (is_string J ip)) (False, p1) (
     bind_r (get_string J ip) (\<lambda>podIp.
     let p2 = p1\<lparr>pod_ip := podIp\<rparr> in
     bind_r (bind_r (member_value J metadata ''namespace'') (get_string J)) (\<lambda>ns.
     Inr (True, p2\<lparr>pod_namespace := ns\<rparr>))))))))))))))))))"

section \<open>Endpoint::parseFromString\<close>

text \<open>The inner loop: an address that is not an object with a string \<open>ip\<close> is skipped.\<close>

definition add_address :: "'j json_api \<Rightarrow> 'j \<Rightarrow> endpoint \<Rightarrow> endpoint result" where
  "add_address J address e =
     guard_r (Inr (is_object J address)) e (
     guard_r (has_member J address ''ip'') e (
     bind_r (member_value J address ''ip'') (\<lambda>ip.
     guard_r (Inr (is_string J ip)) e (
     bind_r (get_string J ip) (\<lambda>s. Inr (e\<lparr>addresses := addresses e @ [s]\<rparr>))))))"

definition add_subset :: "'j json_api \<Rightarrow> 'j \<Rightarrow> endpoint \<Rightarrow> endpoint result" where
  "add_subset J sub e =
     guard_r (has_member J sub ''addresses'') e (
     bind_r (member_value J sub ''addresses'') (\<lambda>as.
     guard_r (Inr (is_array J as)) e (
     bind_r (get_array J as) (\<lambda>elems. fold_r (add_address J) elems e))))"

definition endpoint_parse :: "'j json_api \<Rightarrow> 'j \<Rightarrow> endpoint \<Rightarrow> (bool \<times> endpoint) result" where
  "endpoint_parse J document e =
     guard_r (has_member J document ''object'') (False, e) (
     bind_r (member_value J document ''object'') (\<lambda>object.
     guard_r (Inr (is_object J object)) (False, e) (
     guard_r (has_member J object ''metadata'') (False, e) (
     bind_r (member_value J object ''metadata'') (\<lambda>metadata.
     guard_r (Inr (is_object J metadata)) (False, e) (
     guard_r (has_member J metadata ''name'') (False, e) (
     bind_r (bind_r (member_value J metadata ''name'') (get_string J)) (\<lambda>name.
     let e1 = e\<lparr>ep_name := name\<rparr> in
     guard_r (has_member J metadata ''namespace'') (False, e1) (
     bind_r (member_value J metadata ''namespace'') (\<lambda>nsv.
     guard_r (Inr (is_string J nsv)) (False, e1) (
     bind_r (get_string J nsv) (\<lambda>ns.
     let e2 = e1\<lparr>ep_namespace := ns\<rparr> in
     guard_r (has_member J object ''subsets'') (False, e2) (
     bind_r (member_value J object ''subsets'') (\<lambda>subsets.
     guard_r (Inr (is_array J subsets)) (False, e2) (
     bind_r (get_array J subsets) (\<lambda>elems.
     bind_r (fold_r (add_subset J) elems e2) (\<lambda>e3.
     Inr (True, e3))))))))))))))))))"

section \<open>Service::toPeer\<close>

definition service_domain :: "service \<Rightarrow> string" where
  "service_domain s = svc_name s @ ''.'' @ svc_namespace s @ ''.svc.cluster.local''"

definition port_peers :: "string \<Rightarrow> string \<Rightarrow> service_port \<Rightarrow> string list" where
  "port_peers domain ip p =
     [ip @ '':'' @ dec_of_nat (unat (port p)), domain @ '':'' @ dec_of_nat (unat (port p))]"

definition deref_port :: "service_port option \<Rightarrow> service_port result" where
  "deref_port p = (case p of None \<Rightarrow> Inl Null_Deref | Some x \<Rightarrow> Inr x)"

definition to_peer :: "service \<Rightarrow> (string list \<times> service) result" where
  "to_peer s =
     (if peers s \<noteq> [] then Inr (peers s, s)
      else
        let domain = service_domain s in
        bind_r
          (fold_r
            (\<lambda>ip acc. fold_r
               (\<lambda>p acc. bind_r (deref_port p) (\<lambda>sp. Inr (acc @ port_peers domain ip sp)))
               (ports s) (acc @ [ip]))
            (cluster_ips s) [domain])
          (\<lambda>ps. Inr (ps, s\<lparr>peers := ps\<rparr>)))"

section \<open>Service::parseFromString\<close>

text \<open>One round of the ports loop writes \<open>ports[index]\<close>; a missing member returns \<open>false\<close>.\<close>

fun parse_ports :: "'j json_api \<Rightarrow> 'j list \<Rightarrow> nat \<Rightarrow> service \<Rightarrow> (bool \<times> service) result" where
  "parse_ports J [] index s = Inr (True, s)"
| "parse_ports J (p # ps) index s =
     guard_r (has_member J p ''port'') (False, s) (
     bind_r (member_value J p ''port'') (\<lambda>portIter.
     guard_r (has_member J p ''protocol'') (False, s) (
     bind_r (member_value J p ''protocol'') (\<lambda>protocolIter.
     guard_r (has_member J p ''targetPort'') (False, s) (
     bind_r (member_value J p ''targetPort'') (\<lambda>targetPortIter.
     bind_r (get_uint J portIter) (\<lambda>n.
     bind_r (get_uint J targetPortIter) (\<lambda>t.
     bind_r (get_string J protocolIter) (\<lambda>pr.
     if index < length (ports s)
     then parse_ports J ps (Suc index)
            (s\<lparr>ports := (ports s)[index := Some \<lparr>protocol = pr, port = ucast n, target_port = ucast t\<rparr>]\<rparr>)
     else Inl Out_Of_Bounds)))))))))"

definition parse_selector :: "'j json_api \<Rightarrow> 'j \<Rightarrow> service \<Rightarrow> (bool \<times> service) result" where
  "parse_selector J spec s =
     bind_r (has_member J spec ''selector'') (\<lambda>b.
     if b
     then bind_r (member_value J spec ''selector'') (\<lambda>sel.
          guard_r (Inr (is_object J sel)) (False, s) (
          bind_r (get_object J sel) (\<lambda>ms.
          bind_r (fold_r (\<lambda>(k, v) m. bind_r (get_string J v) (\<lambda>x. Inr (smap_put k x m))) ms (selector s))
            (\<lambda>m. Inr (True, s\<lparr>selector := m\<rparr>)))))
     else Inr (True, s))"

text \<open>
  \<open>clusterIPs[index] = ...\<close> with \<open>index\<close> never incremented: every address is written to
  position 0 of the resized vector. \<open>ipFamilies\<close> increments.
\<close>

fun write_cluster_ips :: "'j json_api \<Rightarrow> 'j list \<Rightarrow> string list \<Rightarrow> string list result" where
  "write_cluster_ips J [] v = Inr v"
| "write_cluster_ips J (x # xs) v =
     bind_r (get_string J x) (\<lambda>s.
       if 0 < length v then write_cluster_ips J xs (v[0 := s]) else Inl Out_Of_Bounds)"

fun write_ip_families :: "'j json_api \<Rightarrow> 'j list \<Rightarrow> nat \<Rightarrow> string list \<Rightarrow> string list result" where
  "write_ip_families J [] index v = Inr v"
| "write_ip_families J (x # xs) index v =
     bind_r (get_string J x) (\<lambda>s.
       if index < length v then write_ip_families J xs (Suc index) (v[index := s]) else Inl Out_Of_Bounds)"

definition parse_service_head :: "'j json_api \<Rightarrow> 'j \<Rightarrow> service \<Rightarrow> (bool \<times> service \<times> 'j option) result" where
  "parse_service_head J document s =
     guard_r (has_member J document ''object'') (False, s, None) (
     bind_r (member_value J document ''object'') (\<lambda>object.
     guard_r (Inr (is_object J object)) (False, s, None) (
     guard_r (has_member J object ''metadata'') (False, s, None) (
     bind_r (member_value J object ''metadata'') (\<lambda>metadata.
     guard_r (Inr (is_object J metadata)) (False, s, None) (
     guard_r (has_member J metadata ''name'') (False, s, None) (
     bind_r (bind_r (member_value J metadata ''name'') (get_string J)) (\<lambda>name.
     let s1 = s\<lparr>svc_name := name\<rparr> in
     guard_r (has_member J metadata ''namespace'') (False, s1, None) (
     bind_r (bind_r (member_value J metadata ''namespace'') (get_string J)) (\<lambda>ns.
     let s2 = s1\<lparr>svc_namespace := ns\<rparr> in
     guard_r (has_member J document ''object'') (False, s2, None) (
     guard_r (has_member J object ''spec'') (False, s2, None) (
     bind_r (member_value J object ''spec'') (\<lambda>spec.
     guard_r (Inr (is_object J spec)) (False, s2, None) (
     Inr (True, s2, Some spec)))))))))))))))"

definition parse_spec_ports :: "'j json_api \<Rightarrow> 'j \<Rightarrow> service \<Rightarrow> (bool \<times> service) result" where
  "parse_spec_ports J spec s =
     guard_r (has_member J spec ''ports'') (False, s) (
     bind_r (member_value J spec ''ports'') (\<lambda>portsV.
     guard_r (Inr (is_array J portsV)) (False, s) (
     bind_r (get_array J portsV) (\<lambda>elems.
     parse_ports J elems 0
       (s\<lparr>ports := take (length elems) (ports s) @ replicate (length elems - length (ports s)) None\<rparr>)))))"

definition parse_spec_addresses :: "'j json_api \<Rightarrow> 'j \<Rightarrow> service \<Rightarrow> (bool \<times> service) result" where
  "parse_spec_addresses J spec s =
     guard_r (has_member J spec ''clusterIP'') (False, s) (
     bind_r (bind_r (member_value J spec ''clusterIP'') (get_string J)) (\<lambda>ip.
     let s1 = s\<lparr>cluster_ip := ip\<rparr> in
     guard_r (has_member J spec ''clusterIPs'') (False, s1) (
     bind_r (bind_r (member_value J spec ''clusterIPs'') (get_array J)) (\<lambda>elems.
     bind_r (write_cluster_ips J elems
              (take (length elems) (cluster_ips s1) @ replicate (length elems - length (cluster_ips s1)) []))
       (\<lambda>ips. Inr (True, s1\<lparr>cluster_ips := ips\<rparr>))))))"

definition parse_spec_policies :: "'j json_api \<Rightarrow> 'j \<Rightarrow> service \<Rightarrow> (bool \<times> service) result" where
  "parse_spec_policies J spec s =
     guard_r (has_member J spec ''type'') (False, s) (
     bind_r (bind_r (member_value J spec ''type'') (get_string J)) (\<lambda>ty.
     let s1 = s\<lparr>svc_type := ty\<rparr> in
     guard_r (has_member J spec ''sessionAffinity'') (False, s1) (
     bind_r (bind_r (member_value J spec ''sessionAffinity'') (get_string J)) (\<lambda>aff.
     let s2 = s1\<lparr>session_affinity := aff\<rparr> in
     guard_r (has_member J spec ''ipFamilies'') (False, s2) (
     bind_r (member_value J spec ''ipFamilies'') (\<lambda>fams.
     guard_r (Inr (is_array J fams)) (False, s2) (
     bind_r (get_array J fams) (\<lambda>elems.
     bind_r (write_ip_families J elems 0
              (take (length elems) (ip_families s2) @ replicate (length elems - length (ip_families s2)) []))
     (\<lambda>fs.
     let s3 = s2\<lparr>ip_families := fs\<rparr> in
     guard_r (has_member J spec ''ipFamilyPolicy'') (False, s3) (
     bind_r (member_value J spec ''ipFamilyPolicy'') (\<lambda>pol.
     guard_r (Inr (is_string J pol)) (False, s3) (
     let s4 = s3\<lparr>ip_family_policy := string_val J pol\<rparr> in
     guard_r (has_member J spec ''internalTrafficPolicy'') (False, s4) (
     bind_r (member_value J spec ''internalTrafficPolicy'') (\<lambda>itp.
     guard_r (Inr (is_string J itp)) (False, s4) (
     Inr (True, s4\<lparr>internal_traffic_policy := string_val J itp\<rparr>))))))))))))))))"

text \<open>Each part returns to the caller as soon as its flag is \<open>False\<close>.\<close>

definition then_parse :: "(bool \<times> 's) result \<Rightarrow> ('s \<Rightarrow> (bool \<times> 's) result) \<Rightarrow> (bool \<times> 's) result" where
  "then_parse r f = bind_r r (\<lambda>(b, s). if b then f s else Inr (False, s))"

definition service_parse :: "'j json_api \<Rightarrow> 'j \<Rightarrow> service \<Rightarrow> (bool \<times> service) result" where
  "service_parse J document s =
     bind_r (parse_service_head J document s) (\<lambda>(b, s1, spec).
       case spec of
         None \<Rightarrow> Inr (False, s1)
       | Some spec \<Rightarrow>
           then_parse (parse_spec_ports J spec s1) (\<lambda>s2.
           then_parse (parse_selector J spec s2) (\<lambda>s3.
           then_parse (parse_spec_addresses J spec s3) (\<lambda>s4.
           then_parse (parse_spec_policies J spec s4) (\<lambda>s5.
           bind_r (to_peer s5) (\<lambda>(ps, s6). Inr (True, s6)))))))"

section \<open>What a successful parse reads\<close>

lemma pod_parse_True:
  "pod_parse J d p = Inr (True, q) \<longleftrightarrow>
     (\<exists>n ns ip. json_str J d [''object'', ''metadata'', ''name''] = Some n \<and>
                json_str J d [''object'', ''metadata'', ''namespace''] = Some ns \<and>
                json_str J d [''object'', ''status'', ''podIP''] = Some ip \<and>
                q = p\<lparr>pod_name := n, pod_ip := ip, pod_namespace := ns\<rparr>)"
  by (auto simp: pod_parse_def cpp_simps Let_def)

text \<open>The only way to leave \<open>Pod::parseFromString\<close> abnormally is a \<open>name\<close> or \<open>namespace\<close>
  that is there but not a string, or a document that is not an object.\<close>

lemma pod_parse_fault:
  assumes "pod_parse J d p = Inl e"
  shows "e = Assert_Failed \<and>
    (\<not> is_object J d \<or>
     (\<exists>k\<in>{''name'', ''namespace''}. \<exists>x. json_path J d [''object'', ''metadata'', k] = Some x \<and> \<not> is_string J x))"
  using assms
  by (auto simp: pod_parse_def cpp_simps Let_def split: if_splits)

subsection \<open>Endpoint addresses\<close>

definition address_ips :: "'j json_api \<Rightarrow> 'j \<Rightarrow> string list" where
  "address_ips J a = (case json_str J a [''ip''] of None \<Rightarrow> [] | Some s \<Rightarrow> [s])"

definition subset_ips :: "'j json_api \<Rightarrow> 'j \<Rightarrow> string list" where
  "subset_ips J sub =
     (case json_path J sub [''addresses''] of
        None \<Rightarrow> []
      | Some as \<Rightarrow> if is_array J as then concat (map (address_ips J) (array_elems J as)) else [])"

lemma add_address_eq: "add_address J a e = Inr (e\<lparr>addresses := addresses e @ address_ips J a\<rparr>)"
  by (auto simp: add_address_def address_ips_def json_str_def has_member_def member_value_def
      get_string_def json_path.simps guard_r_def split: option.splits)

lemma add_addresses_eq:
  "fold_r (add_address J) xs e = Inr (e\<lparr>addresses := addresses e @ concat (map (address_ips J) xs)\<rparr>)"
  by (induction xs arbitrary: e) (simp_all add: add_address_eq)

lemma add_subset_eq:
  "is_object J sub \<Longrightarrow> add_subset J sub e = Inr (e\<lparr>addresses := addresses e @ subset_ips J sub\<rparr>)"
  by (auto simp: add_subset_def subset_ips_def has_member_def member_value_def get_array_def
      add_addresses_eq json_path.simps guard_r_def split: option.splits)

lemma add_subsets_eq:
  "\<forall>x\<in>set xs. is_object J x \<Longrightarrow>
     fold_r (add_subset J) xs e = Inr (e\<lparr>addresses := addresses e @ concat (map (subset_ips J) xs)\<rparr>)"
  by (induction xs arbitrary: e) (simp_all add: add_subset_eq)

lemma endpoint_parse_ok:
  assumes "json_str J d [''object'', ''metadata'', ''name''] = Some n"
    and "json_str J d [''object'', ''metadata'', ''namespace''] = Some ns"
    and "json_path J d [''object'', ''subsets''] = Some ss" "is_array J ss"
    and "\<forall>x\<in>set (array_elems J ss). is_object J x"
  shows "endpoint_parse J d e =
    Inr (True, e\<lparr>ep_name := n, ep_namespace := ns,
                addresses := addresses e @ concat (map (subset_ips J) (array_elems J ss))\<rparr>)"
  using assms
  by (auto simp: endpoint_parse_def cpp_simps Let_def add_subsets_eq)

subsection \<open>Peers of a service\<close>

definition deref_ports :: "service_port option list \<Rightarrow> service_port list" where
  "deref_ports ps = map the (filter (\<lambda>p. p \<noteq> None) ps)"

lemma to_peer_ports:
  "\<forall>p\<in>set ps. p \<noteq> None \<Longrightarrow>
     fold_r (\<lambda>p acc. bind_r (deref_port p) (\<lambda>sp. Inr (acc @ port_peers dmn ip sp))) ps acc =
     Inr (acc @ concat (map (\<lambda>p. port_peers dmn ip (the p)) ps))"
  by (induction ps arbitrary: acc) (auto simp: deref_port_def)

definition service_peers :: "service \<Rightarrow> string list" where
  "service_peers s =
     service_domain s #
     concat (map (\<lambda>ip. ip # concat (map (\<lambda>p. port_peers (service_domain s) ip (the p)) (ports s))) (cluster_ips s))"

lemma to_peer_eq:
  assumes "peers s = []" "\<forall>p\<in>set (ports s). p \<noteq> None"
  shows "to_peer s = Inr (service_peers s, s\<lparr>peers := service_peers s\<rparr>)"
proof -
  have "fold_r (\<lambda>ip acc. fold_r
            (\<lambda>p acc. bind_r (deref_port p) (\<lambda>sp. Inr (acc @ port_peers dmn ip sp)))
            (ports s) (acc @ [ip])) ips acc =
        Inr (acc @ concat (map (\<lambda>ip. ip # concat (map (\<lambda>p. port_peers dmn ip (the p)) (ports s))) ips))"
    for dmn ips acc
    by (induction ips arbitrary: acc) (simp_all add: to_peer_ports [OF assms(2)])
  then show ?thesis using assms(1) by (simp add: to_peer_def service_peers_def Let_def)
qed

lemma to_peer_frame:
  "to_peer s = Inr (ps, s') \<Longrightarrow> s' = s\<lparr>peers := ps\<rparr>"
  by (auto simp: to_peer_def Let_def cpp_simps split: if_splits)

lemma to_peer_nonempty: "to_peer s = Inr (ps, s') \<Longrightarrow> ps \<noteq> []"
proof (cases "peers s = []")
  case True
  let ?g = "\<lambda>dmn ip p acc. bind_r (deref_port p) (\<lambda>sp. Inr (acc @ port_peers dmn ip sp))"
  have inner: "acc' \<noteq> []" if "fold_r (?g dmn ip) xs acc = Inr acc'" "acc \<noteq> []" for dmn ip xs acc acc'
    using that by (rule fold_r_invariant [where P = "\<lambda>a. a \<noteq> []"]) (auto simp: cpp_simps)
  assume "to_peer s = Inr (ps, s')"
  with True have "fold_r (\<lambda>ip acc. fold_r (?g (service_domain s) ip) (ports s) (acc @ [ip]))
      (cluster_ips s) [service_domain s] = Inr ps"
    by (auto simp: to_peer_def Let_def cpp_simps)
  then show ?thesis
    by (rule fold_r_invariant [where P = "\<lambda>a. a \<noteq> []"]) (auto dest: inner)
qed (auto simp: to_peer_def)

text \<open>A second call returns the cached list.\<close>

lemma to_peer_idem: "to_peer s = Inr (ps, s') \<Longrightarrow> to_peer s' = Inr (ps, s')"
  using to_peer_nonempty [of s ps s'] to_peer_frame [of s ps s'] by (simp add: to_peer_def)

subsection \<open>The loops of Service::parseFromString\<close>

lemma write_cluster_ips_last:
  assumes "\<forall>x\<in>set xs. is_string J x" "xs \<noteq> []" "v \<noteq> []"
  shows "write_cluster_ips J xs v = Inr (v[0 := string_val J (last xs)])"
  using assms
  by (induction xs arbitrary: v) (auto simp: get_string_def)

lemma write_ip_families_all:
  assumes "\<forall>x\<in>set xs. is_string J x" "index + length xs \<le> length v"
  shows "write_ip_families J xs index v =
         Inr (take index v @ map (string_val J) xs @ drop (index + length xs) v)"
  using assms
proof (induction xs arbitrary: index v)
  case Nil
  then show ?case by simp
next
  case (Cons x xs)
  then have "write_ip_families J (x # xs) index v =
     Inr (take (Suc index) (v[index := string_val J x]) @ map (string_val J) xs @
          drop (Suc index + length xs) (v[index := string_val J x]))"
    by (simp add: get_string_def)
  then show ?case using Cons.prems by (simp add: take_Suc_conv_app_nth)
qed

lemma parse_ports_in_bounds:
  "index + length ps \<le> length (ports s) \<Longrightarrow> parse_ports J ps index s \<noteq> Inl Out_Of_Bounds"
proof (induction ps arbitrary: index s)
  case (Cons p ps)
  have "parse_ports J ps (Suc index) (s\<lparr>ports := (ports s)[index := x]\<rparr>) \<noteq> Inl Out_Of_Bounds" for x
    using Cons by simp
  with Cons.prems show ?case
    by (auto simp: cpp_simps member_value_def get_uint_def split: if_splits option.splits)
qed simp

lemma parse_ports_frame:
  "parse_ports J ps index s = Inr (b, s') \<Longrightarrow>
     s' = s\<lparr>ports := ports s'\<rparr> \<and> length (ports s') = length (ports s)"
proof (induction ps arbitrary: index s)
  case (Cons p ps)
  then show ?case
    by (fastforce simp: guard_r_eq_Inr cpp_simps split: if_splits)
qed simp

text \<open>When the loop returns \<open>true\<close> it has written every slot it visited.\<close>

lemma parse_ports_filled:
  "parse_ports J ps index s = Inr (True, s') \<Longrightarrow>
     (\<forall>i<length (ports s). (i < index \<longrightarrow> ports s ! i \<noteq> None) \<longrightarrow> i < index + length ps \<longrightarrow> ports s' ! i \<noteq> None)"
proof (induction ps arbitrary: index s)
  case Nil
  then show ?case by simp
next
  case (Cons p ps)
  from Cons.prems obtain x where
    x: "parse_ports J ps (Suc index) (s\<lparr>ports := (ports s)[index := Some x]\<rparr>) = Inr (True, s')"
    and lt: "index < length (ports s)"
    by (auto simp: cpp_simps split: if_splits)
  show ?case
    using Cons.IH [OF x] lt by (auto simp: nth_list_update)
qed

text \<open>The parts of \<open>Service::parseFromString\<close> write their own fields only.\<close>

lemma parse_service_head_frame:
  "parse_service_head J d s = Inr (b, s', spec) \<Longrightarrow>
     cluster_ips s' = cluster_ips s \<and> peers s' = peers s \<and> ports s' = ports s"
  by (auto simp: parse_service_head_def Let_def guard_r_eq_Inr cpp_simps)

lemma parse_service_head_Some:
  "parse_service_head J d s = Inr (b, s', Some spec) \<longleftrightarrow>
     b \<and> json_path J d [''object'', ''spec''] = Some spec \<and> is_object J spec \<and>
     (\<exists>n ns. json_str J d [''object'', ''metadata'', ''name''] = Some n \<and>
             json_str J d [''object'', ''metadata'', ''namespace''] = Some ns \<and>
             s' = s\<lparr>svc_name := n, svc_namespace := ns\<rparr>)"
  by (auto simp: parse_service_head_def Let_def guard_r_eq_Inr cpp_simps)

lemma parse_spec_ports_True:
  assumes "parse_spec_ports J spec s = Inr (True, s')" "ports s = []"
  shows "cluster_ips s' = cluster_ips s \<and> peers s' = peers s \<and> svc_name s' = svc_name s \<and>
         svc_namespace s' = svc_namespace s \<and> (\<forall>p\<in>set (ports s'). p \<noteq> None)"
proof -
  obtain elems where p: "parse_ports J elems 0 (s\<lparr>ports := replicate (length elems) None\<rparr>) = Inr (True, s')"
    using assms by (auto simp: parse_spec_ports_def cpp_simps)
  have f: "s' = s\<lparr>ports := ports s'\<rparr>" "length (ports s') = length elems"
    using parse_ports_frame [OF p] by auto
  have "cluster_ips s' = cluster_ips s" "peers s' = peers s" "svc_name s' = svc_name s"
    "svc_namespace s' = svc_namespace s"
    by (subst f(1), simp)+
  moreover have "\<forall>p\<in>set (ports s'). p \<noteq> None"
    using parse_ports_filled [OF p] f(2) by (auto simp: in_set_conv_nth)
  ultimately show ?thesis by blast
qed

lemma parse_selector_True:
  "parse_selector J spec s = Inr (True, s') \<Longrightarrow>
     cluster_ips s' = cluster_ips s \<and> peers s' = peers s \<and> ports s' = ports s \<and>
     svc_name s' = svc_name s \<and> svc_namespace s' = svc_namespace s"
  by (auto simp: parse_selector_def cpp_simps split: if_splits)

text \<open>\<open>clusterIPs\<close> after the loop: the last address first, then empty strings.\<close>

definition stored_cluster_ips :: "string list \<Rightarrow> string list" where
  "stored_cluster_ips xs = (if xs = [] then [] else last xs # replicate (length xs - 1) [])"

lemma write_cluster_ips_fresh:
  assumes "write_cluster_ips J xs (replicate (length xs) []) = Inr v"
  shows "v = stored_cluster_ips (map (string_val J) xs)"
proof (cases "xs = []")
  case True
  with assms show ?thesis by (simp add: stored_cluster_ips_def)
next
  case False
  have "\<forall>x\<in>set xs. is_string J x" if "write_cluster_ips J xs w = Inr v" for xs w
    using that by (induction xs arbitrary: w) (auto simp: cpp_simps split: if_splits)
  then show ?thesis
    using write_cluster_ips_last [of xs J "replicate (length xs) []"] assms False
    by (cases "length xs") (auto simp: stored_cluster_ips_def last_map)
qed

lemma parse_spec_addresses_True:
  assumes "parse_spec_addresses J spec s = Inr (True, s')" "cluster_ips s = []"
  shows "\<exists>a. find_member J spec ''clusterIPs'' = Some a \<and> is_array J a \<and>
             cluster_ips s' = stored_cluster_ips (map (string_val J) (array_elems J a)) \<and>
             peers s' = peers s \<and> ports s' = ports s \<and> svc_name s' = svc_name s \<and>
             svc_namespace s' = svc_namespace s"
  using assms by (auto simp: parse_spec_addresses_def Let_def cpp_simps dest: write_cluster_ips_fresh)

lemma parse_spec_policies_True:
  "parse_spec_policies J spec s = Inr (True, s') \<Longrightarrow>
     cluster_ips s' = cluster_ips s \<and> peers s' = peers s \<and> ports s' = ports s \<and>
     svc_name s' = svc_name s \<and> svc_namespace s' = svc_namespace s"
  by (auto simp: parse_spec_policies_def Let_def cpp_simps)

lemma then_parse_True:
  "then_parse r f = Inr (True, s) \<longleftrightarrow> (\<exists>s'. r = Inr (True, s') \<and> f s' = Inr (True, s))"
  by (auto simp: then_parse_def cpp_simps split: if_splits)

section \<open>Properties\<close>

text \<open>\<open>Pod::parseFromString\<close> returns true exactly on the documents that carry a string name,
  namespace and pod IP at their places, and then it has read exactly these three.\<close>

lemma pod_parse_success:
  "pod_parse J document p = Inr (True, q) \<longleftrightarrow>
     (\<exists>n ns ip. json_str J document [''object'', ''metadata'', ''name''] = Some n \<and>
                json_str J document [''object'', ''metadata'', ''namespace''] = Some ns \<and>
                json_str J document [''object'', ''status'', ''podIP''] = Some ip \<and>
                q = p\<lparr>pod_name := n, pod_ip := ip, pod_namespace := ns\<rparr>)"
  by (rule pod_parse_True)

text \<open>On a well-formed Endpoints document the parser collects the \<open>ip\<close> of every address of
  every subset, in document order, and skips the entries that have none.\<close>

lemma endpoint_parse_collects:
  assumes "json_str J d [''object'', ''metadata'', ''name''] = Some n"
    and "json_str J d [''object'', ''metadata'', ''namespace''] = Some ns"
    and "json_path J d [''object'', ''subsets''] = Some ss" "is_array J ss"
    and "\<forall>x\<in>set (array_elems J ss). is_object J x"
  shows "endpoint_parse J d empty_endpoint =
    Inr (True, \<lparr>ep_name = n, ep_namespace = ns,
                addresses = concat (map (subset_ips J) (array_elems J ss))\<rparr>)"
  using endpoint_parse_ok [OF assms, of empty_endpoint] by (simp add: empty_endpoint_def)

definition sample_endpoints :: json where
  "sample_endpoints =
     JObject [(''object'', JObject
       [(''metadata'', JObject [(''name'', JString ''web''), (''namespace'', JString ''shop'')]),
        (''subsets'', JArray
          [JObject [(''addresses'', JArray [JObject [(''ip'', JString ''10.1.0.4'')], JNull])],
           JObject [],
           JObject [(''addresses'', JArray [JObject [(''ip'', JString ''10.1.0.7'')]])]])])]"

lemma endpoint_parse_collects_witness:
  "endpoint_parse json_dom sample_endpoints empty_endpoint =
     Inr (True, \<lparr>ep_name = ''web'', ep_namespace = ''shop'', addresses = [''10.1.0.4'', ''10.1.0.7'']\<rparr>)"
  by (subst endpoint_parse_collects)
    (auto simp: sample_endpoints_def cpp_simps json_path.simps subset_ips_def address_ips_def json_str_def json_dom_def)

lemma service_parse_stored:
  assumes "service_parse J document empty_service = Inr (True, s)"
  shows "peers s = service_peers (s\<lparr>peers := []\<rparr>) \<and>
    (\<exists>a. json_path J document [''object'', ''spec'', ''clusterIPs''] = Some a \<and> is_array J a \<and>
         cluster_ips s = stored_cluster_ips (map (string_val J) (array_elems J a)))"
proof -
  obtain s1 s2 s3 s4 s5 b spec ps where
    h: "parse_service_head J document empty_service = Inr (b, s1, Some spec)"
    and p: "parse_spec_ports J spec s1 = Inr (True, s2)"
    and q: "parse_selector J spec s2 = Inr (True, s3)"
    and a: "parse_spec_addresses J spec s3 = Inr (True, s4)"
    and r: "parse_spec_policies J spec s4 = Inr (True, s5)"
    and t: "to_peer s5 = Inr (ps, s)"
    using assms by (auto simp: service_parse_def cpp_simps then_parse_True split: option.splits)
  have e: "ports s1 = []" "cluster_ips s1 = []" "peers s1 = []"
    using parse_service_head_frame [OF h] by (simp_all add: empty_service_def)
  note f = parse_spec_ports_True [OF p e(1)] parse_selector_True [OF q] parse_spec_policies_True [OF r]
  have "cluster_ips s3 = []" using f e by simp
  from parse_spec_addresses_True [OF a this] obtain arr where
    arr: "find_member J spec ''clusterIPs'' = Some arr" "is_array J arr"
      "cluster_ips s4 = stored_cluster_ips (map (string_val J) (array_elems J arr))"
      "peers s4 = peers s3" "ports s4 = ports s3" by auto
  have "peers s5 = []" "\<forall>p\<in>set (ports s5). p \<noteq> None" using f e arr by simp_all
  then have s: "s = s5\<lparr>peers := service_peers s5\<rparr>" using to_peer_eq [of s5] t by simp
  have "service_peers (s\<lparr>peers := []\<rparr>) = service_peers s5"
    by (simp add: s service_peers_def service_domain_def)
  moreover have "json_path J document [''object'', ''spec'', ''clusterIPs''] = Some arr"
    using h arr(1) by (auto simp: parse_service_head_Some cpp_simps json_path.simps(1))
  ultimately show ?thesis using f arr s by simp
qed

text \<open>C37: after a successful \<open>Service::parseFromString\<close> of a fresh object, the stored cluster IPs
  are the document's last one followed by empty strings (the loop never advances its index), and
  the cached peers are the domain, then each stored address with its \<open>address:port\<close> and
  \<open>domain:port\<close> names.\<close>

theorem service_parse_peers:
  assumes "service_parse J document empty_service = Inr (True, s)"
  shows "peers s = service_peers (s\<lparr>peers := []\<rparr>) \<and>
    (\<exists>a. json_path J document [''object'', ''spec'', ''clusterIPs''] = Some a \<and> is_array J a \<and>
         cluster_ips s = stored_cluster_ips (map (string_val J) (array_elems J a)))"
  by (rule service_parse_stored [OF assms])

definition sample_service :: "json \<Rightarrow> json list \<Rightarrow> json" where
  "sample_service target ips =
     JObject [(''type'', JString ''ADDED''), (''object'', JObject
       [(''kind'', JString ''Service''),
        (''metadata'', JObject [(''name'', JString ''web''), (''namespace'', JString ''shop'')]),
        (''spec'', JObject
          [(''ports'', JArray [JObject [(''port'', JUint 80), (''protocol'', JString ''TCP''),
                                        (''targetPort'', target)]]),
           (''clusterIP'', JString ''10.0.0.9''), (''clusterIPs'', JArray ips),
           (''type'', JString ''ClusterIP''), (''sessionAffinity'', JString ''None''),
           (''ipFamilies'', JArray [JString ''IPv4'']), (''ipFamilyPolicy'', JString ''SingleStack''),
           (''internalTrafficPolicy'', JString ''Cluster'')])])]"

theorem service_parse_peers_witness:
  "\<exists>s. service_parse json_dom (sample_service (JUint 8080) [JString ''10.0.0.9'', JString ''fd00::9'']) empty_service
         = Inr (True, s) \<and>
       cluster_ips s = [''fd00::9'', []] \<and> ''10.0.0.9'' \<notin> set (cluster_ips s)"
proof -
  let ?d = "sample_service (JUint 8080) [JString ''10.0.0.9'', JString ''fd00::9'']"
  obtain s where s: "service_parse json_dom ?d empty_service = Inr (True, s)"
    by (simp add: sample_service_def service_parse_def parse_service_head_def has_member_def
        member_value_def get_string_def Let_def parse_spec_ports_def get_array_def get_uint_def
        then_parse_def parse_selector_def parse_spec_addresses_def parse_spec_policies_def
        empty_service_def to_peer_def deref_port_def)
  have "json_path json_dom ?d [''object'', ''spec'', ''clusterIPs''] =
        Some (JArray [JString ''10.0.0.9'', JString ''fd00::9''])"
    by (simp add: sample_service_def json_path.simps)
  then have "cluster_ips s = [''fd00::9'', []]"
    using service_parse_peers [OF s] by (auto simp: stored_cluster_ips_def)
  then show ?thesis using s by simp
qed

text \<open>A Service whose first port names its target port (Kubernetes allows a string there)
  does not fail to parse with \<open>false\<close>: \<open>GetUint\<close> is applied to a non-number and the library
  assertion stops the agent.\<close>

lemma service_parse_named_target_port:
  assumes "json_str J document [''object'', ''metadata'', ''name''] = Some n"
    and "json_str J document [''object'', ''metadata'', ''namespace''] = Some ns"
    and "json_path J document [''object'', ''spec''] = Some spec" "is_object J spec"
    and "find_member J spec ''ports'' = Some arr" "is_array J arr" "array_elems J arr = p # ps"
    and "is_object J p" "find_member J p ''port'' = Some po" "find_member J p ''protocol'' = Some pr"
    and "find_member J p ''targetPort'' = Some tp" "is_uint J po" "\<not> is_uint J tp"
  shows "service_parse J document s = Inl Assert_Failed"
proof -
  have h: "parse_service_head J document s = Inr (True, s\<lparr>svc_name := n, svc_namespace := ns\<rparr>, Some spec)"
    using assms(1-4) by (simp add: parse_service_head_Some)
  have "parse_spec_ports J spec s' = Inl Assert_Failed" for s'
    using assms(4-13) by (simp add: parse_spec_ports_def has_member_def member_value_def get_array_def get_uint_def)
  then show ?thesis by (simp add: service_parse_def h then_parse_def)
qed

lemma service_parse_named_target_port_witness:
  "service_parse json_dom (sample_service (JString ''http'') [JString ''10.0.0.9'']) empty_service = Inl Assert_Failed"
  by (rule service_parse_named_target_port)
    (simp add: sample_service_def json_str_def json_path.simps)+

end
