(* ===== verification/Name_Control.thy ===== *)
theory Name_Control
  imports Kube_Objects
begin

text \<open>
  \<open>App::Common::Kubernetes::NameControl\<close> (app/include/common/kubernetes/name_control.h,
  app/source/common/kubernetes/name_control.cc): the singleton that resolves a peer (domain name,
  \<open>address\<close> or \<open>address:port\<close>) to a Kubernetes name and namespace.

  \<open>services\<close> and \<open>endpoints\<close> own their objects (\<open>unique_ptr\<close>); \<open>peerToServices\<close> and
  \<open>ipToEndpoints\<close> hold raw pointers into them. The model has a heap of live objects per kind and
  never reuses an address, so following a pointer to a destroyed object is \<open>Dangling_Deref\<close>.
  The lemmas show which of the indices can dangle and which cannot, whatever events arrive.
  Every operation holds the mutex \<open>mtx\<close> except \<open>findServiceName\<close>; the operations are atomic
  steps here.
\<close>

record name_control =
  service_heap :: "nat \<Rightarrow> service option"
  services :: "string \<Rightarrow> nat option"
  peer_to_services :: "string \<Rightarrow> nat option"
  endpoint_heap :: "nat \<Rightarrow> endpoint option"
  endpoints :: "string \<Rightarrow> nat option"
  ip_to_endpoints :: "string \<Rightarrow> nat option"
  pod_ip_map :: "string \<Rightarrow> pod option"
  next_addr :: nat

definition name_control_new :: name_control where
  "name_control_new =
     \<lparr>service_heap = (\<lambda>_. None), services = (\<lambda>_. None), peer_to_services = (\<lambda>_. None),
      endpoint_heap = (\<lambda>_. None), endpoints = (\<lambda>_. None), ip_to_endpoints = (\<lambda>_. None),
      pod_ip_map = (\<lambda>_. None), next_addr = 0\<rparr>"

text \<open>The loops that erase, or point at \<open>a\<close>, every key of a list.\<close>

fun erase_keys :: "string list \<Rightarrow> (string \<Rightarrow> nat option) \<Rightarrow> string \<Rightarrow> nat option" where
  "erase_keys [] m = m"
| "erase_keys (k # ks) m = erase_keys ks (case m k of None \<Rightarrow> m | Some _ \<Rightarrow> m(k := None))"

fun point_keys :: "string list \<Rightarrow> nat \<Rightarrow> (string \<Rightarrow> nat option) \<Rightarrow> string \<Rightarrow> nat option" where
  "point_keys [] a m = m"
| "point_keys (k # ks) a m = point_keys ks a (m(k \<mapsto> a))"

definition set_service :: "service \<Rightarrow> name_control \<Rightarrow> name_control result" where
  "set_service s nc =
     bind_r (to_peer s) (\<lambda>(ps, s').
       let a = next_addr nc;
           nc1 = (case services nc (svc_name s') of
                    None \<Rightarrow> nc
                  | Some old \<Rightarrow>
                      nc\<lparr>peer_to_services := erase_keys ps (peer_to_services nc),
                         services := (services nc)(svc_name s' := None),
                         service_heap := (service_heap nc)(old := None)\<rparr>)
       in if ps = [] then Inr nc1
          else Inr (nc1\<lparr>peer_to_services := point_keys ps a (peer_to_services nc1),
                        services := (services nc1)(svc_name s' \<mapsto> a),
                        service_heap := (service_heap nc1)(a \<mapsto> s'),
                        next_addr := Suc a\<rparr>))"

definition remove_service :: "service \<Rightarrow> name_control \<Rightarrow> name_control result" where
  "remove_service s nc =
     (case services nc (svc_name s) of
        None \<Rightarrow> Inr nc
      | Some old \<Rightarrow>
          bind_r (to_peer s) (\<lambda>(ps, s').
            Inr (nc\<lparr>peer_to_services := erase_keys ps (peer_to_services nc),
                    services := (services nc)(svc_name s' := None),
                    service_heap := (service_heap nc)(old := None)\<rparr>)))"

definition get_service :: "string \<Rightarrow> name_control \<Rightarrow> nat option" where
  "get_service peer nc = peer_to_services nc peer"

definition set_pod :: "pod \<Rightarrow> name_control \<Rightarrow> name_control" where
  "set_pod p nc = nc\<lparr>pod_ip_map := (pod_ip_map nc)(pod_ip p \<mapsto> p)\<rparr>"

definition remove_pod :: "pod \<Rightarrow> name_control \<Rightarrow> name_control" where
  "remove_pod p nc =
     (case pod_ip_map nc (pod_ip p) of
        None \<Rightarrow> nc
      | Some _ \<Rightarrow> nc\<lparr>pod_ip_map := (pod_ip_map nc)(pod_ip p := None)\<rparr>)"

text \<open>Erasing an endpoint walks the addresses of the object that is in the map.\<close>

definition drop_endpoint :: "string \<Rightarrow> name_control \<Rightarrow> name_control result" where
  "drop_endpoint name nc =
     (case endpoints nc name of
        None \<Rightarrow> Inr nc
      | Some old \<Rightarrow>
          (case endpoint_heap nc old of
             None \<Rightarrow> Inl Dangling_Deref
           | Some e \<Rightarrow>
               Inr (nc\<lparr>ip_to_endpoints := erase_keys (addresses e) (ip_to_endpoints nc),
                       endpoints := (endpoints nc)(name := None),
                       endpoint_heap := (endpoint_heap nc)(old := None)\<rparr>)))"

definition set_endpoint :: "endpoint \<Rightarrow> name_control \<Rightarrow> name_control result" where
  "set_endpoint e nc =
     bind_r (drop_endpoint (ep_name e) nc) (\<lambda>nc1.
       let a = next_addr nc1
       in Inr (nc1\<lparr>endpoints := (endpoints nc1)(ep_name e \<mapsto> a),
                   endpoint_heap := (endpoint_heap nc1)(a \<mapsto> e),
                   ip_to_endpoints := point_keys (addresses e) a (ip_to_endpoints nc1),
                   next_addr := Suc a\<rparr>))"

definition remove_endpoint :: "endpoint \<Rightarrow> name_control \<Rightarrow> name_control result" where
  "remove_endpoint e nc = drop_endpoint (ep_name e) nc"

text \<open>Following a raw pointer.\<close>

definition deref :: "(nat \<Rightarrow> 'o option) \<Rightarrow> nat \<Rightarrow> 'o result" where
  "deref h a = (case h a of None \<Rightarrow> Inl Dangling_Deref | Some x \<Rightarrow> Inr x)"

definition find_service :: "name_control \<Rightarrow> string \<Rightarrow> service option result" where
  "find_service nc peer =
     (case peer_to_services nc peer of
        None \<Rightarrow> Inr None
      | Some a \<Rightarrow> bind_r (deref (service_heap nc) a) (\<lambda>s. Inr (Some s)))"

definition find_endpoint :: "name_control \<Rightarrow> string \<Rightarrow> endpoint option result" where
  "find_endpoint nc peer =
     (case ip_to_endpoints nc peer of
        None \<Rightarrow> Inr None
      | Some a \<Rightarrow> bind_r (deref (endpoint_heap nc) a) (\<lambda>e. Inr (Some e)))"

definition find_service_name :: "name_control \<Rightarrow> string \<Rightarrow> (string \<times> string) result" where
  "find_service_name nc peer =
     bind_r (find_service nc peer) (\<lambda>r.
       case r of
         Some s \<Rightarrow> Inr (svc_name s, svc_namespace s)
       | None \<Rightarrow>
           bind_r (find_endpoint nc peer) (\<lambda>r.
             case r of
               Some e \<Rightarrow> Inr (ep_name e, ep_namespace e)
             | None \<Rightarrow>
                 (case pod_ip_map nc peer of
                    Some p \<Rightarrow> Inr (pod_name p, pod_namespace p)
                  | None \<Rightarrow> Inr ([], []))))"

section \<open>Key loops\<close>

lemma erase_keys_apply [simp]: "erase_keys ks m k = (if k \<in> set ks then None else m k)"
proof (induction ks arbitrary: m)
  case (Cons x ks)
  then show ?case by (cases "m x") auto
qed simp

lemma point_keys_apply [simp]: "point_keys ks a m k = (if k \<in> set ks then Some a else m k)"
  by (induction ks arbitrary: m) auto

section \<open>Invariants\<close>

text \<open>
  One shape for both pointer indices: the owner map and the heap agree, addresses are below the
  allocation mark, and every raw pointer leads to a live object that has the key.
\<close>

definition index_ok ::
  "('o \<Rightarrow> string) \<Rightarrow> ('o \<Rightarrow> string set) \<Rightarrow> (nat \<Rightarrow> 'o option) \<Rightarrow> (string \<Rightarrow> nat option)
     \<Rightarrow> (string \<Rightarrow> nat option) \<Rightarrow> nat \<Rightarrow> bool" where
  "index_ok name keys heap owner index mark \<longleftrightarrow>
     (\<forall>n a. owner n = Some a \<longrightarrow> (\<exists>x. heap a = Some x \<and> name x = n)) \<and>
     (\<forall>a x. heap a = Some x \<longrightarrow> a < mark \<and> owner (name x) = Some a) \<and>
     (\<forall>k a. index k = Some a \<longrightarrow> (\<exists>x. heap a = Some x \<and> k \<in> keys x))"

lemma index_okD:
  assumes "index_ok name keys heap owner index mark"
  shows "owner n = Some a \<Longrightarrow> \<exists>x. heap a = Some x \<and> name x = n"
    and "heap a = Some x \<Longrightarrow> a < mark \<and> owner (name x) = Some a"
    and "index k = Some a \<Longrightarrow> \<exists>x. heap a = Some x \<and> k \<in> keys x"
  using assms by (auto simp: index_ok_def)

lemma index_ok_empty: "index_ok name keys (\<lambda>_. None) (\<lambda>_. None) (\<lambda>_. None) m"
  by (simp add: index_ok_def)

lemma index_ok_mark: "index_ok name keys h ow ix m \<Longrightarrow> m \<le> m' \<Longrightarrow> index_ok name keys h ow ix m'"
  by (fastforce simp: index_ok_def)

text \<open>Dropping an owner is safe when at least the keys of its object are erased.\<close>

lemma index_ok_drop:
  assumes ok: "index_ok name keys heap owner index mark"
    and own: "owner n = Some old"
    and ks: "\<And>x. heap old = Some x \<Longrightarrow> keys x \<subseteq> set ks"
  shows "index_ok name keys (heap(old := None)) (owner(n := None)) (erase_keys ks index) mark"
proof -
  obtain x where x: "heap old = Some x" "name x = n" using index_okD(1) [OF ok own] by blast
  have "owner m \<noteq> Some old" if "m \<noteq> n" for m
    using index_okD(1) [OF ok, of m old] x that by auto
  then show ?thesis
    using ok x ks [OF x(1)] own unfolding index_ok_def
    by (auto split: if_splits) (metis option.inject subsetD)+
qed

lemma index_ok_add:
  assumes ok: "index_ok name keys heap owner index mark"
    and free: "owner (name x) = None" and ks: "set ks \<subseteq> keys x" and m: "mark \<le> a"
  shows "index_ok name keys (heap(a \<mapsto> x)) (owner(name x \<mapsto> a)) (point_keys ks a index) (Suc a)"
proof -
  have "heap a = None" using index_okD(2) [OF ok, of a] m by (cases "heap a") auto
  moreover have "b \<noteq> a" if "heap b = Some y" for b y
    using index_okD(2) [OF ok that] m by auto
  moreover have "name y \<noteq> name x" if "heap b = Some y" for b y
    using index_okD(2) [OF ok that] free by auto
  ultimately show ?thesis
    using ok free ks m unfolding index_ok_def
    by (auto split: if_splits) (metis less_SucI order_less_le_trans option.distinct(1))+
qed

definition endpoints_ok :: "name_control \<Rightarrow> bool" where
  "endpoints_ok nc \<longleftrightarrow>
     index_ok ep_name (\<lambda>e. set (addresses e)) (endpoint_heap nc) (endpoints nc) (ip_to_endpoints nc) (next_addr nc)"

text \<open>For services the parameter \<open>P\<close> gives the peers a service name is announced with.\<close>

definition services_ok :: "(string \<Rightarrow> string set) \<Rightarrow> name_control \<Rightarrow> bool" where
  "services_ok P nc \<longleftrightarrow>
     index_ok svc_name (\<lambda>s. P (svc_name s)) (service_heap nc) (services nc) (peer_to_services nc) (next_addr nc)"

definition announces :: "(string \<Rightarrow> string set) \<Rightarrow> service \<Rightarrow> bool" where
  "announces P s \<longleftrightarrow> (\<exists>ps s'. to_peer s = Inr (ps, s') \<and> set ps = P (svc_name s))"

lemma name_control_new_ok [inv_intros]:
  "endpoints_ok name_control_new" "services_ok P name_control_new"
  by (simp_all add: endpoints_ok_def services_ok_def name_control_new_def index_ok_empty)

lemma endpoints_ok_find: "endpoints_ok nc \<Longrightarrow> \<exists>r. find_endpoint nc k = Inr r"
  unfolding endpoints_ok_def
  by (cases "ip_to_endpoints nc k") (auto simp: find_endpoint_def deref_def dest: index_okD(3))

lemma services_ok_find: "services_ok P nc \<Longrightarrow> \<exists>r. find_service nc k = Inr r"
  unfolding services_ok_def
  by (cases "peer_to_services nc k") (auto simp: find_service_def deref_def dest: index_okD(3))

section \<open>Endpoint operations\<close>

lemma drop_endpoint_ok:
  assumes "endpoints_ok nc"
  shows "\<exists>nc'. drop_endpoint n nc = Inr nc' \<and> endpoints_ok nc' \<and> endpoints nc' n = None \<and>
    next_addr nc' = next_addr nc \<and> service_heap nc' = service_heap nc \<and> services nc' = services nc \<and>
    peer_to_services nc' = peer_to_services nc \<and> pod_ip_map nc' = pod_ip_map nc"
proof (cases "endpoints nc n")
  case None
  then show ?thesis using assms by (simp add: drop_endpoint_def)
next
  case (Some old)
  obtain e where e: "endpoint_heap nc old = Some e"
    using assms Some index_okD(1) unfolding endpoints_ok_def by blast
  show ?thesis
    using Some e index_ok_drop [OF assms [unfolded endpoints_ok_def] Some, of "addresses e"]
    by (simp add: drop_endpoint_def endpoints_ok_def)
qed

lemma set_endpoint_ok:
  assumes "endpoints_ok nc"
  shows "\<exists>nc'. set_endpoint e nc = Inr nc' \<and> endpoints_ok nc' \<and>
    (\<forall>k\<in>set (addresses e). find_endpoint nc' k = Inr (Some e)) \<and>
    next_addr nc \<le> next_addr nc' \<and> service_heap nc' = service_heap nc \<and> services nc' = services nc \<and>
    peer_to_services nc' = peer_to_services nc \<and> pod_ip_map nc' = pod_ip_map nc"
proof -
  obtain nc1 where nc1: "drop_endpoint (ep_name e) nc = Inr nc1" "endpoints_ok nc1"
    "endpoints nc1 (ep_name e) = None" "next_addr nc1 = next_addr nc"
    "service_heap nc1 = service_heap nc" "services nc1 = services nc"
    "peer_to_services nc1 = peer_to_services nc" "pod_ip_map nc1 = pod_ip_map nc"
    using drop_endpoint_ok [OF assms] by blast
  let ?nc' = "nc1\<lparr>endpoints := (endpoints nc1)(ep_name e \<mapsto> next_addr nc1),
                   endpoint_heap := (endpoint_heap nc1)(next_addr nc1 \<mapsto> e),
                   ip_to_endpoints := point_keys (addresses e) (next_addr nc1) (ip_to_endpoints nc1),
                   next_addr := Suc (next_addr nc1)\<rparr>"
  have "set_endpoint e nc = Inr ?nc'" by (simp add: set_endpoint_def nc1(1) Let_def)
  moreover have "endpoints_ok ?nc'"
    using index_ok_add [OF nc1(2) [unfolded endpoints_ok_def] nc1(3)] by (simp add: endpoints_ok_def)
  ultimately show ?thesis
    using nc1(4-8) by (auto simp: find_endpoint_def deref_def)
qed

section \<open>Service operations\<close>

lemma set_service_ok:
  assumes ok: "services_ok P nc" and ann: "announces P s"
  shows "\<exists>nc'. set_service s nc = Inr nc' \<and> services_ok P nc' \<and>
    (\<forall>k\<in>P (svc_name s). \<exists>s'. find_service nc' k = Inr (Some s') \<and> svc_name s' = svc_name s \<and>
        svc_namespace s' = svc_namespace s) \<and>
    next_addr nc \<le> next_addr nc' \<and> endpoint_heap nc' = endpoint_heap nc \<and> endpoints nc' = endpoints nc \<and>
    ip_to_endpoints nc' = ip_to_endpoints nc \<and> pod_ip_map nc' = pod_ip_map nc"
proof -
  obtain ps s' where tp: "to_peer s = Inr (ps, s')" and ps: "set ps = P (svc_name s)"
    using ann by (auto simp: announces_def)
  have s': "svc_name s' = svc_name s" "svc_namespace s' = svc_namespace s"
    using to_peer_frame [OF tp] by simp_all
  have ne: "ps \<noteq> []" using to_peer_nonempty [OF tp] .
  define nc1 where "nc1 =
    (case services nc (svc_name s') of
       None \<Rightarrow> nc
     | Some old \<Rightarrow>
         nc\<lparr>peer_to_services := erase_keys ps (peer_to_services nc),
            services := (services nc)(svc_name s' := None),
            service_heap := (service_heap nc)(old := None)\<rparr>)"
  have fr: "next_addr nc1 = next_addr nc" "endpoint_heap nc1 = endpoint_heap nc" "endpoints nc1 = endpoints nc"
    "ip_to_endpoints nc1 = ip_to_endpoints nc" "pod_ip_map nc1 = pod_ip_map nc"
    by (simp_all add: nc1_def split: option.splits)
  have "services_ok P nc1 \<and> services nc1 (svc_name s') = None"
  proof (cases "services nc (svc_name s')")
    case None
    then show ?thesis using ok by (simp add: nc1_def)
  next
    case (Some old)
    have keys: "P (svc_name x) \<subseteq> set ps" if "service_heap nc old = Some x" for x
      using index_okD(1) [OF ok [unfolded services_ok_def] Some] that ps s' by auto
    then show ?thesis
      using index_ok_drop [OF ok [unfolded services_ok_def] Some] by (simp add: nc1_def Some services_ok_def)
  qed
  then have ok1: "services_ok P nc1" "services nc1 (svc_name s') = None" by simp_all
  let ?nc' = "nc1\<lparr>peer_to_services := point_keys ps (next_addr nc1) (peer_to_services nc1),
                  services := (services nc1)(svc_name s' \<mapsto> next_addr nc1),
                  service_heap := (service_heap nc1)(next_addr nc1 \<mapsto> s'),
                  next_addr := Suc (next_addr nc1)\<rparr>"
  have "set_service s nc = Inr ?nc'"
    using ne fr(1) by (simp add: set_service_def tp Let_def nc1_def [symmetric])
  moreover have "services_ok P ?nc'"
    using index_ok_add [OF ok1(1) [unfolded services_ok_def] ok1(2), of ps "next_addr nc1"] ps s'
    by (simp add: services_ok_def)
  ultimately show ?thesis
    using fr ps s' by (auto simp: find_service_def deref_def)
qed

lemma remove_service_ok:
  assumes ok: "services_ok P nc" and ann: "announces P s"
  shows "\<exists>nc'. remove_service s nc = Inr nc' \<and> services_ok P nc' \<and> services nc' (svc_name s) = None \<and>
    next_addr nc' = next_addr nc \<and> endpoint_heap nc' = endpoint_heap nc \<and> endpoints nc' = endpoints nc \<and>
    ip_to_endpoints nc' = ip_to_endpoints nc \<and> pod_ip_map nc' = pod_ip_map nc"
proof (cases "services nc (svc_name s)")
  case None
  then show ?thesis using ok by (simp add: remove_service_def)
next
  case (Some old)
  obtain ps s' where tp: "to_peer s = Inr (ps, s')" and ps: "set ps = P (svc_name s)"
    using ann by (auto simp: announces_def)
  have s': "svc_name s' = svc_name s" using to_peer_frame [OF tp] by simp
  have keys: "P (svc_name x) \<subseteq> set ps" if "service_heap nc old = Some x" for x
    using index_okD(1) [OF ok [unfolded services_ok_def] Some] that ps by auto
  show ?thesis
    using index_ok_drop [OF ok [unfolded services_ok_def] Some keys] s' tp Some
    by (simp add: remove_service_def services_ok_def)
qed

section \<open>The index interface\<close>

text \<open>
  Pods, endpoints and services are indexed the same way: an object is put or deleted by name, and
  its keys resolve to it. \<open>adm\<close> says which objects the index is used with.
\<close>

datatype 'o index_op = Put 'o | Del 'o

fun index_step ::
  "('o \<Rightarrow> 's \<Rightarrow> 's result) \<Rightarrow> ('o \<Rightarrow> 's \<Rightarrow> 's result) \<Rightarrow> 'o index_op \<Rightarrow> 's \<Rightarrow> 's result" where
  "index_step ins del (Put x) s = ins x s"
| "index_step ins del (Del x) s = del x s"

fun op_object :: "'o index_op \<Rightarrow> 'o" where
  "op_object (Put x) = x"
| "op_object (Del x) = x"

locale object_index =
  fixes ins :: "'o \<Rightarrow> 's \<Rightarrow> 's result"
    and del :: "'o \<Rightarrow> 's \<Rightarrow> 's result"
    and look :: "'s \<Rightarrow> string \<Rightarrow> 'o option result"
    and keys :: "'o \<Rightarrow> string set"
    and same :: "'o \<Rightarrow> 'o \<Rightarrow> bool"
    and adm :: "'o \<Rightarrow> bool"
    and ok :: "'s \<Rightarrow> bool"
  assumes ins_law: "ok s \<Longrightarrow> adm x \<Longrightarrow>
      \<exists>s'. ins x s = Inr s' \<and> ok s' \<and> (\<forall>k\<in>keys x. \<exists>y. look s' k = Inr (Some y) \<and> same x y)"
    and del_law: "ok s \<Longrightarrow> adm x \<Longrightarrow> \<exists>s'. del x s = Inr s' \<and> ok s'"
    and look_law: "ok s \<Longrightarrow> \<exists>r. look s k = Inr r"
begin

lemma step_total:
  "ok s \<Longrightarrow> adm (op_object c) \<Longrightarrow> \<exists>s'. index_step ins del c s = Inr s' \<and> ok s'"
  using ins_law del_law by (cases c) fastforce+

lemma run_total:
  "ok s \<Longrightarrow> \<forall>c\<in>set cs. adm (op_object c) \<Longrightarrow>
     \<exists>s'. fold_r (index_step ins del) cs s = Inr s' \<and> ok s'"
proof (induction cs arbitrary: s)
  case (Cons c cs)
  then obtain t where "index_step ins del c s = Inr t" "ok t" using step_total [of s c] by auto
  then show ?case using Cons by simp
qed simp

lemma run_look_total:
  "ok s \<Longrightarrow> \<forall>c\<in>set cs. adm (op_object c) \<Longrightarrow> fold_r (index_step ins del) cs s = Inr s' \<Longrightarrow>
     \<exists>r. look s' k = Inr r"
  using run_total [of s cs] look_law [of s' k] by auto

lemma run_put_visible:
  assumes "ok s" "\<forall>c\<in>set cs. adm (op_object c)" "adm x" "k \<in> keys x"
  shows "\<exists>s' y. fold_r (index_step ins del) (cs @ [Put x]) s = Inr s' \<and> look s' k = Inr (Some y) \<and> same x y"
proof -
  obtain t where t: "fold_r (index_step ins del) cs s = Inr t" "ok t"
    using run_total [OF assms(1,2)] by blast
  obtain u y where "ins x t = Inr u" "look u k = Inr (Some y)" "same x y"
    using ins_law [OF t(2) assms(3)] assms(4) by blast
  then show ?thesis by (simp add: fold_r_append t(1))
qed

end

definition find_pod :: "name_control \<Rightarrow> string \<Rightarrow> pod option result" where
  "find_pod nc ip = Inr (pod_ip_map nc ip)"

interpretation pod_index: object_index
  "\<lambda>p nc. Inr (set_pod p nc)" "\<lambda>p nc. Inr (remove_pod p nc)" find_pod
  "\<lambda>p. {pod_ip p}" "(=)" "\<lambda>_. True" "\<lambda>_. True"
  by unfold_locales (auto simp: find_pod_def set_pod_def)

interpretation endpoint_index: object_index
  set_endpoint remove_endpoint find_endpoint "\<lambda>e. set (addresses e)" "(=)" "\<lambda>_. True" endpoints_ok
proof unfold_locales
  fix nc and e :: endpoint
  assume ok: "endpoints_ok nc"
  show "\<exists>nc'. set_endpoint e nc = Inr nc' \<and> endpoints_ok nc' \<and>
      (\<forall>k\<in>set (addresses e). \<exists>y. find_endpoint nc' k = Inr (Some y) \<and> e = y)"
    using set_endpoint_ok [OF ok, of e] by blast
  show "\<exists>nc'. remove_endpoint e nc = Inr nc' \<and> endpoints_ok nc'"
    using drop_endpoint_ok [OF ok] by (auto simp: remove_endpoint_def)
qed (rule endpoints_ok_find)

definition same_service :: "service \<Rightarrow> service \<Rightarrow> bool" where
  "same_service s t \<longleftrightarrow> svc_name s = svc_name t \<and> svc_namespace s = svc_namespace t"

interpretation service_index: object_index
  set_service remove_service find_service "\<lambda>s. P (svc_name s)" same_service "announces P" "services_ok P"
  for P
proof unfold_locales
  fix nc and s :: service
  assume ok: "services_ok P nc" and ann: "announces P s"
  show "\<exists>nc'. set_service s nc = Inr nc' \<and> services_ok P nc' \<and>
      (\<forall>k\<in>P (svc_name s). \<exists>y. find_service nc' k = Inr (Some y) \<and> same_service s y)"
    using set_service_ok [OF ok ann] unfolding same_service_def by metis
  show "\<exists>nc'. remove_service s nc = Inr nc' \<and> services_ok P nc'"
    using remove_service_ok [OF ok ann] by blast
qed (rule services_ok_find)

section \<open>Runs of the whole directory\<close>

datatype nc_event =
    Set_Service service | Remove_Service service
  | Set_Pod pod | Remove_Pod pod
  | Set_Endpoint endpoint | Remove_Endpoint endpoint

fun nc_step :: "nc_event \<Rightarrow> name_control \<Rightarrow> name_control result" where
  "nc_step (Set_Service s) nc = set_service s nc"
| "nc_step (Remove_Service s) nc = remove_service s nc"
| "nc_step (Set_Pod p) nc = Inr (set_pod p nc)"
| "nc_step (Remove_Pod p) nc = Inr (remove_pod p nc)"
| "nc_step (Set_Endpoint e) nc = set_endpoint e nc"
| "nc_step (Remove_Endpoint e) nc = remove_endpoint e nc"

fun event_announces :: "(string \<Rightarrow> string set) \<Rightarrow> nc_event \<Rightarrow> bool" where
  "event_announces P (Set_Service s) = announces P s"
| "event_announces P (Remove_Service s) = announces P s"
| "event_announces P _ = True"

lemma index_ok_Suc: "index_ok name keys h ow ix m \<Longrightarrow> index_ok name keys h ow ix (Suc m)"
  by (erule index_ok_mark) simp

lemma service_ops_endpoint_frame:
  "set_service s nc = Inr nc' \<Longrightarrow> endpoints_ok nc \<Longrightarrow> endpoints_ok nc'"
  "remove_service s nc = Inr nc' \<Longrightarrow> endpoints_ok nc \<Longrightarrow> endpoints_ok nc'"
  by (auto simp: set_service_def remove_service_def endpoints_ok_def Let_def cpp_simps
      split: if_splits option.splits intro: index_ok_Suc)

lemma pod_ops_frame:
  "endpoints_ok (set_pod p nc) = endpoints_ok nc" "endpoints_ok (remove_pod p nc) = endpoints_ok nc"
  "services_ok P (set_pod p nc) = services_ok P nc" "services_ok P (remove_pod p nc) = services_ok P nc"
  by (auto simp: set_pod_def remove_pod_def endpoints_ok_def services_ok_def split: option.splits)

lemma endpoint_ops_ok:
  "set_endpoint e nc = Inr nc' \<Longrightarrow> endpoints_ok nc \<Longrightarrow> endpoints_ok nc'"
  "remove_endpoint e nc = Inr nc' \<Longrightarrow> endpoints_ok nc \<Longrightarrow> endpoints_ok nc'"
  using endpoint_index.ins_law [of nc e] endpoint_index.del_law [of nc e] by auto

lemma endpoint_ops_service_frame:
  assumes "endpoints_ok nc" "services_ok P nc"
  shows "set_endpoint e nc = Inr nc' \<Longrightarrow> services_ok P nc'"
    and "remove_endpoint e nc = Inr nc' \<Longrightarrow> services_ok P nc'"
  using set_endpoint_ok [OF assms(1), of e] drop_endpoint_ok [OF assms(1), of "ep_name e"] assms(2)
  by (auto simp: services_ok_def remove_endpoint_def elim: index_ok_mark)

lemma nc_step_endpoints_ok: "nc_step ev nc = Inr nc' \<Longrightarrow> endpoints_ok nc \<Longrightarrow> endpoints_ok nc'"
  by (cases ev) (auto simp: pod_ops_frame service_ops_endpoint_frame endpoint_ops_ok)

lemma nc_step_services:
  assumes "endpoints_ok nc" "services_ok P nc" "event_announces P ev"
  shows "\<exists>nc'. nc_step ev nc = Inr nc' \<and> services_ok P nc'"
proof (cases ev)
  case (Set_Service s)
  then show ?thesis using assms service_index.ins_law [of P nc s] by auto
next
  case (Remove_Service s)
  then show ?thesis using assms service_index.del_law [of P nc s] by auto
next
  case (Set_Endpoint e)
  then show ?thesis
    using endpoint_index.ins_law [OF assms(1), of e] endpoint_ops_service_frame [OF assms(1,2)] by auto
next
  case (Remove_Endpoint e)
  then show ?thesis
    using endpoint_index.del_law [OF assms(1), of e] endpoint_ops_service_frame [OF assms(1,2)] by auto
qed (use assms in \<open>simp_all add: pod_ops_frame\<close>)

lemma nc_step_total:
  assumes "endpoints_ok nc" "services_ok P nc" "event_announces P ev"
  shows "\<exists>nc'. nc_step ev nc = Inr nc' \<and> endpoints_ok nc' \<and> services_ok P nc'"
  using nc_step_services [OF assms] nc_step_endpoints_ok [OF _ assms(1)] by blast

lemma nc_run_total:
  "endpoints_ok nc \<Longrightarrow> services_ok P nc \<Longrightarrow> \<forall>ev\<in>set evs. event_announces P ev \<Longrightarrow>
     \<exists>nc'. fold_r nc_step evs nc = Inr nc' \<and> endpoints_ok nc' \<and> services_ok P nc'"
proof (induction evs arbitrary: nc)
  case (Cons ev evs)
  then obtain t where "nc_step ev nc = Inr t" "endpoints_ok t" "services_ok P t"
    using nc_step_total [of nc P ev] by auto
  then show ?case using Cons by simp
qed simp

lemma find_service_name_total:
  "endpoints_ok nc \<Longrightarrow> services_ok P nc \<Longrightarrow> \<exists>r. find_service_name nc k = Inr r"
  using endpoints_ok_find [of nc k] services_ok_find [of P nc k]
  by (auto simp: find_service_name_def split: option.splits)

section \<open>Properties\<close>

text \<open>C2: whatever sequence of service, pod and endpoint events the directory has processed, a
  lookup in the endpoint index never follows a pointer to a destroyed \<open>Endpoint\<close>.\<close>

theorem endpoint_lookup_never_dangles:
  assumes "fold_r nc_step evs name_control_new = Inr nc"
  shows "\<exists>r. find_endpoint nc ip = Inr r"
proof -
  have "endpoints_ok nc"
    by (rule fold_r_invariant [where P = endpoints_ok, OF assms name_control_new_ok(1)])
      (rule nc_step_endpoints_ok)
  then show ?thesis by (rule endpoints_ok_find)
qed

definition sample_ep :: "string \<Rightarrow> string list \<Rightarrow> endpoint" where
  "sample_ep n ips = \<lparr>ep_name = n, ep_namespace = ''shop'', addresses = ips\<rparr>"

theorem endpoint_lookup_never_dangles_witness:
  "\<exists>nc r. fold_r nc_step
      [Set_Endpoint (sample_ep ''web'' [''10.1.0.4'']), Set_Endpoint (sample_ep ''web'' [''10.1.0.5''])]
      name_control_new = Inr nc \<and> find_endpoint nc ''10.1.0.4'' = Inr r"
proof -
  let ?evs = "[Set_Endpoint (sample_ep ''web'' [''10.1.0.4'']), Set_Endpoint (sample_ep ''web'' [''10.1.0.5''])]"
  obtain nc where nc: "fold_r nc_step ?evs name_control_new = Inr nc"
    using nc_run_total [OF name_control_new_ok, of ?evs] by auto
  show ?thesis using nc endpoint_lookup_never_dangles [OF nc, of "''10.1.0.4''"] by blast
qed

text \<open>An endpoint put last makes every one of its addresses resolve to it, after any history of
  endpoint updates and removals (and that history itself never faults).\<close>

lemma endpoint_put_visible:
  assumes "ip \<in> set (addresses e)"
  shows "\<exists>nc. fold_r (index_step set_endpoint remove_endpoint) (ops @ [Put e]) name_control_new = Inr nc \<and>
              find_endpoint nc ip = Inr (Some e)"
  using assms
    endpoint_index.run_put_visible [where s = name_control_new and cs = ops and x = e and k = ip,
      OF name_control_new_ok(1)]
  by auto

lemma endpoint_put_visible_witness:
  "\<exists>nc. fold_r (index_step set_endpoint remove_endpoint)
       ([Put (sample_ep ''web'' [''10.1.0.4'']), Del (sample_ep ''web'' [])] @ [Put (sample_ep ''api'' [''10.1.0.4''])])
       name_control_new = Inr nc \<and>
     find_endpoint nc ''10.1.0.4'' = Inr (Some (sample_ep ''api'' [''10.1.0.4'']))"
  by (rule endpoint_put_visible) (simp add: sample_ep_def)

text \<open>C22: as long as every service event names a service with the peers it always had (\<open>P\<close>), no
  event faults and every later \<open>findServiceName\<close> returns: no pointer in any index dangles.\<close>

theorem stable_directory_lookup_total:
  assumes "\<forall>ev\<in>set evs. event_announces P ev"
  shows "\<exists>nc. fold_r nc_step evs name_control_new = Inr nc \<and> (\<forall>peer. \<exists>r. find_service_name nc peer = Inr r)"
  using nc_run_total [OF name_control_new_ok assms] find_service_name_total by blast

definition sample_svc :: "string \<Rightarrow> string \<Rightarrow> service" where
  "sample_svc n ip = empty_service\<lparr>svc_name := n, svc_namespace := ''shop'', cluster_ips := [ip]\<rparr>"

lemma to_peer_sample:
  "to_peer (sample_svc n ip) =
     Inr ([n @ ''.shop.svc.cluster.local'', ip],
          (sample_svc n ip)\<lparr>peers := [n @ ''.shop.svc.cluster.local'', ip]\<rparr>)"
  by (simp add: to_peer_def sample_svc_def empty_service_def service_domain_def Let_def)

theorem stable_directory_lookup_total_witness:
  "\<exists>nc. fold_r nc_step [Set_Service (sample_svc ''web'' ''10.0.0.1''), Remove_Service (sample_svc ''web'' ''10.0.0.1'')]
          name_control_new = Inr nc \<and> (\<forall>peer. \<exists>r. find_service_name nc peer = Inr r)"
  by (rule stable_directory_lookup_total [of _ "\<lambda>n. {n @ ''.shop.svc.cluster.local'', ''10.0.0.1''}"])
    (simp add: announces_def to_peer_sample, simp add: sample_svc_def)

lemma set_service_found:
  assumes "to_peer s = Inr (ps, s')" "set_service s nc = Inr nc'" "peer \<in> set ps"
  shows "find_service_name nc' peer = Inr (svc_name s, svc_namespace s)"
proof -
  have "svc_name s' = svc_name s" "svc_namespace s' = svc_namespace s"
    using to_peer_frame [OF assms(1)] by simp_all
  then show ?thesis
    using assms by (auto simp: set_service_def Let_def find_service_name_def find_service_def deref_def
        split: if_splits)
qed

text \<open>Right after \<open>set(Service)\<close> each of its peers resolves to its name and namespace, in any
  directory state, ahead of endpoints and pods with the same key.\<close>

lemma set_service_resolves:
  assumes "to_peer s = Inr (ps, s')" "set_service s nc = Inr nc'" "peer \<in> set ps"
  shows "find_service_name nc' peer = Inr (svc_name s, svc_namespace s)"
  by (rule set_service_found [OF assms])

lemma set_service_resolves_witness:
  "\<exists>nc. set_service (sample_svc ''web'' ''10.0.0.1'') name_control_new = Inr nc \<and>
        find_service_name nc ''10.0.0.1'' = Inr (''web'', ''shop'')"
proof -
  obtain nc where nc: "set_service (sample_svc ''web'' ''10.0.0.1'') name_control_new = Inr nc"
    by (simp add: set_service_def to_peer_sample Let_def name_control_new_def)
  show ?thesis
    using nc set_service_resolves [OF to_peer_sample nc, of "''10.0.0.1''"] by (simp add: sample_svc_def)
qed

text \<open>When a service is announced again with a peer missing (for example a changed cluster IP),
  \<open>set(Service)\<close> erases only the new peers before it destroys the old object: looking the old peer
  up afterwards follows a dangling pointer.\<close>

lemma changed_peer_dangles:
  assumes "set_service s1 nc = Inr nc1" "to_peer s1 = Inr (ps1, t1)"
    and "set_service s2 nc1 = Inr nc2" "to_peer s2 = Inr (ps2, t2)"
    and "svc_name s1 = svc_name s2" "peer \<in> set ps1" "peer \<notin> set ps2"
  shows "find_service_name nc2 peer = Inl Dangling_Deref"
proof -
  have t: "svc_name t1 = svc_name s1" "svc_name t2 = svc_name s1"
    using to_peer_frame [OF assms(2)] to_peer_frame [OF assms(4)] assms(5) by simp_all
  have "ps1 \<noteq> []" "ps2 \<noteq> []" using assms(2,4) by (auto dest: to_peer_nonempty)
  then have nc1: "services nc1 (svc_name s1) = Some (next_addr nc)" "peer_to_services nc1 peer = Some (next_addr nc)"
    "next_addr nc1 = Suc (next_addr nc)"
    using assms(1,2,6) t by (auto simp: set_service_def Let_def)
  then have "peer_to_services nc2 peer = Some (next_addr nc)" "service_heap nc2 (next_addr nc) = None"
    using assms(3,4,7) \<open>ps2 \<noteq> []\<close> t by (auto simp: set_service_def Let_def)
  then show ?thesis by (simp add: find_service_name_def find_service_def deref_def)
qed

lemma changed_peer_dangles_witness:
  "\<exists>nc1 nc2. set_service (sample_svc ''web'' ''10.0.0.1'') name_control_new = Inr nc1 \<and>
     set_service (sample_svc ''web'' ''10.0.0.2'') nc1 = Inr nc2 \<and>
     find_service_name nc2 ''10.0.0.1'' = Inl Dangling_Deref"
proof -
  obtain nc1 where nc1: "set_service (sample_svc ''web'' ''10.0.0.1'') name_control_new = Inr nc1"
    by (simp add: set_service_def to_peer_sample Let_def name_control_new_def)
  obtain nc2 where nc2: "set_service (sample_svc ''web'' ''10.0.0.2'') nc1 = Inr nc2"
    by (simp add: set_service_def to_peer_sample Let_def)
  show ?thesis
    using nc1 nc2 changed_peer_dangles [OF nc1 to_peer_sample nc2 to_peer_sample, of "''10.0.0.1''"]
    by (auto simp: sample_svc_def)
qed

text \<open>Two live endpoints may share an address (two Services that select the same pods). Removing
  the one announced last also drops the address of the other, which stays registered but can no
  longer be found by it.\<close>

lemma shared_address_lost:
  assumes "endpoints_ok nc" "set_endpoint e1 nc = Inr nc1" "set_endpoint e2 nc1 = Inr nc2"
    and "remove_endpoint e2 nc2 = Inr nc3"
    and "ep_name e1 \<noteq> ep_name e2" "ip \<in> set (addresses e1)" "ip \<in> set (addresses e2)"
  shows "find_endpoint nc3 ip = Inr None \<and> endpoints nc3 (ep_name e1) \<noteq> None"
proof -
  obtain a where a: "endpoints nc2 (ep_name e2) = Some a" "endpoint_heap nc2 a = Some e2"
    "endpoints nc2 (ep_name e1) \<noteq> None"
    using assms(2,3,5)
    by (auto simp: set_endpoint_def drop_endpoint_def Let_def cpp_simps split: option.splits)
  then show ?thesis
    using assms(4,5,7) by (auto simp: remove_endpoint_def drop_endpoint_def find_endpoint_def)
qed

lemma shared_address_lost_witness:
  "\<exists>nc1 nc2 nc3. set_endpoint (sample_ep ''web'' [''10.1.0.4'']) name_control_new = Inr nc1 \<and>
     set_endpoint (sample_ep ''api'' [''10.1.0.4'']) nc1 = Inr nc2 \<and>
     remove_endpoint (sample_ep ''api'' [''10.1.0.4'']) nc2 = Inr nc3 \<and>
     find_endpoint nc3 ''10.1.0.4'' = Inr None \<and> endpoints nc3 ''web'' \<noteq> None"
proof -
  obtain nc1 where nc1: "set_endpoint (sample_ep ''web'' [''10.1.0.4'']) name_control_new = Inr nc1" "endpoints_ok nc1"
    using set_endpoint_ok [OF name_control_new_ok(1)] by blast
  obtain nc2 where nc2: "set_endpoint (sample_ep ''api'' [''10.1.0.4'']) nc1 = Inr nc2" "endpoints_ok nc2"
    using set_endpoint_ok [OF nc1(2)] by blast
  obtain nc3 where nc3: "remove_endpoint (sample_ep ''api'' [''10.1.0.4'']) nc2 = Inr nc3"
    using endpoint_index.del_law [OF nc2(2)] by blast
  show ?thesis
    using nc1 nc2 nc3 shared_address_lost [OF name_control_new_ok(1) nc1(1) nc2(1) nc3, of "''10.1.0.4''"]
    by (simp add: sample_ep_def)
qed

end
