(* ===== verification/Topology_Source.thy ===== *)
theory Topology_Source
  imports Trace_Model Name_Control
begin

text \<open>
  The observation a span contributes to the service topology: \<open>RPCTrafficSourceBuilder\<close> with its
  base class (app/include/intercept/opentelemetry/trace/topology/rpc_traffic_source_builder.h,
  endpoint_source_builder.h), the messages it produces, the name translation through the
  Kubernetes directory and the layer functions of rpc_analysis_listener.cc and common.h, and the
  gRPC sink with its limit on concurrent requests (app/source/sink/topology/sink.cc).

  What the repository only calls is collected in \<open>topo_env\<close>: the 64-bit hash, the wire numbers of
  the SkyWalking span layers, the machine id, and the floating-point average that a metric
  message stores and gives back as an unsigned integer.
\<close>

section \<open>Parameters and messages\<close>

datatype span_layer = SL_Unknown | SL_Database | SL_RPCFramework | SL_Http | SL_MQ | SL_Cache | SL_FAAS

record 'a topo_env =
  hash64 :: "string \<Rightarrow> 64 word"
  span_layer_code :: "span_layer \<Rightarrow> 32 word"
  machine_id :: string
  avg_zero :: 'a
  avg_read :: "'a \<Rightarrow> 64 word"
  avg_half :: "64 word \<Rightarrow> 'a"

record service_msg =
  sm_id :: "64 word"
  sm_name :: string
  sm_type :: string

definition service_msg_default :: service_msg where
  "service_msg_default = \<lparr>sm_id = 0, sm_name = [], sm_type = []\<rparr>"

record relation_msg =
  rm_id :: "64 word"
  rm_source_service_id :: "64 word"
  rm_source_service_name :: string
  rm_source_layer :: "32 word"
  rm_dest_service_id :: "64 word"
  rm_dest_service_name :: string
  rm_dest_layer :: "32 word"
  rm_component_id :: string

definition relation_msg_default :: relation_msg where
  "relation_msg_default =
     \<lparr>rm_id = 0, rm_source_service_id = 0, rm_source_service_name = [], rm_source_layer = 0,
      rm_dest_service_id = 0, rm_dest_service_name = [], rm_dest_layer = 0, rm_component_id = []\<rparr>"

record 'a service_metric =
  sv_id :: "64 word"
  sv_name :: string
  sv_namespace :: string
  sv_cluster :: string
  sv_objectid :: string
  sv_request_count :: "64 word"
  sv_error_count :: "64 word"
  sv_avg_time :: 'a
  sv_time :: "64 word"

record 'a relation_metric =
  rl_id :: "64 word"
  rl_source_service_name :: string
  rl_source_namespace :: string
  rl_source_instance :: string
  rl_source_layer :: "32 word"
  rl_dest_service_name :: string
  rl_dest_namespace :: string
  rl_dest_instance :: string
  rl_dest_layer :: "32 word"
  rl_cluster :: string
  rl_objectid :: string
  rl_request_count :: "64 word"
  rl_error_count :: "64 word"
  rl_avg_time :: 'a
  rl_time :: "64 word"

section \<open>The sink\<close>

datatype 'a sink_request =
    Register_Service service_msg
  | Register_Service_Relation relation_msg
  | Register_Service_Metric "'a service_metric list"
  | Register_Service_Relation_Metric "'a relation_metric list"

text \<open>\<open>calls\<close> are the requests handed to gRPC, newest last.\<close>

record 'a sink =
  running_requests :: nat
  max_concurrent_requests :: nat
  calls :: "'a sink_request list"

text \<open>
  The four register functions: refused while more than the limit are running; else the request is
  swapped into the call object, so the caller's message is left default-constructed.
\<close>

definition registerService :: "service_msg \<Rightarrow> 'a sink \<Rightarrow> service_msg \<times> 'a sink" where
  "registerService service s =
     (if running_requests s > max_concurrent_requests s then (service, s)
      else (service_msg_default,
            s\<lparr>running_requests := running_requests s + 1, calls := calls s @ [Register_Service service]\<rparr>))"

definition registerServiceRelation :: "relation_msg \<Rightarrow> 'a sink \<Rightarrow> relation_msg \<times> 'a sink" where
  "registerServiceRelation relation s =
     (if running_requests s > max_concurrent_requests s then (relation, s)
      else (relation_msg_default,
            s\<lparr>running_requests := running_requests s + 1,
              calls := calls s @ [Register_Service_Relation relation]\<rparr>))"

definition registerServiceMetric :: "'a service_metric list \<Rightarrow> 'a sink \<Rightarrow> 'a service_metric list \<times> 'a sink" where
  "registerServiceMetric metric s =
     (if running_requests s > max_concurrent_requests s then (metric, s)
      else ([], s\<lparr>running_requests := running_requests s + 1,
                  calls := calls s @ [Register_Service_Metric metric]\<rparr>))"

definition registerServiceRelationMetric ::
  "'a relation_metric list \<Rightarrow> 'a sink \<Rightarrow> 'a relation_metric list \<times> 'a sink" where
  "registerServiceRelationMetric metric s =
     (if running_requests s > max_concurrent_requests s then (metric, s)
      else ([], s\<lparr>running_requests := running_requests s + 1,
                  calls := calls s @ [Register_Service_Relation_Metric metric]\<rparr>))"

text \<open>The callback of a finished call.\<close>

definition sink_on_done :: "'a sink \<Rightarrow> 'a sink" where
  "sink_on_done s = s\<lparr>running_requests := running_requests s - 1\<rparr>"

section \<open>Layers\<close>

definition identifyServiceLayer :: "32 word \<Rightarrow> 32 word" where
  "identifyServiceLayer spanLayer =
     (let spanLayer = layer_code L_FAAS
      in if spanLayer \<noteq> 0 then layer_code L_FAAS else layer_code L_GENERAL)"

definition identifyRemoteServiceLayer :: "'a topo_env \<Rightarrow> 32 word \<Rightarrow> 32 word" where
  "identifyRemoteServiceLayer E spanLayer =
     (if spanLayer = span_layer_code E SL_Unknown then layer_code L_UNDEFINED
      else if spanLayer = span_layer_code E SL_Database then layer_code L_VIRTUAL_DATABASE
      else if spanLayer = span_layer_code E SL_RPCFramework then layer_code L_GENERAL
      else if spanLayer = span_layer_code E SL_Http then layer_code L_GENERAL
      else if spanLayer = span_layer_code E SL_MQ then layer_code L_VIRTUAL_MQ
      else if spanLayer = span_layer_code E SL_Cache then layer_code L_VIRTUAL_CACHE
      else if spanLayer = span_layer_code E SL_FAAS then layer_code L_FAAS
      else layer_code L_UNDEFINED)"

section \<open>The builder\<close>

datatype detect_point = DP_SERVER | DP_CLIENT | DP_PROXY | DP_UNRECOGNIZED

text \<open>\<open>make_unique<RPCTrafficSourceBuilder>()\<close> value-initialises the object: every integer is 0. The
  fields of the base class that no code touches (time bucket, HTTP and RPC status, tags) are left out.\<close>

record traffic =
  destServiceName :: string
  destLayer :: "32 word"
  destServiceInstanceName :: string
  destEndpointName :: string
  destNamespace :: string
  traffic_type :: "32 word"
  detectPoint :: detect_point
  sourceServiceName :: string
  sourceNamespace :: string
  sourceLayer :: "32 word"
  sourceServiceInstanceName :: string
  sourceEndpointOwnerServiceLayer :: "32 word"
  sourceEndpointOwnerServiceName :: string
  sourceEndpointName :: string
  componentId :: "32 word"
  sourceId :: "64 word"
  destId :: "64 word"
  relation_id :: "64 word"
  hasError :: bool
  cluster :: string
  latency :: "64 word"

definition traffic_new :: traffic where
  "traffic_new =
     \<lparr>destServiceName = [], destLayer = 0, destServiceInstanceName = [], destEndpointName = [],
      destNamespace = [], traffic_type = 0, detectPoint = DP_SERVER, sourceServiceName = [],
      sourceNamespace = [], sourceLayer = 0, sourceServiceInstanceName = [],
      sourceEndpointOwnerServiceLayer = 0, sourceEndpointOwnerServiceName = [],
      sourceEndpointName = [], componentId = 0, sourceId = 0, destId = 0, relation_id = 0,
      hasError = False, cluster = [], latency = 0\<rparr>"

definition makeHashId :: "'a topo_env \<Rightarrow> string \<Rightarrow> 64 word" where
  "makeHashId E key = hash64 E key"

definition getSourceId :: "'a topo_env \<Rightarrow> traffic \<Rightarrow> 64 word \<times> traffic" where
  "getSourceId E t =
     (if sourceId t > 0 then (sourceId t, t)
      else let h = makeHashId E (sourceServiceName t @ sourceNamespace t) in (h, t\<lparr>sourceId := h\<rparr>))"

definition getDestId :: "'a topo_env \<Rightarrow> traffic \<Rightarrow> 64 word \<times> traffic" where
  "getDestId E t =
     (if destId t > 0 then (destId t, t)
      else let h = makeHashId E (destServiceName t @ destNamespace t) in (h, t\<lparr>destId := h\<rparr>))"

definition toService :: "'a topo_env \<Rightarrow> traffic \<Rightarrow> service_msg \<times> traffic" where
  "toService E t =
     (let (d, t1) = getDestId E t
      in (\<lparr>sm_id = d, sm_name = destServiceName t1, sm_type = dec_of_int (sint (traffic_type t1))\<rparr>, t1))"

definition toServiceRelation :: "'a topo_env \<Rightarrow> traffic \<Rightarrow> relation_msg \<times> traffic" where
  "toServiceRelation E t =
     (let (sid, t1) = (if sourceServiceName t \<noteq> [] then getSourceId E t else (0, t));
          (did, t2) = (if destServiceName t1 \<noteq> [] then getDestId E t1 else (0, t1));
          rid = makeHashId E (dec_of_nat (unat sid) @ dec_of_nat (unat did))
      in (\<lparr>rm_id = rid, rm_source_service_id = sid, rm_source_service_name = sourceServiceName t,
           rm_source_layer = sourceLayer t, rm_dest_service_id = did,
           rm_dest_service_name = destServiceName t, rm_dest_layer = destLayer t,
           rm_component_id = dec_of_int (sint (componentId t))\<rparr>,
          t2\<lparr>relation_id := rid\<rparr>))"

section \<open>Names\<close>

definition instanceToIp :: "string \<Rightarrow> string result" where
  "instanceToIp inst =
     (case find_char CHR ''@'' inst of
        None \<Rightarrow> Inr []
      | Some pos \<Rightarrow> if pos \<ge> length inst then Inr [] else substr_from inst (pos + 1))"

text \<open>Try the name, then the address after the \<open>@\<close> of the instance; \<open>upd\<close> stores the result.\<close>

definition name_to_kubernetes ::
  "name_control \<Rightarrow> string \<Rightarrow> string \<Rightarrow> (string \<times> string \<Rightarrow> traffic \<Rightarrow> traffic) \<Rightarrow> traffic \<Rightarrow> traffic result" where
  "name_to_kubernetes nc name inst upd t =
     bind_r (if name \<noteq> [] then find_service_name nc name else Inr ([], [])) (\<lambda>p.
       if fst p \<noteq> [] then Inr (upd p t)
       else if inst \<noteq> [] then
         bind_r (instanceToIp inst) (\<lambda>ip.
         bind_r (find_service_name nc ip) (\<lambda>q.
           if fst q \<noteq> [] then Inr (upd q t) else Inr t))
       else Inr t)"

definition sourceNameToKubernetesName :: "name_control \<Rightarrow> string \<Rightarrow> string \<Rightarrow> traffic \<Rightarrow> traffic result" where
  "sourceNameToKubernetesName nc name inst =
     name_to_kubernetes nc name inst (\<lambda>p t. t\<lparr>sourceServiceName := fst p, sourceNamespace := snd p\<rparr>)"

definition destNameToKubernetesName :: "name_control \<Rightarrow> string \<Rightarrow> string \<Rightarrow> traffic \<Rightarrow> traffic result" where
  "destNameToKubernetesName nc name inst =
     name_to_kubernetes nc name inst (\<lambda>p t. t\<lparr>destServiceName := fst p, destNamespace := snd p\<rparr>)"

lemma instanceToIp_total: "\<exists>ip. instanceToIp inst = Inr ip"
  by (auto simp: instanceToIp_def substr_from_def split: option.splits)

text \<open>With an answering directory the translation returns.\<close>

lemma name_to_kubernetes_total:
  assumes "\<And>k. \<exists>r. find_service_name nc k = Inr r"
  shows "\<exists>t'. name_to_kubernetes nc name inst upd t = Inr t'"
proof -
  obtain p where p: "(if name \<noteq> [] then find_service_name nc name else Inr ([], [])) = Inr p"
    using assms by fastforce
  obtain ip where ip: "instanceToIp inst = Inr ip" using instanceToIp_total by blast
  obtain q where "find_service_name nc ip = Inr q" using assms by blast
  then show ?thesis by (simp add: name_to_kubernetes_def p ip)
qed

end
