(* ===== verification/Topology_Metrics.thy ===== *)
theory Topology_Metrics
  imports Topology_Source
begin

text \<open>
  \<open>ServiceMetricAggregator\<close> and \<open>ServiceRelationMetricAggregator\<close>
  (app/source/intercept/opentelemetry/trace/topology/service_metric_aggregator.cc and
  service_relation_metric_aggregator.cc): maps from a service or relation id to its request count,
  error count and average latency, filled by \<open>stats\<close> and sent in batches by \<open>send\<close>.
  The locale \<open>metric_aggregator\<close> is what the two have in common; it is interpreted for the request
  and the error count of both. Counters are 64-bit words, as in the code.
\<close>

section \<open>Service metrics\<close>

record 'a service_aggregator =
  sv_cache :: "(64 word \<times> 'a service_metric) list"
  sv_max :: nat

definition service_metric_new :: "'a topo_env \<Rightarrow> 'a service_metric" where
  "service_metric_new E =
     \<lparr>sv_id = 0, sv_name = [], sv_namespace = [], sv_cluster = [], sv_objectid = [],
      sv_request_count = 0, sv_error_count = 0, sv_avg_time = avg_zero E, sv_time = 0\<rparr>"

text \<open>\<open>loadMetric\<close> with the flag \<open>SOURCE\<close> or \<open>DEST\<close>.\<close>

definition service_metric_load ::
  "'a topo_env \<Rightarrow> bool \<Rightarrow> 64 word \<Rightarrow> traffic \<Rightarrow> 'a service_metric option \<Rightarrow> 'a service_metric" where
  "service_metric_load E is_source i b found =
     (let m = (case found of None \<Rightarrow> service_metric_new E | Some x \<Rightarrow> x)\<lparr>sv_id := i\<rparr>;
          name = (if is_source then sourceServiceName b else destServiceName b);
          ns = (if is_source then sourceNamespace b else destNamespace b)
      in if name = [] then m
         else m\<lparr>sv_name := name, sv_namespace := ns, sv_cluster := cluster b,
                sv_request_count := sv_request_count m + 1,
                sv_error_count := (if hasError b then sv_error_count m + 1 else sv_error_count m),
                sv_avg_time := avg_half E (avg_read E (sv_avg_time m) + latency b)\<rparr>)"

definition service_stats :: "'a topo_env \<Rightarrow> traffic \<Rightarrow> 'a service_aggregator \<Rightarrow> 'a service_aggregator \<times> traffic" where
  "service_stats E b g =
     (if length (sv_cache g) > sv_max g then (g, b)
      else
        let (sid, b1) = getSourceId E b;
            (did, b2) = getDestId E b1
        in if did > 0
           then (g\<lparr>sv_cache := smap_put did (service_metric_load E False did b2 (map_of (sv_cache g) did)) (sv_cache g)\<rparr>, b2)
           else (g, b2))"

section \<open>Relation metrics\<close>

record 'a relation_aggregator =
  rl_cache :: "(64 word \<times> 'a relation_metric) list"
  rl_max :: nat

definition relation_metric_new :: "'a topo_env \<Rightarrow> 'a relation_metric" where
  "relation_metric_new E =
     \<lparr>rl_id = 0, rl_source_service_name = [], rl_source_namespace = [], rl_source_instance = [],
      rl_source_layer = 0, rl_dest_service_name = [], rl_dest_namespace = [], rl_dest_instance = [],
      rl_dest_layer = 0, rl_cluster = [], rl_objectid = [], rl_request_count = 0, rl_error_count = 0,
      rl_avg_time = avg_zero E, rl_time = 0\<rparr>"

definition relation_metric_load ::
  "'a topo_env \<Rightarrow> 64 word \<Rightarrow> traffic \<Rightarrow> 'a relation_metric option \<Rightarrow> 'a relation_metric" where
  "relation_metric_load E i b found =
     (let m = (case found of None \<Rightarrow> relation_metric_new E | Some x \<Rightarrow> x)
      in m\<lparr>rl_id := i, rl_source_service_name := sourceServiceName b, rl_source_namespace := sourceNamespace b,
           rl_source_instance := sourceServiceInstanceName b, rl_source_layer := sourceLayer b,
           rl_dest_service_name := destServiceName b, rl_dest_namespace := destNamespace b,
           rl_dest_instance := destServiceInstanceName b, rl_dest_layer := destLayer b,
           rl_cluster := cluster b,
           rl_request_count := rl_request_count m + 1,
           rl_error_count := (if hasError b then rl_error_count m + 1 else rl_error_count m),
           rl_avg_time := avg_half E (avg_read E (rl_avg_time m) + latency b)\<rparr>)"

definition relation_stats :: "'a topo_env \<Rightarrow> traffic \<Rightarrow> 'a relation_aggregator \<Rightarrow> 'a relation_aggregator" where
  "relation_stats E b g =
     (if length (rl_cache g) > rl_max g then g
      else if relation_id b > 0
      then g\<lparr>rl_cache := smap_put (relation_id b)
               (relation_metric_load E (relation_id b) b (map_of (rl_cache g) (relation_id b))) (rl_cache g)\<rparr>
      else g)"

section \<open>Sending\<close>

definition batchSize :: nat where "batchSize = 100"

text \<open>
  The loop of \<open>send\<close>: \<open>n\<close> is \<open>metricCache.size()\<close>, \<open>seen\<close> the number of entries before this one,
  \<open>request\<close> the batch so far; \<open>stamp\<close> fills in machine id and time, \<open>reg\<close> is the sink call.
\<close>

fun send_loop ::
  "('m list \<Rightarrow> 's \<Rightarrow> 'm list \<times> 's) \<Rightarrow> (nat \<Rightarrow> 'm \<Rightarrow> 'm) \<Rightarrow> nat \<Rightarrow> nat \<Rightarrow> 'm list \<Rightarrow> (64 word \<times> 'm) list \<Rightarrow> 's \<Rightarrow> 's" where
  "send_loop reg stamp n seen request [] s = s"
| "send_loop reg stamp n seen request ((k, m) # rest) s =
     (let request = request @ [stamp seen m]
      in if seen > batchSize
         then let (_, s1) = reg request s in send_loop reg stamp n (seen + 1) [] rest s1
         else if seen = n - 1
         then let (request1, s1) = reg request s in send_loop reg stamp n (seen + 1) request1 rest s1
         else send_loop reg stamp n (seen + 1) request rest s)"

definition service_stamp :: "'a topo_env \<Rightarrow> (nat \<Rightarrow> 64 word) \<Rightarrow> nat \<Rightarrow> 'a service_metric \<Rightarrow> 'a service_metric" where
  "service_stamp E clock i m = m\<lparr>sv_objectid := machine_id E, sv_time := clock i\<rparr>"

definition service_send ::
  "'a topo_env \<Rightarrow> (nat \<Rightarrow> 64 word) \<Rightarrow> 'a service_aggregator \<Rightarrow> 'a sink \<Rightarrow> 'a service_aggregator \<times> 'a sink" where
  "service_send E clock g s =
     (if sv_cache g = [] then (g, s)
      else (g\<lparr>sv_cache := []\<rparr>,
            send_loop registerServiceMetric (service_stamp E clock) (length (sv_cache g)) 0 [] (sv_cache g) s))"

definition relation_stamp :: "'a topo_env \<Rightarrow> (nat \<Rightarrow> 64 word) \<Rightarrow> nat \<Rightarrow> 'a relation_metric \<Rightarrow> 'a relation_metric" where
  "relation_stamp E clock i m = m\<lparr>rl_objectid := machine_id E, rl_time := clock i\<rparr>"

definition relation_send ::
  "'a topo_env \<Rightarrow> (nat \<Rightarrow> 64 word) \<Rightarrow> 'a relation_aggregator \<Rightarrow> 'a sink \<Rightarrow> 'a relation_aggregator \<times> 'a sink" where
  "relation_send E clock g s =
     (if rl_cache g = [] then (g, s)
      else (g\<lparr>rl_cache := []\<rparr>,
            send_loop registerServiceRelationMetric (relation_stamp E clock) (length (rl_cache g)) 0 [] (rl_cache g) s))"

subsection \<open>What the sink receives\<close>

definition submit :: "('m list \<Rightarrow> 'a sink_request) \<Rightarrow> 'm list \<Rightarrow> 'a sink \<Rightarrow> 'm list \<times> 'a sink" where
  "submit mk m s =
     (if running_requests s > max_concurrent_requests s then (m, s)
      else ([], s\<lparr>running_requests := running_requests s + 1, calls := calls s @ [mk m]\<rparr>))"

lemma register_submit:
  "registerServiceMetric = submit Register_Service_Metric"
  "registerServiceRelationMetric = submit Register_Service_Relation_Metric"
  by (auto simp: fun_eq_iff submit_def registerServiceMetric_def registerServiceRelationMetric_def)

definition stamped :: "(nat \<Rightarrow> 'm \<Rightarrow> 'm) \<Rightarrow> nat \<Rightarrow> (64 word \<times> 'm) list \<Rightarrow> 'm list" where
  "stamped stamp i xs = map (\<lambda>(j, k, m). stamp j m) (enumerate i xs)"

lemma stamped_simps [simp]:
  "stamped stamp i [] = []"
  "stamped stamp i ((k, m) # xs) = stamp i m # stamped stamp (Suc i) xs"
  by (simp_all add: stamped_def)

text \<open>The number of requests the loop makes from a position on.\<close>

definition requests_needed :: "nat \<Rightarrow> nat \<Rightarrow> nat \<Rightarrow> nat" where
  "requests_needed n seen len =
     (if len = 0 then 0 else if seen > batchSize then len
      else if n \<le> Suc batchSize then 1 else n - Suc batchSize)"

lemma send_loop_batches:
  assumes "seen + length rest = n" "rest = [] \<Longrightarrow> req = []"
    and "running_requests s + requests_needed n seen (length rest) \<le> Suc (max_concurrent_requests s)"
  shows "\<exists>batches. send_loop (submit mk) stamp n seen req rest s =
           s\<lparr>running_requests := running_requests s + length batches, calls := calls s @ map mk batches\<rparr> \<and>
         concat batches = req @ stamped stamp seen rest \<and> length batches = requests_needed n seen (length rest)"
  using assms
proof (induction rest arbitrary: seen req s)
  case Nil
  then show ?case by (intro exI [of _ "[]"]) (simp add: requests_needed_def)
next
  case (Cons x rest)
  obtain k m where x: "x = (k, m)" by (cases x)
  let ?req = "req @ [stamp seen m]"
  let ?s1 = "s\<lparr>running_requests := running_requests s + 1, calls := calls s @ [mk ?req]\<rparr>"
  have acc: "submit mk ?req s = ([], ?s1)"
    using Cons.prems(3) by (auto simp: submit_def requests_needed_def split: if_splits)
  show ?case
  proof (cases "seen > batchSize")
    case True
    then have "running_requests ?s1 + requests_needed n (Suc seen) (length rest) \<le> Suc (max_concurrent_requests ?s1)"
      using Cons.prems(3) by (simp add: requests_needed_def split: if_splits)
    then obtain bs where
      "send_loop (submit mk) stamp n (Suc seen) [] rest ?s1 =
         ?s1\<lparr>running_requests := running_requests ?s1 + length bs, calls := calls ?s1 @ map mk bs\<rparr>"
      "concat bs = [] @ stamped stamp (Suc seen) rest" "length bs = requests_needed n (Suc seen) (length rest)"
      using Cons.IH [of "Suc seen" "[]" ?s1] Cons.prems(1) by auto
    then show ?thesis using True
      by (intro exI [of _ "?req # bs"]) (simp add: x acc requests_needed_def)
  next
    case False
    show ?thesis
    proof (cases "seen = n - 1")
      case True
      then have "rest = []" using Cons.prems(1) by (cases rest) auto
      moreover from this have "n = Suc seen" using Cons.prems(1) by simp
      ultimately show ?thesis using False
        by (intro exI [of _ "[?req]"]) (simp add: x acc requests_needed_def)
    next
      case ne: False
      then have "rest \<noteq> []" using Cons.prems(1) by auto
      then have eq: "requests_needed n (Suc seen) (length rest) = requests_needed n seen (length (x # rest))"
        using False Cons.prems(1) by (cases rest) (auto simp: requests_needed_def)
      then show ?thesis
        using Cons.IH [of "Suc seen" ?req s] Cons.prems(1,3) \<open>rest \<noteq> []\<close> False ne by (simp add: x)
    qed
  qed
qed

lemma send_loop_full:
  "running_requests s > max_concurrent_requests s \<Longrightarrow> send_loop (submit mk) stamp n seen req rest s = s"
  by (induction rest arbitrary: seen req) (auto simp: submit_def Let_def)

section \<open>The shape both aggregators share\<close>

definition counter_of :: "('m \<Rightarrow> 64 word) \<Rightarrow> 'm option \<Rightarrow> 64 word" where
  "counter_of count m = (case m of None \<Rightarrow> 0 | Some x \<Rightarrow> count x)"

locale metric_aggregator =
  fixes stats :: "'b \<Rightarrow> (64 word \<times> 'm) list \<Rightarrow> (64 word \<times> 'm) list"
    and key :: "'b \<Rightarrow> 64 word"
    and bump :: "'b \<Rightarrow> 'm option \<Rightarrow> 'm"
    and cap :: nat
    and count :: "'m \<Rightarrow> 64 word"
    and counted :: "'b \<Rightarrow> bool"
  assumes stats_law: "stats b c =
      (if length c > cap \<or> key b = 0 then c else smap_put (key b) (bump b (map_of c (key b))) c)"
    and bump_law: "count (bump b m) = counter_of count m + (if counted b then 1 else 0)"
begin

lemma stats_ok: "smap_ok c \<Longrightarrow> smap_ok (stats b c)"
  by (simp add: stats_law smap_ok_put)

lemma stats_bound: "smap_ok c \<Longrightarrow> length c \<le> Suc cap \<Longrightarrow> length (stats b c) \<le> Suc cap"
  by (simp add: stats_law length_smap_put)

lemma run_ok: "smap_ok c \<Longrightarrow> smap_ok (fold stats bs c)"
  by (induction bs arbitrary: c) (auto intro: stats_ok)

lemma run_bound: "smap_ok c \<Longrightarrow> length c \<le> Suc cap \<Longrightarrow> length (fold stats bs c) \<le> Suc cap"
  by (induction bs arbitrary: c) (auto intro: stats_ok stats_bound)

lemma run_full: "length c > cap \<Longrightarrow> fold stats bs c = c"
  by (induction bs) (auto simp: stats_law)

lemma stats_counter:
  assumes "smap_ok c" "length c \<le> cap" "k \<noteq> 0"
  shows "counter_of count (map_of (stats b c) k) =
         counter_of count (map_of c k) + (if key b = k \<and> counted b then 1 else 0)"
  using assms by (auto simp: stats_law bump_law counter_of_def)

lemma keys_stats: "fst ` set (stats b c) \<subseteq> insert (key b) (fst ` set c)"
  by (auto simp: stats_law dest: equalityD1 [OF set_smap_put_keys, THEN subsetD, OF imageI])

text \<open>While the ids seen fit, a counter is the number of counted observations with its id.\<close>

lemma run_counter:
  assumes "smap_ok c" "fst ` set c \<union> key ` set bs \<subseteq> S" "finite S" "card S \<le> cap" "k \<noteq> 0"
  shows "counter_of count (map_of (fold stats bs c) k) =
         counter_of count (map_of c k) + of_nat (length (filter (\<lambda>b. key b = k \<and> counted b) bs))"
  using assms
proof (induction bs arbitrary: c)
  case (Cons b bs)
  have "length c = card (fst ` set c)"
    using smap_ok_distinct [OF Cons.prems(1)] by (metis distinct_card length_map list.set_map)
  also have "\<dots> \<le> card S" using Cons.prems(2,3) by (intro card_mono) auto
  finally have "length c \<le> cap" using Cons.prems(4) by simp
  note step = stats_counter [OF Cons.prems(1) this Cons.prems(5), of b]
  have "fst ` set (stats b c) \<subseteq> S"
    by (rule subset_trans [OF keys_stats]) (use Cons.prems(2) in auto)
  then have "fst ` set (stats b c) \<union> key ` set bs \<subseteq> S" using Cons.prems(2) by auto
  then show ?case
    using Cons.IH [OF stats_ok [OF Cons.prems(1)] _ Cons.prems(3,4,5)] step by (simp add: ac_simps)
qed simp

end

text \<open>The two aggregators as operations on their caches.\<close>

definition service_cache_stats ::
  "'a topo_env \<Rightarrow> nat \<Rightarrow> traffic \<Rightarrow> (64 word \<times> 'a service_metric) list \<Rightarrow> (64 word \<times> 'a service_metric) list" where
  "service_cache_stats E n b c = sv_cache (fst (service_stats E b \<lparr>sv_cache = c, sv_max = n\<rparr>))"

definition relation_cache_stats ::
  "'a topo_env \<Rightarrow> nat \<Rightarrow> traffic \<Rightarrow> (64 word \<times> 'a relation_metric) list \<Rightarrow> (64 word \<times> 'a relation_metric) list" where
  "relation_cache_stats E n b c = rl_cache (relation_stats E b \<lparr>rl_cache = c, rl_max = n\<rparr>)"

definition dest_key :: "'a topo_env \<Rightarrow> traffic \<Rightarrow> 64 word" where
  "dest_key E b = fst (getDestId E b)"

lemma getId_frame:
  "sourceServiceName (snd (getSourceId E b)) = sourceServiceName b"
  "destServiceName (snd (getSourceId E b)) = destServiceName b"
  "destNamespace (snd (getSourceId E b)) = destNamespace b"
  "destId (snd (getSourceId E b)) = destId b"
  "hasError (snd (getSourceId E b)) = hasError b"
  "destServiceName (snd (getDestId E b)) = destServiceName b"
  "hasError (snd (getDestId E b)) = hasError b"
  "fst (getDestId E (snd (getSourceId E b))) = dest_key E b"
  by (simp_all add: getSourceId_def getDestId_def dest_key_def Let_def)

definition service_bump :: "'a topo_env \<Rightarrow> traffic \<Rightarrow> 'a service_metric option \<Rightarrow> 'a service_metric" where
  "service_bump E b found =
     service_metric_load E False (dest_key E b) (snd (getDestId E (snd (getSourceId E b)))) found"

definition relation_bump :: "'a topo_env \<Rightarrow> traffic \<Rightarrow> 'a relation_metric option \<Rightarrow> 'a relation_metric" where
  "relation_bump E b found = relation_metric_load E (relation_id b) b found"

lemma service_cache_stats_eq:
  "service_cache_stats E n b c =
     (if length c > n \<or> dest_key E b = 0 then c
      else smap_put (dest_key E b) (service_bump E b (map_of c (dest_key E b))) c)"
  by (auto simp: service_cache_stats_def service_stats_def service_bump_def case_prod_beta getId_frame word_gt_0 Let_def)

lemma relation_cache_stats_eq:
  "relation_cache_stats E n b c =
     (if length c > n \<or> relation_id b = 0 then c
      else smap_put (relation_id b) (relation_bump E b (map_of c (relation_id b))) c)"
  by (auto simp: relation_cache_stats_def relation_stats_def relation_bump_def word_gt_0)

interpretation service_requests: metric_aggregator
  "service_cache_stats E n" "dest_key E" "service_bump E" n sv_request_count "\<lambda>b. destServiceName b \<noteq> []"
  for E :: "'a topo_env" and n
  by unfold_locales
    (auto simp: service_cache_stats_eq service_bump_def service_metric_load_def Let_def counter_of_def
      service_metric_new_def getId_frame split: option.split)

interpretation service_errors: metric_aggregator
  "service_cache_stats E n" "dest_key E" "service_bump E" n sv_error_count "\<lambda>b. destServiceName b \<noteq> [] \<and> hasError b"
  for E :: "'a topo_env" and n
  by unfold_locales
    (auto simp: service_cache_stats_eq service_bump_def service_metric_load_def Let_def counter_of_def
      service_metric_new_def getId_frame split: option.split)

interpretation relation_requests: metric_aggregator
  "relation_cache_stats E n" relation_id "relation_bump E" n rl_request_count "\<lambda>b. True"
  for E :: "'a topo_env" and n
  by unfold_locales
    (auto simp: relation_cache_stats_eq relation_bump_def relation_metric_load_def Let_def counter_of_def
      relation_metric_new_def split: option.split)

interpretation relation_errors: metric_aggregator
  "relation_cache_stats E n" relation_id "relation_bump E" n rl_error_count hasError
  for E :: "'a topo_env" and n
  by unfold_locales
    (auto simp: relation_cache_stats_eq relation_bump_def relation_metric_load_def Let_def counter_of_def
      relation_metric_new_def split: option.split)

section \<open>Properties\<close>

text \<open>A concrete environment for the witnesses.\<close>

definition sample_env :: "(64 word) topo_env" where
  "sample_env =
     \<lparr>hash64 = (\<lambda>s. word_of_nat (Suc (length s))),
      span_layer_code = (\<lambda>l. case l of SL_Unknown \<Rightarrow> 0 | SL_Database \<Rightarrow> 1 | SL_RPCFramework \<Rightarrow> 2 | SL_Http \<Rightarrow> 3
                               | SL_MQ \<Rightarrow> 4 | SL_Cache \<Rightarrow> 5 | SL_FAAS \<Rightarrow> 6),
      machine_id = ''m1'', avg_zero = 0, avg_read = id, avg_half = (\<lambda>x. x div 2)\<rparr>"

definition sample_traffic :: "string \<Rightarrow> bool \<Rightarrow> traffic" where
  "sample_traffic n err = traffic_new\<lparr>destServiceName := n, hasError := err, latency := 40\<rparr>"

text \<open>C6: \<open>send\<close> on a sink with room hands over every cached service metric exactly once, in id order,
  and leaves the cache empty; up to 101 metrics make one request, but beyond that every further
  metric is a request of its own, because the counter that is compared with the batch size is not
  reset.\<close>

theorem service_send_complete:
  assumes "sv_cache g \<noteq> []"
    and "running_requests s + (length (sv_cache g) - 100) \<le> max_concurrent_requests s"
  shows "\<exists>batches. service_send E clock g s =
           (g\<lparr>sv_cache := []\<rparr>,
            s\<lparr>running_requests := running_requests s + length batches,
              calls := calls s @ map Register_Service_Metric batches\<rparr>) \<and>
         concat batches = stamped (service_stamp E clock) 0 (sv_cache g) \<and>
         length batches = (if length (sv_cache g) \<le> 101 then 1 else length (sv_cache g) - 101)"
proof -
  have need: "requests_needed (length (sv_cache g)) 0 (length (sv_cache g)) =
      (if length (sv_cache g) \<le> 101 then 1 else length (sv_cache g) - 101)"
    using assms(1) by (simp add: requests_needed_def batchSize_def)
  have "running_requests s + requests_needed (length (sv_cache g)) 0 (length (sv_cache g)) \<le>
      Suc (max_concurrent_requests s)"
    using assms by (auto simp: need)
  then show ?thesis
    using send_loop_batches [of 0 "sv_cache g" "length (sv_cache g)" "[]" s Register_Service_Metric
        "service_stamp E clock"] assms(1)
    by (auto simp: service_send_def register_submit need)
qed

theorem service_send_complete_witness:
  "\<exists>batches. snd (service_send sample_env (\<lambda>_. 7) \<lparr>sv_cache = [(3, service_metric_new sample_env)], sv_max = 500\<rparr>
       \<lparr>running_requests = 0, max_concurrent_requests = 1000, calls = []\<rparr>) =
     \<lparr>running_requests = 1, max_concurrent_requests = 1000, calls = map Register_Service_Metric batches\<rparr> \<and>
     concat batches = [service_stamp sample_env (\<lambda>_. 7) 0 (service_metric_new sample_env)]"
  using service_send_complete [of "\<lparr>sv_cache = [(3, service_metric_new sample_env)], sv_max = 500\<rparr>"
      "\<lparr>running_requests = 0, max_concurrent_requests = 1000, calls = []\<rparr>" sample_env "\<lambda>_. 7"]
  by auto

text \<open>On a sink that is at its limit, \<open>send\<close> delivers nothing and still clears the cache: the
  relation metrics of the interval are lost.\<close>

lemma relation_send_full_loses:
  assumes "running_requests s > max_concurrent_requests s"
  shows "relation_send E clock g s = (g\<lparr>rl_cache := []\<rparr>, s)"
  using send_loop_full [OF assms] by (auto simp: relation_send_def register_submit)

lemma relation_send_full_loses_witness:
  "relation_send sample_env (\<lambda>_. 7) \<lparr>rl_cache = [(3, relation_metric_new sample_env)], rl_max = 500\<rparr>
     \<lparr>running_requests = 1001, max_concurrent_requests = 1000, calls = []\<rparr> =
   (\<lparr>rl_cache = [], rl_max = 500\<rparr>, \<lparr>running_requests = 1001, max_concurrent_requests = 1000, calls = []\<rparr>)"
  by (subst relation_send_full_loses) simp_all

text \<open>C12: as long as no more than \<open>maxSize\<close> services are seen in an interval, the request and error
  counts of a service are the numbers of observations, and of failed observations, with its id.\<close>

theorem service_counts_exact:
  assumes "card (dest_key E ` set bs) \<le> n" "k \<noteq> 0"
  shows "counter_of sv_request_count (map_of (fold (service_cache_stats E n) bs []) k) =
           of_nat (length (filter (\<lambda>b. dest_key E b = k \<and> destServiceName b \<noteq> []) bs)) \<and>
         counter_of sv_error_count (map_of (fold (service_cache_stats E n) bs []) k) =
           of_nat (length (filter (\<lambda>b. dest_key E b = k \<and> destServiceName b \<noteq> [] \<and> hasError b) bs))"
  using service_requests.run_counter [of "[]" E bs "dest_key E ` set bs" n k]
    service_errors.run_counter [of "[]" E bs "dest_key E ` set bs" n k] assms
  by (simp add: counter_of_def)

theorem service_counts_exact_witness:
  "counter_of sv_request_count (map_of (fold (service_cache_stats sample_env 500)
     [sample_traffic ''web'' True, sample_traffic ''db'' False, sample_traffic ''web'' False] []) 4) = 2"
proof -
  let ?bs = "[sample_traffic ''web'' True, sample_traffic ''db'' False, sample_traffic ''web'' False]"
  have key: "dest_key sample_env (sample_traffic n e) = word_of_nat (Suc (length n))" for n e
    by (simp add: dest_key_def getDestId_def sample_traffic_def traffic_new_def makeHashId_def sample_env_def Let_def)
  have nm: "destServiceName (sample_traffic n e) = n" for n e
    by (simp add: sample_traffic_def)
  have "card (dest_key sample_env ` set ?bs) \<le> length (map (dest_key sample_env) ?bs)"
    by (metis card_length list.set_map)
  then have "card (dest_key sample_env ` set ?bs) \<le> 500" by simp
  then show ?thesis
    using service_counts_exact [of sample_env ?bs 500 4] by (simp add: key nm)
qed

text \<open>Whatever is observed, neither metric cache ever holds more than one entry over its
  \<open>maxSize\<close>, and both stay sorted by id; a cache over the limit no longer counts anything.\<close>

lemma metric_caches_bounded:
  "length (fold (service_cache_stats E n) bs []) \<le> Suc n \<and> smap_ok (fold (service_cache_stats E n) bs []) \<and>
   length (fold (relation_cache_stats E n) bs []) \<le> Suc n \<and> smap_ok (fold (relation_cache_stats E n) bs []) \<and>
   (length c = Suc n \<longrightarrow> fold (relation_cache_stats E n) bs c = c)"
  using service_requests.run_bound [of "[]" n E bs] service_requests.run_ok [of "[]" E n bs]
    relation_requests.run_bound [of "[]" n E bs] relation_requests.run_ok [of "[]" E n bs]
    relation_requests.run_full [of n c E bs]
  by simp

lemma metric_caches_bounded_witness:
  "fold (relation_cache_stats sample_env 0) [sample_traffic ''web'' True] [(9, relation_metric_new sample_env)] =
     [(9, relation_metric_new sample_env)]"
  using metric_caches_bounded [of sample_env 0 "[sample_traffic ''web'' True]" "[(9, relation_metric_new sample_env)]"]
  by simp

end
