(* ===== verification/Lru_Cache.thy ===== *)
theory Lru_Cache
  imports Prelude
begin

text \<open>
  \<open>App::Common::LruCache\<close> (app/include/common/lrucache.h): a recency list of key/value nodes
  and an index from keys to list iterators. A node of \<open>_cache_items_list\<close> has an identity
  (\<open>next_node\<close> numbers the allocations), the index holds identities, so an iterator that no
  longer points into the list is visible as a fault. The lemmas prove that under the cache
  invariant no operation faults and each refines an operation on the plain list of pairs, most
  recently used first. The interface \<open>recency_cache\<close> is what the topology listener relies on.
\<close>

record ('k, 'v) lru =
  cache_items_list :: "(nat \<times> 'k \<times> 'v) list"
  cache_items_map :: "('k \<times> nat) list"
  max_size :: nat
  next_node :: nat

definition lru_new :: "nat \<Rightarrow> ('k, 'v) lru" where
  "lru_new n = \<lparr>cache_items_list = [], cache_items_map = [], max_size = n, next_node = 0\<rparr>"

text \<open>\<open>list.erase(it)\<close> and \<open>list.splice(begin, list, it)\<close> need an iterator into the list.\<close>

definition erase_node :: "nat \<Rightarrow> (nat \<times> 'k \<times> 'v) list \<Rightarrow> (nat \<times> 'k \<times> 'v) list result" where
  "erase_node i xs =
     (if i \<in> set (map fst xs) then Inr (filter (\<lambda>x. fst x \<noteq> i) xs) else Inl Dangling_Deref)"

definition splice_front :: "nat \<Rightarrow> (nat \<times> 'k \<times> 'v) list \<Rightarrow> (nat \<times> 'k \<times> 'v) list result" where
  "splice_front i xs =
     (case find (\<lambda>x. fst x = i) xs of
        None \<Rightarrow> Inl Dangling_Deref
      | Some x \<Rightarrow> Inr (x # filter (\<lambda>x. fst x \<noteq> i) xs))"

definition lru_put :: "'k \<Rightarrow> 'v \<Rightarrow> ('k, 'v) lru \<Rightarrow> ('k, 'v) lru result" where
  "lru_put key value c =
     (let it = map_of (cache_items_map c) key;
          n = next_node c;
          l1 = (n, key, value) # cache_items_list c
      in bind_r
           (case it of
              None \<Rightarrow> Inr (l1, cache_items_map c)
            | Some i \<Rightarrow> bind_r (erase_node i l1) (\<lambda>l2. Inr (l2, AList.delete key (cache_items_map c))))
           (\<lambda>(l2, m2).
              let m3 = AList.update key n m2
              in if length m3 > max_size c
                 then (if l2 = [] then Inl Dangling_Deref
                       else Inr (c\<lparr>cache_items_list := butlast l2,
                                   cache_items_map := AList.delete (fst (snd (last l2))) m3,
                                   next_node := Suc n\<rparr>))
                 else Inr (c\<lparr>cache_items_list := l2, cache_items_map := m3, next_node := Suc n\<rparr>)))"

definition lru_get :: "'k \<Rightarrow> ('k, 'v) lru \<Rightarrow> ('v \<times> ('k, 'v) lru) result" where
  "lru_get key c =
     (case map_of (cache_items_map c) key of
        None \<Rightarrow> Inl Range_Error
      | Some i \<Rightarrow>
          bind_r (splice_front i (cache_items_list c))
            (\<lambda>l. Inr (snd (snd (hd l)), c\<lparr>cache_items_list := l\<rparr>)))"

definition lru_exists :: "'k \<Rightarrow> ('k, 'v) lru \<Rightarrow> bool" where
  "lru_exists key c \<longleftrightarrow> map_of (cache_items_map c) key \<noteq> None"

definition lru_size :: "('k, 'v) lru \<Rightarrow> nat" where
  "lru_size c = length (cache_items_map c)"

definition lru_clear :: "('k, 'v) lru \<Rightarrow> ('k, 'v) lru" where
  "lru_clear c = c\<lparr>cache_items_list := [], cache_items_map := []\<rparr>"

section \<open>Invariant and abstraction\<close>

definition contents :: "('k, 'v) lru \<Rightarrow> ('k \<times> 'v) list" where
  "contents c = map snd (cache_items_list c)"

definition node_index :: "(nat \<times> 'k \<times> 'v) list \<Rightarrow> ('k \<times> nat) list" where
  "node_index xs = map (\<lambda>(i, k, v). (k, i)) xs"

definition lru_ok :: "('k, 'v) lru \<Rightarrow> bool" where
  "lru_ok c \<longleftrightarrow>
     distinct (map fst (cache_items_list c)) \<and>
     distinct (map fst (contents c)) \<and>
     umap_ok (cache_items_map c) \<and>
     map_of (cache_items_map c) = map_of (node_index (cache_items_list c)) \<and>
     length (cache_items_list c) \<le> max_size c \<and>
     (\<forall>i\<in>set (map fst (cache_items_list c)). i < next_node c)"

lemma keys_node_index: "map fst (node_index xs) = map fst (map snd xs)"
  by (simp add: node_index_def case_prod_beta comp_def)

lemma node_index_simps [simp]:
  "node_index [] = []"
  "node_index ((i, k, v) # xs) = (k, i) # node_index xs"
  "node_index (xs @ ys) = node_index xs @ node_index ys"
  by (simp_all add: node_index_def)

lemma lru_ok_new [inv_intros]: "lru_ok (lru_new n)"
  by (simp add: lru_ok_def lru_new_def contents_def node_index_def)

lemma lru_ok_clear [inv_intros]: "lru_ok c \<Longrightarrow> lru_ok (lru_clear c)"
  by (simp add: lru_ok_def lru_clear_def contents_def node_index_def)

lemma lru_exists_contents: "lru_ok c \<Longrightarrow> lru_exists k c \<longleftrightarrow> k \<in> fst ` set (contents c)"
proof -
  assume "lru_ok c"
  then have "lru_exists k c \<longleftrightarrow> k \<in> set (map fst (node_index (cache_items_list c)))"
    by (simp add: lru_exists_def lru_ok_def map_of_eq_None_iff)
  then show ?thesis by (simp only: keys_node_index contents_def set_map)
qed

lemma lru_size_contents: "lru_ok c \<Longrightarrow> lru_size c = length (contents c)"
proof -
  assume ok: "lru_ok c"
  then have "length (cache_items_map c) = card (dom (map_of (node_index (cache_items_list c))))"
    by (metis lru_ok_def umap_size)
  also have "\<dots> = length (node_index (cache_items_list c))"
    using ok by (simp add: lru_ok_def contents_def keys_node_index umap_ok_def umap_size [symmetric])
  finally show ?thesis by (simp add: lru_size_def contents_def node_index_def)
qed

text \<open>The index finds the one node of a key.\<close>

lemma node_index_Some:
  assumes "distinct (map fst xs)" "distinct (map fst (map snd xs))"
  shows "map_of (node_index xs) k = Some i \<longleftrightarrow> (\<exists>v. (i, k, v) \<in> set xs)"
proof -
  have "distinct (map fst (node_index xs))" using assms(2) by (simp only: keys_node_index)
  then show ?thesis by (force simp: map_of_eq_Some_iff node_index_def)
qed

lemma filter_node_eq_filter_key:
  assumes "distinct (map fst xs)" "distinct (map fst (map snd xs))" "(i, k, v) \<in> set xs"
  shows "filter (\<lambda>x. fst x \<noteq> i) xs = filter (\<lambda>x. fst (snd x) \<noteq> k) xs"
proof (rule filter_cong [OF refl])
  fix x assume x: "x \<in> set xs"
  obtain j k' v' where [simp]: "x = (j, k', v')" by (cases x) auto
  have "j = i \<longleftrightarrow> k' = k"
  proof
    assume "j = i"
    then show "k' = k" using distinct_map_fst_unique [OF assms(1)] x assms(3) by fastforce
  next
    assume "k' = k"
    moreover have "inj_on (fst \<circ> snd) (set xs)" using assms(2) by (simp add: distinct_map comp_inj_on_iff)
    ultimately show "j = i" using x assms(3) inj_onD [of "fst \<circ> snd" "set xs" "(j, k', v')" "(i, k, v)"] by simp
  qed
  then show "(fst x \<noteq> i) = (fst (snd x) \<noteq> k)" by simp
qed

lemma map_snd_filter_key:
  "map snd (filter (\<lambda>x. fst (snd x) \<noteq> k) xs) = filter (\<lambda>p. fst p \<noteq> k) (map snd xs)"
  by (simp add: filter_map comp_def)

lemma node_index_filter:
  "map_of (node_index (filter (\<lambda>x. fst (snd x) \<noteq> k) xs)) = (map_of (node_index xs))(k := None)"
  by (induction xs) (auto simp: node_index_def fun_eq_iff)

section \<open>The operations refine the recency list\<close>

definition spec_put :: "nat \<Rightarrow> 'k \<Rightarrow> 'v \<Rightarrow> ('k \<times> 'v) list \<Rightarrow> ('k \<times> 'v) list" where
  "spec_put n k v xs = take n ((k, v) # filter (\<lambda>p. fst p \<noteq> k) xs)"

lemma spec_put_keys: "fst ` set (spec_put n k v xs) \<subseteq> insert k (fst ` set xs)"
  unfolding spec_put_def by (rule subset_trans [OF image_mono [OF set_take_subset]]) auto

text \<open>The state \<open>put\<close> reaches before the eviction test.\<close>

definition lru_inserted :: "'k \<Rightarrow> 'v \<Rightarrow> ('k, 'v) lru \<Rightarrow> ('k, 'v) lru" where
  "lru_inserted k v c =
     c\<lparr>cache_items_list := (next_node c, k, v) # filter (\<lambda>x. fst (snd x) \<noteq> k) (cache_items_list c),
       cache_items_map := AList.update k (next_node c)
         (if lru_exists k c then AList.delete k (cache_items_map c) else cache_items_map c),
       next_node := Suc (next_node c)\<rparr>"

lemma erase_node_indexed:
  assumes "lru_ok c" "map_of (cache_items_map c) k = Some i"
  shows "erase_node i ((next_node c, k, v) # cache_items_list c) =
         Inr ((next_node c, k, v) # filter (\<lambda>x. fst (snd x) \<noteq> k) (cache_items_list c))"
proof -
  have inv: "distinct (map fst (cache_items_list c))" "distinct (map fst (map snd (cache_items_list c)))"
    using assms(1) by (simp_all add: lru_ok_def contents_def)
  obtain w where w: "(i, k, w) \<in> set (cache_items_list c)"
    using assms inv node_index_Some by (fastforce simp: lru_ok_def)
  then have "i < next_node c" using assms(1) by (force simp: lru_ok_def)
  with w show ?thesis
    by (force simp: erase_node_def filter_node_eq_filter_key [OF inv w])
qed

lemma lru_put_eq:
  assumes "lru_ok c"
  shows "lru_put k v c =
    (let d = lru_inserted k v c
     in if length (cache_items_map d) > max_size c
        then Inr (d\<lparr>cache_items_list := butlast (cache_items_list d),
                    cache_items_map := AList.delete (fst (snd (last (cache_items_list d)))) (cache_items_map d)\<rparr>)
        else Inr d)"
proof (cases "map_of (cache_items_map c) k")
  case None
  then have "k \<notin> fst ` set (contents c)"
    using lru_exists_contents [OF assms, of k] by (simp add: lru_exists_def)
  then have "filter (\<lambda>x. fst (snd x) \<noteq> k) (cache_items_list c) = cache_items_list c"
    by (force simp: contents_def filter_id_iff)
  with None show ?thesis
    by (simp add: lru_put_def lru_inserted_def Let_def lru_exists_def)
next
  case (Some i)
  then show ?thesis
    by (simp add: lru_put_def lru_inserted_def Let_def lru_exists_def erase_node_indexed [OF assms])
qed

lemma lru_inserted_inv:
  fixes c :: "('k, 'v) lru" and k :: 'k and v :: 'v
  assumes "lru_ok c"
  defines "d \<equiv> lru_inserted k v c"
  shows "distinct (map fst (cache_items_list d))"
    and "contents d = (k, v) # filter (\<lambda>p. fst p \<noteq> k) (contents c)"
    and "distinct (map fst (contents d))"
    and "umap_ok (cache_items_map d)"
    and "map_of (cache_items_map d) = map_of (node_index (cache_items_list d))"
    and "\<forall>i\<in>set (map fst (cache_items_list d)). i < next_node d"
    and "length (cache_items_map d) = length (cache_items_list d)"
proof -
  let ?xs = "cache_items_list c"
  have inv: "distinct (map fst ?xs)" "distinct (map fst (map snd ?xs))" "umap_ok (cache_items_map c)"
    "map_of (cache_items_map c) = map_of (node_index ?xs)"
    "\<forall>i\<in>set (map fst ?xs). i < next_node c"
    using assms(1) by (simp_all add: lru_ok_def contents_def)
  show d1: "distinct (map fst (cache_items_list d))"
    using inv(1,5) by (auto simp: d_def lru_inserted_def distinct_map_filter)
  show con: "contents d = (k, v) # filter (\<lambda>p. fst p \<noteq> k) (contents c)"
    by (simp add: d_def lru_inserted_def contents_def map_snd_filter_key)
  show d2: "distinct (map fst (contents d))"
    unfolding con using inv(2) by (auto simp: contents_def distinct_map_filter)
  show u: "umap_ok (cache_items_map d)"
    using inv(3) by (simp add: d_def lru_inserted_def umap_ok_update umap_ok_delete)
  have "map_of (cache_items_map d) = (map_of (cache_items_map c))(k \<mapsto> next_node c)"
    by (simp add: d_def lru_inserted_def update_conv' delete_conv' fun_eq_iff)
  also have "\<dots> = map_of (node_index (cache_items_list d))"
    by (simp add: d_def lru_inserted_def inv(4) node_index_filter)
  finally show m: "map_of (cache_items_map d) = map_of (node_index (cache_items_list d))" .
  show "\<forall>i\<in>set (map fst (cache_items_list d)). i < next_node d"
    using inv(5) by (auto simp: d_def lru_inserted_def)
  have "umap_ok (node_index (cache_items_list d))"
    using d2 by (simp add: umap_ok_def keys_node_index contents_def)
  then show "length (cache_items_map d) = length (cache_items_list d)"
    using u m by (metis umap_size length_map node_index_def)
qed

lemma map_of_node_index_butlast:
  assumes "distinct (map fst (map snd xs))" "xs \<noteq> []"
  shows "map_of (node_index (butlast xs)) = (map_of (node_index xs))(fst (snd (last xs)) := None)"
proof -
  obtain ys i k v where xs: "xs = ys @ [(i, k, v)]"
    using assms(2) by (metis append_butlast_last_id prod_cases3)
  have "distinct (map fst (node_index ys) @ [k])"
    using assms(1) by (simp add: xs keys_node_index)
  then have "map_of (node_index ys) k = None" by (auto simp: map_of_eq_None_iff)
  then show ?thesis
    by (auto simp: xs fun_eq_iff map_add_def split: option.splits)
qed

lemma distinct_map_butlast: "distinct (map f xs) \<Longrightarrow> distinct (map f (butlast xs))"
  by (metis distinct_butlast map_butlast)

text \<open>The refinement lemma of \<open>put\<close>: it never faults, keeps the invariant, and its effect on
  the recency list is \<open>spec_put\<close>.\<close>

lemma lru_put_refines:
  assumes "lru_ok c"
  shows "\<exists>c'. lru_put k v c = Inr c' \<and> lru_ok c' \<and> max_size c' = max_size c \<and>
              contents c' = spec_put (max_size c) k v (contents c)"
proof -
  define d where "d = lru_inserted k v c"
  note inv = lru_inserted_inv [OF assms, where k = k and v = v, folded d_def]
  have ms: "max_size d = max_size c" by (simp add: d_def lru_inserted_def)
  have len: "length (contents d) = length (cache_items_list d)" by (simp add: contents_def)
  have "length (contents d) \<le> Suc (length (contents c))" by (simp add: inv(2))
  then have bound: "length (cache_items_list d) \<le> Suc (max_size c)"
    using assms len by (simp add: lru_ok_def contents_def)
  have ne: "cache_items_list d \<noteq> []" by (simp add: d_def lru_inserted_def)
  show ?thesis
  proof (cases "length (cache_items_map d) > max_size c")
    case True
    let ?e = "d\<lparr>cache_items_list := butlast (cache_items_list d),
                cache_items_map := AList.delete (fst (snd (last (cache_items_list d)))) (cache_items_map d)\<rparr>"
    have put: "lru_put k v c = Inr ?e"
      using True by (simp add: lru_put_eq [OF assms] Let_def d_def [symmetric])
    have eq: "length (cache_items_list d) = Suc (max_size c)" using True inv(7) bound by simp
    have "contents ?e = butlast (contents d)" by (simp add: contents_def map_butlast)
    then have con: "contents ?e = spec_put (max_size c) k v (contents c)"
      using eq len by (simp add: spec_put_def inv(2) [symmetric] butlast_conv_take)
    have "map_of (cache_items_map ?e) = map_of (node_index (cache_items_list ?e))"
      using map_of_node_index_butlast [OF _ ne] inv(3,5) by (simp add: delete_conv' contents_def)
    then have "lru_ok ?e"
      using inv(1,3,4,6) eq ms
      by (auto simp: lru_ok_def contents_def umap_ok_delete distinct_map_butlast dest: in_set_butlastD)
    with put con ms show ?thesis by simp
  next
    case False
    then have "lru_put k v c = Inr d"
      by (simp add: lru_put_eq [OF assms] Let_def d_def [symmetric])
    moreover have "contents d = spec_put (max_size c) k v (contents c)"
      using False inv(2,7) len by (simp add: spec_put_def)
    moreover have "lru_ok d"
      using inv False ms by (simp add: lru_ok_def)
    ultimately show ?thesis using ms by simp
  qed
qed

text \<open>\<open>get\<close> moves the node to the front and returns its value; a missing key throws.\<close>

lemma find_node:
  assumes "distinct (map fst xs)" "(i, k, v) \<in> set xs"
  shows "find (\<lambda>x. fst x = i) xs = Some (i, k, v)"
  using assms by (induction xs) (auto simp: rev_image_eqI)

lemma map_of_contents_Some:
  "lru_ok c \<Longrightarrow> map_of (contents c) k = Some v \<longleftrightarrow> (k, v) \<in> set (contents c)"
  by (simp add: lru_ok_def map_of_eq_Some_iff)

lemma lru_get_refines:
  assumes "lru_ok c"
  shows "case map_of (contents c) k of
           None \<Rightarrow> lru_get k c = Inl Range_Error
         | Some v \<Rightarrow> \<exists>c'. lru_get k c = Inr (v, c') \<and> lru_ok c' \<and> max_size c' = max_size c \<and>
                          contents c' = (k, v) # filter (\<lambda>p. fst p \<noteq> k) (contents c)"
proof (cases "map_of (contents c) k")
  case None
  then have "\<not> lru_exists k c"
    using lru_exists_contents [OF assms] by (simp add: map_of_eq_None_iff)
  then show ?thesis using None by (simp add: lru_get_def lru_exists_def)
next
  case (Some v)
  let ?xs = "cache_items_list c"
  have inv: "distinct (map fst ?xs)" "distinct (map fst (map snd ?xs))"
    using assms by (simp_all add: lru_ok_def contents_def)
  obtain i where i: "(i, k, v) \<in> set ?xs"
    using Some map_of_contents_Some [OF assms] by (auto simp: contents_def)
  then have idx: "map_of (cache_items_map c) k = Some i"
    using assms node_index_Some [OF inv] by (auto simp: lru_ok_def)
  define l where "l = (i, k, v) # filter (\<lambda>x. fst (snd x) \<noteq> k) ?xs"
  have fil: "filter (\<lambda>x. fst (snd x) \<noteq> k) ?xs = filter (\<lambda>x. fst x \<noteq> i) ?xs"
    by (rule filter_node_eq_filter_key [OF inv i, symmetric])
  have get: "lru_get k c = Inr (v, c\<lparr>cache_items_list := l\<rparr>)"
    using idx by (simp add: l_def lru_get_def splice_front_def find_node [OF inv(1) i] fil)
  have con: "map snd l = (k, v) # filter (\<lambda>p. fst p \<noteq> k) (contents c)"
    by (simp add: l_def contents_def map_snd_filter_key)
  have "map_of (node_index l) = map_of (cache_items_map c)"
    using idx assms by (auto simp: l_def node_index_filter lru_ok_def)
  moreover have "length l \<le> length ?xs"
    using length_filter_less [OF i, of "\<lambda>x. fst x \<noteq> i"] by (simp add: l_def fil Suc_le_eq)
  moreover have "distinct (map fst l)"
    unfolding l_def fil using inv(1) by (auto simp: distinct_map_filter)
  moreover have "distinct (map fst (map snd l))"
    unfolding con using inv(2) by (auto simp: contents_def distinct_map_filter)
  moreover have "set l \<subseteq> set ?xs" using i by (auto simp: l_def)
  ultimately have "lru_ok (c\<lparr>cache_items_list := l\<rparr>)"
    using assms unfolding lru_ok_def contents_def by auto
  with get con Some show ?thesis by (simp add: contents_def)
qed

section \<open>The interface\<close>

locale recency_cache =
  fixes put :: "'k \<Rightarrow> 'v \<Rightarrow> 'c \<Rightarrow> 'c result"
    and present :: "'k \<Rightarrow> 'c \<Rightarrow> bool"
    and reset :: "'c \<Rightarrow> 'c"
    and entries :: "'c \<Rightarrow> ('k \<times> 'v) list"
    and cap :: "'c \<Rightarrow> nat"
    and ok :: "'c \<Rightarrow> bool"
  assumes put_law: "ok c \<Longrightarrow> \<exists>c'. put k v c = Inr c' \<and> ok c' \<and> cap c' = cap c \<and>
                      entries c' = spec_put (cap c) k v (entries c)"
    and present_law: "ok c \<Longrightarrow> present k c \<longleftrightarrow> k \<in> fst ` set (entries c)"
    and reset_law: "ok c \<Longrightarrow> ok (reset c) \<and> cap (reset c) = cap c \<and> entries (reset c) = []"
    and distinct_law: "ok c \<Longrightarrow> distinct (map fst (entries c)) \<and> length (entries c) \<le> cap c"
begin

lemma put_cases:
  assumes "ok c"
  obtains c' where "put k v c = Inr c'" "ok c'" "cap c' = cap c"
    "entries c' = spec_put (cap c) k v (entries c)"
  using put_law [OF assms] by blast

lemma put_ok: "ok c \<Longrightarrow> put k v c = Inr c' \<Longrightarrow> ok c' \<and> cap c' = cap c"
  using put_law [of c k v] by auto

lemma put_entries: "ok c \<Longrightarrow> put k v c = Inr c' \<Longrightarrow> entries c' = spec_put (cap c) k v (entries c)"
  using put_law [of c k v] by auto

lemma put_present: "ok c \<Longrightarrow> 0 < cap c \<Longrightarrow> put k v c = Inr c' \<Longrightarrow> present k c'"
  using put_ok [of c k v c'] put_entries [of c k v c']
  by (cases "cap c") (auto simp: present_law spec_put_def)

lemma put_total: "ok c \<Longrightarrow> \<exists>c'. put k v c = Inr c'"
  using put_law by blast

lemma reset_absent: "ok c \<Longrightarrow> \<not> present k (reset c)"
  using reset_law [of c] by (simp add: present_law)

lemma puts_total:
  assumes "ok c"
  shows "\<exists>c'. fold_r (\<lambda>(k, v). put k v) kvs c = Inr c' \<and> ok c' \<and> cap c' = cap c"
  using assms
proof (induction kvs arbitrary: c)
  case (Cons p kvs)
  obtain k v where [simp]: "p = (k, v)" by (cases p)
  obtain d where d: "put k v c = Inr d" "ok d" "cap d = cap c"
    using put_cases [OF Cons.prems] by metis
  then show ?case using Cons.IH [OF d(2)] by auto
qed auto

text \<open>
  A key survives puts of other keys as long as there are fewer distinct ones than the capacity:
  the entries ahead of it all carry keys of \<open>S\<close>.
\<close>

lemma put_keeps:
  assumes "ok c" "put k' w c = Inr c'" "k' \<in> S" "k \<notin> S" "finite S" "card S < cap c"
    and ahead: "entries c = pre @ (k, v) # post" "fst ` set pre \<subseteq> S"
  shows "\<exists>pre' post'. entries c' = pre' @ (k, v) # post' \<and> fst ` set pre' \<subseteq> S"
proof -
  let ?f = "filter (\<lambda>p. fst p \<noteq> k')"
  let ?pre = "(k', w) # ?f pre"
  have kk: "k \<noteq> k'" using assms(3,4) by auto
  have all: "fst ` set ?pre \<subseteq> S" using ahead(2) assms(3) by auto
  have "distinct (map fst ?pre)"
    using distinct_law [OF assms(1)] ahead(1) by (auto simp: distinct_map_filter)
  then have "length ?pre = card (fst ` set ?pre)"
    by (metis distinct_card length_map list.set_map)
  also have "\<dots> \<le> card S" using all assms(5) by (rule card_mono [rotated])
  finally have len: "length ?pre < cap c" using assms(6) by simp
  have "entries c' = take (cap c) (?pre @ (k, v) # ?f post)"
    using put_entries [OF assms(1,2)] kk by (simp add: spec_put_def ahead(1))
  also have "\<dots> = ?pre @ (k, v) # take (cap c - length ?pre - 1) (?f post)"
    using take_append_Cons [OF len] by simp
  finally show ?thesis using all by blast
qed

lemma puts_keep_ahead:
  assumes "ok c" "fold_r (\<lambda>(k, v). put k v) kvs c = Inr c'"
    "fst ` set kvs \<subseteq> S" "k \<notin> S" "finite S" "card S < cap c"
    "entries c = pre @ (k, v) # post" "fst ` set pre \<subseteq> S"
  shows "ok c' \<and> (k, v) \<in> set (entries c')"
  using assms
proof (induction kvs arbitrary: c pre post)
  case Nil
  then show ?case by auto
next
  case (Cons p kvs)
  obtain k' w where [simp]: "p = (k', w)" by (cases p)
  obtain d where d: "put k' w c = Inr d" "fold_r (\<lambda>(k, v). put k v) kvs d = Inr c'"
    using Cons.prems(2) by (auto simp: cpp_simps)
  have d2: "ok d" "cap d = cap c" using put_ok [OF Cons.prems(1) d(1)] by auto
  have "k' \<in> S" using Cons.prems(3) by simp
  then obtain pre' post' where pp: "entries d = pre' @ (k, v) # post'" "fst ` set pre' \<subseteq> S"
    using put_keeps [OF Cons.prems(1) d(1) _ Cons.prems(4,5,6,7,8)] by blast
  show ?case
    using Cons.IH [OF d2(1) d(2) _ Cons.prems(4,5) _ pp] Cons.prems(3,6) d2(2) by simp
qed

lemma put_survives:
  assumes "ok c" "put k v c = Inr d" "fold_r (\<lambda>(k, v). put k v) kvs d = Inr c'"
    "k \<notin> fst ` set kvs" "card (fst ` set kvs) < cap c"
  shows "ok c' \<and> (k, v) \<in> set (entries c')"
proof -
  have d: "ok d" "cap d = cap c" using put_ok [OF assms(1,2)] by auto
  have "entries d = [] @ (k, v) # take (cap c - 1) (filter (\<lambda>p. fst p \<noteq> k) (entries c))"
    using put_entries [OF assms(1,2)] assms(5) by (cases "cap c") (simp_all add: spec_put_def)
  then show ?thesis
    using puts_keep_ahead [OF d(1) assms(3) subset_refl assms(4), of "[]"] assms(5) d(2) by simp
qed

text \<open>While all keys come from a set that fits, nothing is evicted.\<close>

lemma put_no_evict:
  assumes "ok c" "put k v c = Inr c'" "insert k (fst ` set (entries c)) \<subseteq> S" "finite S" "card S \<le> cap c"
  shows "fst ` set (entries c') = insert k (fst ` set (entries c))"
proof -
  let ?xs = "(k, v) # filter (\<lambda>p. fst p \<noteq> k) (entries c)"
  have "distinct (map fst ?xs)" using distinct_law [OF assms(1)] by (auto simp: distinct_map_filter)
  then have "length ?xs = card (fst ` set ?xs)" by (metis distinct_card length_map list.set_map)
  also have "\<dots> \<le> card S" using assms(3,4) by (intro card_mono) auto
  finally have "length ?xs \<le> cap c" using assms(5) by simp
  then have "entries c' = ?xs" using put_entries [OF assms(1,2)] by (simp add: spec_put_def)
  then show ?thesis by force
qed

text \<open>Two puts in a row: the earlier key is still there when the capacity is at least two.\<close>

lemma put_put_present:
  assumes "ok c" "2 \<le> cap c" "put k v c = Inr d" "put k' v' d = Inr e"
  shows "present k e"
proof (cases "k = k'")
  case True
  have d: "ok d" "cap d = cap c" using put_ok [OF assms(1,3)] by auto
  show ?thesis using put_present [OF d(1) _ assms(4)] d(2) assms(2) True by simp
next
  case False
  have "ok e \<and> (k, v) \<in> set (entries e)"
    by (rule put_survives [OF assms(1,3), of "[(k', v')]"]) (use assms(2,4) False in auto)
  then show ?thesis by (force simp: present_law)
qed

end

interpretation lru: recency_cache lru_put lru_exists lru_clear contents max_size lru_ok
proof unfold_locales
  fix c :: "('k, 'v) lru"
  assume ok: "lru_ok c"
  show "distinct (map fst (contents c)) \<and> length (contents c) \<le> max_size c"
    using ok by (simp add: lru_ok_def contents_def)
  show "lru_ok (lru_clear c) \<and> max_size (lru_clear c) = max_size c \<and> contents (lru_clear c) = []"
    using lru_ok_clear [OF ok] by (simp add: lru_clear_def contents_def)
qed (simp_all add: lru_put_refines lru_exists_contents)

section \<open>Properties\<close>

text \<open>A client's calls; a \<open>get\<close> of an absent key throws before it touches the cache.\<close>

datatype ('k, 'v) lru_op = Lru_Put 'k 'v | Lru_Get 'k | Lru_Clear

fun lru_step :: "('k, 'v) lru_op \<Rightarrow> ('k, 'v) lru \<Rightarrow> ('k, 'v) lru result" where
  "lru_step (Lru_Put k v) c = lru_put k v c"
| "lru_step (Lru_Get k) c =
     (if lru_get k c = Inl Range_Error then Inr c else bind_r (lru_get k c) (\<lambda>(v, c'). Inr c'))"
| "lru_step Lru_Clear c = Inr (lru_clear c)"

fun spec_step :: "nat \<Rightarrow> ('k, 'v) lru_op \<Rightarrow> ('k \<times> 'v) list \<Rightarrow> ('k \<times> 'v) list" where
  "spec_step n (Lru_Put k v) xs = spec_put n k v xs"
| "spec_step n (Lru_Get k) xs =
     (case map_of xs k of None \<Rightarrow> xs | Some v \<Rightarrow> (k, v) # filter (\<lambda>p. fst p \<noteq> k) xs)"
| "spec_step n Lru_Clear xs = []"

lemma lru_step_refines:
  assumes "lru_ok c"
  shows "\<exists>c'. lru_step a c = Inr c' \<and> lru_ok c' \<and> max_size c' = max_size c \<and>
              contents c' = spec_step (max_size c) a (contents c)"
proof (cases a)
  case (Lru_Put k v)
  then show ?thesis using lru_put_refines [OF assms] by simp
next
  case (Lru_Get k)
  then show ?thesis using lru_get_refines [OF assms, of k] assms by (auto split: option.splits)
next
  case Lru_Clear
  then show ?thesis using lru.reset_law [OF assms] by simp
qed

lemma lru_run_refines:
  "lru_ok c \<Longrightarrow> \<exists>c'. fold_r lru_step as c = Inr c' \<and> lru_ok c' \<and> max_size c' = max_size c \<and>
              contents c' = fold (spec_step (max_size c)) as (contents c)"
proof (induction as arbitrary: c)
  case (Cons a as)
  obtain d where d: "lru_step a c = Inr d" "lru_ok d" "max_size d = max_size c"
    "contents d = spec_step (max_size c) a (contents c)"
    using lru_step_refines [OF Cons.prems] by blast
  show ?case using Cons.IH [OF d(2)] d by simp
qed simp

text \<open>C4: the cache refines its specification over every history: no sequence of \<open>put\<close>, \<open>get\<close> and
  \<open>clear\<close> on a fresh cache follows a stale iterator, the recency list it ends in is that of the
  plain list semantics, and it never holds more than \<open>max_size\<close> entries.\<close>

theorem lru_history_refines:
  fixes as :: "('k, 'v) lru_op list"
  shows "\<exists>c. fold_r lru_step as (lru_new n) = Inr c \<and>
             contents c = fold (spec_step n) as [] \<and> lru_size c \<le> n"
proof -
  obtain c where c: "fold_r lru_step as (lru_new n) = Inr c" "lru_ok c" "max_size c = n"
    "contents c = fold (spec_step n) as []"
    using lru_run_refines [OF lru_ok_new, of as n] by (auto simp: lru_new_def contents_def)
  then have "lru_size c \<le> n"
    using lru.distinct_law [OF c(2)] by (simp add: lru_size_contents)
  with c show ?thesis by blast
qed

text \<open>A value just put is read back by \<open>get\<close>, as long as fewer than \<open>max_size\<close> distinct other
  keys were put in between.\<close>

lemma lru_get_after_puts:
  assumes "lru_ok c" "lru_put k v c = Inr d" "fold_r (\<lambda>(k, v). lru_put k v) kvs d = Inr e"
    and "k \<notin> fst ` set kvs" "card (fst ` set kvs) < max_size c"
  shows "\<exists>e'. lru_get k e = Inr (v, e')"
proof -
  have "lru_ok e" "(k, v) \<in> set (contents e)"
    using lru.put_survives [OF assms] by auto
  then show ?thesis
    using lru_get_refines [of e k] map_of_contents_Some [of e k v] by auto
qed

lemma lru_get_after_puts_witness:
  "\<exists>d e e'. lru_put ''a'' (1::nat) (lru_new 2) = Inr d \<and>
     fold_r (\<lambda>(k, v). lru_put k v) [(''b'', 2), (''b'', 3)] d = Inr e \<and> lru_get ''a'' e = Inr (1, e')"
proof -
  obtain d where d: "lru_put ''a'' (1::nat) (lru_new 2) = Inr d" "lru_ok d"
    using lru_put_refines [OF lru_ok_new, of "''a''" "1::nat" 2] by blast
  obtain e where e: "fold_r (\<lambda>(k, v). lru_put k v) [(''b'', 2), (''b'', 3)] d = Inr e"
    using lru.puts_total [OF d(2)] by blast
  show ?thesis
    using d(1) e lru_get_after_puts [OF lru_ok_new d(1) e] by (auto simp: lru_new_def)
qed

end
