(* ===== verification/Topology_Listener.thy ===== *)
theory Topology_Listener
  imports Topology_Metrics Lru_Cache
begin

text \<open>
  \<open>RPCAnalysisListener\<close>, the listener that turns spans into topology observations and registers
  services and their relations (rpc_analysis_listener.cc), and the span dispatch of \<open>Processor\<close>
  (processor.cc) for the one listener that is registered. Both under app/source/intercept/opentelemetry/trace/topology. The recency caches are those of
  \<open>Lru_Cache\<close>, the directory is \<open>NameControl\<close>'s; an end-of-map iterator or a moved-from pointer
  that is dereferenced is a fault.
\<close>

record 'a listener =
  enabled :: bool
  callingInTraffic :: "traffic list"
  callingOutTraffic :: "traffic list"
  inLruCache :: "(64 word, bool) lru"
  outLruCache :: "(64 word, bool) lru"
  serviceMetrics :: "'a service_aggregator"
  relationMetrics :: "'a relation_aggregator"
  sink :: "'a sink"

definition listener_new :: "bool \<Rightarrow> 'a sink \<Rightarrow> 'a listener" where
  "listener_new en s =
     \<lparr>enabled = en, callingInTraffic = [], callingOutTraffic = [],
      inLruCache = lru_new 500, outLruCache = lru_new 500,
      serviceMetrics = \<lparr>sv_cache = [], sv_max = 500\<rparr>, relationMetrics = \<lparr>rl_cache = [], rl_max = 500\<rparr>,
      sink = s\<rparr>"

section \<open>parseEntry\<close>

text \<open>An \<open>int\<close> assigned from the 64-bit attribute keeps its low 32 bits.\<close>

definition str_or :: "'d attr_map \<Rightarrow> string \<Rightarrow> string \<Rightarrow> string" where
  "str_or m k d = (case m k of None \<Rightarrow> d | Some v \<Rightarrow> string_value v)"

definition int_or :: "'d attr_map \<Rightarrow> string \<Rightarrow> 32 word \<Rightarrow> 32 word" where
  "int_or m k d = (case m k of None \<Rightarrow> d | Some v \<Rightarrow> ucast (int_value v))"

definition is_mq :: "'a topo_env \<Rightarrow> 'd attr_map \<Rightarrow> bool" where
  "is_mq E m = (case m AttributeLayer of None \<Rightarrow> False
                 | Some v \<Rightarrow> int_value v = scast (span_layer_code E SL_MQ))"

text \<open>The observation as it stands before the links are looked at.\<close>

definition entry_base :: "'d span \<Rightarrow> 'd attr_map \<Rightarrow> traffic" where
  "entry_base span spanAttr =
     traffic_new\<lparr>destLayer := int_or spanAttr AttributeLayer 0,
                 hasError := status span \<noteq> Status_Ok,
                 latency := end_nanos span - start_nanos span,
                 destServiceInstanceName := str_or spanAttr AttributeServiceInstanceID [],
                 destServiceName := str_or spanAttr AttributeServiceName [],
                 componentId := int_or spanAttr AttributeComponentId 0\<rparr>"

definition entry_link :: "'a topo_env \<Rightarrow> 'd span \<Rightarrow> 'd attr_map \<Rightarrow> 'd attr_map \<Rightarrow> traffic \<Rightarrow> traffic" where
  "entry_link E span spanAttr attr b =
     (let b1 = b\<lparr>sourceEndpointName := str_or attr AttributeParentEndpoint UserEndpointName\<rparr>;
          b2 = (if is_mq E spanAttr
                then (case attr AttributeNetworkAddressUsedAtPeer of
                        None \<Rightarrow> b1
                      | Some v \<Rightarrow> b1\<lparr>sourceServiceName := string_value v,
                                     sourceServiceInstanceName := string_value v\<rparr>)
                     \<lparr>sourceLayer := layer_code L_MQ\<rparr>
                else b1\<lparr>sourceServiceName := str_or attr AttributeParentService (sourceServiceName b1),
                        sourceServiceInstanceName :=
                          str_or attr AttributeParentInstance (sourceServiceInstanceName b1),
                        sourceLayer := layer_code L_GENERAL\<rparr>)
      in b2\<lparr>destEndpointName := span_name span\<rparr>)"

text \<open>The loop over the links: \<open>std::move(sourceBuilder)\<close> leaves a null pointer for the next round.\<close>

fun parse_links ::
  "'a topo_env \<Rightarrow> name_control \<Rightarrow> 'd span \<Rightarrow> 'd attr_map \<Rightarrow> 'd attributes list \<Rightarrow> traffic option \<Rightarrow>
     traffic list \<Rightarrow> traffic list result" where
  "parse_links E nc span spanAttr [] sourceBuilder acc = Inr acc"
| "parse_links E nc span spanAttr (link # rest) sourceBuilder acc =
     (let attr = link_attr_to_map link
      in case sourceBuilder of
           None \<Rightarrow> Inl Null_Deref
         | Some b \<Rightarrow>
             let b1 = entry_link E span spanAttr attr b
             in bind_r (sourceNameToKubernetesName nc (sourceServiceName b1) (sourceServiceInstanceName b1) b1)
                  (\<lambda>b2. parse_links E nc span spanAttr rest None (acc @ [b2])))"

definition entry_mq :: "'d span \<Rightarrow> 'd attr_map \<Rightarrow> traffic \<Rightarrow> traffic" where
  "entry_mq span spanAttr b =
     (case spanAttr AttributePeer of
        None \<Rightarrow> b
      | Some v \<Rightarrow> b\<lparr>sourceServiceName := string_value v, sourceServiceInstanceName := string_value v\<rparr>)
     \<lparr>destEndpointName := span_name span, sourceLayer := layer_code L_MQ\<rparr>"

definition entry_user :: "'d span \<Rightarrow> traffic \<Rightarrow> traffic" where
  "entry_user span b =
     b\<lparr>sourceServiceName := UserInstanceName, sourceServiceInstanceName := UserServiceName,
       sourceEndpointName := UserEndpointName, sourceLayer := 0, destEndpointName := span_name span\<rparr>"

definition parseEntry ::
  "'a topo_env \<Rightarrow> name_control \<Rightarrow> 'd span \<Rightarrow> 'd attr_map \<Rightarrow> 'a listener \<Rightarrow> 'a listener result" where
  "parseEntry E nc span spanAttr l =
     (if \<not> enabled l then Inr l
      else
        let b = entry_base span spanAttr in
        bind_r (destNameToKubernetesName nc (destServiceName b) (destServiceInstanceName b) b) (\<lambda>b1.
        let b2 = b1\<lparr>detectPoint := DP_SERVER\<rparr> in
        bind_r
          (if links span \<noteq> [] then parse_links E nc span spanAttr (links span) (Some b2) (callingInTraffic l)
           else
             let b3 = (if is_mq E spanAttr then entry_mq span spanAttr b2 else entry_user span b2)
             in bind_r (sourceNameToKubernetesName nc (sourceServiceName b3) (sourceServiceInstanceName b3) b3)
                  (\<lambda>b4. Inr (callingInTraffic l @ [b4])))
          (\<lambda>ts. Inr (l\<lparr>callingInTraffic := ts\<rparr>))))"

section \<open>parseExit\<close>

definition parseExit ::
  "'a topo_env \<Rightarrow> name_control \<Rightarrow> 'd span \<Rightarrow> 'd attr_map \<Rightarrow> 'a listener \<Rightarrow> 'a listener result" where
  "parseExit E nc span attr l =
     (if \<not> enabled l then Inr l
      else case attr AttributePeer of
        None \<Rightarrow> Inr l
      | Some peer \<Rightarrow>
          let b = traffic_new\<lparr>sourceServiceName := str_or attr AttributeServiceName [],
                              sourceServiceInstanceName := str_or attr AttributeServiceInstanceID [],
                              componentId := int_or attr AttributeComponentId 0,
                              detectPoint := DP_CLIENT,
                              sourceLayer := int_or attr AttributeLayer 0,
                              destServiceName := string_value peer,
                              destServiceInstanceName := string_value peer\<rparr>
          in (case attr AttributeLayer of
                None \<Rightarrow> Inl End_Deref
              | Some layer \<Rightarrow>
                  let b1 = b\<lparr>destLayer := identifyRemoteServiceLayer E (ucast (int_value layer))\<rparr> in
                  bind_r (sourceNameToKubernetesName nc (sourceServiceName b1) (sourceServiceInstanceName b1) b1) (\<lambda>b2.
                  bind_r (destNameToKubernetesName nc (destServiceName b2) (destServiceInstanceName b2) b2) (\<lambda>b3.
                  Inr (l\<lparr>callingOutTraffic := callingOutTraffic l @ [b3]\<rparr>)))))"

definition parseLocal :: "'d span \<Rightarrow> 'd attr_map \<Rightarrow> 'a listener \<Rightarrow> 'a listener result" where
  "parseLocal span attr l = Inr l"

section \<open>build, flush and clear\<close>

text \<open>One round of the loop over \<open>callingInTraffic\<close>. The second \<open>exists\<close> asks for the id of the
  \<open>service\<close> message, which the sink has swapped out when it accepted the registration.\<close>

definition build_in :: "'a topo_env \<Rightarrow> traffic \<Rightarrow> 'a listener \<Rightarrow> 'a listener result" where
  "build_in E source l =
     (let (service, source1) = toService E source;
          exist = lru_exists (sm_id service) (inLruCache l)
      in bind_r (lru_put (sm_id service) True (inLruCache l)) (\<lambda>c1.
         let (service1, sink1) = (if \<not> exist then registerService service (sink l) else (service, sink l));
             (relation, source2) = toServiceRelation E source1
         in bind_r (lru_put (rm_id relation) True c1) (\<lambda>c2.
            let exist1 = lru_exists (sm_id service1) c2;
                sink2 = (if \<not> exist1 then snd (registerServiceRelation relation sink1) else sink1);
                (sg, source3) = service_stats E source2 (serviceMetrics l);
                rg = relation_stats E source3 (relationMetrics l)
            in Inr (l\<lparr>inLruCache := c2, sink := sink2, serviceMetrics := sg, relationMetrics := rg\<rparr>))))"

text \<open>The loop over \<open>callingOutTraffic\<close>: both aggregators count, or the relation is registered once.\<close>

definition count_out :: "'a topo_env \<Rightarrow> traffic \<Rightarrow> 'a listener \<Rightarrow> 'a listener" where
  "count_out E out l =
     (let (sg, out1) = service_stats E out (serviceMetrics l)
      in l\<lparr>serviceMetrics := sg, relationMetrics := relation_stats E out1 (relationMetrics l)\<rparr>)"

definition register_out :: "relation_msg \<Rightarrow> 'a listener \<Rightarrow> 'a listener result" where
  "register_out relation l =
     (let exist = lru_exists (rm_id relation) (outLruCache l)
      in bind_r (lru_put (rm_id relation) True (outLruCache l)) (\<lambda>c1.
         let l1 = l\<lparr>outLruCache := c1\<rparr>
         in if exist then Inr l1
            else Inr (l1\<lparr>sink := snd (registerServiceRelation relation (sink l1))\<rparr>)))"

definition build_out :: "'a topo_env \<Rightarrow> name_control \<Rightarrow> traffic \<Rightarrow> 'a listener \<Rightarrow> 'a listener result" where
  "build_out E nc out l =
     (let (relation, out1) = toServiceRelation E out
      in bind_r
           (if rm_dest_layer relation \<noteq> layer_code L_UNDEFINED \<and> rm_dest_layer relation \<noteq> layer_code L_GENERAL
            then Inr (count_out E out1 l)
            else bind_r (find_service_name nc (destServiceName out1)) (\<lambda>pairs.
                   Inr (if fst pairs = [] then count_out E out1 l else l)))
           (register_out relation))"

definition build :: "'a topo_env \<Rightarrow> name_control \<Rightarrow> 'a listener \<Rightarrow> 'a listener result" where
  "build E nc l =
     bind_r (fold_r (build_in E) (callingInTraffic l) l) (\<lambda>l1.
     let l2 = l1\<lparr>callingInTraffic := []\<rparr> in
     bind_r (fold_r (build_out E nc) (callingOutTraffic l2) l2) (\<lambda>l3.
     Inr (l3\<lparr>callingOutTraffic := []\<rparr>)))"

definition flush :: "'a topo_env \<Rightarrow> (nat \<Rightarrow> 64 word) \<Rightarrow> 'a listener \<Rightarrow> 'a listener" where
  "flush E clock l =
     (let (sg, s1) = service_send E clock (serviceMetrics l) (sink l);
          (rg, s2) = relation_send E clock (relationMetrics l) s1
      in l\<lparr>serviceMetrics := sg, relationMetrics := rg, sink := s2\<rparr>)"

definition clear :: "'a listener \<Rightarrow> 'a listener" where
  "clear l = l\<lparr>inLruCache := lru_clear (inLruCache l), outLruCache := lru_clear (outLruCache l)\<rparr>"

section \<open>Processor\<close>

text \<open>The listener list of the processor holds the one RPC listener. An event whose data pointer is
  null is skipped.\<close>

definition intercept_event ::
  "'a topo_env \<Rightarrow> name_control \<Rightarrow> 'd recordable option \<Rightarrow> 'a listener \<Rightarrow> 'a listener result" where
  "intercept_event E nc event l =
     (case event of
        None \<Rightarrow> Inr l
      | Some r \<Rightarrow>
          let spanAttr = load_resource (attr_to_map (rec_span r)) (resource r)
          in if span_kind (rec_span r) = Kind_Server then parseEntry E nc (rec_span r) spanAttr l
             else if span_kind (rec_span r) = Kind_Client then parseExit E nc (rec_span r) spanAttr l
             else parseLocal (rec_span r) spanAttr l)"

definition intercept ::
  "'a topo_env \<Rightarrow> name_control \<Rightarrow> 'd recordable option list \<Rightarrow> 'a listener \<Rightarrow> 'a listener result" where
  "intercept E nc events l =
     (if events = [] then Inr l
      else bind_r (fold_r (intercept_event E nc) events l) (build E nc))"

definition processor_new :: "'a listener" where
  "processor_new = listener_new True \<lparr>running_requests = 0, max_concurrent_requests = 1000, calls = []\<rparr>"

section \<open>The listener invariant\<close>

definition sink_ok :: "'a sink \<Rightarrow> bool" where
  "sink_ok s \<longleftrightarrow> running_requests s \<le> Suc (max_concurrent_requests s)"

definition listener_ok :: "'a listener \<Rightarrow> bool" where
  "listener_ok l \<longleftrightarrow>
     lru_ok (inLruCache l) \<and> max_size (inLruCache l) = 500 \<and>
     lru_ok (outLruCache l) \<and> max_size (outLruCache l) = 500 \<and>
     sv_max (serviceMetrics l) = 500 \<and> smap_ok (sv_cache (serviceMetrics l)) \<and>
     length (sv_cache (serviceMetrics l)) \<le> 501 \<and>
     rl_max (relationMetrics l) = 500 \<and> smap_ok (rl_cache (relationMetrics l)) \<and>
     length (rl_cache (relationMetrics l)) \<le> 501 \<and>
     sink_ok (sink l)"

text \<open>The directory answers every query.\<close>

definition directory_total :: "name_control \<Rightarrow> bool" where
  "directory_total nc \<longleftrightarrow> (\<forall>k. \<exists>r. find_service_name nc k = Inr r)"

lemma listener_ok_new [inv_intros]: "listener_ok processor_new"
  by (simp add: listener_ok_def processor_new_def listener_new_def lru_ok_new sink_ok_def) (simp add: lru_new_def)

lemma sink_ok_register [inv_intros]:
  "sink_ok s \<Longrightarrow> sink_ok (snd (registerService m s))"
  "sink_ok s \<Longrightarrow> sink_ok (snd (registerServiceRelation r s))"
  "sink_ok s \<Longrightarrow> sink_ok (snd (submit mk ms s))"
  "sink_ok s \<Longrightarrow> sink_ok (sink_on_done s)"
  by (auto simp: sink_ok_def registerService_def registerServiceRelation_def submit_def sink_on_done_def)

lemma sink_ok_send_loop [inv_intros]: "sink_ok s \<Longrightarrow> sink_ok (send_loop (submit mk) stamp n i req rest s)"
proof (induction rest arbitrary: i req s)
  case (Cons x rest)
  obtain k m where x: "x = (k, m)" by (cases x)
  have "sink_ok (snd (submit mk r s))" for r by (rule sink_ok_register) (rule Cons.prems)
  then show ?case using Cons by (simp add: x case_prod_beta Let_def)
qed simp

lemma sourceName_total: "directory_total nc \<Longrightarrow> \<exists>t'. sourceNameToKubernetesName nc n i t = Inr t'"
  unfolding sourceNameToKubernetesName_def directory_total_def by (rule name_to_kubernetes_total) blast

lemma destName_total: "directory_total nc \<Longrightarrow> \<exists>t'. destNameToKubernetesName nc n i t = Inr t'"
  unfolding destNameToKubernetesName_def directory_total_def by (rule name_to_kubernetes_total) blast

lemma service_stats_cache:
  "sv_cache (fst (service_stats E b g)) = service_cache_stats E (sv_max g) b (sv_cache g)"
  "sv_max (fst (service_stats E b g)) = sv_max g"
  by (auto simp: service_cache_stats_def service_stats_def case_prod_beta Let_def)

lemma relation_stats_cache:
  "rl_cache (relation_stats E b g) = relation_cache_stats E (rl_max g) b (rl_cache g)"
  "rl_max (relation_stats E b g) = rl_max g"
  by (auto simp: relation_cache_stats_def relation_stats_def)

lemma metrics_ok:
  "sv_max g = 500 \<Longrightarrow> smap_ok (sv_cache g) \<Longrightarrow> length (sv_cache g) \<le> 501 \<Longrightarrow>
     smap_ok (sv_cache (fst (service_stats E b g))) \<and> length (sv_cache (fst (service_stats E b g))) \<le> 501 \<and>
     sv_max (fst (service_stats E b g)) = 500"
  "rl_max h = 500 \<Longrightarrow> smap_ok (rl_cache h) \<Longrightarrow> length (rl_cache h) \<le> 501 \<Longrightarrow>
     smap_ok (rl_cache (relation_stats E b h)) \<and> length (rl_cache (relation_stats E b h)) \<le> 501 \<and>
     rl_max (relation_stats E b h) = 500"
  using service_requests.stats_ok [of "sv_cache g" E 500 b] service_requests.stats_bound [of "sv_cache g" 500 E b]
    relation_requests.stats_ok [of "rl_cache h" E 500 b] relation_requests.stats_bound [of "rl_cache h" 500 E b]
  by (simp_all add: service_stats_cache relation_stats_cache)

lemma build_in_ok:
  assumes "listener_ok l"
  shows "\<exists>l'. build_in E source l = Inr l' \<and> listener_ok l'"
proof -
  obtain service source1 where s: "toService E source = (service, source1)" by (cases "toService E source")
  obtain relation source2 where r: "toServiceRelation E source1 = (relation, source2)"
    by (cases "toServiceRelation E source1")
  obtain c1 where c1: "lru_put (sm_id service) True (inLruCache l) = Inr c1" "lru_ok c1" "max_size c1 = 500"
    using lru_put_refines [of "inLruCache l" "sm_id service" True] assms by (auto simp: listener_ok_def)
  obtain c2 where c2: "lru_put (rm_id relation) True c1 = Inr c2" "lru_ok c2" "max_size c2 = 500"
    using lru_put_refines [OF c1(2), of "rm_id relation" True] c1(3) by auto
  show ?thesis
    using assms c1 c2
    by (auto simp: build_in_def s r case_prod_beta Let_def listener_ok_def metrics_ok sink_ok_register)
qed

lemma count_out_ok:
  "listener_ok l \<Longrightarrow> listener_ok (count_out E b l) \<and> callingInTraffic (count_out E b l) = callingInTraffic l"
  by (auto simp: count_out_def case_prod_beta listener_ok_def metrics_ok)

lemma register_out_ok:
  assumes "listener_ok l"
  shows "\<exists>l'. register_out r l = Inr l' \<and> listener_ok l' \<and> callingInTraffic l' = callingInTraffic l"
proof -
  obtain c where "lru_put (rm_id r) True (outLruCache l) = Inr c" "lru_ok c" "max_size c = 500"
    using lru_put_refines [of "outLruCache l" "rm_id r" True] assms by (auto simp: listener_ok_def)
  then show ?thesis using assms by (auto simp: register_out_def Let_def listener_ok_def sink_ok_register)
qed

lemma build_out_ok:
  assumes "listener_ok l" "directory_total nc"
  shows "\<exists>l'. build_out E nc out l = Inr l' \<and> listener_ok l' \<and> callingInTraffic l' = callingInTraffic l"
proof -
  obtain relation out1 where r: "toServiceRelation E out = (relation, out1)"
    by (cases "toServiceRelation E out")
  obtain p where p: "find_service_name nc (destServiceName out1) = Inr p"
    using assms(2) unfolding directory_total_def by blast
  note c = count_out_ok [OF assms(1), of E out1]
  show ?thesis
    using register_out_ok [OF assms(1), of relation] register_out_ok [OF conjunct1 [OF c], of relation] c
    by (auto simp: build_out_def r p)
qed

lemma fold_ok:
  assumes "\<And>x s. P s \<Longrightarrow> \<exists>s'. f x s = Inr s' \<and> P s'" "P s"
  shows "\<exists>s'. fold_r f xs s = Inr s' \<and> P s'"
  using assms(2)
proof (induction xs arbitrary: s)
  case (Cons x xs)
  obtain t where "f x s = Inr t" "P t" using assms(1) [OF Cons.prems] by blast
  then show ?case using Cons.IH by simp
qed simp

lemma build_ok:
  assumes "listener_ok l" "directory_total nc"
  shows "\<exists>l'. build E nc l = Inr l' \<and> listener_ok l' \<and> callingInTraffic l' = [] \<and> callingOutTraffic l' = []"
proof -
  obtain l1 where l1: "fold_r (build_in E) (callingInTraffic l) l = Inr l1" "listener_ok l1"
    using fold_ok [of listener_ok "build_in E", OF build_in_ok assms(1)] by blast
  let ?l2 = "l1\<lparr>callingInTraffic := []\<rparr>"
  have l2: "listener_ok ?l2 \<and> callingInTraffic ?l2 = []" using l1(2) by (simp add: listener_ok_def)
  obtain l3 where "fold_r (build_out E nc) (callingOutTraffic ?l2) ?l2 = Inr l3"
    "listener_ok l3" "callingInTraffic l3 = []"
    using fold_ok [of "\<lambda>l. listener_ok l \<and> callingInTraffic l = []" "build_out E nc", OF _ l2]
      build_out_ok [OF _ assms(2)] by metis
  then show ?thesis using l1(1) by (simp add: build_def listener_ok_def)
qed

text \<open>The spans the parsers can handle.\<close>

definition parsable :: "'d recordable option \<Rightarrow> bool" where
  "parsable event \<longleftrightarrow>
     (case event of None \<Rightarrow> True
      | Some r \<Rightarrow>
          (span_kind (rec_span r) = Kind_Server \<longrightarrow> length (links (rec_span r)) \<le> 1) \<and>
          (span_kind (rec_span r) = Kind_Client \<longrightarrow>
             (let m = load_resource (attr_to_map (rec_span r)) (resource r)
              in m AttributePeer \<noteq> None \<longrightarrow> m AttributeLayer \<noteq> None)))"

lemma parse_links_one:
  assumes "directory_total nc" "length ls \<le> 1"
  shows "\<exists>ts. parse_links E nc span m ls (Some b) acc = Inr ts"
proof (cases ls)
  case (Cons link rest)
  let ?b = "entry_link E span m (link_attr_to_map link) b"
  obtain t where "sourceNameToKubernetesName nc (sourceServiceName ?b) (sourceServiceInstanceName ?b) ?b = Inr t"
    using sourceName_total [OF assms(1)] by blast
  then show ?thesis using assms(2) Cons by simp
qed simp

lemma parseEntry_ok:
  assumes "listener_ok l" "directory_total nc" "length (links span) \<le> 1"
  shows "\<exists>l'. parseEntry E nc span m l = Inr l' \<and> listener_ok l'"
proof -
  let ?b = "entry_base span m"
  obtain t where t: "destNameToKubernetesName nc (destServiceName ?b) (destServiceInstanceName ?b) ?b = Inr t"
    using destName_total [OF assms(2)] by blast
  let ?b2 = "t\<lparr>detectPoint := DP_SERVER\<rparr>"
  let ?b3 = "if is_mq E m then entry_mq span m ?b2 else entry_user span ?b2"
  obtain ts where ts: "parse_links E nc span m (links span) (Some ?b2) (callingInTraffic l) = Inr ts"
    using parse_links_one [OF assms(2,3)] by blast
  obtain u where u: "sourceNameToKubernetesName nc (sourceServiceName ?b3) (sourceServiceInstanceName ?b3) ?b3 = Inr u"
    using sourceName_total [OF assms(2)] by blast
  show ?thesis
    using assms(1) ts u by (simp add: parseEntry_def Let_def t listener_ok_def)
qed

lemma parseExit_ok:
  assumes "listener_ok l" "directory_total nc" "m AttributePeer \<noteq> None \<longrightarrow> m AttributeLayer \<noteq> None"
  shows "\<exists>l'. parseExit E nc span m l = Inr l' \<and> listener_ok l'"
proof (cases "m AttributePeer")
  case None
  then show ?thesis using assms(1) by (simp add: parseExit_def)
next
  case (Some peer)
  then obtain v where v: "m AttributeLayer = Some v" using assms(3) by auto
  have "\<exists>t'. bind_r (sourceNameToKubernetesName nc n i t) (\<lambda>b2.
      bind_r (destNameToKubernetesName nc (destServiceName b2) (destServiceInstanceName b2) b2) (\<lambda>b3. Inr (f b3))) =
      Inr (f t')" for n i t and f :: "traffic \<Rightarrow> 'a listener"
  proof -
    obtain u where u: "sourceNameToKubernetesName nc n i t = Inr u" using sourceName_total [OF assms(2)] by blast
    obtain w where w: "destNameToKubernetesName nc (destServiceName u) (destServiceInstanceName u) u = Inr w"
      using destName_total [OF assms(2)] by blast
    show ?thesis by (intro exI [of _ w]) (simp add: u w)
  qed
  from this [where f = "\<lambda>b. l\<lparr>callingOutTraffic := callingOutTraffic l @ [b]\<rparr>"] obtain b where
    "enabled l \<Longrightarrow> parseExit E nc span m l = Inr (l\<lparr>callingOutTraffic := callingOutTraffic l @ [b]\<rparr>)"
    by (simp add: parseExit_def Some v Let_def) metis
  then show ?thesis using assms(1) by (cases "enabled l") (simp_all add: parseExit_def listener_ok_def)
qed

lemma intercept_event_ok:
  assumes "listener_ok l" "directory_total nc" "parsable event"
  shows "\<exists>l'. intercept_event E nc event l = Inr l' \<and> listener_ok l'"
proof (cases event)
  case None
  then show ?thesis using assms(1) by (simp add: intercept_event_def)
next
  case (Some r)
  let ?m = "load_resource (attr_to_map (rec_span r)) (resource r)"
  show ?thesis
    using assms(1,3) Some parseEntry_ok [OF assms(1,2), of "rec_span r" E ?m]
      parseExit_ok [OF assms(1,2), of ?m E "rec_span r"]
    by (simp add: intercept_event_def parsable_def Let_def parseLocal_def)
qed

lemma intercept_events_ok:
  "listener_ok l \<Longrightarrow> directory_total nc \<Longrightarrow> \<forall>e\<in>set events. parsable e \<Longrightarrow>
     \<exists>l'. fold_r (intercept_event E nc) events l = Inr l' \<and> listener_ok l'"
proof (induction events arbitrary: l)
  case (Cons e events)
  obtain t where "intercept_event E nc e l = Inr t" "listener_ok t"
    using intercept_event_ok [OF Cons.prems(1,2)] Cons.prems(3) by (metis list.set_intros(1))
  then show ?case using Cons by simp
qed simp

lemma flush_ok: "listener_ok l \<Longrightarrow> listener_ok (flush E clock l)"
  by (auto simp: flush_def service_send_def relation_send_def register_submit listener_ok_def
      intro: sink_ok_send_loop)

lemma clear_ok: "listener_ok l \<Longrightarrow> listener_ok (clear l)"
  by (simp add: clear_def listener_ok_def lru_ok_clear) (simp add: lru_clear_def)

lemma server_links_fault:
  assumes "enabled l" "directory_total nc" "links span = x # y # ls"
  shows "parseEntry E nc span m l = Inl Null_Deref"
proof -
  let ?b = "entry_base span m"
  obtain t where t: "destNameToKubernetesName nc (destServiceName ?b) (destServiceInstanceName ?b) ?b = Inr t"
    using destName_total [OF assms(2)] by blast
  let ?b1 = "entry_link E span m (link_attr_to_map x) (t\<lparr>detectPoint := DP_SERVER\<rparr>)"
  obtain u where "sourceNameToKubernetesName nc (sourceServiceName ?b1) (sourceServiceInstanceName ?b1) ?b1 = Inr u"
    using sourceName_total [OF assms(2)] by blast
  then show ?thesis using assms by (simp add: parseEntry_def Let_def t)
qed

section \<open>An entry span with one link\<close>

text \<open>\<open>parseEntry\<close> on a span with one link that is not of a message queue: the caller is what the link
  names, translated by the directory.\<close>

lemma parseEntry_link:
  assumes "enabled l" "links span = [link]" "\<not> is_mq E m"
    and "destNameToKubernetesName nc (destServiceName (entry_base span m)) (destServiceInstanceName (entry_base span m))
           (entry_base span m) = Inr d"
    and "sourceNameToKubernetesName nc (sourceServiceName b) (sourceServiceInstanceName b) b = Inr c"
    and "b = entry_link E span m (link_attr_to_map link) (d\<lparr>detectPoint := DP_SERVER\<rparr>)"
  shows "parseEntry E nc span m l = Inr (l\<lparr>callingInTraffic := callingInTraffic l @ [c]\<rparr>)"
  using assms by (simp add: parseEntry_def Let_def)

lemma entry_link_source:
  assumes "\<not> is_mq E m"
  shows "sourceServiceName (entry_link E span m attr b) = str_or attr AttributeParentService (sourceServiceName b)"
    "sourceServiceInstanceName (entry_link E span m attr b) = str_or attr AttributeParentInstance (sourceServiceInstanceName b)"
    "sourceEndpointName (entry_link E span m attr b) = str_or attr AttributeParentEndpoint UserEndpointName"
  using assms by (simp_all add: entry_link_def Let_def)

text \<open>The translation of the destination leaves the source fields alone.\<close>

lemma destName_frame:
  assumes "destNameToKubernetesName nc n i t = Inr t'"
  shows "sourceServiceName t' = sourceServiceName t" "sourceServiceInstanceName t' = sourceServiceInstanceName t"
  using assms
  by (auto simp: destNameToKubernetesName_def name_to_kubernetes_def cpp_simps split: if_splits)

section \<open>Runs\<close>

text \<open>A batch of spans (with the directory as it is then), the two timers, and a finished call.\<close>

datatype 'd topo_event =
    Spans name_control "'d recordable option list"
  | Flush_Timer "nat \<Rightarrow> 64 word"
  | Clear_Timer
  | Call_Done

fun topo_step :: "'a topo_env \<Rightarrow> 'd topo_event \<Rightarrow> 'a listener \<Rightarrow> 'a listener result" where
  "topo_step E (Spans nc events) l = intercept E nc events l"
| "topo_step E (Flush_Timer clock) l = Inr (flush E clock l)"
| "topo_step E Clear_Timer l = Inr (clear l)"
| "topo_step E Call_Done l = Inr (l\<lparr>sink := sink_on_done (sink l)\<rparr>)"

fun topo_admissible :: "'d topo_event \<Rightarrow> bool" where
  "topo_admissible (Spans nc events) = (directory_total nc \<and> (\<forall>e\<in>set events. parsable e))"
| "topo_admissible _ = True"

lemma topo_step_ok:
  assumes "topo_admissible ev" "listener_ok l"
  shows "\<exists>l'. topo_step E ev l = Inr l' \<and> listener_ok l'"
proof (cases ev)
  case (Spans nc events)
  then have ok: "directory_total nc" "\<forall>e\<in>set events. parsable e" using assms(1) by auto
  obtain t where "fold_r (intercept_event E nc) events l = Inr t" "listener_ok t"
    using intercept_events_ok [OF assms(2) ok] by blast
  then show ?thesis using Spans build_ok [OF _ ok(1), of t E] assms(2) by (auto simp: intercept_def)
next
  case Call_Done
  then show ?thesis using assms(2) by (simp add: listener_ok_def sink_ok_register)
qed (use assms(2) in \<open>simp_all add: flush_ok clear_ok\<close>)

lemma topo_run_ok:
  "\<forall>ev\<in>set evs. topo_admissible ev \<Longrightarrow> listener_ok l \<Longrightarrow>
     \<exists>l'. fold_r (topo_step E) evs l = Inr l' \<and> listener_ok l'"
proof (induction evs arbitrary: l)
  case (Cons ev evs)
  obtain t where "topo_step E ev l = Inr t" "listener_ok t"
    using topo_step_ok [of ev l E] Cons.prems by auto
  then show ?case using Cons by simp
qed simp

section \<open>Properties\<close>

text \<open>C1: over any sequence of span batches, timer ticks and finished calls the topology processor
  neither faults nor outgrows its bounds, provided the directory answers, no server span has more
  than one link and every client span with a peer has a layer: at most 500 ids in each recency
  cache, 501 metrics in each aggregator, and one request over the limit in flight.\<close>

theorem topology_run_safe:
  assumes "\<forall>ev\<in>set evs. topo_admissible ev"
  shows "\<exists>l. fold_r (topo_step E) evs processor_new = Inr l \<and>
             lru_size (inLruCache l) \<le> 500 \<and> lru_size (outLruCache l) \<le> 500 \<and>
             length (sv_cache (serviceMetrics l)) \<le> 501 \<and> length (rl_cache (relationMetrics l)) \<le> 501 \<and>
             running_requests (sink l) \<le> Suc (max_concurrent_requests (sink l))"
proof -
  obtain l where l: "fold_r (topo_step E) evs processor_new = Inr l" "listener_ok l"
    using topo_run_ok [OF assms listener_ok_new] by blast
  then have ok: "lru_ok (inLruCache l)" "max_size (inLruCache l) = 500"
    "lru_ok (outLruCache l)" "max_size (outLruCache l) = 500"
    by (simp_all add: listener_ok_def)
  then show ?thesis
    using l lru.distinct_law [OF ok(1)] lru.distinct_law [OF ok(3)]
    by (auto simp: listener_ok_def sink_ok_def lru_size_contents)
qed

definition sample_span :: "span_kind \<Rightarrow> (string \<times> unit any_value) list \<Rightarrow> unit attributes list \<Rightarrow> unit span" where
  "sample_span k as ls =
     \<lparr>span_name = ''/cart'', span_kind = k, status = Status_Ok, start_nanos = 10, end_nanos = 50, attrs = as, links = ls\<rparr>"

definition sample_event :: "unit recordable option" where
  "sample_event = Some \<lparr>rec_span = sample_span Kind_Server [(''service.name'', AV_String ''web'')] [], resource = []\<rparr>"

lemma directory_total_new: "directory_total name_control_new"
  by (simp add: directory_total_def find_service_name_def find_service_def find_endpoint_def find_pod_def
      name_control_new_def)

lemma directory_total_announced:
  assumes "to_peer s = Inr (ps, s')" "set_service s name_control_new = Inr nc"
  shows "directory_total nc"
proof -
  have "announces (\<lambda>_. set ps) s" using assms(1) by (auto simp: announces_def)
  from nc_run_total [OF name_control_new_ok(1) name_control_new_ok(2) [of "\<lambda>_. set ps"], of "[Set_Service s]"] this assms(2)
  have "endpoints_ok nc" "services_ok (\<lambda>_. set ps) nc" by auto
  then show ?thesis using find_service_name_total by (auto simp: directory_total_def)
qed

theorem topology_run_safe_witness:
  "\<exists>l. fold_r (topo_step sample_env) [Spans name_control_new [None, sample_event], Flush_Timer (\<lambda>_. 1), Clear_Timer]
         processor_new = Inr l \<and> lru_size (inLruCache l) \<le> 500"
  using topology_run_safe [of "[Spans name_control_new [None, sample_event], Flush_Timer (\<lambda>_. 1), Clear_Timer]" sample_env]
  by (auto simp: directory_total_new parsable_def sample_event_def sample_span_def)

text \<open>A server span with two links stops the agent: the loop moves the observation out in its
  first round and writes through the null pointer in the second.\<close>

lemma second_link_faults:
  assumes "enabled l" "directory_total nc" "links span = x # y # ls"
  shows "parseEntry E nc span m l = Inl Null_Deref"
  by (rule server_links_fault [OF assms])

lemma second_link_faults_witness:
  "parseEntry sample_env name_control_new (sample_span Kind_Server [] [[], []]) Map.empty
     (processor_new :: (64 word) listener) = Inl Null_Deref"
  by (rule second_link_faults [OF _ directory_total_new])
    (simp_all add: processor_new_def listener_new_def sample_span_def)

text \<open>A client span that carries a peer but no layer attribute makes \<open>parseExit\<close> dereference the
  end iterator.\<close>

lemma exit_without_layer_faults:
  assumes "enabled l" "m AttributePeer = Some peer" "m AttributeLayer = None"
  shows "parseExit E nc span m l = Inl End_Deref"
  using assms by (simp add: parseExit_def Let_def)

lemma exit_without_layer_faults_witness:
  "parseExit sample_env name_control_new (sample_span Kind_Client [] []) [AttributePeer \<mapsto> AV_String ''db:3306'']
     (processor_new :: (64 word) listener) = Inl End_Deref"
  by (rule exit_without_layer_faults [where peer = "AV_String ''db:3306''"])
    (simp_all add: processor_new_def listener_new_def AttributePeer_def AttributeLayer_def)

text \<open>An entry span with one link that is not from a message queue yields one observation: a call
  of the service of the span by the parent the link names, both under the Kubernetes name and
  namespace the directory has for them, with the duration and the error flag of the span.\<close>

lemma caller_entry_observed:
  assumes "enabled l" "links span = [link]" "\<not> is_mq E m"
    and "m AttributeServiceName = Some (AV_String v)" "v \<noteq> []" "find_service_name nc v = Inr (n, ns)" "n \<noteq> []"
    and "link_attr_to_map link AttributeParentService = Some (AV_String p)" "p \<noteq> []"
    and "find_service_name nc p = Inr (c, cs)" "c \<noteq> []"
  shows "\<exists>b. parseEntry E nc span m l = Inr (l\<lparr>callingInTraffic := callingInTraffic l @ [b]\<rparr>) \<and>
             destServiceName b = n \<and> destNamespace b = ns \<and> sourceServiceName b = c \<and> sourceNamespace b = cs \<and>
             destEndpointName b = span_name span \<and>
             latency b = end_nanos span - start_nanos span \<and> hasError b = (status span \<noteq> Status_Ok)"
proof -
  let ?b = "entry_base span m"
  let ?d = "?b\<lparr>destServiceName := n, destNamespace := ns\<rparr>"
  let ?c = "entry_link E span m (link_attr_to_map link) (?d\<lparr>detectPoint := DP_SERVER\<rparr>)"
  have "destServiceName ?b = v" using assms(4) by (simp add: entry_base_def str_or_def)
  then have dst: "destNameToKubernetesName nc (destServiceName ?b) (destServiceInstanceName ?b) ?b = Inr ?d"
    using assms(5-7) by (simp add: destNameToKubernetesName_def name_to_kubernetes_def)
  have "sourceServiceName ?c = p" using assms(8) by (simp add: entry_link_source [OF assms(3)] str_or_def)
  then have "sourceNameToKubernetesName nc (sourceServiceName ?c) (sourceServiceInstanceName ?c) ?c =
      Inr (?c\<lparr>sourceServiceName := c, sourceNamespace := cs\<rparr>)"
    using assms(9-11) by (simp add: sourceNameToKubernetesName_def name_to_kubernetes_def)
  note run = parseEntry_link [OF assms(1-3) dst this refl]
  show ?thesis
    by (intro exI conjI, rule run) (simp_all add: entry_link_def Let_def assms(3) entry_base_def)
qed

lemma find_service_name_new: "find_service_name name_control_new k = Inr ([], [])"
  by (simp add: find_service_name_def find_service_def find_endpoint_def find_pod_def name_control_new_def)

lemma callingIn_new: "callingInTraffic processor_new = []"
  by (simp add: processor_new_def listener_new_def)

lemma caller_entry_observed_witness:
  "\<exists>b. parseEntry sample_env (set_pod \<lparr>pod_name = ''web-0'', pod_namespace = ''shop'', pod_ip = ''web''\<rparr> name_control_new)
         (sample_span Kind_Server [] [[(AttributeParentService, AV_String ''web'')]])
         [AttributeServiceName \<mapsto> AV_String ''web''] (processor_new :: (64 word) listener) =
       Inr (processor_new\<lparr>callingInTraffic := [b]\<rparr>) \<and>
       destServiceName b = ''web-0'' \<and> destNamespace b = ''shop'' \<and> sourceServiceName b = ''web-0''"
proof -
  let ?nc = "set_pod \<lparr>pod_name = ''web-0'', pod_namespace = ''shop'', pod_ip = ''web''\<rparr> name_control_new"
  let ?s = "sample_span Kind_Server [] [[(AttributeParentService, AV_String ''web'')]]"
  let ?m = "[AttributeServiceName \<mapsto> AV_String ''web'' :: unit any_value]"
  have f: "find_service_name ?nc ''web'' = Inr (''web-0'', ''shop'')"
    by (simp add: find_service_name_def find_service_def find_endpoint_def find_pod_def set_pod_def
        name_control_new_def)
  have h: "enabled (processor_new :: (64 word) listener)" "links ?s = [[(AttributeParentService, AV_String ''web'')]]"
    "\<not> is_mq sample_env ?m" "?m AttributeServiceName = Some (AV_String ''web'')"
    "link_attr_to_map [(AttributeParentService, AV_String ''web'' :: unit any_value)] AttributeParentService = Some (AV_String ''web'')"
    by (simp_all add: processor_new_def listener_new_def sample_span_def is_mq_def AttributeLayer_def
        AttributeServiceName_def link_attr_to_map_def)
  have ne: "''web'' \<noteq> []" "''web-0'' \<noteq> []" by simp_all
  from caller_entry_observed [OF h(1-4) ne(1) f ne(2) h(5) ne(1) f ne(2)] obtain b where
    "parseEntry sample_env ?nc ?s ?m processor_new = Inr (processor_new\<lparr>callingInTraffic := [] @ [b]\<rparr>)"
    "destServiceName b = ''web-0''" "destNamespace b = ''shop''" "sourceServiceName b = ''web-0''"
    unfolding callingIn_new by blast
  then show ?thesis by (simp del: fun_upd_apply) blast
qed

text \<open>Once a service id is in the recency cache, an observation of it registers nothing: the test
  before \<open>registerServiceRelation\<close> asks for the service id again, not the relation id, so the
  relation of a new caller to a known service is never registered.\<close>

lemma known_service_hides_relation:
  assumes "listener_ok l" "lru_exists (sm_id (fst (toService E source))) (inLruCache l)"
    and "build_in E source l = Inr l'"
  shows "sink l' = sink l"
proof -
  obtain service source1 where s: "toService E source = (service, source1)" by (cases "toService E source")
  obtain relation source2 where r: "toServiceRelation E source1 = (relation, source2)"
    by (cases "toServiceRelation E source1")
  obtain c1 where c1: "lru_put (sm_id service) True (inLruCache l) = Inr c1"
    using lru.put_total assms(1) by (fastforce simp: listener_ok_def)
  have ok: "lru_ok c1" "max_size c1 = 500"
    using lru.put_ok [OF _ c1] assms(1) by (auto simp: listener_ok_def)
  obtain c2 where c2: "lru_put (rm_id relation) True c1 = Inr c2"
    using lru.put_total [OF ok(1)] by blast
  have "lru_exists (sm_id service) c2"
    using lru.put_put_present [OF _ _ c1 c2] assms(1) by (simp add: listener_ok_def)
  then show ?thesis
    using assms(2,3) by (auto simp: build_in_def s r c1 c2 Let_def case_prod_beta)
qed

lemma known_service_hides_relation_witness:
  "\<exists>c l'. lru_put (dest_key sample_env (sample_traffic ''web'' False)) True (lru_new 500) = Inr c \<and>
     build_in sample_env (sample_traffic ''web'' False) (processor_new\<lparr>inLruCache := c\<rparr>) = Inr l' \<and>
     sink l' = sink processor_new"
proof -
  let ?k = "dest_key sample_env (sample_traffic ''web'' False)"
  obtain c where c: "lru_put ?k True (lru_new 500) = Inr c" "lru_ok c" "max_size c = 500"
    using lru_put_refines [OF lru_ok_new, of ?k True 500] by (auto simp: lru_new_def)
  let ?l = "(processor_new :: (64 word) listener)\<lparr>inLruCache := c\<rparr>"
  have ok: "listener_ok ?l" using listener_ok_new c by (auto simp: listener_ok_def)
  obtain l' where l': "build_in sample_env (sample_traffic ''web'' False) ?l = Inr l'"
    using build_in_ok [OF ok] by blast
  have "lru_exists ?k c" using lru.put_present [OF lru_ok_new _ c(1)] by (simp add: lru_new_def)
  then have "lru_exists (sm_id (fst (toService sample_env (sample_traffic ''web'' False)))) (inLruCache ?l)"
    by (simp add: toService_def dest_key_def case_prod_beta)
  from known_service_hides_relation [OF ok this l'] c(1) l' show ?thesis by auto
qed

text \<open>The service ids a listener's sink has been given.\<close>

definition registered_ids :: "'a sink_request list \<Rightarrow> 64 word list" where
  "registered_ids cs = concat (map (\<lambda>c. case c of Register_Service m \<Rightarrow> [sm_id m] | _ \<Rightarrow> []) cs)"

lemma registered_ids_simps [simp]:
  "registered_ids [] = []"
  "registered_ids (cs @ ds) = registered_ids cs @ registered_ids ds"
  "registered_ids (Register_Service m # cs) = sm_id m # registered_ids cs"
  "registered_ids (Register_Service_Relation r # cs) = registered_ids cs"
  by (simp_all add: registered_ids_def)

text \<open>The ids one round looks up and puts into the cache.\<close>

definition round_ids :: "'a topo_env \<Rightarrow> traffic \<Rightarrow> 64 word set" where
  "round_ids E b =
     {sm_id (fst (toService E b)), rm_id (fst (toServiceRelation E (snd (toService E b))))}"

definition cached_ids :: "'a listener \<Rightarrow> 64 word set" where
  "cached_ids l = fst ` set (contents (inLruCache l))"

definition once_ok :: "64 word set \<Rightarrow> 'a listener \<Rightarrow> bool" where
  "once_ok S l \<longleftrightarrow>
     listener_ok l \<and> cached_ids l \<subseteq> S \<and> distinct (registered_ids (calls (sink l))) \<and>
     set (registered_ids (calls (sink l))) \<subseteq> cached_ids l"

lemma build_in_once:
  assumes ok: "once_ok S l" and ids: "round_ids E b \<subseteq> S" and S: "finite S" "card S \<le> 500"
  shows "\<exists>l'. build_in E b l = Inr l' \<and> once_ok S l'"
proof -
  obtain service b1 where s: "toService E b = (service, b1)" by (cases "toService E b")
  obtain relation b2 where r: "toServiceRelation E b1 = (relation, b2)" by (cases "toServiceRelation E b1")
  have ids': "sm_id service \<in> S" "rm_id relation \<in> S" using ids by (simp_all add: round_ids_def s r)
  have l: "lru_ok (inLruCache l)" "max_size (inLruCache l) = 500" "listener_ok l"
    using ok by (simp_all add: once_ok_def listener_ok_def)
  obtain c1 where c1: "lru_put (sm_id service) True (inLruCache l) = Inr c1"
    using lru.put_total [OF l(1)] by blast
  have ok1: "lru_ok c1" "max_size c1 = 500" using lru.put_ok [OF l(1) c1] l(2) by auto
  obtain c2 where c2: "lru_put (rm_id relation) True c1 = Inr c2" using lru.put_total [OF ok1(1)] by blast
  have k1: "fst ` set (contents c1) = insert (sm_id service) (cached_ids l)"
    using lru.put_no_evict [OF l(1) c1 _ S(1)] ok ids' S(2) l(2) by (simp add: once_ok_def cached_ids_def)
  have k2: "fst ` set (contents c2) = insert (rm_id relation) (insert (sm_id service) (cached_ids l))"
    using lru.put_no_evict [OF ok1(1) c2 _ S(1)] ok ids' S(2) ok1(2) k1 by (simp add: once_ok_def)
  obtain l' where l': "build_in E b l = Inr l'" "listener_ok l'" using build_in_ok [OF l(3)] by blast
  have ex: "lru_exists (sm_id service) (inLruCache l) \<longleftrightarrow> sm_id service \<in> cached_ids l"
    using lru_exists_contents [OF l(1)] by (simp add: cached_ids_def)
  have "inLruCache l' = c2"
    using l'(1) by (auto simp: build_in_def s r c1 c2 Let_def case_prod_beta)
  then have cached: "cached_ids l' = insert (rm_id relation) (insert (sm_id service) (cached_ids l))"
    using k2 by (simp add: cached_ids_def)
  have "registered_ids (calls (sink l')) = registered_ids (calls (sink l)) \<or>
    (sm_id service \<notin> cached_ids l \<and>
     registered_ids (calls (sink l')) = registered_ids (calls (sink l)) @ [sm_id service])"
    using l'(1) ex
    by (auto simp: build_in_def s r c1 c2 Let_def case_prod_beta registerService_def
        registerServiceRelation_def split: if_splits)
  then show ?thesis using ok l' cached ids' by (auto simp: once_ok_def)
qed

lemma build_in_once_run:
  "once_ok S l \<Longrightarrow> \<forall>b\<in>set bs. round_ids E b \<subseteq> S \<Longrightarrow> finite S \<Longrightarrow> card S \<le> 500 \<Longrightarrow>
     \<exists>l'. fold_r (build_in E) bs l = Inr l' \<and> once_ok S l'"
proof (induction bs arbitrary: l)
  case (Cons b bs)
  obtain t where "build_in E b l = Inr t" "once_ok S t"
    using build_in_once [OF Cons.prems(1) _ Cons.prems(3,4), of E b] Cons.prems(2) by auto
  then show ?case using Cons by simp
qed simp



text \<open>The first observation of a service registers the service and its relation, in that order, when
  the sink has room: the accepted registration leaves a message with id 0 behind, and it is that id
  the second test finds absent.\<close>

lemma first_sight_registers_both:
  assumes "listener_ok l" "\<not> lru_exists (sm_id (fst (toService E b))) (inLruCache l)" "\<not> lru_exists 0 (inLruCache l)"
    and "0 \<notin> round_ids E b" "running_requests (sink l) < max_concurrent_requests (sink l)"
    and "build_in E b l = Inr l'"
  shows "calls (sink l') = calls (sink l) @
     [Register_Service (fst (toService E b)),
      Register_Service_Relation (fst (toServiceRelation E (snd (toService E b))))]"
proof -
  obtain service b1 where s: "toService E b = (service, b1)" by (cases "toService E b")
  obtain relation b2 where r: "toServiceRelation E b1 = (relation, b2)" by (cases "toServiceRelation E b1")
  have ok: "lru_ok (inLruCache l)" using assms(1) by (simp add: listener_ok_def)
  obtain c1 where c1: "lru_put (sm_id service) True (inLruCache l) = Inr c1"
    using lru.put_total [OF ok] by blast
  have ok1: "lru_ok c1" using lru.put_ok [OF ok c1] by simp
  obtain c2 where c2: "lru_put (rm_id relation) True c1 = Inr c2" using lru.put_total [OF ok1] by blast
  have "lru_ok c2" using lru.put_ok [OF ok1 c2] by simp
  moreover have "0 \<notin> fst ` set (contents c2)"
  proof -
    have "0 \<notin> fst ` set (contents (inLruCache l))" using assms(3) lru_exists_contents [OF ok] by blast
    moreover have "0 \<noteq> sm_id service" "0 \<noteq> rm_id relation" using assms(4) by (simp_all add: round_ids_def s r)
    moreover have "fst ` set (contents c1) \<subseteq> insert (sm_id service) (fst ` set (contents (inLruCache l)))"
      "fst ` set (contents c2) \<subseteq> insert (rm_id relation) (fst ` set (contents c1))"
      unfolding lru.put_entries [OF ok c1] lru.put_entries [OF ok1 c2] by (rule spec_put_keys)+
    ultimately show ?thesis by blast
  qed
  ultimately have nz: "\<not> lru_exists 0 c2" by (simp add: lru_exists_contents)
  define s1 where
    "s1 = (sink l)\<lparr>running_requests := running_requests (sink l) + 1, calls := calls (sink l) @ [Register_Service service]\<rparr>"
  have a1: "registerService service (sink l) = (service_msg_default, s1)"
    using assms(5) by (simp add: registerService_def s1_def)
  have a2: "calls (snd (registerServiceRelation relation s1)) = calls s1 @ [Register_Service_Relation relation]"
    using assms(5) by (simp add: registerServiceRelation_def s1_def)
  have a3: "\<not> lru_exists (sm_id service) (inLruCache l)" using assms(2) by (simp add: s)
  have "sink l' = snd (registerServiceRelation relation s1)"
    using assms(6) nz
    by (auto simp: build_in_def s r c1 c2 a1 a3 Let_def case_prod_beta service_msg_default_def)
  then show ?thesis by (simp add: a2 s r) (simp add: s1_def)
qed

lemma first_sight_registers_both_witness:
  "\<exists>l'. build_in sample_env (sample_traffic ''web'' False) processor_new = Inr l' \<and>
        calls (sink l') =
          [Register_Service (fst (toService sample_env (sample_traffic ''web'' False))),
           Register_Service_Relation
             (fst (toServiceRelation sample_env (snd (toService sample_env (sample_traffic ''web'' False)))))]"
proof -
  let ?b = "sample_traffic ''web'' False"
  have empty: "\<not> lru_exists k (inLruCache (processor_new :: (64 word) listener))" for k
    by (simp add: processor_new_def listener_new_def lru_exists_def lru_new_def)
  have "sm_id (fst (toService sample_env ?b)) = 4"
    by (simp add: toService_def getDestId_def sample_traffic_def traffic_new_def makeHashId_def sample_env_def Let_def)
  moreover have "rm_id (fst (toServiceRelation sample_env (snd (toService sample_env ?b)))) = 3"
    by (simp add: toService_def toServiceRelation_def getDestId_def sample_traffic_def traffic_new_def makeHashId_def
        sample_env_def Let_def dec_of_nat.simps)
  ultimately have ids: "0 \<notin> round_ids sample_env ?b" by (simp add: round_ids_def)
  have room: "running_requests (sink (processor_new :: (64 word) listener)) < max_concurrent_requests (sink (processor_new :: (64 word) listener))"
    and none: "calls (sink (processor_new :: (64 word) listener)) = []"
    by (simp_all add: processor_new_def listener_new_def)
  obtain l' where l': "build_in sample_env ?b processor_new = Inr l'"
    using build_in_ok [OF listener_ok_new] by blast
  show ?thesis
    using l' first_sight_registers_both [OF listener_ok_new empty empty ids room l'] none by simp
qed

end
