(* ===== verification/Topology_Other.thy ===== *)
theory Topology_Other
  imports Topology_Listener
begin

text \<open>
  The list of listeners a processor calls (app/include/intercept/opentelemetry/trace/topology/listener.h,
  listener_manager.h and the loops of processor.cc) with the two whose registration is commented out:
  endpoint_dep_from_cross_thread_analysis_listener.cc and network_address_alias_mapping_listener.cc. The
  first compares iterators of two maps; as in libstdc++, the end of one equals the end of the other. Its
  builders of dependencies are empty objects, so only their number is kept.
\<close>

section \<open>Endpoint dependencies\<close>

record dep_listener =
  dep_enabled :: bool
  dep_builders :: nat

text \<open>The observation made of a link, which is dropped at the end of the round.\<close>

definition dep_source :: "'a topo_env \<Rightarrow> 'd span \<Rightarrow> 'd attr_map \<Rightarrow> 'd attr_map \<Rightarrow> traffic" where
  "dep_source E span attr linkAttr =
     (let b = traffic_new\<lparr>sourceEndpointName := str_or attr AttributeParentEndpoint UserEndpointName\<rparr>;
          b1 = (if is_mq E attr
                then b\<lparr>sourceServiceName := str_or linkAttr AttributeNetworkAddressUsedAtPeer [],
                       sourceServiceInstanceName := str_or linkAttr AttributeNetworkAddressUsedAtPeer [],
                       sourceEndpointOwnerServiceName := str_or linkAttr AttributeParentService [],
                       sourceLayer := layer_code L_MQ, sourceEndpointOwnerServiceLayer := layer_code L_GENERAL\<rparr>
                else b\<lparr>sourceServiceName := str_or linkAttr AttributeParentService [],
                       sourceServiceInstanceName := str_or linkAttr AttributeParentInstance [],
                       sourceLayer := layer_code L_GENERAL\<rparr>)
      in b1\<lparr>destEndpointName := span_name span,
             destServiceInstanceName := str_or attr AttributeServiceInstanceID [],
             destServiceName := str_or attr AttributeServiceName [],
             detectPoint := DP_SERVER,
             destLayer := (case attr AttributeLayer of None \<Rightarrow> 0 | Some v \<Rightarrow> identifyServiceLayer (ucast (int_value v))),
             componentId := int_or attr AttributeComponentId 0\<rparr>)"

text \<open>The observations and the listener afterwards.\<close>

definition parseRefForEndpointDependency ::
  "'a topo_env \<Rightarrow> 'd span \<Rightarrow> 'd attr_map \<Rightarrow> dep_listener \<Rightarrow> traffic list \<times> dep_listener" where
  "parseRefForEndpointDependency E span attr d =
     fold (\<lambda>link (ts, d). (ts @ [dep_source E span attr (link_attr_to_map link)], d\<lparr>dep_builders := dep_builders d + 1\<rparr>))
       (links span) ([], d)"

definition dep_parseEntry :: "'d span \<Rightarrow> 'd attr_map \<Rightarrow> dep_listener \<Rightarrow> dep_listener" where
  "dep_parseEntry span attr d = d"

definition dep_parseExit :: "'a topo_env \<Rightarrow> 'd span \<Rightarrow> 'd attr_map \<Rightarrow> dep_listener \<Rightarrow> dep_listener" where
  "dep_parseExit E span attr d = snd (parseRefForEndpointDependency E span attr d)"

definition dep_parseLocal :: "'a topo_env \<Rightarrow> 'd span \<Rightarrow> 'd attr_map \<Rightarrow> dep_listener \<Rightarrow> dep_listener" where
  "dep_parseLocal E span attr d = snd (parseRefForEndpointDependency E span attr d)"

definition dep_build :: "dep_listener \<Rightarrow> dep_listener" where
  "dep_build d = d"

section \<open>Network aliases\<close>

record alias_listener =
  alias_enabled :: bool

text \<open>Each of its three ways returns before it has done anything.\<close>

definition alias_parseEntry :: "'d span \<Rightarrow> 'd attr_map \<Rightarrow> alias_listener \<Rightarrow> alias_listener" where
  "alias_parseEntry span attr a = (if \<not> alias_enabled a then a else if links span = [] then a else a)"

definition alias_parseExit :: "'d span \<Rightarrow> 'd attr_map \<Rightarrow> alias_listener \<Rightarrow> alias_listener" where
  "alias_parseExit span attr a = a"

definition alias_parseLocal :: "'d span \<Rightarrow> 'd attr_map \<Rightarrow> alias_listener \<Rightarrow> alias_listener" where
  "alias_parseLocal span attr a = a"

definition alias_build :: "alias_listener \<Rightarrow> alias_listener" where
  "alias_build a = a"

section \<open>The list of listeners\<close>

datatype 'a any_listener = RPC "'a listener" | Dep dep_listener | Alias alias_listener

fun listen_entry :: "'a topo_env \<Rightarrow> name_control \<Rightarrow> 'd span \<Rightarrow> 'd attr_map \<Rightarrow> 'a any_listener \<Rightarrow> ('a any_listener) result" where
  "listen_entry E nc span attr (RPC l) = bind_r (parseEntry E nc span attr l) (\<lambda>l'. Inr (RPC l'))"
| "listen_entry E nc span attr (Dep d) = Inr (Dep (dep_parseEntry span attr d))"
| "listen_entry E nc span attr (Alias a) = Inr (Alias (alias_parseEntry span attr a))"

fun listen_exit :: "'a topo_env \<Rightarrow> name_control \<Rightarrow> 'd span \<Rightarrow> 'd attr_map \<Rightarrow> 'a any_listener \<Rightarrow> ('a any_listener) result" where
  "listen_exit E nc span attr (RPC l) = bind_r (parseExit E nc span attr l) (\<lambda>l'. Inr (RPC l'))"
| "listen_exit E nc span attr (Dep d) = Inr (Dep (dep_parseExit E span attr d))"
| "listen_exit E nc span attr (Alias a) = Inr (Alias (alias_parseExit span attr a))"

fun listen_local :: "'a topo_env \<Rightarrow> name_control \<Rightarrow> 'd span \<Rightarrow> 'd attr_map \<Rightarrow> 'a any_listener \<Rightarrow> ('a any_listener) result" where
  "listen_local E nc span attr (RPC l) = bind_r (parseLocal span attr l) (\<lambda>l'. Inr (RPC l'))"
| "listen_local E nc span attr (Dep d) = Inr (Dep (dep_parseLocal E span attr d))"
| "listen_local E nc span attr (Alias a) = Inr (Alias (alias_parseLocal span attr a))"

fun listener_build :: "'a topo_env \<Rightarrow> name_control \<Rightarrow> 'a any_listener \<Rightarrow> ('a any_listener) result" where
  "listener_build E nc (RPC l) = bind_r (build E nc l) (\<lambda>l'. Inr (RPC l'))"
| "listener_build E nc (Dep d) = Inr (Dep (dep_build d))"
| "listener_build E nc (Alias a) = Inr (Alias (alias_build a))"

text \<open>Only the RPC listener overrides \<open>flush\<close> and \<open>clear\<close>.\<close>

fun listener_flush :: "'a topo_env \<Rightarrow> (nat \<Rightarrow> 64 word) \<Rightarrow> 'a any_listener \<Rightarrow> 'a any_listener" where
  "listener_flush E clock (RPC l) = RPC (flush E clock l)"
| "listener_flush E clock (Dep d) = Dep d"
| "listener_flush E clock (Alias a) = Alias a"

fun listener_clear :: "'a any_listener \<Rightarrow> 'a any_listener" where
  "listener_clear (RPC l) = RPC (clear l)"
| "listener_clear (Dep d) = Dep d"
| "listener_clear (Alias a) = Alias a"

definition dispatch_event ::
  "'a topo_env \<Rightarrow> name_control \<Rightarrow> 'd recordable option \<Rightarrow> 'a any_listener list \<Rightarrow> ('a any_listener list) result" where
  "dispatch_event E nc event ls =
     (case event of
        None \<Rightarrow> Inr ls
      | Some r \<Rightarrow>
          let spanAttr = load_resource (attr_to_map (rec_span r)) (resource r)
          in if span_kind (rec_span r) = Kind_Server then map_r (listen_entry E nc (rec_span r) spanAttr) ls
             else if span_kind (rec_span r) = Kind_Client then map_r (listen_exit E nc (rec_span r) spanAttr) ls
             else map_r (listen_local E nc (rec_span r) spanAttr) ls)"

definition intercept_all ::
  "'a topo_env \<Rightarrow> name_control \<Rightarrow> 'd recordable option list \<Rightarrow> 'a any_listener list \<Rightarrow> ('a any_listener list) result" where
  "intercept_all E nc events ls =
     (if events = [] then Inr ls else bind_r (fold_r (dispatch_event E nc) events ls) (map_r (listener_build E nc)))"

section \<open>Lemmas\<close>

lemma dependency_per_link:
  "parseRefForEndpointDependency E span attr d =
     (map (\<lambda>l. dep_source E span attr (link_attr_to_map l)) (links span), d\<lparr>dep_builders := dep_builders d + length (links span)\<rparr>)"
proof -
  have "fold (\<lambda>link (ts, d). (ts @ [dep_source E span attr (link_attr_to_map link)], d\<lparr>dep_builders := dep_builders d + 1\<rparr>)) ls (ts, d) =
      (ts @ map (\<lambda>l. dep_source E span attr (link_attr_to_map l)) ls, d\<lparr>dep_builders := dep_builders d + length ls\<rparr>)" for ls ts
    by (induction ls arbitrary: ts d) simp_all
  then show ?thesis by (simp add: parseRefForEndpointDependency_def)
qed

text \<open>The links of the spans that are not entries.\<close>

definition dep_links :: "'d recordable option \<Rightarrow> nat" where
  "dep_links event =
     (case event of None \<Rightarrow> 0 | Some r \<Rightarrow> if span_kind (rec_span r) = Kind_Server then 0 else length (links (rec_span r)))"

definition all_listeners :: "'a listener \<Rightarrow> dep_listener \<Rightarrow> alias_listener \<Rightarrow> nat \<Rightarrow> 'a any_listener list" where
  "all_listeners l d a n = [RPC l, Dep (d\<lparr>dep_builders := dep_builders d + n\<rparr>), Alias a]"

lemma dispatch_all:
  "dispatch_event E nc event (all_listeners l d a n) =
     bind_r (intercept_event E nc event l) (\<lambda>l'. Inr (all_listeners l' d a (n + dep_links event)))"
proof (cases event)
  case None
  then show ?thesis by (simp add: dispatch_event_def intercept_event_def dep_links_def)
next
  case (Some r)
  then show ?thesis
    by (simp add: dispatch_event_def intercept_event_def dep_links_def all_listeners_def Let_def bind_r_assoc
        dep_parseEntry_def dep_parseExit_def dep_parseLocal_def dependency_per_link alias_parseEntry_def
        alias_parseExit_def alias_parseLocal_def parseLocal_def add.assoc)
qed

lemma fold_dispatch_all:
  "fold_r (dispatch_event E nc) events (all_listeners l d a n) =
     bind_r (fold_r (intercept_event E nc) events l) (\<lambda>l'. Inr (all_listeners l' d a (n + (\<Sum>e\<leftarrow>events. dep_links e))))"
proof (induction events arbitrary: l n)
  case (Cons e es)
  show ?case
    by (cases "intercept_event E nc e l") (simp_all add: dispatch_all Cons add.assoc)
qed simp

lemma other_listeners_independent:
  "intercept_all E nc events (all_listeners l d a 0) =
     bind_r (intercept E nc events l) (\<lambda>l'. Inr (all_listeners l' d a (\<Sum>e\<leftarrow>events. dep_links e)))"
proof (cases "events = []")
  case False
  have build: "map_r (listener_build E nc) (all_listeners l' d a n) = bind_r (build E nc l') (\<lambda>l'. Inr (all_listeners l' d a n))"
    for l' n by (cases "build E nc l'") (simp_all add: all_listeners_def dep_build_def alias_build_def)
  show ?thesis
    using False by (cases "fold_r (intercept_event E nc) events l") (simp_all add: intercept_all_def intercept_def fold_dispatch_all build)
qed (simp add: intercept_all_def intercept_def)

end
