(* ===== verification/Topology_Timers.thy ===== *)
theory Topology_Timers
  imports Topology_Other Otlp_Recordable Json_Api
begin

text \<open>
  What the topology processor does on its own: \<open>start\<close> and \<open>stop\<close> of processor.cc with the two timers that
  arm themselves again, as a step relation whose time is in seconds; and the logic endpoints of
  rpc_analysis_listener.cc, whose only call is commented out. A timer of the event loop fires once, when its
  delay has passed; no second passes while one is due. The JSON scalars the logic endpoints read are a record
  of accessors beside those of \<open>Json_Api\<close>.
\<close>

section \<open>Timers\<close>

record 'a topo_loop =
  loop_time :: nat
  flush_due :: "nat option"
  clear_due :: "nat option"
  listeners :: "'a any_listener list"

definition timers_start :: "'a topo_loop \<Rightarrow> 'a topo_loop" where
  "timers_start s = s\<lparr>flush_due := Some (loop_time s + 60), clear_due := Some (loop_time s + 300)\<rparr>"

definition timers_stop :: "'a topo_loop \<Rightarrow> 'a topo_loop" where
  "timers_stop s = s\<lparr>flush_due := None, clear_due := None\<rparr>"

definition flushMetric :: "'a topo_env \<Rightarrow> (nat \<Rightarrow> 64 word) \<Rightarrow> 'a any_listener list \<Rightarrow> 'a any_listener list" where
  "flushMetric E clock ls = map (listener_flush E clock) ls"

definition clearTopologyMetric :: "'a any_listener list \<Rightarrow> 'a any_listener list" where
  "clearTopologyMetric ls = map listener_clear ls"

definition flush_fires :: "'a topo_env \<Rightarrow> (nat \<Rightarrow> 64 word) \<Rightarrow> 'a topo_loop \<Rightarrow> 'a topo_loop" where
  "flush_fires E clock s =
     s\<lparr>listeners := flushMetric E clock (listeners s), flush_due := Some (loop_time s + 60)\<rparr>"

definition clear_fires :: "'a topo_loop \<Rightarrow> 'a topo_loop" where
  "clear_fires s = s\<lparr>listeners := clearTopologyMetric (listeners s), clear_due := Some (loop_time s + 60)\<rparr>"

definition is_due :: "nat option \<Rightarrow> 'a topo_loop \<Rightarrow> bool" where
  "is_due d s \<longleftrightarrow> (case d of None \<Rightarrow> False | Some t \<Rightarrow> t \<le> loop_time s)"

inductive topo_loop_step :: "'a topo_env \<Rightarrow> 'a topo_loop \<Rightarrow> 'a topo_loop \<Rightarrow> bool" for E where
  Second: "\<not> is_due (flush_due s) s \<Longrightarrow> \<not> is_due (clear_due s) s \<Longrightarrow>
    topo_loop_step E s (s\<lparr>loop_time := Suc (loop_time s)\<rparr>)"
| Flush: "is_due (flush_due s) s \<Longrightarrow> topo_loop_step E s (flush_fires E clock s)"
| Clear: "is_due (clear_due s) s \<Longrightarrow> topo_loop_step E s (clear_fires s)"
| Batch: "intercept_all E nc (events :: unit recordable option list) (listeners s) = Inr ls \<Longrightarrow>
    topo_loop_step E s (s\<lparr>listeners := ls\<rparr>)"

inductive topo_loop_run :: "'a topo_env \<Rightarrow> 'a topo_loop \<Rightarrow> 'a topo_loop \<Rightarrow> bool" for E where
  Run_start: "topo_loop_run E s s"
| Run_step: "topo_loop_run E s t \<Longrightarrow> topo_loop_step E t u \<Longrightarrow> topo_loop_run E s u"

inductive_cases topo_loop_stepE: "topo_loop_step E s t"

text \<open>Started at time zero: the next flush is at the end of the minute; so is the next clearing, from the
  fifth minute on.\<close>

definition clock_ok :: "'a topo_loop \<Rightarrow> bool" where
  "clock_ok s \<longleftrightarrow>
     (\<exists>f c. flush_due s = Some (60 * f) \<and> clear_due s = Some (60 * c) \<and> 5 \<le> c \<and>
        loop_time s \<le> 60 * f \<and> 60 * f \<le> loop_time s + 60 \<and>
        loop_time s \<le> 60 * c \<and> (60 * c \<le> loop_time s + 60 \<or> c = 5))"

lemma clock_ok_start: "loop_time s = 0 \<Longrightarrow> clock_ok (timers_start s)"
  by (auto simp: clock_ok_def timers_start_def intro!: exI [of _ 1] exI [of _ 5])

lemma clock_ok_flush:
  assumes "clock_ok s" "is_due (flush_due s) s"
  shows "clock_ok (flush_fires E clock s)"
proof -
  obtain f c where *: "flush_due s = Some (60 * f)" "clear_due s = Some (60 * c)" "5 \<le> c" "loop_time s \<le> 60 * f"
    "loop_time s \<le> 60 * c" "60 * c \<le> loop_time s + 60 \<or> c = 5"
    using assms(1) by (auto simp: clock_ok_def)
  then have "loop_time s = 60 * f" using assms(2) by (simp add: is_due_def)
  then have "loop_time s + 60 = 60 * Suc f" by simp
  then show ?thesis using * by (simp only: clock_ok_def flush_fires_def) (rule exI [of _ "Suc f"], rule exI [of _ c], auto)
qed

lemma clock_ok_clear:
  assumes "clock_ok s" "is_due (clear_due s) s"
  shows "clock_ok (clear_fires s)"
proof -
  obtain f c where *: "flush_due s = Some (60 * f)" "clear_due s = Some (60 * c)" "5 \<le> c" "loop_time s \<le> 60 * f"
    "60 * f \<le> loop_time s + 60" "loop_time s \<le> 60 * c"
    using assms(1) by (auto simp: clock_ok_def)
  then have "loop_time s = 60 * c" using assms(2) by (simp add: is_due_def)
  then have "loop_time s + 60 = 60 * Suc c" by simp
  then show ?thesis using * by (simp only: clock_ok_def clear_fires_def) (rule exI [of _ f], rule exI [of _ "Suc c"], simp)
qed

lemma clock_ok_second:
  assumes "clock_ok s" "\<not> is_due (flush_due s) s" "\<not> is_due (clear_due s) s"
  shows "clock_ok (s\<lparr>loop_time := Suc (loop_time s)\<rparr>)"
  using assms by (fastforce simp: clock_ok_def is_due_def)

lemma clock_ok_step: "topo_loop_step E s t \<Longrightarrow> clock_ok s \<Longrightarrow> clock_ok t"
proof (induction rule: topo_loop_step.induct)
  case (Batch nc events s ls)
  then show ?case by (simp add: clock_ok_def)
qed (simp_all add: clock_ok_second clock_ok_flush clock_ok_clear)

text \<open>The registrations are forgotten every minute, not every five: in a run of the started processor the
  next clearing, once the fifth minute is over, is never more than a minute away.\<close>

lemma clearing_within_a_minute:
  assumes "topo_loop_run E (timers_start s) t" "loop_time s = 0" "300 < loop_time t"
  shows "\<exists>f c. flush_due t = Some f \<and> clear_due t = Some c \<and> f \<le> loop_time t + 60 \<and> c \<le> loop_time t + 60"
proof -
  have "clock_ok t"
    using assms(1) clock_ok_start [OF assms(2)] by (induction rule: topo_loop_run.induct) (auto intro: clock_ok_step)
  then show ?thesis using assms(3) by (fastforce simp: clock_ok_def)
qed

text \<open>A clearing empties the two caches, so what is seen next is registered again.\<close>

lemma clear_forgets:
  assumes "listeners s = [RPC l]"
  shows "\<exists>l'. listeners (clear_fires s) = [RPC l'] \<and> \<not> lru_exists i (inLruCache l') \<and> \<not> lru_exists i (outLruCache l') \<and>
    serviceMetrics l' = serviceMetrics l \<and> relationMetrics l' = relationMetrics l"
  using assms
  by (simp add: clear_fires_def clearTopologyMetric_def clear_def lru_clear_def lru_exists_def)

lemma stopped_timers_stay:
  assumes "topo_loop_run E (timers_stop s) t"
  shows "flush_due t = None \<and> clear_due t = None"
  using assms by (induction "timers_stop s" t rule: topo_loop_run.induct)
    (auto simp: timers_stop_def is_due_def elim!: topo_loop_stepE)

section \<open>Logic endpoints\<close>

record 'j json_scalars =
  json_parse :: "string \<Rightarrow> 'j option"
  is_bool :: "'j \<Rightarrow> bool"
  bool_val :: "'j \<Rightarrow> bool"
  is_uint64 :: "'j \<Rightarrow> bool"
  uint64_val :: "'j \<Rightarrow> 64 word"

definition get_bool :: "'j json_scalars \<Rightarrow> 'j \<Rightarrow> bool result" where
  "get_bool S v = (if is_bool S v then Inr (bool_val S v) else Inl Assert_Failed)"

definition get_uint64 :: "'j json_scalars \<Rightarrow> 'j \<Rightarrow> (64 word) result" where
  "get_uint64 S v = (if is_uint64 S v then Inr (uint64_val S v) else Inl Assert_Failed)"

text \<open>The members of \<open>EndpointSourceBuilder\<close> that are set; its latency is an \<open>int\<close>.\<close>

record endpoint_source =
  es_service :: string
  es_instance :: string
  es_endpoint :: string
  es_layer :: "32 word"
  es_detect :: detect_point
  es_latency :: "32 word"
  es_type :: nat
  es_status :: bool

definition LogicEndpoint :: string where "LogicEndpoint = ''x-le''"
definition RequestType_LOGIC :: nat where "RequestType_LOGIC = 4"

text \<open>Name, latency and status, or \<open>None\<close> where the document has none of them.\<close>

definition logic_values ::
  "'j json_api \<Rightarrow> 'j json_scalars \<Rightarrow> 'd span \<Rightarrow> 'j \<Rightarrow> ((string \<times> 64 word \<times> bool) option) result" where
  "logic_values J S span doc =
     bind_r (if span_kind span = Kind_Internal
             then bind_r (has_member J doc ''logic-span'') (\<lambda>b.
                  if b then bind_r (member_value J doc ''logic-span'') (get_bool S) else Inr False)
             else Inr False) (\<lambda>local.
     if local then Inr (Some (span_name span, end_nanos span - start_nanos span, status span = Status_Ok))
     else bind_r (has_member J doc ''name'') (\<lambda>n.
          if \<not> n then Inr None
          else bind_r (has_member J doc ''latency'') (\<lambda>t.
          if \<not> t then Inr None
          else bind_r (has_member J doc ''status'') (\<lambda>st.
          if \<not> st then Inr None
          else bind_r (bind_r (member_value J doc ''name'') (get_string J)) (\<lambda>nm.
               bind_r (bind_r (member_value J doc ''latency'') (get_uint64 S)) (\<lambda>lat.
               bind_r (bind_r (member_value J doc ''status'') (get_bool S)) (\<lambda>ok.
               Inr (Some (c_string nm, lat, ok)))))))))"

definition logic_endpoint ::
  "'j json_api \<Rightarrow> 'j json_scalars \<Rightarrow> 'd span \<Rightarrow> 'd attr_map \<Rightarrow> (endpoint_source option) result" where
  "logic_endpoint J S span attr =
     (case attr LogicEndpoint of
        None \<Rightarrow> Inr None
      | Some v \<Rightarrow>
          (case json_parse S (c_string (string_value v)) of
             None \<Rightarrow> Inr None
           | Some doc \<Rightarrow>
               bind_r (logic_values J S span doc) (\<lambda>r.
               Inr (case r of
                      None \<Rightarrow> None
                    | Some (name, lat, ok) \<Rightarrow>
                        Some \<lparr>es_service = str_or attr AttributeServiceInstanceID [],
                              es_instance = str_or attr AttributeServiceInstanceID [], es_endpoint = name,
                              es_layer = layer_code L_GENERAL, es_detect = DP_SERVER, es_latency = ucast lat,
                              es_type = RequestType_LOGIC, es_status = ok\<rparr>))))"

text \<open>The function ends with a call of itself on what it was called with.\<close>

partial_function (option) parseLogicEndpoints ::
  "'j json_api \<Rightarrow> 'j json_scalars \<Rightarrow> 'd span \<Rightarrow> 'd attr_map \<Rightarrow> endpoint_source list \<Rightarrow> (endpoint_source list result) option" where
  "parseLogicEndpoints J S span attr bs =
     (case logic_endpoint J S span attr of
        Inl e \<Rightarrow> Some (Inl e)
      | Inr None \<Rightarrow> Some (Inr bs)
      | Inr (Some b) \<Rightarrow> parseLogicEndpoints J S span attr (bs @ [b]))"

text \<open>It never returns once an endpoint is found, and changes nothing where it does return.\<close>

lemma logic_endpoints_return:
  "parseLogicEndpoints J S span attr bs =
     (case logic_endpoint J S span attr of
        Inl e \<Rightarrow> Some (Inl e)
      | Inr None \<Rightarrow> Some (Inr bs)
      | Inr (Some b) \<Rightarrow> None)"
proof (cases "\<exists>b. logic_endpoint J S span attr = Inr (Some b)")
  case True
  then obtain b where b: "logic_endpoint J S span attr = Inr (Some b)" by blast
  have "logic_endpoint J S span attr \<noteq> Inr (Some b)" if "parseLogicEndpoints J S span attr bs = Some r" for r
  proof (rule parseLogicEndpoints.raw_induct [OF _ that])
    fix f :: "'j json_api \<Rightarrow> 'j json_scalars \<Rightarrow> 'd span \<Rightarrow> 'd attr_map \<Rightarrow> endpoint_source list \<Rightarrow> (endpoint_source list result) option"
      and J S span attr bs y
    assume "\<And>J S span attr bs y. f J S span attr bs = Some y \<Longrightarrow> logic_endpoint J S span attr \<noteq> Inr (Some b)"
      and "(case logic_endpoint J S span attr of Inl e \<Rightarrow> Some (Inl e) | Inr None \<Rightarrow> Some (Inr bs)
          | Inr (Some b) \<Rightarrow> f J S span attr (bs @ [b])) = Some y"
    then show "logic_endpoint J S span attr \<noteq> Inr (Some b)" by auto
  qed
  then show ?thesis using b by fastforce
next
  case False
  then show ?thesis by (subst parseLogicEndpoints.simps) (auto split: sum.splits option.splits)
qed

text \<open>The document \<open>{"name": "pay", "latency": 9, "status": true}\<close>.\<close>

definition sample_scalars :: "json json_scalars" where
  "sample_scalars =
     \<lparr>json_parse = (\<lambda>_. Some (JObject [(''name'', JString ''pay''), (''latency'', JUint 9), (''status'', JBool True)])),
      is_bool = (\<lambda>v. case v of JBool _ \<Rightarrow> True | _ \<Rightarrow> False), bool_val = (\<lambda>v. case v of JBool b \<Rightarrow> b | _ \<Rightarrow> False),
      is_uint64 = (\<lambda>v. case v of JUint _ \<Rightarrow> True | _ \<Rightarrow> False), uint64_val = (\<lambda>v. case v of JUint n \<Rightarrow> ucast n | _ \<Rightarrow> 0)\<rparr>"

lemma found_endpoint_never_returns:
  "parseLogicEndpoints json_dom sample_scalars (sample_span Kind_Server [] []) [LogicEndpoint \<mapsto> AV_String ''{}''] [] = None"
  by (simp add: logic_endpoints_return logic_endpoint_def logic_values_def sample_scalars_def sample_span_def has_member_def
      member_value_def get_string_def get_bool_def get_uint64_def)

end
