(* ===== verification/Agent_Start.thy ===== *)
theory Agent_Start
  imports Runner Machine_Id Host_Metrics Gpu_Reader Topology_Timers "HOL-Library.AList"
begin

text \<open>
  What the parts of the agent do when the runner starts and stops them: the metric exporter
  (app/source/runner.cc), the HTTP source with its health check and the page of counters
  (app/source/source/http, app/source/prometheus), the SkyWalking source
  (app/source/source/skywalking/grpc/source.cc) with the pipelines it starts and stops, the choice of a container
  client by the host source, and the gauges of the collectors. The servers, the metrics SDK and the Prometheus
  registry are libraries: a server is its state and its table of routes, an instrument its list of callbacks,
  the registry an argument.
\<close>

section \<open>The metric exporter\<close>

text \<open>\<open>gethostname\<close> fills a buffer of 256 zeros, or fails.\<close>

definition runner_GetHostname :: "string option \<Rightarrow> string" where
  "runner_GetHostname hostname = (case hostname of Some h \<Rightarrow> c_string h | None \<Rightarrow> [])"

definition host_GetHostname :: "string option \<Rightarrow> string" where
  "host_GetHostname hostname = (case hostname of Some h \<Rightarrow> c_string h | None \<Rightarrow> [])"

record metric_exporter =
  me_endpoint :: string
  me_interval_millis :: nat
  me_timeout_millis :: nat
  me_resource :: "(string \<times> string) list"

text \<open>The exporter and the global of the machine's id after the call.\<close>

definition initMetricExporter ::
  "string \<Rightarrow> string option \<Rightarrow> machine_env \<Rightarrow> agent_config \<Rightarrow> 64 word \<Rightarrow> (metric_exporter \<times> 64 word) result" where
  "initMetricExporter sdk_version hostname M cfg objectId =
     bind_r (get_machine_id M objectId) (\<lambda>(i, objectId1).
     Inr (\<lparr>me_endpoint = OLTPExporterAddress cfg, me_interval_millis = 1000, me_timeout_millis = 500,
           me_resource =
             [(''agent_name'', ''nova-agent''), (''service.name'', runner_GetHostname hostname),
              (''telemetry.sdk.version'', sdk_version), (''telemetry.sdk.language'', ''cpp''),
              (''object_id'', dec_of_nat (unat i))]\<rparr>, objectId1))"

definition cleanupMetrics :: "metric_exporter option \<Rightarrow> metric_exporter option" where
  "cleanupMetrics provider = None"

section \<open>Prometheus counters\<close>

record 'r prometheus_api =
  pr_empty :: 'r
  pr_counter :: "string \<Rightarrow> string \<Rightarrow> (string \<times> string) list \<Rightarrow> 'r \<Rightarrow> 'r"
  pr_increment :: "string \<Rightarrow> (string \<times> string) list \<Rightarrow> 'r \<Rightarrow> 'r"
  pr_serialize :: "'r \<Rightarrow> string"

record http_response =
  hr_status :: nat
  hr_headers :: "(string \<times> string) list"
  hr_body :: string

definition http_respond :: "nat \<Rightarrow> string \<Rightarrow> http_response \<Rightarrow> http_response" where
  "http_respond code body r = r\<lparr>hr_status := code, hr_body := body\<rparr>"

definition exposer_new :: "'r prometheus_api \<Rightarrow> 'r" where "exposer_new P = pr_empty P"

definition AddCounter :: "'r prometheus_api \<Rightarrow> string \<Rightarrow> string \<Rightarrow> (string \<times> string) list \<Rightarrow> 'r \<Rightarrow> 'r" where
  "AddCounter P name help labels registry = pr_counter P name help labels registry"

definition exposer_handle :: "'r prometheus_api \<Rightarrow> 'r \<Rightarrow> http_response \<Rightarrow> http_response" where
  "exposer_handle P registry response = http_respond 200 (pr_serialize P registry) response"

text \<open>The trace interceptor makes its counter when it is constructed.\<close>

definition trace_processor_counter :: "'r prometheus_api \<Rightarrow> 'r \<Rightarrow> 'r" where
  "trace_processor_counter P = AddCounter P ''trace'' ''skywalking trace metric'' [(''trace'', ''qps'')]"

definition count_segment :: "'r prometheus_api \<Rightarrow> 'r \<Rightarrow> 'r" where
  "count_segment P = pr_increment P ''trace'' [(''trace'', ''qps'')]"

section \<open>The HTTP source\<close>

definition health_path :: string where "health_path = ''/health''"
definition metric_path :: string where "metric_path = ''/metrics''"

definition health_handle :: "http_response \<Rightarrow> http_response" where
  "health_handle r =
     http_respond 200 ''{\"status\":\"UP\"}''
       (r\<lparr>hr_headers := hr_headers r @ [(''Content-Type'', ''application/json;charset=utf-8'')]\<rparr>)"

datatype http_action = Health_Action | Metric_Action
datatype server_state = Server_Made | Server_Inited | Server_Started | Server_Stopped | Server_Finished

record http_source =
  http_listen :: "(string \<times> 32 word) option"
  http_routes :: "(string \<times> http_action) list"
  http_state :: server_state

text \<open>Without a configuration the library's defaults stay.\<close>

definition http_source_new :: "agent_config \<Rightarrow> http_source" where
  "http_source_new cfg =
     \<lparr>http_listen = (case http_server_config cfg of None \<Rightarrow> None | Some (addr, p, en) \<Rightarrow> Some (addr, p)),
      http_routes = [], http_state = Server_Made\<rparr>"

definition http_init :: "http_source \<Rightarrow> http_source" where
  "http_init s = s\<lparr>http_state := Server_Inited\<rparr>"

definition http_start :: "http_source \<Rightarrow> http_source" where
  "http_start s =
     s\<lparr>http_routes := AList.update metric_path Metric_Action (AList.update health_path Health_Action (http_routes s)),
       http_state := Server_Started\<rparr>"

definition http_stop :: "http_source \<Rightarrow> http_source" where
  "http_stop s = s\<lparr>http_state := Server_Stopped\<rparr>"

definition http_finish :: "http_source \<Rightarrow> http_source" where
  "http_finish s = s\<lparr>http_state := Server_Finished\<rparr>"

text \<open>A request of a started server; \<open>None\<close>: no route, which the library answers.\<close>

definition http_serve :: "'r prometheus_api \<Rightarrow> 'r \<Rightarrow> http_source \<Rightarrow> string \<Rightarrow> http_response \<Rightarrow> http_response option" where
  "http_serve P registry s path response =
     (if http_state s \<noteq> Server_Started then None
      else case map_of (http_routes s) path of
             None \<Rightarrow> None
           | Some Health_Action \<Rightarrow> Some (health_handle response)
           | Some Metric_Action \<Rightarrow> Some (exposer_handle P registry response))"

section \<open>Pipelines and the SkyWalking source\<close>

text \<open>\<open>start\<close> and \<open>stop\<close> of a chain call each interceptor in turn; a pipeline stops its consumers too.\<close>

definition chain_start :: "('s \<Rightarrow> 's) list \<Rightarrow> 's \<Rightarrow> 's" where "chain_start starts s = fold (\<lambda>f s. f s) starts s"
definition chain_stop :: "('s \<Rightarrow> 's) list \<Rightarrow> 's \<Rightarrow> 's" where "chain_stop stops s = fold (\<lambda>f s. f s) stops s"

definition pipeline_start :: "('s \<Rightarrow> 's) list \<Rightarrow> 's \<Rightarrow> 's" where "pipeline_start starts s = chain_start starts s"

definition pipeline_stop :: "('s \<Rightarrow> 's) list \<Rightarrow> ('s \<Rightarrow> 's) list \<Rightarrow> 's \<Rightarrow> 's" where
  "pipeline_stop stops consumer_stops s =
     (let s1 = chain_stop stops s in if consumer_stops = [] then s1 else fold (\<lambda>f s. f s) consumer_stops s1)"

datatype sky_service = Trace_Service | Configuration_Service | Jvm_Service | Log_Service | Meter_Service | Management_Service | Clr_Service

text \<open>\<open>sky_topo\<close> is the event loop of the topology processor, \<open>sky_sink_shut\<close> the flag the trace sink's \<open>stop\<close> sets.\<close>

record 'a sky_source =
  sky_address :: string
  sky_services :: "sky_service list"
  sky_pipeline :: bool
  sky_server :: "server_state option"
  sky_topo :: "'a topo_loop"
  sky_sink_shut :: bool

definition sky_source_new :: "'a topo_loop \<Rightarrow> 'a sky_source" where
  "sky_source_new loop =
     \<lparr>sky_address = [], sky_services = [], sky_pipeline = False, sky_server = None, sky_topo = loop, sky_sink_shut = False\<rparr>"

definition sky_init :: "string option \<Rightarrow> 'a sky_source \<Rightarrow> 'a sky_source" where
  "sky_init SOURCE_HOST s =
     s\<lparr>sky_address := (case SOURCE_HOST of None \<Rightarrow> ''0.0.0.0:11800'' | Some host \<Rightarrow> host),
       sky_pipeline := True,
       sky_services := [Trace_Service, Configuration_Service, Jvm_Service, Log_Service, Meter_Service, Management_Service, Clr_Service],
       sky_server := Some Server_Started\<rparr>"

definition topology_start :: "'a sky_source \<Rightarrow> 'a sky_source" where
  "topology_start s = s\<lparr>sky_topo := timers_start (sky_topo s)\<rparr>"

definition topology_stop :: "'a sky_source \<Rightarrow> 'a sky_source" where
  "topology_stop s = s\<lparr>sky_topo := timers_stop (sky_topo s)\<rparr>"

definition trace_sink_stop :: "'a sky_source \<Rightarrow> 'a sky_source" where
  "trace_sink_stop s = s\<lparr>sky_sink_shut := True\<rparr>"

text \<open>Up to \<open>Wait\<close>, which returns once the server is shut down. The SkyWalking interceptor has the \<open>start\<close> and
  \<open>stop\<close> of its base class, which is of a library: the argument \<open>base\<close>.\<close>

definition sky_start :: "('a sky_source \<Rightarrow> 'a sky_source) \<Rightarrow> 'a sky_source \<Rightarrow> ('a sky_source) result" where
  "sky_start base s = (if \<not> sky_pipeline s then Inl Null_Deref else Inr (pipeline_start [base, topology_start] s))"

definition sky_stop :: "('a sky_source \<Rightarrow> 'a sky_source) \<Rightarrow> 'a sky_source \<Rightarrow> 'a sky_source" where
  "sky_stop base s =
     (let s1 = (if sky_pipeline s then pipeline_stop [base, topology_stop] [trace_sink_stop] s else s)
      in if sky_server s1 = None then s1 else s1\<lparr>sky_server := Some Server_Stopped\<rparr>)"

section \<open>Containers\<close>

datatype container_client = No_Client | Docker_Client string | Cri_Client string

definition container_client_of :: "(bool \<times> string \<times> string) option \<Rightarrow> container_client" where
  "container_client_of config =
     (case config of
        None \<Rightarrow> No_Client
      | Some (en, runtime, sock) \<Rightarrow>
          if \<not> en then No_Client else if runtime = ''docker'' then Docker_Client sock else Cri_Client sock)"

section \<open>Gauges\<close>

text \<open>An instrument is known by its name; its callbacks are a list, from which all equal ones are removed.\<close>

definition gauge_Start :: "string \<Rightarrow> string list \<Rightarrow> string list" where "gauge_Start g obs = obs @ [g]"
definition gauge_Stop :: "string \<Rightarrow> string list \<Rightarrow> string list" where "gauge_Stop g obs = removeAll g obs"

definition cpu_gauges :: "string list" where "cpu_gauges = [''system_cpu_usage'']"

definition cpu_Start :: "string list \<Rightarrow> string list" where "cpu_Start obs = fold gauge_Start cpu_gauges obs"
definition cpu_Stop :: "string list \<Rightarrow> string list" where "cpu_Stop obs = fold gauge_Stop cpu_gauges obs"

definition oltp_gauges :: "string list" where
  "oltp_gauges = [''system_mem_pct_total_used'', ''system_mem_pct_usable'', ''sum_system_net_bytes_rcvd'', ''sum_system_net_bytes_sent'']"

definition oltp_Start :: "string list \<Rightarrow> string list" where "oltp_Start obs = fold gauge_Start oltp_gauges obs"
definition oltp_Stop :: "string list \<Rightarrow> string list" where "oltp_Stop obs = fold gauge_Stop oltp_gauges obs"

definition gpu_Start :: "bool \<Rightarrow> string list \<Rightarrow> string list \<Rightarrow> string list" where
  "gpu_Start available gauges obs = (if \<not> available then obs else fold gauge_Start gauges obs)"

definition gpu_Stop :: "bool \<Rightarrow> string list \<Rightarrow> string list \<Rightarrow> string list" where
  "gpu_Stop available gauges obs = (if \<not> available then obs else fold gauge_Stop gauges obs)"

section \<open>Lemmas\<close>

lemma fold_gauge_Start: "fold gauge_Start gs obs = obs @ gs"
  by (induction gs arbitrary: obs) (simp_all add: gauge_Start_def)

lemma fold_gauge_Stop: "fold gauge_Stop gs obs = filter (\<lambda>g. g \<notin> set gs) obs"
  by (induction gs arbitrary: obs) (auto simp: gauge_Stop_def removeAll_filter_not_eq intro!: filter_cong)

text \<open>Stopping the collectors that were started, in any order of starts before, leaves the other gauges.\<close>

lemma gauges_stop:
  assumes "set obs \<inter> (set oltp_gauges \<union> set cpu_gauges \<union> set gs) = {}"
  shows "cpu_Stop (oltp_Stop (gpu_Stop av gs (cpu_Start (oltp_Start (gpu_Start av gs obs))))) = obs"
  using assms
  by (auto simp: cpu_Start_def cpu_Stop_def oltp_Start_def oltp_Stop_def gpu_Start_def gpu_Stop_def fold_gauge_Start
      fold_gauge_Stop filter_id_conv filter_empty_conv)

text \<open>The gauge of the processor is started by the first report: one that runs after \<open>stop\<close> leaves it on.\<close>

lemma late_cpu_gauge: "''system_cpu_usage'' \<in> set (cpu_Start (cpu_Stop obs))"
  by (simp add: cpu_Start_def cpu_gauges_def gauge_Start_def)

text \<open>The object's id in every exported metric tells machines apart as their ids do.\<close>

lemma exported_object_id:
  assumes "initMetricExporter v h M cfg 0 = Inr (e, i)" "initMetricExporter v' h' M' cfg' 0 = Inr (e', i')"
  shows "map_of (me_resource e) ''object_id'' = map_of (me_resource e') ''object_id'' \<longleftrightarrow> i = i'"
proof -
  have "map_of (me_resource e) ''object_id'' = Some (dec_of_nat (unat i))"
    if "initMetricExporter v h M cfg 0 = Inr (e, i)" for v h M cfg e i
    using that by (auto simp: initMetricExporter_def get_machine_id_def cpp_simps)
  then show ?thesis using assms by (simp add: dec_of_nat_inj unsigned_word_eqI word_unat_eq_iff)
qed

text \<open>A started HTTP server answers exactly two paths.\<close>

lemma http_pages:
  assumes "http_routes s = []"
  shows "http_serve P reg (http_start s) path r =
     (if path = health_path then Some (health_handle r)
      else if path = metric_path then Some (exposer_handle P reg r) else None)"
  using assms by (auto simp: http_serve_def http_start_def health_path_def metric_path_def)

lemma http_stopped: "http_serve P reg (http_stop s) path r = None"
  by (simp add: http_serve_def http_stop_def)

text \<open>Without the trace server the page of counters is that of an empty registry; with it, it shows one
  counter that is raised once for each segment, whatever its label says of a rate.\<close>

lemma metrics_page:
  assumes "http_routes s = []"
  shows "http_serve P ((count_segment P ^^ n) (trace_processor_counter P (exposer_new P))) (http_start s) metric_path r =
    Some (r\<lparr>hr_status := 200,
            hr_body := pr_serialize P ((pr_increment P ''trace'' [(''trace'', ''qps'')] ^^ n)
              (pr_counter P ''trace'' ''skywalking trace metric'' [(''trace'', ''qps'')] (pr_empty P)))\<rparr>)"
  using assms
  by (simp add: http_pages health_path_def metric_path_def exposer_handle_def http_respond_def count_segment_def
      trace_processor_counter_def AddCounter_def exposer_new_def)

text \<open>Start and stop of the SkyWalking source reach the timers of the topology, the sink and the server; a
  source that was never initialised is stopped without effect, but starting it is a null pointer. The base class is taken to do nothing.\<close>

lemma sky_stop_ends:
  assumes "sky_start id (sky_init h s) = Inr t"
  shows "sky_server (sky_stop id t) = Some Server_Stopped \<and> sky_sink_shut (sky_stop id t) \<and>
    flush_due (sky_topo (sky_stop id t)) = None \<and> clear_due (sky_topo (sky_stop id t)) = None"
  using assms
  by (auto simp: sky_start_def sky_init_def sky_stop_def pipeline_start_def pipeline_stop_def chain_start_def chain_stop_def
      topology_start_def topology_stop_def trace_sink_stop_def timers_stop_def Let_def)

lemma sky_uninitialised:
  "sky_stop base (sky_source_new loop) = sky_source_new loop" "sky_start base (sky_source_new loop) = Inl Null_Deref"
  by (simp_all add: sky_stop_def sky_start_def sky_source_new_def)

text \<open>The thread that starts the source may be late: a start after the stop arms the timers again.\<close>

lemma late_start_arms:
  "\<exists>t. sky_start id (sky_stop id (sky_init h s)) = Inr t \<and> flush_due (sky_topo t) = Some (loop_time (sky_topo s) + 60)"
  by (simp add: sky_start_def sky_init_def sky_stop_def pipeline_start_def pipeline_stop_def chain_start_def chain_stop_def
      topology_start_def topology_stop_def trace_sink_stop_def timers_stop_def timers_start_def Let_def)

end
