(* ===== verification/Docker_Client.thy ===== *)
theory Docker_Client
  imports Json_Api
begin

text \<open>
  The HTTP client of the Docker daemon: app/include/source/host/collector/container/docker_http_client.h.
  libevent and RapidJSON are parameters. libevent's side of a call is an argument of the handler that
  makes it (\<open>up\<close>: a connection object can be created, \<open>acc\<close>: it accepts a request) or an event
  (an answer to a request, or the loss of a request with a freed connection). The system \<open>docker_sys\<close>
  adds to the client what it cannot see: the requests that are outstanding, the lists handed to the
  callback, how many detail requests were made and how many ended without counting down.
\<close>

section \<open>Data\<close>

record container_info =
  ci_name :: string
  ci_id :: string
  ci_state :: string
  ci_command :: string
  ci_created :: "64 word"
  ci_pid :: "32 word"

definition container_info_new :: container_info where
  "container_info_new = \<lparr>ci_name = [], ci_id = [], ci_state = [], ci_command = [], ci_created = 0, ci_pid = 0\<rparr>"

record 'j docker_json = "'j json_api" +
  is_int :: "'j \<Rightarrow> bool"
  int_val :: "'j \<Rightarrow> 32 word"
  is_int64 :: "'j \<Rightarrow> bool"
  int64_val :: "'j \<Rightarrow> 64 word"
  parse_doc :: "string \<Rightarrow> 'j option"

datatype docker_request = List_Request | Detail_Request string

record docker_client =
  conn :: bool
  http_socket :: string
  unix_domain_socket :: string
  container_infos :: "(string \<times> container_info) list"
  pending_tasks :: "32 word"

definition docker_client_new :: docker_client where
  "docker_client_new =
     \<lparr>conn = False, http_socket = [], unix_domain_socket = [], container_infos = [], pending_tasks = 0\<rparr>"

section \<open>The connection\<close>

text \<open>A connection that exists is freed, and only without one a new one is made.\<close>

definition SetUnixDomainSocket :: "bool \<Rightarrow> string \<Rightarrow> docker_client \<Rightarrow> docker_client" where
  "SetUnixDomainSocket up socket c =
     (if socket = [] then c\<lparr>http_socket := socket\<rparr>
      else if conn c then c\<lparr>http_socket := socket, conn := False\<rparr>
      else c\<lparr>http_socket := socket, conn := up\<rparr>)"

definition DockerHttpClient :: "bool \<Rightarrow> bool \<Rightarrow> string \<Rightarrow> docker_client" where
  "DockerHttpClient is_socket up socket =
     (if \<not> is_socket then docker_client_new
      else SetUnixDomainSocket up socket (docker_client_new\<lparr>unix_domain_socket := socket\<rparr>))"

text \<open>The requests a call leaves outstanding at libevent.\<close>

definition Request :: "(docker_request \<Rightarrow> bool) \<Rightarrow> docker_request \<Rightarrow> docker_client \<Rightarrow> docker_request list" where
  "Request acc r c = (if \<not> conn c then [] else if acc r then [r] else [])"

definition AsyncGetContainerList :: "bool \<Rightarrow> (docker_request \<Rightarrow> bool) \<Rightarrow> docker_client \<Rightarrow> docker_client \<times> docker_request list" where
  "AsyncGetContainerList up acc c =
     (if unix_domain_socket c = [] then (c, [])
      else let c1 = SetUnixDomainSocket up (unix_domain_socket c) c in (c1, Request acc List_Request c1))"

text \<open>What libevent hands to the callback of a request, and what becomes of it: the callback's reason and
  text, or no callback.\<close>

datatype http_answer = No_Request | No_Buffer | Body string

fun ResponseCallback :: "http_answer \<Rightarrow> (int \<times> string) option" where
  "ResponseCallback No_Request = Some (-1, [])"
| "ResponseCallback No_Buffer = None"
| "ResponseCallback (Body s) = (if s = [] then None else Some (0, s))"

section \<open>Answers\<close>

definition ParseFromJson_string :: "'j docker_json \<Rightarrow> 'j \<Rightarrow> string \<Rightarrow> bool \<Rightarrow> string \<Rightarrow> bool \<times> string" where
  "ParseFromJson_string J body key required target =
     (case find_member J body key of
        None \<Rightarrow> (\<not> required, target)
      | Some v \<Rightarrow> if is_string J v then (True, string_val J v) else (False, target))"

definition ParseFromJson_int64 :: "'j docker_json \<Rightarrow> 'j \<Rightarrow> string \<Rightarrow> bool \<Rightarrow> 64 word \<Rightarrow> bool \<times> 64 word" where
  "ParseFromJson_int64 J body key required target =
     (case find_member J body key of
        None \<Rightarrow> (\<not> required, target)
      | Some v \<Rightarrow> if is_int64 J v then (True, int64_val J v) else (False, target))"

text \<open>An element of the list. A field that cannot be read keeps its default.\<close>

definition container_name :: "'j docker_json \<Rightarrow> 'j \<Rightarrow> string result" where
  "container_name J v =
     (case find_member J v ''Names'' of
        None \<Rightarrow> Inr []
      | Some n \<Rightarrow>
          if \<not> is_array J n then Inr []
          else (case array_elems J n of
                  [] \<Rightarrow> Inr []
                | x # xs \<Rightarrow> if is_string J x then Inr (string_val J x) else Inl Assert_Failed))"

definition parse_container :: "'j docker_json \<Rightarrow> 'j \<Rightarrow> container_info result" where
  "parse_container J v =
     (if \<not> is_object J v then Inl Assert_Failed
      else bind_r (container_name J v) (\<lambda>name. Inr
        (container_info_new
           \<lparr>ci_id := snd (ParseFromJson_string J v ''Id'' True []),
            ci_state := snd (ParseFromJson_string J v ''State'' True []),
            ci_command := snd (ParseFromJson_string J v ''Command'' True []),
            ci_created := snd (ParseFromJson_int64 J v ''Created'' True 0),
            ci_name := name\<rparr>)))"

definition list_element ::
  "'j docker_json \<Rightarrow> (docker_request \<Rightarrow> bool) \<Rightarrow> 'j \<Rightarrow> docker_client \<times> docker_request list \<Rightarrow>
     (docker_client \<times> docker_request list) result" where
  "list_element J acc v cs =
     bind_r (parse_container J v) (\<lambda>info.
       let (c, sent) = cs;
           c1 = c\<lparr>container_infos := AList.update (ci_id info) info (container_infos c)\<rparr>
       in if ci_id info = [] then Inr (c1, sent)
          else let c2 = c1\<lparr>pending_tasks := pending_tasks c1 + 1\<rparr>
               in Inr (c2, sent @ Request acc (Detail_Request (ci_id info)) c2))"

definition ParseContainerList ::
  "'j docker_json \<Rightarrow> (docker_request \<Rightarrow> bool) \<Rightarrow> string \<Rightarrow> docker_client \<Rightarrow> (docker_client \<times> docker_request list) result" where
  "ParseContainerList J acc response c =
     (case parse_doc J response of
        None \<Rightarrow> Inr (c, [])
      | Some doc \<Rightarrow>
          if \<not> is_array J doc then Inr (c, []) else fold_r (list_element J acc) (array_elems J doc) (c, []))"

definition ParseContainerDetail :: "'j docker_json \<Rightarrow> string \<Rightarrow> container_info \<Rightarrow> bool \<times> container_info" where
  "ParseContainerDetail J response info =
     (if response = [] then (False, info)
      else case parse_doc J response of
             None \<Rightarrow> (False, info)
           | Some doc \<Rightarrow>
               if \<not> is_object J doc then (False, info)
               else (case json_path (json_api.truncate J) doc [''State'', ''Pid''] of
                       Some p \<Rightarrow> if is_int J p then (True, info\<lparr>ci_pid := int_val J p\<rparr>) else (False, info)
                     | None \<Rightarrow> (False, info)))"

text \<open>The answer to a detail request: the entry of the container is made when it is missing; the last
  answer hands the collected entries to the callback, in the order of the map.\<close>

definition detail_answer ::
  "'j docker_json \<Rightarrow> string \<Rightarrow> int \<times> string \<Rightarrow> docker_client \<Rightarrow> docker_client \<times> container_info list option" where
  "detail_answer J cid answer c =
     (case answer of (reason, response) \<Rightarrow>
        if reason \<noteq> 0 then (c, None)
        else let old = (case map_of (container_infos c) cid of None \<Rightarrow> container_info_new | Some i \<Rightarrow> i);
                 c1 = c\<lparr>container_infos :=
                          AList.update cid (snd (ParseContainerDetail J response old)) (container_infos c)\<rparr>;
                 c2 = c1\<lparr>pending_tasks := pending_tasks c1 - 1\<rparr>
             in (c2, if pending_tasks c2 = 0 then Some (map snd (container_infos c2)) else None))"

section \<open>The client at work\<close>

record docker_sys =
  client :: docker_client
  outstanding :: "docker_request list"
  handed :: "container_info list list"
  issued :: nat
  lost :: nat

text \<open>The timer, an answer, and a request whose callback never comes.\<close>

datatype docker_event =
    Timer bool "docker_request \<Rightarrow> bool"
  | Answer docker_request http_answer "docker_request \<Rightarrow> bool"
  | Dropped docker_request

fun is_detail :: "docker_request \<Rightarrow> bool" where
  "is_detail List_Request = False"
| "is_detail (Detail_Request cid) = True"

definition details :: "docker_request list \<Rightarrow> nat" where
  "details rs = length (filter is_detail rs)"

definition sys_of :: "docker_client \<Rightarrow> docker_sys" where
  "sys_of c = \<lparr>client = c, outstanding = [], handed = [], issued = 0, lost = 0\<rparr>"

text \<open>The detail requests of a list are the non-empty ids in it; those libevent did not take are lost.\<close>

definition after_list :: "docker_client \<Rightarrow> docker_request list \<Rightarrow> nat \<Rightarrow> docker_sys \<Rightarrow> docker_sys" where
  "after_list c sent asked s =
     s\<lparr>client := c, outstanding := outstanding s @ sent, issued := issued s + asked, lost := lost s + (asked - length sent)\<rparr>"

definition asked_details :: "'j docker_json \<Rightarrow> string \<Rightarrow> nat" where
  "asked_details J response =
     (case parse_doc J response of
        None \<Rightarrow> 0
      | Some doc \<Rightarrow>
          if \<not> is_array J doc then 0
          else length (filter (\<lambda>v. snd (ParseFromJson_string J v ''Id'' True []) \<noteq> []) (array_elems J doc)))"

definition docker_step :: "'j docker_json \<Rightarrow> docker_event \<Rightarrow> docker_sys \<Rightarrow> docker_sys result" where
  "docker_step J e s =
     (case e of
        Timer up acc \<Rightarrow>
          (case AsyncGetContainerList up acc (client s) of
             (c, sent) \<Rightarrow> Inr (s\<lparr>client := c, outstanding := outstanding s @ sent\<rparr>))
      | Answer r a acc \<Rightarrow>
          if r \<notin> set (outstanding s) then Inr s
          else let s1 = s\<lparr>outstanding := remove1 r (outstanding s)\<rparr> in
            (case r of
               List_Request \<Rightarrow>
                 (case ResponseCallback a of
                    Some (reason, response) \<Rightarrow>
                      if reason \<noteq> 0 then Inr s1
                      else bind_r (ParseContainerList J acc response (client s1))
                             (\<lambda>(c, sent). Inr (after_list c sent (asked_details J response) s1))
                  | None \<Rightarrow> Inr s1)
             | Detail_Request cid \<Rightarrow>
                 (case ResponseCallback a of
                    Some (reason, response) \<Rightarrow>
                      if reason \<noteq> 0 then Inr (s1\<lparr>lost := Suc (lost s1)\<rparr>)
                      else (case detail_answer J cid (reason, response) (client s1) of
                              (c, list) \<Rightarrow>
                                Inr (s1\<lparr>client := c, handed := handed s1 @ (case list of None \<Rightarrow> [] | Some l \<Rightarrow> [l])\<rparr>))
                  | None \<Rightarrow> Inr (s1\<lparr>lost := Suc (lost s1)\<rparr>)))
      | Dropped r \<Rightarrow>
          if r \<notin> set (outstanding s) then Inr s
          else Inr (s\<lparr>outstanding := remove1 r (outstanding s), lost := lost s + (if is_detail r then 1 else 0)\<rparr>))"

definition docker_run :: "'j docker_json \<Rightarrow> docker_event list \<Rightarrow> docker_sys \<Rightarrow> docker_sys result" where
  "docker_run J = fold_r (docker_step J)"

lemma docker_run_append: "docker_run J (es @ fs) s = bind_r (docker_run J es s) (docker_run J fs)"
  by (simp add: docker_run_def fold_r_append)

section \<open>The count of pending details\<close>

text \<open>The counter is the number of outstanding and of lost detail requests, at its width.\<close>

definition counts :: "docker_sys \<Rightarrow> bool" where
  "counts s \<longleftrightarrow> pending_tasks (client s) = of_nat (details (outstanding s) + lost s) \<and>
     details (outstanding s) + lost s \<le> issued s"

lemma details_simps [simp]:
  "details [] = 0" "details (rs @ qs) = details rs + details qs"
  "details (r # rs) = (if is_detail r then 1 else 0) + details rs"
  by (simp_all add: details_def)

lemma details_remove1:
  "r \<in> set rs \<Longrightarrow> details rs = (if is_detail r then 1 else 0) + details (remove1 r rs)"
  by (induction rs) auto

lemma SetUnixDomainSocket_frame [simp]:
  "pending_tasks (SetUnixDomainSocket up socket c) = pending_tasks c"
  "container_infos (SetUnixDomainSocket up socket c) = container_infos c"
  by (simp_all add: SetUnixDomainSocket_def)

lemma AsyncGetContainerList_frame:
  "AsyncGetContainerList up acc c = (c', sent) \<Longrightarrow> pending_tasks c' = pending_tasks c \<and> details sent = 0"
  by (auto simp: AsyncGetContainerList_def Request_def Let_def split: if_splits)

lemma parse_container_id:
  "parse_container J v = Inr info \<Longrightarrow> ci_id info = snd (ParseFromJson_string J v ''Id'' True [])"
  by (auto simp: parse_container_def cpp_simps split: if_splits)

lemma list_element_counts:
  assumes "list_element J acc v (c, sent) = Inr (c', sent')"
  shows "\<exists>m. sent' = sent @ m \<and> details m = length m \<and>
    length m \<le> (if snd (ParseFromJson_string J v ''Id'' True []) \<noteq> [] then 1 else (0 :: nat)) \<and>
    pending_tasks c' =
      pending_tasks c + of_nat (if snd (ParseFromJson_string J v ''Id'' True []) \<noteq> [] then 1 else (0 :: nat))"
proof -
  obtain info where info: "parse_container J v = Inr info" using assms by (auto simp: list_element_def cpp_simps)
  show ?thesis
    using assms parse_container_id [OF info] by (auto simp: list_element_def info Request_def Let_def split: if_splits)
qed

text \<open>Along the elements of a list the counter grows by the details asked for, of which at most that
  many are sent.\<close>

lemma list_elements:
  "fold_r (list_element J acc) vs (c, sent) = Inr (c', sent') \<Longrightarrow>
   \<exists>more. sent' = sent @ more \<and> details more = length more \<and>
     length more \<le> length (filter (\<lambda>v. snd (ParseFromJson_string J v ''Id'' True []) \<noteq> []) vs) \<and>
     pending_tasks c' = pending_tasks c + of_nat (length (filter (\<lambda>v. snd (ParseFromJson_string J v ''Id'' True []) \<noteq> []) vs))"
proof (induction vs arbitrary: c sent)
  case (Cons v vs)
  then obtain c1 sent1 where one: "list_element J acc v (c, sent) = Inr (c1, sent1)"
    and rest: "fold_r (list_element J acc) vs (c1, sent1) = Inr (c', sent')"
    by (auto simp: cpp_simps)
  from list_element_counts [OF one] obtain m1 where m1: "sent1 = sent @ m1" "details m1 = length m1"
    "length m1 \<le> (if snd (ParseFromJson_string J v ''Id'' True []) \<noteq> [] then 1 else (0 :: nat))"
    "pending_tasks c1 =
       pending_tasks c + of_nat (if snd (ParseFromJson_string J v ''Id'' True []) \<noteq> [] then 1 else (0 :: nat))"
    by blast
  from Cons.IH [OF rest] obtain m2 where m2: "sent' = sent1 @ m2" "details m2 = length m2"
    "length m2 \<le> length (filter (\<lambda>v. snd (ParseFromJson_string J v ''Id'' True []) \<noteq> []) vs)"
    "pending_tasks c' = pending_tasks c1 + of_nat (length (filter (\<lambda>v. snd (ParseFromJson_string J v ''Id'' True []) \<noteq> []) vs))"
    by blast
  show ?case using m1 m2 by (intro exI [of _ "m1 @ m2"]) auto
qed simp

lemma ParseContainerList_counts:
  assumes "ParseContainerList J acc response c = Inr (c', sent)"
  shows "pending_tasks c' = pending_tasks c + of_nat (asked_details J response) \<and> details sent = length sent \<and>
    length sent \<le> asked_details J response"
  using assms list_elements [of J acc _ c "[]" c' sent]
  by (fastforce simp: ParseContainerList_def asked_details_def split: option.splits if_splits)

lemma detail_answer_counts:
  assumes "detail_answer J cid (0, response) c = (c', list)"
  shows "pending_tasks c' = pending_tasks c - 1" "list \<noteq> None \<Longrightarrow> pending_tasks c' = 0"
  using assms by (auto simp: detail_answer_def Let_def split: if_splits)

lemma counts_new: "pending_tasks c = 0 \<Longrightarrow> counts (sys_of c)"
  by (simp add: counts_def sys_of_def)

lemma DockerHttpClient_pending [simp]: "pending_tasks (DockerHttpClient is_socket up socket) = 0"
  by (simp add: DockerHttpClient_def docker_client_new_def)

text \<open>Every step keeps the count, never forgets a lost request, and hands a list over only when nothing
  is pending.\<close>

definition advances :: "docker_sys \<Rightarrow> docker_sys \<Rightarrow> bool" where
  "advances s t \<longleftrightarrow> counts t \<and> lost s \<le> lost t \<and> issued s \<le> issued t \<and>
     (handed t \<noteq> handed s \<longrightarrow> pending_tasks (client t) = 0)"

lemma detail_lost:
  "counts s \<Longrightarrow> r \<in> set (outstanding s) \<Longrightarrow> is_detail r \<Longrightarrow>
     advances s (s\<lparr>outstanding := remove1 r (outstanding s), lost := Suc (lost s)\<rparr>)"
  using details_remove1 [of r "outstanding s"] by (simp add: counts_def advances_def)

lemma detail_answered:
  assumes "counts s" "r \<in> set (outstanding s)" "is_detail r"
  shows "detail_answer J cid (0, response) (client s) = (c', None) \<Longrightarrow>
      advances s (s\<lparr>outstanding := remove1 r (outstanding s), client := c'\<rparr>)"
    and "detail_answer J cid (0, response) (client s) = (c', Some l) \<Longrightarrow>
      advances s (s\<lparr>outstanding := remove1 r (outstanding s), client := c', handed := handed s @ [l]\<rparr>)"
  using detail_answer_counts [of J cid response "client s" c'] assms(1,3) details_remove1 [OF assms(2)]
  by (auto simp: counts_def advances_def)

lemma list_answered:
  assumes "counts s" "List_Request \<in> set (outstanding s)"
    and "ParseContainerList J acc response (client s) = Inr (c', sent)"
  shows "advances s (after_list c' sent (asked_details J response) (s\<lparr>outstanding := remove1 List_Request (outstanding s)\<rparr>))"
proof -
  note c = ParseContainerList_counts [OF assms(3)]
  then obtain k where "asked_details J response = length sent + k" by (auto simp: le_iff_add)
  then show ?thesis
    using c assms(1) details_remove1 [OF assms(2)] by (simp add: counts_def advances_def after_list_def)
qed

lemma docker_step_counts:
  assumes "docker_step J e s = Inr t" "counts s"
  shows "advances s t"
proof (cases e)
  case (Timer up acc)
  then show ?thesis
    using assms AsyncGetContainerList_frame [of up acc "client s"]
    by (auto simp: docker_step_def counts_def advances_def split: prod.splits)
next
  case (Dropped r)
  then show ?thesis
    using assms details_remove1 [of r "outstanding s"]
    by (auto simp: docker_step_def counts_def advances_def split: if_splits)
next
  case (Answer r a acc)
  have same: "advances s (s\<lparr>outstanding := remove1 List_Request (outstanding s)\<rparr>)" if "List_Request \<in> set (outstanding s)"
    using assms(2) details_remove1 [OF that] by (simp add: counts_def advances_def)
  have "advances s s" using assms(2) by (simp add: advances_def)
  then show ?thesis
    using assms same
    by (cases r)
      (auto simp: Answer docker_step_def cpp_simps Let_def split: option.splits if_splits prod.splits
        intro: list_answered detail_lost detail_answered)
qed

text \<open>An answered or lost request stays counted, so the list stays away.\<close>

lemma docker_step_silent:
  assumes "docker_step J e s = Inr t" "counts s" "0 < lost s" "issued t < 2 ^ 32"
  shows "handed t = handed s"
proof (rule ccontr)
  assume "handed t \<noteq> handed s"
  then have t: "counts t" "0 < lost t" "pending_tasks (client t) = 0"
    using docker_step_counts [OF assms(1,2)] assms(3) by (auto simp: advances_def)
  then have "(of_nat (details (outstanding t) + lost t) :: 32 word) = 0" "details (outstanding t) + lost t < 2 ^ 32"
    using assms(4) by (simp_all add: counts_def)
  from this(1) have "unat (of_nat (details (outstanding t) + lost t) :: 32 word) = 0" by simp
  with \<open>details (outstanding t) + lost t < 2 ^ 32\<close> t(2) show False
    by (simp only: unat_of_nat) simp
qed

lemma docker_run_counts: "docker_run J es s = Inr t \<Longrightarrow> counts s \<Longrightarrow> counts t \<and> issued s \<le> issued t"
proof (induction es arbitrary: s)
  case (Cons e es)
  then obtain u where u: "docker_step J e s = Inr u" "docker_run J es u = Inr t"
    by (auto simp: docker_run_def cpp_simps)
  show ?case
    using Cons.IH [OF u(2)] docker_step_counts [OF u(1) Cons.prems(2)] by (simp add: advances_def)
qed (simp add: docker_run_def)

section \<open>An undisturbed round\<close>

definition take_all :: "docker_request \<Rightarrow> bool" where
  "take_all r = True"

lemma list_all_taken:
  assumes "\<forall>i\<in>set infos. ci_id i \<noteq> []" "list_all2 (\<lambda>v i. parse_container J v = Inr i) vs infos" "conn c"
  shows "fold_r (list_element J take_all) vs (c, sent) =
    Inr (c\<lparr>container_infos := fold (\<lambda>i. AList.update (ci_id i) i) infos (container_infos c),
           pending_tasks := pending_tasks c + of_nat (length infos)\<rparr>,
         sent @ map (\<lambda>i. Detail_Request (ci_id i)) infos)"
  using assms(2,1,3)
proof (induction vs infos arbitrary: c sent rule: list_all2_induct)
  case (Cons v vs i infos)
  then show ?case by (simp add: list_element_def Request_def take_all_def Let_def algebra_simps)
qed simp

text \<open>Entries are kept under the id they carry.\<close>

definition infos_keyed :: "(string \<times> container_info) list \<Rightarrow> bool" where
  "infos_keyed m \<longleftrightarrow> (\<forall>(k, i)\<in>set m. ci_id i = k)"

lemma infos_keyed_update: "infos_keyed m \<Longrightarrow> ci_id i = k \<Longrightarrow> infos_keyed (AList.update k i m)"
  by (induction m) (auto simp: infos_keyed_def split: if_splits)

lemma infos_keyed_fold: "infos_keyed m \<Longrightarrow> infos_keyed (fold (\<lambda>i. AList.update (ci_id i) i) infos m)"
  by (induction infos arbitrary: m) (auto intro: infos_keyed_update)

lemma infos_keyed_ids: "infos_keyed m \<Longrightarrow> ci_id ` set (map snd m) = fst ` set m"
  by (induction m) (auto simp: infos_keyed_def)

lemma keys_fold: "fst ` set (fold (\<lambda>i. AList.update (ci_id i) i) infos m) = ci_id ` set infos \<union> fst ` set m"
proof (induction infos arbitrary: m)
  case (Cons i infos)
  have "fst ` set (AList.update (ci_id i) i m) = insert (ci_id i) (fst ` set m)"
    by (metis dom_map_of_conv_image_fst AList.update_conv' dom_fun_upd option.simps(3))
  then show ?case using Cons.IH by auto
qed simp

lemma ParseContainerDetail_id [simp]: "ci_id (snd (ParseContainerDetail J response info)) = ci_id info"
  by (simp add: ParseContainerDetail_def split: option.split)

lemma detail_answer_keyed:
  assumes "detail_answer J cid (0, response) c = (c', list)" "infos_keyed (container_infos c)"
    and "cid \<in> fst ` set (container_infos c)"
  shows "infos_keyed (container_infos c')" "fst ` set (container_infos c') = fst ` set (container_infos c)"
proof -
  obtain old where old: "map_of (container_infos c) cid = Some old"
    using assms(3) by (metis map_of_eq_None_iff not_Some_eq)
  then have "ci_id old = cid" using assms(2) map_of_SomeD by (fastforce simp: infos_keyed_def)
  moreover have c': "container_infos c' = AList.update cid (snd (ParseContainerDetail J response old)) (container_infos c)"
    using assms(1) by (auto simp: detail_answer_def old Let_def)
  ultimately show "infos_keyed (container_infos c')" by (simp add: assms(2) infos_keyed_update)
  show "fst ` set (container_infos c') = fst ` set (container_infos c)"
    using assms(3) by (metis c' dom_map_of_conv_image_fst AList.update_conv' dom_fun_upd insert_absorb option.simps(3))
qed

lemma details_all_answered:
  assumes "outstanding s = map Detail_Request ids" "pending_tasks (client s) = of_nat (length ids)"
    and "ids \<noteq> []" "length ids < 2 ^ 32" "\<forall>i\<in>set ids. texts i \<noteq> []"
    and "infos_keyed (container_infos (client s))" "set ids \<subseteq> fst ` set (container_infos (client s))"
  shows "\<exists>t l. docker_run J (map (\<lambda>i. Answer (Detail_Request i) (Body (texts i)) take_all) ids) s = Inr t \<and>
    handed t = handed s @ [l] \<and> pending_tasks (client t) = 0 \<and> outstanding t = [] \<and> lost t = lost s \<and>
    ci_id ` set l = fst ` set (container_infos (client s))"
  using assms
proof (induction ids arbitrary: s)
  case (Cons i ids)
  obtain c list where da: "detail_answer J i (0, texts i) (client s) = (c, list)" by fastforce
  have "i \<in> fst ` set (container_infos (client s))" using Cons.prems(7) by simp
  note keyed = detail_answer_keyed [OF da Cons.prems(6) this]
  have pend: "pending_tasks c = of_nat (length ids)"
    using detail_answer_counts(1) [OF da] Cons.prems(2) by simp
  have "list = (if pending_tasks c = 0 then Some (map snd (container_infos c)) else None)"
    using da by (auto simp: detail_answer_def Let_def)
  moreover have "pending_tasks c = 0 \<longleftrightarrow> ids = []"
  proof -
    have "unat (pending_tasks c) = length ids" using pend Cons.prems(4) by (simp add: unat_of_nat)
    then show ?thesis by (metis length_0_conv unat_eq_zero)
  qed
  ultimately have list: "list = (if ids = [] then Some (map snd (container_infos c)) else None)" by simp
  define u where "u = s\<lparr>outstanding := map Detail_Request ids, client := c,
      handed := handed s @ (case list of None \<Rightarrow> [] | Some l \<Rightarrow> [l])\<rparr>"
  have step: "docker_step J (Answer (Detail_Request i) (Body (texts i)) take_all) s = Inr u"
    using Cons.prems(1,5) by (simp add: docker_step_def da u_def)
  show ?case
  proof (cases ids)
    case Nil
    have "ci_id ` set (map snd (container_infos c)) = fst ` set (container_infos (client s))"
      using infos_keyed_ids [OF keyed(1)] keyed(2) by simp
    then show ?thesis
      using step Nil list pend by (simp add: docker_run_def u_def)
  next
    case (Cons j js)
    have "\<exists>t l. docker_run J (map (\<lambda>i. Answer (Detail_Request i) (Body (texts i)) take_all) ids) u = Inr t \<and>
      handed t = handed u @ [l] \<and> pending_tasks (client t) = 0 \<and> outstanding t = [] \<and> lost t = lost u \<and>
      ci_id ` set l = fst ` set (container_infos (client u))"
      using Cons Cons.prems(4,5,7) keyed pend by (intro Cons.IH) (simp_all add: u_def)
    then show ?thesis using step Cons list keyed(2) by (simp add: docker_run_def u_def)
  qed
qed simp

section \<open>Properties\<close>

text \<open>C24: a list of containers is handed over only when every detail request ever made has been answered:
  as long as fewer than 2^32 detail requests are made, the first one that fails, is refused or is dropped
  with its connection ends the reports for good, whatever happens afterwards.\<close>

theorem lost_detail_ends_reports:
  assumes "docker_run J before (sys_of (DockerHttpClient is_socket up socket)) = Inr s"
    and "0 < lost s" "docker_run J after s = Inr t" "issued t < 2 ^ 32"
  shows "handed t = handed s"
proof -
  have "counts s"
    using docker_run_counts [OF assms(1)] counts_new [OF DockerHttpClient_pending] by (simp add: advances_def)
  with assms(2-4) show ?thesis
  proof (induction "after" arbitrary: s)
    case Nil
    then show ?case by (simp add: docker_run_def)
  next
    case (Cons e es)
    then obtain u where u: "docker_step J e s = Inr u" "docker_run J es u = Inr t"
      by (auto simp: docker_run_def cpp_simps)
    have one: "advances s u" by (rule docker_step_counts [OF u(1) Cons.prems(4)])
    moreover from this have later: "counts t \<and> issued u \<le> issued t"
      using docker_run_counts [OF u(2)] by (simp add: advances_def)
    ultimately have "handed u = handed s"
      using docker_step_silent [OF u(1) Cons.prems(4,1)] Cons.prems(3) by simp
    then show ?case
      using Cons.IH [OF _ u(2)] Cons.prems one by (simp add: advances_def)
  qed
qed

text \<open>A sample daemon with one container: \<open>L\<close> is the list, \<open>D\<close> a detail.\<close>

definition sample_docker :: "json docker_json" where
  "sample_docker =
     json_api.extend json_dom
       \<lparr>is_int = (\<lambda>v. case v of JUint n \<Rightarrow> True | _ \<Rightarrow> False), int_val = (\<lambda>v. case v of JUint n \<Rightarrow> n | _ \<Rightarrow> 0),
        is_int64 = (\<lambda>v. case v of JUint n \<Rightarrow> True | _ \<Rightarrow> False), int64_val = (\<lambda>v. case v of JUint n \<Rightarrow> ucast n | _ \<Rightarrow> 0),
        parse_doc = (\<lambda>t. if t = ''L'' then Some (JArray [JObject [(''Id'', JString ''a'')]])
          else if t = ''D'' then Some (JObject [(''State'', JObject [(''Pid'', JUint 7)])]) else None)\<rparr>"

definition sample_failure :: "docker_event list" where
  "sample_failure =
     [Timer True take_all, Timer True take_all, Answer List_Request (Body ''L'') take_all,
      Answer (Detail_Request ''a'') No_Request take_all]"

definition sample_later :: "docker_event list" where
  "sample_later =
     [Timer True take_all, Timer True take_all, Answer List_Request (Body ''L'') take_all,
      Answer (Detail_Request ''a'') (Body ''D'') take_all]"

lemmas sample_docker_defs =
  sample_docker_def sample_failure_def sample_later_def docker_run_def docker_step_def sys_of_def DockerHttpClient_def
  docker_client_new_def SetUnixDomainSocket_def AsyncGetContainerList_def Request_def take_all_def ParseContainerList_def
  list_element_def parse_container_def container_name_def ParseFromJson_string_def ParseFromJson_int64_def
  container_info_new_def after_list_def asked_details_def detail_answer_def ParseContainerDetail_def
  json_api.defs json_dom_def json_path.simps Let_def

theorem lost_detail_ends_reports_witness:
  "\<exists>s t. docker_run sample_docker sample_failure (sys_of (DockerHttpClient True True ''/s'')) = Inr s \<and>
     docker_run sample_docker sample_later s = Inr t \<and> 0 < lost s \<and> handed t = handed s"
proof -
  obtain s t where s: "docker_run sample_docker sample_failure (sys_of (DockerHttpClient True True ''/s'')) = Inr s"
    and t: "docker_run sample_docker sample_later s = Inr t" and n: "lost s = 1" "issued t = 2"
    by (simp add: sample_docker_defs)
  show ?thesis
    using lost_detail_ends_reports [OF s _ t] s t n by auto
qed

text \<open>C19: an undisturbed round reports every container. With no connection and nothing pending, the timer
  connects and asks for the list; when it is an array of objects with ids, each container is asked for, and
  the answers, in order, hand over exactly one list, which holds an entry for every container of the array
  (and for those of earlier rounds, which are never removed), and leave nothing pending.\<close>

theorem docker_round_reports:
  assumes "\<not> conn (client s)" "unix_domain_socket (client s) \<noteq> []" "pending_tasks (client s) = 0" "outstanding s = []"
    and "infos_keyed (container_infos (client s))" "response \<noteq> []"
    and "parse_doc J response = Some doc" "is_array J doc"
    and "list_all2 (\<lambda>v i. parse_container J v = Inr i) (array_elems J doc) infos" "infos \<noteq> []"
    and "\<forall>i\<in>set infos. ci_id i \<noteq> [] \<and> texts (ci_id i) \<noteq> []" "length infos < 2 ^ 32"
  shows "\<exists>t l. docker_run J ([Timer True take_all, Answer List_Request (Body response) take_all] @
        map (\<lambda>i. Answer (Detail_Request (ci_id i)) (Body (texts (ci_id i))) take_all) infos) s = Inr t \<and>
      handed t = handed s @ [l] \<and> ci_id ` set l = ci_id ` set infos \<union> fst ` set (container_infos (client s)) \<and>
      pending_tasks (client t) = 0 \<and> outstanding t = []"
proof -
  let ?c = "SetUnixDomainSocket True (unix_domain_socket (client s)) (client s)"
  let ?m = "fold (\<lambda>i. AList.update (ci_id i) i) infos (container_infos (client s))"
  let ?c2 = "?c\<lparr>container_infos := ?m, pending_tasks := of_nat (length infos)\<rparr>"
  define u where "u = after_list ?c2 (map Detail_Request (map ci_id infos)) (asked_details J response) (s\<lparr>outstanding := []\<rparr>)"
  have "conn ?c" using assms(1,2) by (simp add: SetUnixDomainSocket_def)
  then have list: "ParseContainerList J take_all response ?c = Inr (?c2, map Detail_Request (map ci_id infos))"
    using list_all_taken [OF _ assms(9), of ?c "[]"] assms(3,7,8,11) by (simp add: ParseContainerList_def comp_def)
  have start: "docker_run J [Timer True take_all, Answer List_Request (Body response) take_all] s = Inr u"
    using assms(2,4,6) list \<open>conn ?c\<close>
    by (simp add: docker_run_def docker_step_def AsyncGetContainerList_def Request_def take_all_def Let_def u_def after_list_def)
  have u: "handed u = handed s" "container_infos (client u) = ?m" by (simp_all add: u_def after_list_def)
  have "\<exists>t l. docker_run J (map (\<lambda>i. Answer (Detail_Request i) (Body (texts i)) take_all) (map ci_id infos)) u = Inr t \<and>
      handed t = handed u @ [l] \<and> pending_tasks (client t) = 0 \<and> outstanding t = [] \<and> lost t = lost u \<and>
      ci_id ` set l = fst ` set (container_infos (client u))"
    using assms(5,10-12) by (intro details_all_answered) (simp_all add: u_def after_list_def keys_fold infos_keyed_fold)
  then show ?thesis
    unfolding docker_run_append start bind_r_simps by (simp add: u keys_fold comp_def) blast
qed

theorem docker_round_reports_witness:
  "\<exists>t l. docker_run sample_docker ([Timer True take_all, Answer List_Request (Body ''L'') take_all] @
        map (\<lambda>i. Answer (Detail_Request (ci_id i)) (Body ((\<lambda>_. ''D'') (ci_id i))) take_all)
          [container_info_new\<lparr>ci_id := ''a''\<rparr>])
      (sys_of (docker_client_new\<lparr>unix_domain_socket := ''/s''\<rparr>)) = Inr t \<and>
    handed t = handed (sys_of (docker_client_new\<lparr>unix_domain_socket := ''/s''\<rparr>)) @ [l] \<and>
    ci_id ` set l = ci_id ` set [container_info_new\<lparr>ci_id := ''a''\<rparr>] \<union>
      fst ` set (container_infos (client (sys_of (docker_client_new\<lparr>unix_domain_socket := ''/s''\<rparr>)))) \<and>
    pending_tasks (client t) = 0 \<and> outstanding t = []"
  by (rule docker_round_reports [where doc = "JArray [JObject [(''Id'', JString ''a'')]]"])
    (simp_all add: sample_docker_defs infos_keyed_def)

text \<open>The timer frees the connection every other time, and asks for nothing then.\<close>

lemma timer_alternates:
  assumes "unix_domain_socket c \<noteq> []" "AsyncGetContainerList True take_all c = (c', sent)"
  shows "conn c' = (\<not> conn c) \<and> sent = (if conn c then [] else [List_Request]) \<and> unix_domain_socket c' = unix_domain_socket c"
  using assms by (auto simp: AsyncGetContainerList_def SetUnixDomainSocket_def Request_def take_all_def Let_def split: if_splits)

end
