(* ===== verification/Container_Collector.thy ===== *)
theory Container_Collector
  imports Docker_Client Proc_Reader
begin

text \<open>
  The containers of the machine: app/source/source/host/collector/container/container_collector.cc, which
  keeps the last list of the Docker client, and docker_cri_client.cc, which asks a CRI runtime. A message
  \<open>ContainerInfo\<close> is a record of what the code sets; a statistic that was never set is \<open>None\<close>. How many
  elements protobuf has allocated for a repeated field is a parameter. The CRI client's gRPC calls are
  events, as libevent's are for the Docker client.
\<close>

section \<open>Messages\<close>

record 'd container_stats =
  cs_cpu :: "('d \<times> 'd \<times> 'd) option"
  cs_rss_usage :: "'d option"
  cs_memory_cache :: "64 word"
  cs_memory_rss :: "64 word"
  cs_memory_pct :: "'d option"
  cs_rx_bytes :: "64 word"
  cs_tx_bytes :: "64 word"
  cs_io_rates :: "('d \<times> 'd) option"

record 'd container_message =
  cm_id :: string
  cm_name :: string
  cm_state :: string
  cm_start_time :: "64 word"
  cm_running_time :: "64 word"
  cm_command :: string
  cm_image_name :: string
  cm_pid :: "32 word"
  cm_memory_limit :: "64 word"
  cm_memory_rss :: "64 word"
  cm_stats :: "'d container_stats option"

definition container_message_new :: "'d container_message" where
  "container_message_new =
     \<lparr>cm_id = [], cm_name = [], cm_state = [], cm_start_time = 0, cm_running_time = 0, cm_command = [],
      cm_image_name = [], cm_pid = 0, cm_memory_limit = 0, cm_memory_rss = 0, cm_stats = None\<rparr>"

section \<open>The collector\<close>

text \<open>The pid goes into the running time, and the field of the pid is not set.\<close>

definition container_of_info :: "container_info \<Rightarrow> 'd container_message" where
  "container_of_info c =
     container_message_new
       \<lparr>cm_id := ci_id c, cm_name := ci_name c, cm_state := ci_state c, cm_start_time := ci_created c,
        cm_running_time := scast (ci_pid c), cm_command := ci_command c\<rparr>"

definition OnContainerList :: "container_info list \<Rightarrow> 'd container_message list" where
  "OnContainerList l = map container_of_info l"

text \<open>The statistics of a process become a message of their own; a memory usage that was never set reads
  as zeros, and its \<open>swap\<close> is set nowhere.\<close>

definition stats_of_process :: "'d process_info \<Rightarrow> 'd container_stats" where
  "stats_of_process p =
     (let m = (case pi_memory p of None \<Rightarrow> memory_usage_new | Some m \<Rightarrow> m)
      in \<lparr>cs_cpu = pi_cpu_pct p, cs_rss_usage = mu_rss_pct m, cs_memory_cache = 0, cs_memory_rss = mu_resident m,
          cs_memory_pct = mu_vm_pct m, cs_rx_bytes = pi_read_bytes p, cs_tx_bytes = pi_write_bytes p,
          cs_io_rates = pi_io_rates p\<rparr>)"

text \<open>The loop runs over the list it appends to: behind an append beyond the allocated \<open>cap\<close> elements its
  iterator points to the old array.\<close>

fun attach_stats ::
  "nat \<Rightarrow> (32 word \<times> 'd process_sample) list \<Rightarrow> bool \<Rightarrow> 'd container_message list \<Rightarrow> 'd container_message list \<Rightarrow>
     'd container_message list result" where
  "attach_stats cap table moved [] msgs = Inr msgs"
| "attach_stats cap table moved (c # cs) msgs =
     (if moved then Inl Dangling_Deref
      else case map_of table (cm_pid c) of
             None \<Rightarrow> attach_stats cap table moved cs msgs
           | Some s \<Rightarrow>
               attach_stats cap table (cap < length msgs + 1) cs
                 (msgs @ [container_message_new\<lparr>cm_stats := Some (stats_of_process (sample_process s))\<rparr>]))"

definition GetContainerList ::
  "(nat \<Rightarrow> nat) \<Rightarrow> (32 word \<times> 'd process_sample) list \<Rightarrow> 'd container_message list \<Rightarrow> 'd container_message list result" where
  "GetContainerList allocated table request =
     (if request = [] then Inr [] else attach_stats (allocated (length request)) table False request request)"

section \<open>The CRI client\<close>

datatype cri_state = CONTAINER_CREATED | CONTAINER_RUNNING | CONTAINER_EXITED | CONTAINER_UNKNOWN | Other_State int

record cri_container =
  cri_id :: string
  cri_state :: cri_state
  cri_image :: string
  cri_created_at :: "64 word"

record cri_stats =
  rss_bytes :: "64 word"
  working_set_bytes :: "64 word"

fun cri_state_name :: "cri_state \<Rightarrow> string" where
  "cri_state_name CONTAINER_CREATED = ''created''"
| "cri_state_name CONTAINER_EXITED = ''exited''"
| "cri_state_name CONTAINER_RUNNING = ''running''"
| "cri_state_name CONTAINER_UNKNOWN = ''unknown''"
| "cri_state_name (Other_State n) = ''unknown''"

definition cri_item :: "cri_container \<Rightarrow> 'd container_message" where
  "cri_item c =
     container_message_new
       \<lparr>cm_id := cri_id c, cm_state := cri_state_name (cri_state c), cm_image_name := cri_image c,
        cm_start_time := cri_created_at c\<rparr>"

text \<open>The state: the collected request and the items whose statistics were asked for.\<close>

record 'd cri_client =
  cri_request :: "'d container_message list"
  cri_asked :: "'d container_message list"

definition cri_client_new :: "'d cri_client" where
  "cri_client_new = \<lparr>cri_request = [], cri_asked = []\<rparr>"

definition cri_timer :: "'d cri_client \<Rightarrow> 'd cri_client" where
  "cri_timer c = c\<lparr>cri_request := []\<rparr>"

definition OnListContainersResp :: "cri_container list \<Rightarrow> 'd cri_client \<Rightarrow> 'd cri_client" where
  "OnListContainersResp response c = c\<lparr>cri_asked := cri_asked c @ map cri_item response\<rparr>"

definition OnContainerInfoResp :: "'d container_message \<Rightarrow> cri_stats \<Rightarrow> 'd cri_client \<Rightarrow> 'd cri_client" where
  "OnContainerInfoResp item stats c =
     c\<lparr>cri_request := cri_request c @
         [item\<lparr>cm_memory_rss := rss_bytes stats, cm_memory_limit := working_set_bytes stats\<rparr>]\<rparr>"

text \<open>The answer to the \<open>i\<close>-th outstanding call: a failed one drops its item.\<close>

definition cri_answer :: "nat \<Rightarrow> cri_stats option \<Rightarrow> 'd cri_client \<Rightarrow> 'd cri_client" where
  "cri_answer i answer c =
     (if i < length (cri_asked c)
      then let c1 = c\<lparr>cri_asked := take i (cri_asked c) @ drop (Suc i) (cri_asked c)\<rparr>
           in (case answer of None \<Rightarrow> c1 | Some stats \<Rightarrow> OnContainerInfoResp (cri_asked c ! i) stats c1)
      else c)"

definition cri_GetContainerList :: "'d cri_client \<Rightarrow> 'd container_message list \<times> 'd cri_client" where
  "cri_GetContainerList c = (cri_request c, c\<lparr>cri_request := []\<rparr>)"

section \<open>Lemmas\<close>

lemma container_of_info_pid [simp]: "cm_pid (container_of_info c) = 0"
  by (simp add: container_of_info_def container_message_new_def)

lemma container_of_info_stats [simp]: "cm_stats (container_of_info c) = None"
  by (simp add: container_of_info_def container_message_new_def)

lemma attach_stats_none:
  "map_of table 0 = None \<Longrightarrow> \<forall>c\<in>set cs. cm_pid c = 0 \<Longrightarrow> attach_stats cap table False cs msgs = Inr msgs"
  by (induction cs) auto

text \<open>With pids the loop would follow a freed array as soon as two processes were found and the copied
  request was full.\<close>

lemma attach_stats_dangles:
  assumes "map_of table (cm_pid c) \<noteq> None" "cap \<le> length msgs"
  shows "attach_stats cap table False (c # d # cs) msgs = Inl Dangling_Deref"
  using assms by auto

lemma cri_drained: "cri_GetContainerList c = (l, c') \<Longrightarrow> cri_GetContainerList c' = ([], c')"
  by (auto simp: cri_GetContainerList_def)

section \<open>Properties\<close>

text \<open>No container ever gets statistics. Whatever list the Docker client hands over, its messages carry
  no pid; so as long as no process has the pid zero, the report is the list itself, without the usage of a
  single container, and each container's running time is its pid.\<close>

lemma containers_without_statistics:
  fixes table :: "(32 word \<times> 'd process_sample) list"
  assumes "map_of table 0 = None"
  shows "GetContainerList allocated table (OnContainerList l) = Inr (OnContainerList l) \<and>
    (\<forall>m\<in>set (OnContainerList l :: 'd container_message list). cm_stats m = None) \<and>
    map cm_running_time (OnContainerList l :: 'd container_message list) = map (\<lambda>c. scast (ci_pid c)) l"
proof -
  have "\<forall>m\<in>set (OnContainerList l :: 'd container_message list). cm_pid m = 0 \<and> cm_stats m = None"
    by (simp add: OnContainerList_def)
  then show ?thesis
    using attach_stats_none [OF assms, of "OnContainerList l"]
    by (simp add: GetContainerList_def OnContainerList_def container_of_info_def container_message_new_def comp_def)
qed

lemma containers_without_statistics_witness:
  "GetContainerList (\<lambda>n. n) [(7 :: 32 word, sample_new 7 :: int process_sample)]
      (OnContainerList [container_info_new\<lparr>ci_pid := 7\<rparr>]) =
     Inr (OnContainerList [container_info_new\<lparr>ci_pid := 7\<rparr>] :: int container_message list) \<and>
   map cm_running_time (OnContainerList [container_info_new\<lparr>ci_pid := 7\<rparr>] :: int container_message list) =
     map (\<lambda>c. scast (ci_pid c)) [container_info_new\<lparr>ci_pid := 7\<rparr>]"
  using containers_without_statistics
    [of "[(7 :: 32 word, sample_new 7 :: int process_sample)]" "\<lambda>n. n" "[container_info_new\<lparr>ci_pid := 7\<rparr>]"]
  by simp

end
