(* ===== verification/Cri_Calls.thy ===== *)
theory Cri_Calls
  imports Container_Collector
begin

text \<open>
  The calls of the CRI client, the first half of
  app/source/source/host/collector/container/docker_cri_client.cc: its constructor, the timer that asks for the
  list of containers every three seconds, and the call objects, each allocated with \<open>new\<close> and deleted by nobody.
  \<open>Container_Collector\<close> has what the answers do to the request. gRPC's answers and the reports of the host source
  are events in any order.
\<close>

section \<open>Call objects\<close>

record cri_call =
  uc_metadata :: "(string \<times> string) list"
  uc_deadline :: nat

text \<open>The headers become metadata of the call; its deadline is five seconds away.\<close>

definition cri_call_new :: "(string \<times> string) list \<Rightarrow> nat \<Rightarrow> cri_call" where
  "cri_call_new headers now = \<lparr>uc_metadata = headers, uc_deadline = now + 5\<rparr>"

definition unary_OnDone :: "('r \<Rightarrow> 's \<Rightarrow> 's) option \<Rightarrow> 'r \<Rightarrow> 's \<Rightarrow> 's" where
  "unary_OnDone callback r s = (case callback of None \<Rightarrow> s | Some f \<Rightarrow> f r s)"

section \<open>The client\<close>

text \<open>\<open>cri_live\<close>: call objects on the heap; \<open>cri_lists\<close>: calls for the list without an answer; \<open>cri_lost\<close>: items
  no message owns.\<close>

record 'd cri_world =
  cri :: "'d cri_client"
  cri_server :: "string option"
  cri_clock :: nat
  cri_live :: "cri_call list"
  cri_lists :: nat
  cri_lost :: "'d container_message list"

definition cri_headers :: "(string \<times> string) list" where "cri_headers = []"

definition cri_init :: "(string \<Rightarrow> bool) \<Rightarrow> string \<Rightarrow> 'd cri_world" where
  "cri_init IsUnixDomainSocket api_server_address =
     \<lparr>cri = cri_client_new,
      cri_server = (if api_server_address = [] then None
                    else if \<not> IsUnixDomainSocket api_server_address then None
                    else Some (''unix:'' @ api_server_address)),
      cri_clock = 0, cri_live = [], cri_lists = 0, cri_lost = []\<rparr>"

definition cri_AsyncGetContainerList :: "'d cri_world \<Rightarrow> 'd cri_world" where
  "cri_AsyncGetContainerList w =
     w\<lparr>cri_live := cri_live w @ [cri_call_new cri_headers (cri_clock w)], cri_lists := Suc (cri_lists w)\<rparr>"

definition cri_timer_fires :: "'d cri_world \<Rightarrow> 'd cri_world" where
  "cri_timer_fires w = cri_AsyncGetContainerList (w\<lparr>cri := cri_timer (cri w), cri_clock := cri_clock w + 3\<rparr>)"

text \<open>The answer with the list starts one call per container.\<close>

definition list_done :: "cri_container list option \<Rightarrow> 'd cri_world \<Rightarrow> 'd cri_world" where
  "list_done answer w =
     (case answer of
        None \<Rightarrow> w\<lparr>cri_lists := cri_lists w - 1\<rparr>
      | Some response \<Rightarrow>
          w\<lparr>cri_lists := cri_lists w - 1, cri := OnListContainersResp response (cri w),
            cri_live := cri_live w @ replicate (length response) (cri_call_new cri_headers (cri_clock w))\<rparr>)"

definition stats_done :: "nat \<Rightarrow> cri_stats option \<Rightarrow> 'd cri_world \<Rightarrow> 'd cri_world" where
  "stats_done i answer w =
     w\<lparr>cri := cri_answer i answer (cri w),
       cri_lost := (if answer = None then cri_lost w @ [cri_asked (cri w) ! i] else cri_lost w)\<rparr>"

datatype cri_event = Cri_Tick | List_Done "cri_container list option" | Stats_Done nat "cri_stats option" | Cri_Report

text \<open>What can happen: the timer only of a client with a server, answers only to calls that wait.\<close>

fun cri_enabled :: "cri_event \<Rightarrow> 'd cri_world \<Rightarrow> bool" where
  "cri_enabled Cri_Tick w = (cri_server w \<noteq> None)"
| "cri_enabled (List_Done a) w = (0 < cri_lists w)"
| "cri_enabled (Stats_Done i a) w = (i < length (cri_asked (cri w)))"
| "cri_enabled Cri_Report w = True"

fun cri_step :: "cri_event \<Rightarrow> 'd cri_world \<Rightarrow> 'd cri_world" where
  "cri_step Cri_Tick w = cri_timer_fires w"
| "cri_step (List_Done a) w = list_done a w"
| "cri_step (Stats_Done i a) w = stats_done i a w"
| "cri_step Cri_Report w = w\<lparr>cri := snd (cri_GetContainerList (cri w))\<rparr>"

inductive cri_run :: "'d cri_world \<Rightarrow> cri_event list \<Rightarrow> 'd cri_world \<Rightarrow> bool" for w where
  Cri_start: "cri_run w [] w"
| Cri_more: "cri_run w es v \<Longrightarrow> cri_enabled e v \<Longrightarrow> cri_run w (es @ [e]) (cri_step e v)"

section \<open>Lemmas\<close>

text \<open>Calls that an event starts.\<close>

fun calls_started :: "cri_event \<Rightarrow> nat" where
  "calls_started Cri_Tick = 1"
| "calls_started (List_Done (Some response)) = length response"
| "calls_started _ = 0"

lemma cri_step_live: "length (cri_live (cri_step e w)) = length (cri_live w) + calls_started e"
  by (cases "(e, w)" rule: cri_step.cases)
    (auto simp: cri_timer_fires_def cri_AsyncGetContainerList_def list_done_def stats_done_def split: option.splits)

text \<open>Every call object that was ever allocated is still there.\<close>

lemma calls_never_freed: "cri_run w es v \<Longrightarrow> length (cri_live v) = length (cri_live w) + sum_list (map calls_started es)"
  by (induction rule: cri_run.induct) (simp_all add: cri_step_live)

text \<open>A list call waits, was answered with a list, or failed; a container's call waits, its item is in no message
  any more, or was handed on: nothing is counted twice.\<close>

definition cri_accounts :: "'d cri_world \<Rightarrow> bool" where
  "cri_accounts w \<longleftrightarrow>
     cri_lists w + length (cri_asked (cri w)) + length (cri_lost w) + length (cri_request (cri w)) \<le> length (cri_live w)"

lemma cri_accounts_step:
  assumes "cri_enabled e w" "cri_accounts w"
  shows "cri_accounts (cri_step e w)"
proof (cases e)
  case Cri_Tick
  then show ?thesis using assms(2)
    by (simp add: cri_accounts_def cri_timer_fires_def cri_AsyncGetContainerList_def cri_timer_def)
next
  case (List_Done a)
  then show ?thesis using assms
    by (cases a) (simp_all add: cri_accounts_def list_done_def OnListContainersResp_def)
next
  case (Stats_Done i a)
  then show ?thesis using assms
    by (cases a) (simp_all add: cri_accounts_def stats_done_def cri_answer_def OnContainerInfoResp_def Let_def)
next
  case Cri_Report
  then show ?thesis using assms(2) by (simp add: cri_accounts_def cri_GetContainerList_def)
qed

lemma cri_accounts_run: "cri_run (cri_init sock addr) es v \<Longrightarrow> cri_accounts v"
proof (induction rule: cri_run.induct)
  case Cri_start
  show ?case by (simp add: cri_accounts_def cri_init_def cri_client_new_def)
qed (rule cri_accounts_step)

text \<open>Without an address that is a socket, nothing is ever asked and every report is empty.\<close>

lemma no_server_no_containers:
  assumes "cri_run (cri_init sock addr) es v" "addr = [] \<or> \<not> sock addr"
  shows "cri_server v = None \<and> cri_live v = [] \<and> cri_lists v = 0 \<and> cri v = cri_client_new"
  using assms(1)
proof (induction rule: cri_run.induct)
  case (Cri_more es v e)
  then show ?case by (cases e) (simp_all add: cri_client_new_def cri_GetContainerList_def)
qed (use assms(2) in \<open>auto simp: cri_init_def\<close>)

text \<open>An answer that is late by one timer tick is counted beside the new one: a container is listed twice.\<close>

definition late_answer :: "cri_container \<Rightarrow> cri_stats \<Rightarrow> cri_event list" where
  "late_answer c s =
     [Cri_Tick, List_Done (Some [c]), Cri_Tick, List_Done (Some [c]), Stats_Done 0 (Some s), Stats_Done 0 (Some s)]"

lemma container_listed_twice:
  "sock addr \<Longrightarrow> addr \<noteq> [] \<Longrightarrow>
     map cm_id (fst (cri_GetContainerList (cri (fold cri_step (late_answer c s) (cri_init sock addr))))) = [cri_id c, cri_id c]"
  by (simp add: late_answer_def cri_init_def cri_client_new_def cri_timer_fires_def cri_AsyncGetContainerList_def list_done_def
      stats_done_def cri_timer_def OnListContainersResp_def cri_answer_def OnContainerInfoResp_def
      cri_GetContainerList_def Let_def cri_item_def container_message_new_def)

end
