(* ===== verification/Hex_Numbers.thy ===== *)
theory Hex_Numbers
  imports Sky_Ids
begin

text \<open>
  The functions of app/include/common/hex.h that no conversion of an id uses: the two decimal readers
  \<open>atoint128_t\<close> and \<open>atoi64_t\<close>, and the \<open>HexDecode\<close> that returns its bytes, whose result is a view of sixteen
  bytes at the null pointer. Signed overflow is undefined in C++; as the compiler's instructions do, the
  readers wrap, and the lemmas say for which texts they need not.
\<close>

section \<open>Decimal readers\<close>

text \<open>\<open>val * 10 + (*p - '0')\<close> up to the first other character; the text ends with a null.\<close>

fun decimal_loop :: "string \<Rightarrow> 'w::len word \<Rightarrow> 'w word" where
  "decimal_loop [] v = v"
| "decimal_loop (c # cs) v = (if is_digit c then decimal_loop cs (10 * v + of_nat (digit_val c)) else v)"

definition signed_decimal :: "string \<Rightarrow> 'w::len word" where
  "signed_decimal s =
     (case s of
        [] \<Rightarrow> 0
      | c # cs \<Rightarrow>
          if c = CHR ''-'' then decimal_loop cs 0 * (- 1)
          else if c = CHR ''+'' then decimal_loop cs 0
          else decimal_loop s 0)"

definition atoint128_t :: "string \<Rightarrow> 128 word" where "atoint128_t s = signed_decimal s"

definition atoi64_t :: "string \<Rightarrow> 64 word" where "atoi64_t s = signed_decimal s"

section \<open>Bytes of a hexadecimal text\<close>

text \<open>The digits are taken from the right; other characters are skipped. The first digit is written to the
  last byte of the view.\<close>

fun has_hex_digit :: "string \<Rightarrow> bool" where
  "has_hex_digit [] = False"
| "has_hex_digit (c # cs) = (FromHex (of_char c) \<noteq> - 1 \<or> has_hex_digit cs)"

definition HexDecode_view :: "string \<Rightarrow> span_ref result" where
  "HexDecode_view hex = (if has_hex_digit (rev hex) then Inl Null_Deref else Inr Null_Span)"

section \<open>Lemmas\<close>

lemma decimal_loop_digits:
  "\<forall>c\<in>set ds. is_digit c \<Longrightarrow> decimal_loop (ds @ rest) (of_nat a :: 'w::len word) =
     decimal_loop rest (of_nat (foldl (\<lambda>a c. 10 * a + digit_val c) a ds))"
proof (induction ds arbitrary: a)
  case (Cons d ds)
  then show ?case using Cons.IH [of "10 * a + digit_val d"] by simp
qed simp

text \<open>A decimal number is read back modulo the width, whatever follows it.\<close>

lemma signed_decimal_dec:
  assumes "rest = [] \<or> \<not> is_digit (hd rest)"
  shows "signed_decimal (dec_of_nat n @ rest) = (of_nat n :: 'w::len word)"
    and "signed_decimal (CHR ''-'' # dec_of_nat n @ rest) = (- of_nat n :: 'w::len word)"
proof -
  have stop: "decimal_loop rest v = v" for v :: "'w word" using assms by (cases rest) auto
  have loop: "decimal_loop (dec_of_nat n @ rest) 0 = (of_nat n :: 'w word)"
    using decimal_loop_digits [where ?'w = 'w, OF dec_of_nat_digits, of n rest 0] nat_of_digits_dec_of_nat [of n]
    by (simp add: stop nat_of_digits_def)
  obtain c cs where c: "dec_of_nat n = c # cs" using dec_of_nat_nonempty [of n] by (cases "dec_of_nat n") auto
  then have "is_digit c" using dec_of_nat_digits [of n] by simp
  then have "c \<noteq> CHR ''-''" "c \<noteq> CHR ''+''" by (auto simp: is_digit_def)
  then show "signed_decimal (dec_of_nat n @ rest) = (of_nat n :: 'w word)"
    using loop c by (simp add: signed_decimal_def)
  show "signed_decimal (CHR ''-'' # dec_of_nat n @ rest) = (- of_nat n :: 'w word)"
    using loop by (simp add: signed_decimal_def)
qed

text \<open>A text with a digit is written through the null pointer; any other yields a view of nothing.\<close>

lemma hex_view_faults: "\<exists>c\<in>set hex. FromHex (of_char c) \<noteq> - 1 \<Longrightarrow> HexDecode_view hex = Inl Null_Deref"
proof -
  have "has_hex_digit s \<longleftrightarrow> (\<exists>c\<in>set s. FromHex (of_char c) \<noteq> - 1)" for s by (induction s) auto
  then show "\<exists>c\<in>set hex. FromHex (of_char c) \<noteq> - 1 \<Longrightarrow> HexDecode_view hex = Inl Null_Deref"
    by (simp add: HexDecode_view_def)
qed

end
