(* ===== verification/C_Stdio.thy ===== *)
theory C_Stdio
  imports C_Scan
begin

text \<open>
  Reading files as sysstat's code does, with \<open>fgets\<close> into a buffer of a given size and \<open>sscanf\<close> with
  unsigned and signed numbers, literal characters, words and runs of other characters. A scan yields the
  converted values, so their number is what \<open>sscanf\<close> returns (an input that ends before the first
  conversion, where it returns \<open>EOF\<close>, yields none as well).
\<close>

section \<open>Lines\<close>

text \<open>The pieces successive calls of \<open>fgets(line, n, fp)\<close> return: up to a line end, which is kept, or
  \<open>n - 1\<close> characters.\<close>

fun fgets_piece :: "nat \<Rightarrow> string \<Rightarrow> string \<times> string" where
  "fgets_piece n [] = ([], [])"
| "fgets_piece 0 (c # cs) = ([], c # cs)"
| "fgets_piece (Suc n) (c # cs) =
     (if c = CHR 0x0A then ([c], cs) else let (p, r) = fgets_piece n cs in (c # p, r))"

lemma fgets_piece_split: "fgets_piece n s = (p, r) \<Longrightarrow> s = p @ r"
  by (induction n s arbitrary: p rule: fgets_piece.induct) (auto split: if_splits prod.splits)

lemma fgets_piece_progress: "fgets_piece (Suc n) (c # cs) = (p, r) \<Longrightarrow> length r < length (c # cs)"
  using fgets_piece_split [of n cs] by (auto split: if_splits prod.splits)

function fgets_lines :: "nat \<Rightarrow> string \<Rightarrow> string list" where
  "fgets_lines n s =
     (if s = [] \<or> n < 2 then [] else let (p, r) = fgets_piece (n - 1) s in p # fgets_lines n r)"
  by pat_completeness auto
termination
proof (relation "measure (\<lambda>(n, s). length s)")
  fix n :: nat and s :: string and x p r
  assume "\<not> (s = [] \<or> n < 2)" "x = fgets_piece (n - 1) s" "(p, r) = x"
  then show "((n, r), (n, s)) \<in> measure (\<lambda>(n, s). length s)"
    using fgets_piece_progress [of "n - 2" "hd s" "tl s" p r] by (cases s) (auto simp: Suc_diff_Suc numeral_2_eq_2)
qed simp

declare fgets_lines.simps [simp del]

lemma fgets_lines_Nil [simp]: "fgets_lines n [] = []"
  by (simp add: fgets_lines.simps)

text \<open>A line that fits is returned whole.\<close>

lemma fgets_piece_line:
  "CHR 0x0A \<notin> set l \<Longrightarrow> length l < n \<Longrightarrow> fgets_piece n (l @ CHR 0x0A # s) = (l @ [CHR 0x0A], s)"
proof (induction l arbitrary: n)
  case Nil
  then show ?case by (cases n) auto
next
  case (Cons c l)
  then show ?case by (cases n) auto
qed

lemma fgets_lines_line:
  assumes "CHR 0x0A \<notin> set l" "length l + 1 < n"
  shows "fgets_lines n (l @ CHR 0x0A # s) = (l @ [CHR 0x0A]) # fgets_lines n s"
  using fgets_piece_line [OF assms(1), of "n - 1" s] assms(2) by (simp add: fgets_lines.simps [of n "l @ CHR 0x0A # s"])

lemma fgets_lines_concat:
  "\<forall>l\<in>set ls. CHR 0x0A \<notin> set l \<and> length l + 1 < n \<Longrightarrow>
     fgets_lines n (concat (map (\<lambda>l. l @ [CHR 0x0A]) ls)) = map (\<lambda>l. l @ [CHR 0x0A]) ls"
  by (induction ls) (simp_all add: fgets_lines_line)

section \<open>Scanning\<close>

text \<open>\<open>%d\<close>: \<open>strtol\<close>, of which the caller takes the low bits.\<close>

definition scan_long :: "string \<Rightarrow> (64 word \<times> string) option" where
  "scan_long s = (case scan_int s of None \<Rightarrow> None | Some v \<Rightarrow> map_option (\<lambda>(_, r). (word_of_int (clamp_long v), r)) (scan_ulong s))"

datatype directive = Sc_Unsigned | Sc_Signed | Sc_Lit char | Sc_Until char | Sc_Word "nat option"

datatype scanned = Number "64 word" | Text string

fun number_of :: "scanned \<Rightarrow> 64 word" where
  "number_of (Number v) = v"
| "number_of (Text s) = 0"

fun text_of :: "scanned \<Rightarrow> string" where
  "text_of (Text s) = s"
| "text_of (Number v) = []"

fun scan_one :: "directive \<Rightarrow> string \<Rightarrow> (scanned list \<times> string) option" where
  "scan_one Sc_Unsigned s = map_option (\<lambda>(v, r). ([Number v], r)) (scan_ulong s)"
| "scan_one Sc_Signed s = map_option (\<lambda>(v, r). ([Number v], r)) (scan_long s)"
| "scan_one (Sc_Lit c) s = (case s of [] \<Rightarrow> None | x # xs \<Rightarrow> if x = c then Some ([], xs) else None)"
| "scan_one (Sc_Until c) s =
     (let t = takeWhile (\<lambda>x. x \<noteq> c) s in if t = [] then None else Some ([Text t], drop (length t) s))"
| "scan_one (Sc_Word width) s =
     (let t = dropWhile is_space s;
          w = takeWhile (\<lambda>x. \<not> is_space x) t;
          v = (case width of None \<Rightarrow> w | Some n \<Rightarrow> take n w)
      in if v = [] then None else Some ([Text v], drop (length v) t))"

fun sscanf :: "directive list \<Rightarrow> string \<Rightarrow> scanned list" where
  "sscanf [] s = []"
| "sscanf (d # ds) s = (case scan_one d s of None \<Rightarrow> [] | Some (vs, r) \<Rightarrow> vs @ sscanf ds r)"

lemma sscanf_length: "length (sscanf ds s) \<le> length ds"
proof (induction ds s rule: sscanf.induct)
  case (2 d ds s)
  have "length vs \<le> 1" if "scan_one d s = Some (vs, r)" for vs r
    using that by (cases d) (auto simp: Let_def split: if_splits list.splits)
  then show ?case using 2 by (fastforce split: option.splits)
qed simp

text \<open>A row of numbers is read as far as it goes.\<close>

lemma sscanf_row:
  assumes "blanks sep" "sep \<noteq> []" "\<forall>n\<in>set ns. n \<le> ulong_max" "length ns \<le> k"
    and "rest = [] \<or> \<not> is_digit (hd rest)" "length ns < k \<longrightarrow> scan_ulong rest = None"
  shows "sscanf (replicate k Sc_Unsigned) (print_row sep ns @ rest) = map (\<lambda>n. Number (of_nat n)) ns"
  using assms(3,4,6)
proof (induction ns arbitrary: k)
  case Nil
  then show ?case by (cases k) auto
next
  case (Cons n ns)
  obtain j where k: "k = Suc j" using Cons.prems(2) by (cases k) auto
  have "scan_ulong (sep @ dec_of_nat n @ print_row sep ns @ rest) = Some (of_nat n, print_row sep ns @ rest)"
    using Cons.prems by (intro scan_ulong_dec assms(1) print_row_hd [OF assms(1,2,5)]) simp
  then show ?case using Cons by (simp add: k)
qed

end
