(* ===== verification/Iostat_Common.thy ===== *)
theory Iostat_Common
  imports C_Stdio Parser_Util
begin

text \<open>
  The helpers of the iostat port: app/source/source/host/collector/iostat/common.cc and the macros of
  common.h. A bitmap of processors is a list of bytes, and writing or reading behind its end is
  \<open>Out_Of_Bounds\<close>; \<open>exit\<close> is \<open>Process_Exit\<close>. An \<open>int\<close> the code only compares is an \<open>int\<close> here, with
  \<open>atoi\<close> cutting to 32 bits.
\<close>

section \<open>Rates\<close>

text \<open>\<open>S_VALUE\<close> and \<open>SP_VALUE\<close>: the difference is taken on counters, so it wraps.\<close>

definition S_VALUE :: "'d double_ops \<Rightarrow> 64 word \<Rightarrow> 64 word \<Rightarrow> 64 word \<Rightarrow> 'd" where
  "S_VALUE D m n p = d_mul D (d_div D (d_of_u64 D (n - m)) (d_of_u64 D p)) (d_of_long D 100)"

definition ll_sp_value :: "'d double_ops \<Rightarrow> 64 word \<Rightarrow> 64 word \<Rightarrow> 64 word \<Rightarrow> 'd" where
  "ll_sp_value D value1 value2 itv = (if value2 < value1 then d_of_long D 0 else S_VALUE D value1 value2 itv)"

section \<open>Checked products\<close>

definition uint_max :: "64 word" where "uint_max = 0xFFFFFFFF"

definition mul_check_overflow3 :: "64 word \<Rightarrow> 64 word \<Rightarrow> 64 word \<Rightarrow> (64 word) result" where
  "mul_check_overflow3 a b c =
     (if a \<noteq> 0 \<and> b \<noteq> 0 \<and> c \<noteq> 0 \<and> (uint_max < a \<or> uint_max div a < b \<or> uint_max div (a * b) < c)
      then Inl Process_Exit else Inr (a * b * c))"

definition mul_check_overflow4 :: "64 word \<Rightarrow> 64 word \<Rightarrow> 64 word \<Rightarrow> 64 word \<Rightarrow> (64 word) result" where
  "mul_check_overflow4 a b c d =
     (if a \<noteq> 0 \<and> b \<noteq> 0 \<and> c \<noteq> 0 \<and> d \<noteq> 0 \<and>
         (uint_max < a \<or> uint_max div a < b \<or> uint_max div (a * b) < c \<or> uint_max div (a * b * c) < d)
      then Inl Process_Exit else Inr (a * b * c * d))"

section \<open>Bitmaps\<close>

definition BITMAP_SIZE :: "nat \<Rightarrow> nat" where
  "BITMAP_SIZE m = (m + 1) div 8 + 1"

definition SET_CPU_BITMAP :: "nat \<Rightarrow> 8 word list \<Rightarrow> (8 word list) result" where
  "SET_CPU_BITMAP cpu bitmap =
     (if cpu div 8 < length bitmap
      then Inr (bitmap[cpu div 8 := or (bitmap ! (cpu div 8)) (push_bit (cpu mod 8) 1)]) else Inl Out_Of_Bounds)"

definition IS_CPU_SET :: "8 word list \<Rightarrow> nat \<Rightarrow> bool" where
  "IS_CPU_SET bitmap cpu \<longleftrightarrow> cpu div 8 < length bitmap \<and> bit (bitmap ! (cpu div 8)) (cpu mod 8)"

text \<open>The mask of \<open>count_bits\<close> walks down from the highest bit of a byte.\<close>

fun count_masked :: "nat \<Rightarrow> 8 word \<Rightarrow> nat" where
  "count_masked 0 b = 0"
| "count_masked (Suc k) b = (if and b (push_bit k 1) \<noteq> 0 then 1 else 0) + count_masked k b"

definition count_bits :: "8 word list \<Rightarrow> nat" where
  "count_bits bs = sum_list (map (count_masked 8) bs)"

section \<open>Values and ranges\<close>

text \<open>\<open>None\<close> stands for the result 1; an empty text reads as -1.\<close>

definition parse_valstr :: "string \<Rightarrow> int \<Rightarrow> int option" where
  "parse_valstr s max_val =
     (if s = [] then Some (-1)
      else if \<not> list_all is_digit s then None
      else let v = atoi s in if v < 0 \<or> v \<ge> max_val then None else Some v)"

definition parse_range_values :: "string \<Rightarrow> int \<Rightarrow> (int \<times> int) option" where
  "parse_range_values t max_val =
     (let range = take 15 t in
      case find_char CHR ''-'' range of
        Some i \<Rightarrow>
          (case parse_valstr (take i range) max_val of
             None \<Rightarrow> None
           | Some lo \<Rightarrow>
               if lo < 0 then None
               else (case parse_valstr (drop (i + 1) range) max_val of
                       None \<Rightarrow> None
                     | Some v \<Rightarrow> let hi = (if v < 0 then max_val - 1 else v) in if hi < lo then None else Some (lo, hi)))
      | None \<Rightarrow>
          (case parse_valstr t max_val of
             None \<Rightarrow> None
           | Some v \<Rightarrow> if v < 0 then None else Some (v, v)))"

text \<open>The tokens of \<open>strtok\<close>: the non-empty pieces.\<close>

fun strtok_pieces :: "char \<Rightarrow> string \<Rightarrow> string \<Rightarrow> string list" where
  "strtok_pieces c acc [] = (if acc = [] then [] else [rev acc])"
| "strtok_pieces c acc (x # xs) =
     (if x = c then (if acc = [] then strtok_pieces c [] xs else rev acc # strtok_pieces c [] xs)
      else strtok_pieces c (x # acc) xs)"

text \<open>The loop over a range marks the bit behind each value; a token that cannot be read ends the parse
  with \<open>False\<close>, what was marked before stays.\<close>

definition mark_range :: "int \<Rightarrow> int \<Rightarrow> 8 word list \<Rightarrow> (8 word list) result" where
  "mark_range lo hi = fold_r (\<lambda>i. SET_CPU_BITMAP (nat i + 1)) [lo..hi]"

fun parse_tokens :: "string \<Rightarrow> int \<Rightarrow> string list \<Rightarrow> 8 word list \<Rightarrow> (bool \<times> 8 word list) result" where
  "parse_tokens k0 max_val [] bitmap = Inr (True, bitmap)"
| "parse_tokens k0 max_val (t # ts) bitmap =
     (if t = k0
      then bind_r (SET_CPU_BITMAP 0 bitmap) (parse_tokens k0 max_val ts)
      else case parse_range_values t max_val of
             None \<Rightarrow> Inr (False, bitmap)
           | Some (lo, hi) \<Rightarrow> bind_r (mark_range lo hi bitmap) (parse_tokens k0 max_val ts))"

definition parse_values :: "string \<Rightarrow> 8 word list \<Rightarrow> int \<Rightarrow> string \<Rightarrow> (bool \<times> 8 word list) result" where
  "parse_values strargv bitmap max_val k0 =
     (if strargv = ''ALL''
      then (if BITMAP_SIZE (nat max_val) \<le> length bitmap
            then Inr (True, replicate (BITMAP_SIZE (nat max_val)) (- 1) @ drop (BITMAP_SIZE (nat max_val)) bitmap)
            else Inl Out_Of_Bounds)
      else parse_tokens k0 max_val (strtok_pieces CHR '','' [] strargv) bitmap)"

section \<open>Texts\<close>

text \<open>\<open>escape_bs_char\<close> writes into a buffer of 128 bytes: \<open>room\<close> is what is left before the end mark.\<close>

fun escape_bs :: "nat \<Rightarrow> string \<Rightarrow> string" where
  "escape_bs room [] = []"
| "escape_bs room (c # cs) =
     (if room = 0 then []
      else if c = CHR 0x5C then (if room \<ge> 2 then c # c # escape_bs (room - 2) cs else [])
      else c # escape_bs (room - 1) cs)"

definition escape_bs_char :: "string \<Rightarrow> string" where
  "escape_bs_char s = escape_bs 127 s"

text \<open>Pages of \<open>size\<close> bytes: the shift to kilobytes.\<close>

fun shift_of :: "nat \<Rightarrow> nat" where
  "shift_of s = (if s > 1 then Suc (shift_of (s div 2)) else 0)"

declare shift_of.simps [simp del]

definition get_kb_shift :: "int \<Rightarrow> nat" where
  "get_kb_shift page = shift_of (nat (page div 1024))"

section \<open>Lemmas on products\<close>

lemma uint_max_div_less: "a \<noteq> 0 \<Longrightarrow> uint_max div a < b \<longleftrightarrow> unat uint_max < unat a * unat b"
proof -
  assume "a \<noteq> 0"
  then have "0 < unat a" by (simp add: unat_gt_0)
  then have "unat uint_max div unat a < unat b \<longleftrightarrow> unat uint_max < unat b * unat a"
    by (metis div_less_iff_less_mult)
  then show ?thesis by (simp add: word_less_nat_alt unat_div mult.commute)
qed

lemma unat_mult_small:
  fixes a b :: "64 word"
  assumes "unat a * unat b \<le> unat uint_max"
  shows "unat (a * b) = unat a * unat b"
proof -
  have "unat a * unat b < 2 ^ 64" using assms by (simp add: uint_max_def)
  then show ?thesis by (simp add: unat_mult_lem [THEN iffD1])
qed

section \<open>Lemmas on bitmaps\<close>

lemma SET_CPU_BITMAP_length: "SET_CPU_BITMAP cpu b = Inr b' \<Longrightarrow> length b' = length b"
  by (auto simp: SET_CPU_BITMAP_def split: if_splits)

lemma SET_CPU_BITMAP_bit:
  assumes "SET_CPU_BITMAP cpu b = Inr b'"
  shows "IS_CPU_SET b' c \<longleftrightarrow> c = cpu \<or> IS_CPU_SET b c"
proof -
  have cpu: "cpu div 8 < length b" and b': "b' = b[cpu div 8 := or (b ! (cpu div 8)) (push_bit (cpu mod 8) 1)]"
    using assms by (auto simp: SET_CPU_BITMAP_def split: if_splits)
  have one: "bit (push_bit (cpu mod 8) 1 :: 8 word) (c mod 8) \<longleftrightarrow> c mod 8 = cpu mod 8"
    by (auto simp: bit_exp_iff possible_bit_def)
  have "c = cpu \<longleftrightarrow> c div 8 = cpu div 8 \<and> c mod 8 = cpu mod 8" by (metis div_mult_mod_eq)
  then show ?thesis
    using cpu one by (auto simp: IS_CPU_SET_def b' nth_list_update bit_or_iff)
qed

lemma mark_range_marks:
  assumes "0 \<le> lo" "hi < int m" "length b = BITMAP_SIZE m"
  shows "\<exists>b'. mark_range lo hi b = Inr b' \<and> length b' = length b \<and>
    (\<forall>c. IS_CPU_SET b' c \<longleftrightarrow> IS_CPU_SET b c \<or> (\<exists>i\<in>{lo..hi}. c = nat i + 1))"
proof -
  have "\<exists>b'. fold_r (\<lambda>i. SET_CPU_BITMAP (nat i + 1)) is b = Inr b' \<and> length b' = length b \<and>
      (\<forall>c. IS_CPU_SET b' c \<longleftrightarrow> IS_CPU_SET b c \<or> (\<exists>i\<in>set is. c = nat i + 1))"
    if "\<forall>i\<in>set is. 0 \<le> i \<and> i < int m" "length b = BITMAP_SIZE m" for "is" b
    using that
  proof (induction "is" arbitrary: b)
    case (Cons i js)
    have "nat i + 1 \<le> m" using Cons.prems(1) by (simp add: Suc_le_eq nat_less_iff)
    then have "(nat i + 1) div 8 < length b"
      using Cons.prems(2) div_le_mono [of "nat i + 1" "m + 1" 8] by (simp add: BITMAP_SIZE_def)
    then obtain b1 where b1: "SET_CPU_BITMAP (nat i + 1) b = Inr b1" by (simp add: SET_CPU_BITMAP_def)
    note set1 = SET_CPU_BITMAP_length [OF b1] SET_CPU_BITMAP_bit [OF b1]
    have "\<forall>i\<in>set js. 0 \<le> i \<and> i < int m" "length b1 = BITMAP_SIZE m" using Cons.prems set1(1) by auto
    from Cons.IH [OF this] show ?case using b1 set1 by auto
  qed simp
  from this [of "[lo..hi]" b] show ?thesis using assms by (simp add: mark_range_def)
qed

text \<open>The numbers a text of tokens selects, and the bit of the first keyword.\<close>

definition range_of :: "int \<Rightarrow> string \<Rightarrow> int set" where
  "range_of max_val t = (case parse_range_values t max_val of None \<Rightarrow> {} | Some (lo, hi) \<Rightarrow> {lo..hi})"

definition selected :: "string \<Rightarrow> int \<Rightarrow> string list \<Rightarrow> nat \<Rightarrow> bool" where
  "selected k0 max_val ts c \<longleftrightarrow>
     (\<exists>t\<in>set ts. if t = k0 then c = 0 else (\<exists>i\<in>range_of max_val t. c = nat i + 1))"

lemma parse_valstr_bounds: "parse_valstr s m = Some v \<Longrightarrow> v = -1 \<or> 0 \<le> v \<and> v < m"
  by (auto simp: parse_valstr_def Let_def split: if_splits)

lemma parse_range_bounds:
  assumes "parse_range_values t m = Some (lo, hi)"
  shows "0 \<le> lo \<and> lo \<le> hi \<and> hi < m"
proof (cases "find_char CHR ''-'' (take 15 t)")
  case None
  then show ?thesis
    using assms parse_valstr_bounds [of t m] by (auto simp: parse_range_values_def split: option.splits if_splits)
next
  case (Some i)
  then obtain v where v: "parse_valstr (take i (take 15 t)) m = Some lo" "0 \<le> lo"
    "parse_valstr (drop (i + 1) (take 15 t)) m = Some v" "hi = (if v < 0 then m - 1 else v)" "lo \<le> hi"
    using assms by (auto simp: parse_range_values_def Let_def split: option.splits if_splits)
  then show ?thesis
    using parse_valstr_bounds [OF v(1)] parse_valstr_bounds [OF v(3)] by auto
qed

lemma parse_tokens_selects:
  assumes "length b = BITMAP_SIZE m" "m = nat max_val"
  shows "\<exists>fin b'. parse_tokens k0 max_val ts b = Inr (fin, b') \<and> length b' = length b \<and>
    (fin \<longleftrightarrow> (\<forall>t\<in>set ts. t = k0 \<or> parse_range_values t max_val \<noteq> None)) \<and>
    (fin \<longrightarrow> (\<forall>c. IS_CPU_SET b' c \<longleftrightarrow> IS_CPU_SET b c \<or> selected k0 max_val ts c))"
  using assms
proof (induction ts arbitrary: b)
  case Nil
  then show ?case by (auto simp: selected_def)
next
  case (Cons t ts)
  show ?case
  proof (cases "t = k0")
    case True
    have "0 div 8 < length b" using Cons.prems by (simp add: BITMAP_SIZE_def)
    then obtain b1 where b1: "SET_CPU_BITMAP 0 b = Inr b1" by (simp add: SET_CPU_BITMAP_def)
    note set1 = SET_CPU_BITMAP_length [OF b1] SET_CPU_BITMAP_bit [OF b1]
    from Cons.IH [of b1] Cons.prems set1(1) obtain d b' where
      ih: "parse_tokens k0 max_val ts b1 = Inr (d, b')" "length b' = length b"
      "d \<longleftrightarrow> (\<forall>t\<in>set ts. t = k0 \<or> parse_range_values t max_val \<noteq> None)"
      "d \<longrightarrow> (\<forall>c. IS_CPU_SET b' c \<longleftrightarrow> IS_CPU_SET b1 c \<or> selected k0 max_val ts c)" by auto
    show ?thesis using True b1 set1 ih by (auto simp: selected_def)
  next
    case False
    show ?thesis
    proof (cases "parse_range_values t max_val")
      case None
      then show ?thesis using False by auto
    next
      case (Some r)
      obtain lo hi where r: "r = (lo, hi)" by (cases r)
      have bounds: "0 \<le> lo" "hi < int m" using parse_range_bounds Some r Cons.prems(2) by fastforce+
      from mark_range_marks [OF bounds Cons.prems(1)] obtain b1 where
        b1: "mark_range lo hi b = Inr b1" "length b1 = length b"
        "\<forall>c. IS_CPU_SET b1 c \<longleftrightarrow> IS_CPU_SET b c \<or> (\<exists>i\<in>{lo..hi}. c = nat i + 1)" by blast
      from Cons.IH [of b1] Cons.prems b1(2) obtain d b' where
        ih: "parse_tokens k0 max_val ts b1 = Inr (d, b')" "length b' = length b"
        "d \<longleftrightarrow> (\<forall>t\<in>set ts. t = k0 \<or> parse_range_values t max_val \<noteq> None)"
        "d \<longrightarrow> (\<forall>c. IS_CPU_SET b' c \<longleftrightarrow> IS_CPU_SET b1 c \<or> selected k0 max_val ts c)" by auto
      show ?thesis using False Some r b1 ih by (auto simp: selected_def range_of_def)
    qed
  qed
qed

section \<open>Counting\<close>

lemma bit_mask_nonzero: "k < 8 \<Longrightarrow> and b (2 ^ k) \<noteq> 0 \<longleftrightarrow> bit (b :: 8 word) k"
  by (metis and_exp_eq_0_iff_not_bit)

lemma count_masked_bits: "k \<le> 8 \<Longrightarrow> count_masked k b = card {i. i < k \<and> bit b i}"
proof (induction k)
  case (Suc k)
  have "{i. i < Suc k \<and> bit b i} = (if bit b k then insert k {i. i < k \<and> bit b i} else {i. i < k \<and> bit b i})"
    by (auto simp: less_Suc_eq)
  then show ?case using Suc by (simp add: bit_mask_nonzero)
qed simp

lemma count_bits_set: "count_bits bs = card {c. IS_CPU_SET bs c}"
proof (induction bs rule: rev_induct)
  case Nil
  then show ?case by (simp add: count_bits_def IS_CPU_SET_def)
next
  case (snoc b bs)
  let ?n = "length bs"
  have "finite {c. IS_CPU_SET bs c}"
    by (rule finite_subset [of _ "{..<8 * ?n}"]) (auto simp: IS_CPU_SET_def)
  moreover have "{c. IS_CPU_SET (bs @ [b]) c} = {c. IS_CPU_SET bs c} \<union> (\<lambda>i. 8 * ?n + i) ` {i. i < 8 \<and> bit b i}"
  proof (intro set_eqI iffI)
    fix c assume "c \<in> {c. IS_CPU_SET (bs @ [b]) c}"
    then have c: "c div 8 \<le> ?n" "bit ((bs @ [b]) ! (c div 8)) (c mod 8)" by (auto simp: IS_CPU_SET_def)
    show "c \<in> {c. IS_CPU_SET bs c} \<union> (\<lambda>i. 8 * ?n + i) ` {i. i < 8 \<and> bit b i}"
    proof (cases "c div 8 = ?n")
      case True
      then have "c = 8 * ?n + c mod 8" by (metis mult_div_mod_eq)
      then show ?thesis using c True by (auto simp: nth_append)
    qed (use c in \<open>auto simp: IS_CPU_SET_def nth_append\<close>)
  qed (auto simp: IS_CPU_SET_def nth_append)
  moreover have "{c. IS_CPU_SET bs c} \<inter> (\<lambda>i. 8 * ?n + i) ` {i. i < 8 \<and> bit b i} = {}"
    by (auto simp: IS_CPU_SET_def)
  ultimately have "card {c. IS_CPU_SET (bs @ [b]) c} = card {c. IS_CPU_SET bs c} + card {i. i < 8 \<and> bit b i}"
    by (simp add: card_Un_disjoint card_image inj_on_def)
  then show ?case using snoc count_masked_bits [of 8 b] by (simp add: count_bits_def)
qed

section \<open>Properties\<close>

text \<open>The product of three sizes is returned exactly when it fits an \<open>unsigned int\<close>, and it is
  then the exact product; otherwise the process exits. No intermediate product wraps.\<close>

lemma checked_product_exact:
  "mul_check_overflow3 a b c =
     (if unat a * unat b * unat c \<le> unat uint_max then Inr (of_nat (unat a * unat b * unat c)) else Inl Process_Exit)"
proof (cases "a = 0 \<or> b = 0 \<or> c = 0")
  case True
  then show ?thesis by (auto simp: mul_check_overflow3_def)
next
  case False
  then have pos: "0 < unat a" "0 < unat b" "0 < unat c" by (simp_all add: unat_gt_0)
  have exact: "of_nat (unat a * unat b * unat c) = a * b * c" by simp
  have le: "unat a \<le> unat a * unat b" "unat a * unat b \<le> unat a * unat b * unat c" using pos by simp_all
  show ?thesis
  proof (cases "unat a * unat b \<le> unat uint_max")
    case True
    have ab: "unat (a * b) = unat a * unat b" by (rule unat_mult_small [OF True])
    then have "a * b \<noteq> 0" using pos by (metis mult_is_0 neq0_conv unat_0)
    moreover have "unat a \<le> unat uint_max" using le(1) True by (rule le_trans)
    ultimately have cond: "(uint_max < a) = False" "(uint_max div a < b) = False" "a * b \<noteq> 0"
      using True False uint_max_div_less [of a b] by (simp_all add: word_less_nat_alt)
    then show ?thesis
      using False uint_max_div_less [OF cond(3), of c] ab exact
      by (simp add: mul_check_overflow3_def cond(1,2) not_less)
  next
    case over: False
    then have "\<not> unat a * unat b * unat c \<le> unat uint_max" using le(2) by (meson le_trans)
    then show ?thesis
      using False over uint_max_div_less [of a b] by (auto simp: mul_check_overflow3_def not_less)
  qed
qed

text \<open>For a list of values and ranges below \<open>m\<close> and a bitmap of \<open>BITMAP_SIZE m\<close> bytes,
  \<open>parse_values\<close> never writes behind the bitmap; it succeeds exactly when every token is the keyword or
  reads as a value or range, and then the bits that are set are those set before, bit 0 for the keyword,
  and the bit behind each selected value; \<open>count_bits\<close> counts them.\<close>

lemma value_list_selects:
  assumes "length b = BITMAP_SIZE (nat m)" "list \<noteq> ''ALL''"
  shows "\<exists>fin b'. parse_values list b m k0 = Inr (fin, b') \<and> length b' = length b \<and>
    (fin = list_all (\<lambda>t. t = k0 \<or> parse_range_values t m \<noteq> None) (strtok_pieces CHR '','' [] list)) \<and>
    (fin \<longrightarrow> {c. IS_CPU_SET b' c} = {c. IS_CPU_SET b c} \<union> {c. selected k0 m (strtok_pieces CHR '','' [] list) c} \<and>
      count_bits b' = card ({c. IS_CPU_SET b c} \<union> {c. selected k0 m (strtok_pieces CHR '','' [] list) c}))"
proof -
  let ?ts = "strtok_pieces CHR '','' [] list"
  obtain d b' where r: "parse_tokens k0 m ?ts b = Inr (d, b')" "length b' = length b"
    "d \<longleftrightarrow> (\<forall>t\<in>set ?ts. t = k0 \<or> parse_range_values t m \<noteq> None)"
    "d \<longrightarrow> (\<forall>c. IS_CPU_SET b' c \<longleftrightarrow> IS_CPU_SET b c \<or> selected k0 m ?ts c)"
    using parse_tokens_selects [OF assms(1) refl, of k0 ?ts] by blast
  then have "d \<longrightarrow> Collect (IS_CPU_SET b') = Collect (IS_CPU_SET b) \<union> Collect (selected k0 m ?ts)" by blast
  then show ?thesis using r(1-3) assms(2) by (auto simp: parse_values_def count_bits_set list_all_iff)
qed

lemma value_list_selects_witness:
  "\<exists>fin b'. parse_values ''0,2-5,10-'' [0, 0] 12 ''all'' = Inr (fin, b') \<and> length b' = length [0 :: 8 word, 0] \<and>
    (fin = list_all (\<lambda>t. t = ''all'' \<or> parse_range_values t 12 \<noteq> None) (strtok_pieces CHR '','' [] ''0,2-5,10-'')) \<and>
    (fin \<longrightarrow> {c. IS_CPU_SET b' c} = {c. IS_CPU_SET [0, 0] c} \<union> {c. selected ''all'' 12 (strtok_pieces CHR '','' [] ''0,2-5,10-'') c} \<and>
      count_bits b' = card ({c. IS_CPU_SET [0, 0] c} \<union> {c. selected ''all'' 12 (strtok_pieces CHR '','' [] ''0,2-5,10-'') c}))"
  by (rule value_list_selects) (simp_all add: BITMAP_SIZE_def)

end
