(* ===== verification/Iostat_Conf.thy ===== *)
theory Iostat_Conf
  imports C_Stdio
begin

text \<open>
  Device names from the file sysstat.ioconf: app/source/source/host/collector/iostat/ioconf.cc and
  ioconf.h. A \<open>blk_config\<close> is shared by the majors that refer to it, so the entries hold its index. The
  buffers have the sizes of the header, and writing behind one is \<open>Out_Of_Bounds\<close>. Of \<open>sprintf\<close> the
  conversions the parser itself writes are modelled, one per format; a format from the file that holds
  another percent sign is \<open>Bad_Format\<close>.
\<close>

section \<open>Numbers as texts\<close>

function conv_digits :: "nat \<Rightarrow> bool \<Rightarrow> string \<Rightarrow> nat \<Rightarrow> string \<Rightarrow> string" where
  "conv_digits radix nozero syms v p =
     (if v = 0 \<or> radix < 2 then p
      else let j = v mod radix; q = v div radix
           in conv_digits radix nozero syms (if nozero \<and> j = 0 then q - 1 else q) (syms ! j # p))"
  by pat_completeness auto
termination
  by (relation "measure (\<lambda>(radix, nozero, syms, v, p). v)") (auto intro: le_less_trans [OF diff_le_self])

declare conv_digits.simps [simp del]

definition ioc_conv :: "nat \<Rightarrow> bool \<Rightarrow> string \<Rightarrow> 32 word \<Rightarrow> string" where
  "ioc_conv radix nozero syms val =
     (let v = val + (if nozero then 1 else 0)
      in if v = 0 then (if nozero then [] else ''0'') else conv_digits radix nozero syms (unat v) [])"

definition ioc_ito10 :: "32 word \<Rightarrow> string" where
  "ioc_ito10 = ioc_conv 10 False ''0123456789''"

definition ioc_ito26 :: "32 word \<Rightarrow> string" where
  "ioc_ito26 = ioc_conv 26 True ''zabcdefghijklmnopqrstuvwxy''"

section \<open>The table\<close>

datatype cconv = Ito10 | Ito26

fun convert :: "cconv \<Rightarrow> 32 word \<Rightarrow> string" where
  "convert Ito10 = ioc_ito10"
| "convert Ito26 = ioc_ito26"

record blk_config =
  bc_name :: string
  bc_cfmt :: string
  bc_dfmt :: string
  bc_pfmt :: string
  ctrl_explicit :: bool
  dcount :: "32 word"
  pcount :: "32 word"
  bc_desc :: string
  bc_cconv :: "cconv option"
  ext_name :: string
  ext :: bool
  ext_minor :: "32 word"

record ioc_entry =
  ioc_live :: bool
  ctrlno :: "32 word"
  basemajor :: "32 word"
  ioc_desc :: "string option"
  blkp :: nat

record ioc_table =
  ioc_parsed :: bool
  ioconf :: "nat \<Rightarrow> ioc_entry option"
  ioc_refnr :: "nat \<Rightarrow> 32 word"
  blks :: "blk_config list"
  ioc_count :: nat

definition ioc_table_new :: ioc_table where
  "ioc_table_new = \<lparr>ioc_parsed = False, ioconf = Map.empty, ioc_refnr = (\<lambda>_. 0), blks = [], ioc_count = 0\<rparr>"

definition MAX_BLKDEV :: nat where "MAX_BLKDEV = 511"
definition IOC_NAMELEN :: nat where "IOC_NAMELEN = 32"
definition IOC_FMTLEN :: nat where "IOC_FMTLEN = 16"
definition IOC_DEVLEN :: nat where "IOC_DEVLEN = 48"
definition IOC_MAXMINOR :: nat where "IOC_MAXMINOR = 2 ^ 20 - 1"
definition K_NODEV :: string where "K_NODEV = ''nodev''"

section \<open>Reading the file\<close>

text \<open>\<open>%u\<close> into an \<open>unsigned int\<close> keeps the low bits.\<close>

definition uint_of :: "scanned \<Rightarrow> 32 word" where
  "uint_of v = ucast (number_of v)"

definition short_record :: "directive list" where
  "short_record = [Sc_Unsigned, Sc_Lit CHR '':'', Sc_Unsigned, Sc_Lit CHR '':'', Sc_Unsigned]"

definition full_record :: "directive list" where
  "full_record =
     [Sc_Unsigned, Sc_Lit CHR '':'', Sc_Until CHR '':'', Sc_Lit CHR '':'', Sc_Until CHR '':'', Sc_Lit CHR '':'',
      Sc_Unsigned, Sc_Lit CHR '':'', Sc_Until CHR '':'', Sc_Lit CHR '':'', Sc_Unsigned, Sc_Lit CHR '':'',
      Sc_Until CHR '':'', Sc_Lit CHR '':'', Sc_Unsigned, Sc_Lit CHR '':'', Sc_Word (Some 63)]"

text \<open>A record that refers to another major. The values scanned are the numbers and, if the fourth field
  was there, the description.\<close>

definition indirect_record :: "scanned list \<Rightarrow> ioc_table \<Rightarrow> ioc_table" where
  "indirect_record vs t =
     (let major = unat (uint_of (vs ! 0)); indirect = unat (uint_of (vs ! 1))
      in if indirect = 0 \<or> MAX_BLKDEV < indirect \<or> MAX_BLKDEV < major then t
         else case ioconf t indirect of
                None \<Rightarrow> t
              | Some e \<Rightarrow>
                  t\<lparr>ioc_refnr := (ioc_refnr t)(indirect := ioc_refnr t indirect + 1),
                    ioconf := (ioconf t)(major \<mapsto>
                      \<lparr>ioc_live = False, ctrlno = uint_of (vs ! 2), basemajor = uint_of (vs ! 1),
                       ioc_desc = Some (if length vs = 3 then bc_desc (blks t ! blkp e) else text_of (vs ! 3)),
                       blkp = blkp e\<rparr>)\<rparr>)"

text \<open>The exception record of a major: one per shared configuration.\<close>

definition exception_record :: "scanned list \<Rightarrow> ioc_table \<Rightarrow> ioc_table" where
  "exception_record vs t =
     (case ioconf t (unat (uint_of (vs ! 0))) of
        None \<Rightarrow> t
      | Some e \<Rightarrow>
          (let x = blks t ! blkp e
           in if ext x then t
              else t\<lparr>blks := (blks t)[blkp e :=
                     x\<lparr>ext_minor := uint_of (vs ! 3), ext_name := text_of (vs ! 1), ext := True\<rparr>]\<rparr>))"

text \<open>The formats of a direct record are prepared for \<open>sprintf\<close>.\<close>

definition disk_format :: "string \<Rightarrow> (string \<times> cconv option) result" where
  "disk_format dfmt =
     (if hd dfmt = CHR ''a'' then Inr (''%s'', Some Ito26)
      else if hd dfmt = CHR ''%'' then
        (if IOC_FMTLEN \<le> length (tl dfmt) + 2 then Inl Out_Of_Bounds else Inr (tl dfmt @ ''%s'', Some Ito10))
      else if hd dfmt = CHR ''d'' then Inr (''%s'', Some Ito10)
      else Inr ([], None))"

definition direct_record :: "scanned list \<Rightarrow> ioc_table \<Rightarrow> ioc_table result" where
  "direct_record vs t =
     (let major = uint_of (vs ! 0); name = text_of (vs ! 1); cfmt = text_of (vs ! 2); pfmt = text_of (vs ! 6) in
      bind_r (disk_format (text_of (vs ! 4))) (\<lambda>(dfmt, conv).
        Inr (t\<lparr>blks := blks t @
                 [\<lparr>bc_name = name, bc_cfmt = (if hd cfmt = CHR ''*'' then name else name @ cfmt @ ''%d''),
                   bc_dfmt = dfmt, bc_pfmt = (if hd pfmt = CHR ''*'' then [] else pfmt) @ ''%d'',
                   ctrl_explicit = (hd cfmt \<noteq> CHR ''*''), dcount = uint_of (vs ! 5), pcount = uint_of (vs ! 7),
                   bc_desc = text_of (vs ! 8), bc_cconv = conv, ext_name = [], ext = False, ext_minor = 0\<rparr>],
               ioconf := (ioconf t)(unat major \<mapsto>
                 \<lparr>ioc_live = True, ctrlno = uint_of (vs ! 3), basemajor = major, ioc_desc = None,
                  blkp = length (blks t)\<rparr>),
               ioc_count := Suc (ioc_count t)\<rparr>)))"

text \<open>\<open>%[^:]\<close> has no width: a field that does not fit its buffer is written behind it.\<close>

definition fields_fit :: "scanned list \<Rightarrow> bool" where
  "fields_fit vs \<longleftrightarrow>
     (1 < length vs \<longrightarrow> length (text_of (vs ! 1)) < IOC_NAMELEN) \<and>
     (2 < length vs \<longrightarrow> length (text_of (vs ! 2)) < IOC_FMTLEN) \<and>
     (4 < length vs \<longrightarrow> length (text_of (vs ! 4)) < IOC_FMTLEN) \<and>
     (6 < length vs \<longrightarrow> length (text_of (vs ! 6)) < IOC_FMTLEN)"

definition ioc_line :: "string \<Rightarrow> ioc_table \<Rightarrow> ioc_table result" where
  "ioc_line buf t =
     (if hd buf = CHR ''#'' \<or> hd buf = CHR 0x0A then Inr t
      else let v4 = sscanf (short_record @ [Sc_Lit CHR '':'', Sc_Word (Some 63)]) buf;
               vs = (if length v4 = 4 then v4 else sscanf short_record buf)
           in if length vs = 3 \<or> length vs = 4 then Inr (indirect_record vs t)
              else let ws = sscanf full_record buf
                   in if \<not> fields_fit ws then Inl Out_Of_Bounds
                      else if length ws \<noteq> 9 then Inr t
                      else if uint_of (ws ! 0) = 0 \<or> MAX_BLKDEV \<le> unat (uint_of (ws ! 0)) then Inr t
                      else if hd (text_of (ws ! 2)) = CHR ''x'' then Inr (exception_record ws t)
                      else direct_record ws t)"

text \<open>Either file may be missing. The number of direct records is the result.\<close>

definition ioc_init :: "string option \<Rightarrow> string option \<Rightarrow> ioc_table \<Rightarrow> (nat \<times> ioc_table) result" where
  "ioc_init main_file local_file t =
     (case (case main_file of None \<Rightarrow> local_file | Some c \<Rightarrow> Some c) of
        None \<Rightarrow> Inr (0, t)
      | Some content \<Rightarrow>
          bind_r (fold_r ioc_line (fgets_lines 255 content) (t\<lparr>ioc_refnr := (\<lambda>_. 0), ioc_count := 0\<rparr>))
            (\<lambda>t. Inr (ioc_count t, t\<lparr>ioc_parsed := True\<rparr>)))"

section \<open>A name\<close>

datatype fmt_arg = Arg_Int int | Arg_Text string

fun sprintf :: "string \<Rightarrow> fmt_arg option \<Rightarrow> string result" where
  "sprintf [] a = Inr []"
| "sprintf (c # cs) a =
     (if c \<noteq> CHR ''%'' then bind_r (sprintf cs a) (\<lambda>r. Inr (c # r))
      else case (cs, a) of
             (d # ds, Some (Arg_Int i)) \<Rightarrow>
               if d = CHR ''d'' then bind_r (sprintf ds None) (\<lambda>r. Inr (dec_of_int i @ r)) else Inl Bad_Format
           | (d # ds, Some (Arg_Text x)) \<Rightarrow>
               if d = CHR ''s'' then bind_r (sprintf ds None) (\<lambda>r. Inr (x @ r)) else Inl Bad_Format
           | _ \<Rightarrow> Inl Bad_Format)"

text \<open>The number of the disk of a minor, among all disks of the driver.\<close>

definition disk_offset :: "ioc_table \<Rightarrow> ioc_entry \<Rightarrow> blk_config \<Rightarrow> 32 word \<Rightarrow> (32 word) result" where
  "disk_offset t p b minor =
     (let base = ctrlno p * dcount b +
            (if 256 \<le> minor then dcount b * (ioc_refnr t (unat (basemajor p)) + 1) * drop_bit 8 minor else 0);
          offset = and minor 0xFF div pcount b
      in if ctrl_explicit b then Inr offset
         else if sint offset + sint base < - (2 ^ 31) \<or> 2 ^ 31 \<le> sint offset + sint base then Inl Signed_Overflow
         else Inr (offset + base))"

definition generated_name :: "ioc_table \<Rightarrow> ioc_entry \<Rightarrow> blk_config \<Rightarrow> 32 word \<Rightarrow> string result" where
  "generated_name t p b minor =
     bind_r (disk_offset t p b minor) (\<lambda>offset.
     bind_r (sprintf (bc_cfmt b) (Some (Arg_Int (sint (ctrlno p))))) (\<lambda>c.
     bind_r (case bc_cconv b of
               None \<Rightarrow> Inl Null_Deref
             | Some f \<Rightarrow> sprintf (bc_dfmt b) (Some (Arg_Text (convert f offset)))) (\<lambda>d.
     bind_r (if minor mod pcount b = 0 then Inr [] else sprintf (bc_pfmt b) (Some (Arg_Int (sint (minor mod pcount b))))) (\<lambda>q.
       if IOC_DEVLEN \<le> length (c @ d @ q) then Inl Out_Of_Bounds else Inr (c @ d @ q)))))"

definition known_name :: "ioc_table \<Rightarrow> 32 word \<Rightarrow> 32 word \<Rightarrow> string result" where
  "known_name t major minor =
     (case ioconf t (unat major) of
        None \<Rightarrow> Inr K_NODEV
      | Some p \<Rightarrow>
          (let b = blks t ! blkp p
           in if dcount b * pcount b \<le> and minor 0xFF then Inr K_NODEV
              else if ext b \<and> ext_minor b = minor then Inr (ext_name b)
              else generated_name t p b minor))"

definition ioc_name ::
  "string option \<Rightarrow> string option \<Rightarrow> 32 word \<Rightarrow> 32 word \<Rightarrow> ioc_table \<Rightarrow> (string option \<times> ioc_table) result" where
  "ioc_name main_file local_file major minor t =
     (if MAX_BLKDEV < unat major \<or> IOC_MAXMINOR < unat minor then Inr (None, t)
      else bind_r (if ioc_parsed t then Inr (1, t) else ioc_init main_file local_file t) (\<lambda>(n, t1).
             if n = 0 then Inr (None, t1) else bind_r (known_name t1 major minor) (\<lambda>s. Inr (Some s, t1))))"

section \<open>Lemmas\<close>

text \<open>What a text in base 26 without a zero stands for, with \<open>a\<close> as 1.\<close>

definition value26 :: "string \<Rightarrow> nat" where
  "value26 s = foldl (\<lambda>n c. n * 26 + (of_char c - 96)) 0 s"

definition syms26 :: string where "syms26 = ''zabcdefghijklmnopqrstuvwxy''"

lemma syms26_value: "j < 26 \<Longrightarrow> of_char (syms26 ! j) - 96 = (if j = 0 then 26 else j)"
  by (simp add: syms26_def less_Suc_eq numeral_eq_Suc) (elim disjE; simp)

lemma conv_digits_acc: "conv_digits r z syms v p = conv_digits r z syms v [] @ p"
proof (induction v arbitrary: p rule: less_induct)
  case (less v)
  show ?case
  proof (cases "v = 0 \<or> r < 2")
    case True
    then show ?thesis by (simp add: conv_digits.simps)
  next
    case False
    let ?w = "if z \<and> v mod r = 0 then v div r - 1 else v div r" and ?c = "syms ! (v mod r)"
    have step: "conv_digits r z syms v q = conv_digits r z syms ?w (?c # q)" for q
      using False by (subst conv_digits.simps) (simp add: Let_def)
    have "?w < v" using False by (auto intro: le_less_trans [OF diff_le_self])
    then have "conv_digits r z syms ?w (?c # q) = conv_digits r z syms ?w [] @ ?c # q" for q by (rule less)
    then show ?thesis using step by simp
  qed
qed

lemma value26_conv: "value26 (conv_digits 26 True syms26 v []) = v"
proof (induction v rule: less_induct)
  case (less v)
  show ?case
  proof (cases "v = 0")
    case True
    then show ?thesis by (simp add: conv_digits.simps value26_def)
  next
    case False
    let ?w = "if v mod 26 = 0 then v div 26 - 1 else v div 26" and ?c = "syms26 ! (v mod 26)"
    have "conv_digits 26 True syms26 v [] = conv_digits 26 True syms26 ?w [] @ [?c]"
      using False conv_digits_acc [of 26 True syms26 ?w "[?c]"] by (subst conv_digits.simps) (simp add: Let_def)
    moreover have "?w < v" using False by auto
    ultimately have "value26 (conv_digits 26 True syms26 v []) = ?w * 26 + (of_char ?c - 96)"
      using less [of ?w] by (simp add: value26_def)
    also have "of_char ?c - 96 = (if v mod 26 = 0 then 26 else v mod 26)" by (rule syms26_value) simp
    also have "?w * 26 + (if v mod 26 = 0 then 26 else v mod 26) = v"
    proof (cases "v mod 26 = 0")
      case True
      then have "0 < v div 26" using False by (auto simp: div_greater_zero_iff)
      then show ?thesis using True div_mult_mod_eq [of v 26] by (simp add: diff_mult_distrib)
    qed simp
    finally show ?thesis .
  qed
qed

lemma ioc_ito26_letters: "n + 1 \<noteq> 0 \<Longrightarrow> value26 (ioc_ito26 n) = unat n + 1"
  using value26_conv [of "unat (n + 1)"] unatSuc [of n]
  by (simp add: ioc_ito26_def ioc_conv_def syms26_def add.commute [of 1])

section \<open>Properties\<close>

text \<open>The letters of a disk number, as in sda to sdz, sdaa and on, determine the number: reading them
  in base 26 without a zero gives it back, so different disks below the largest number get different letters.\<close>

lemma disk_letters_roundtrip:
  assumes "m \<noteq> - 1" "n \<noteq> - 1"
  shows "value26 (ioc_ito26 n) - 1 = unat n \<and> (ioc_ito26 m = ioc_ito26 n \<longleftrightarrow> m = n)"
proof -
  have "m + 1 \<noteq> 0" "n + 1 \<noteq> 0" using assms by (simp_all add: add_eq_0_iff2)
  then have "value26 (ioc_ito26 m) = unat m + 1" "value26 (ioc_ito26 n) = unat n + 1"
    by (simp_all add: ioc_ito26_letters)
  then show ?thesis by (metis add_diff_cancel_right' word_unat_eq_iff)
qed

lemma disk_letters_roundtrip_witness:
  "value26 (ioc_ito26 27) - 1 = unat (27 :: 32 word) \<and> (ioc_ito26 26 = ioc_ito26 27 \<longleftrightarrow> (26 :: 32 word) = 27)"
  by (rule disk_letters_roundtrip) simp_all

end
