(* ===== verification/Iostat_Names.thy ===== *)
theory Iostat_Names
  imports Iostat_Conf
begin

text \<open>
  Names of devices: the functions of app/source/source/host/collector/iostat/common.cc that look into
  /dev, /sys and /proc, \<open>transform_devmapname\<close> of ioconf.cc and the two static functions of iostat.h.
  The file system is a parameter: the contents of files, the entries of directories in the order they
  are read and in alphabetical order, what exists, where links point to, and device numbers.
\<close>

record filesys =
  fs_open :: "string \<Rightarrow> string option"
  fs_list :: "string \<Rightarrow> string list option"
  fs_sorted :: "string \<Rightarrow> string list option"
  fs_exists :: "string \<Rightarrow> bool"
  fs_readable :: "string \<Rightarrow> bool"
  fs_link :: "string \<Rightarrow> string option"
  fs_rdev :: "string \<Rightarrow> (32 word \<times> 32 word) option"
  fs_dir :: "string \<Rightarrow> bool"

definition PATH_MAX :: nat where "PATH_MAX = 4096"
definition MAX_NAME_LEN :: nat where "MAX_NAME_LEN = 128"
definition MAX_PF_NAME :: nat where "MAX_PF_NAME = 1024"

text \<open>\<open>snprintf\<close> and \<open>strncpy\<close> into a buffer of \<open>n\<close> bytes with a final zero.\<close>

definition fit :: "nat \<Rightarrow> string \<Rightarrow> string" where
  "fit n s = take (n - 1) s"

definition basename :: "string \<Rightarrow> string" where
  "basename s = (case rfind_char CHR ''/'' s of None \<Rightarrow> s | Some i \<Rightarrow> drop (i + 1) s)"

definition swap_char :: "char \<Rightarrow> char \<Rightarrow> string \<Rightarrow> string" where
  "swap_char a b s = map (\<lambda>c. if c = a then b else c) s"

text \<open>The pattern around \<open>readlink\<close>: nothing for an error, an empty or an overlong target.\<close>

definition link_target :: "filesys \<Rightarrow> string \<Rightarrow> string option" where
  "link_target F path =
     (case fs_link F path of None \<Rightarrow> None | Some t \<Rightarrow> if t = [] \<or> PATH_MAX \<le> length t then None else Some t)"

definition link_name :: "filesys \<Rightarrow> string \<Rightarrow> string option" where
  "link_name F path =
     (case link_target F path of None \<Rightarrow> None | Some t \<Rightarrow> if basename t = [] then None else Some (basename t))"

section \<open>Device numbers and kinds\<close>

definition is_device :: "filesys \<Rightarrow> string \<Rightarrow> string \<Rightarrow> bool \<Rightarrow> bool" where
  "is_device F sysdev name allow_virtual =
     fs_exists F (fit PATH_MAX (sysdev @ ''/block/'' @ swap_char CHR ''/'' CHR ''!'' name @ (if allow_virtual then [] else ''/device'')))"

definition get_major_minor_nr :: "filesys \<Rightarrow> string \<Rightarrow> (32 word \<times> 32 word) option" where
  "get_major_minor_nr F filename =
     fs_rdev F (swap_char CHR ''!'' CHR ''/''
       (fit MAX_PF_NAME ((if starts_with ''/'' filename then [] else ''/dev/'') @ filename)))"

definition check_dir :: "filesys \<Rightarrow> string \<Rightarrow> bool" where
  "check_dir F dirname = fs_dir F dirname"

text \<open>The last line that names the device mapper counts.\<close>

definition get_devmap_major :: "filesys \<Rightarrow> 32 word" where
  "get_devmap_major F =
     (case fs_open F ''/proc/devices'' of
        None \<Rightarrow> - 1
      | Some content \<Rightarrow>
          fold (\<lambda>line dm. if find_sub ''device-mapper'' line \<noteq> None
                         then case scan_ulong line of None \<Rightarrow> dm | Some (v, _) \<Rightarrow> ucast v
                         else dm)
            (fgets_lines 128 content) (- 1))"

section \<open>World-wide names\<close>

text \<open>The code takes the end of the text for a success: the number then stays 0.\<close>

definition scan_hex :: "string \<Rightarrow> 64 word option" where
  "scan_hex s =
     (let t = dropWhile is_space s;
          u = (if starts_with ''0x'' t \<or> starts_with ''0X'' t then drop 2 t else t);
          ds = takeWhile (\<lambda>c. c \<in> set ''0123456789abcdefABCDEF'') u
      in if t = [] then Some 0
         else if ds = [] then None
         else Some (of_nat (min ulong_max (foldl (\<lambda>n c. 16 * n +
                (if is_digit c then digit_val c else if c \<in> set ''abcdef'' then of_char c - 87 else of_char c - 55)) 0 ds))))"

definition scan_part :: "string \<Rightarrow> 32 word option" where
  "scan_part s = (if dropWhile is_space s = [] then Some 0 else map_option (\<lambda>(v, _). ucast v) (scan_ulong s))"

definition extract_wwnid :: "string \<Rightarrow> (64 word \<times> 64 word \<times> 32 word) option" where
  "extract_wwnid name =
     (if length name < 22 \<or> \<not> starts_with ''wwn-0x'' name then None
      else let part = find_sub ''-part'' name;
               len = (case part of None \<Rightarrow> int (length name) - 6 | Some i \<Rightarrow> int i - 6);
               nr = (case part of None \<Rightarrow> Some 0 | Some i \<Rightarrow> scan_part (drop (i + 5) name))
           in case nr of
                None \<Rightarrow> None
              | Some p \<Rightarrow>
                  if len \<noteq> 16 \<and> len \<noteq> 32 then None
                  else (case scan_hex (take 16 (drop 6 name)) of
                          None \<Rightarrow> None
                        | Some w0 \<Rightarrow>
                            if length name < 38 then Some (w0, 0, p)
                            else map_option (\<lambda>w1. (w0, w1, p)) (scan_hex (drop 22 name))))"

definition get_wwnid_from_pretty :: "filesys \<Rightarrow> string \<Rightarrow> (64 word \<times> 64 word \<times> 32 word) option" where
  "get_wwnid_from_pretty F pretty =
     (case fs_list F ''/dev/disk/by-id'' of
        None \<Rightarrow> None
      | Some names \<Rightarrow>
          fold (\<lambda>n found.
              case found of
                Some w \<Rightarrow> Some w
              | None \<Rightarrow>
                  if starts_with ''wwn-0x'' n \<and> link_name F (fit PATH_MAX (''/dev/disk/by-id/'' @ n)) = Some pretty
                  then extract_wwnid n else None)
            names None)"

section \<open>Persistent names\<close>

definition get_persistent_type_dir :: "filesys \<Rightarrow> string \<Rightarrow> string option" where
  "get_persistent_type_dir F type =
     (let dir = ''/dev/disk/by-'' @ type in if PATH_MAX \<le> length dir \<or> \<not> fs_readable F dir then None else Some dir)"

definition get_persistent_name_path :: "filesys \<Rightarrow> string \<Rightarrow> string \<Rightarrow> string option" where
  "get_persistent_name_path F type name =
     (let path = (case get_persistent_type_dir F type of None \<Rightarrow> ''(null)'' | Some d \<Rightarrow> d) @ ''/'' @ name
      in if PATH_MAX \<le> length path \<or> \<not> fs_exists F path then None else Some path)"

definition get_persistent_names :: "filesys \<Rightarrow> string \<Rightarrow> string list option" where
  "get_persistent_names F type =
     (case get_persistent_type_dir F type of
        None \<Rightarrow> None
      | Some dir \<Rightarrow>
          (case fs_sorted F dir of
             None \<Rightarrow> None
           | Some names \<Rightarrow>
               if length names \<le> 2 then None else Some (filter (\<lambda>n. n \<noteq> ''.'' \<and> n \<noteq> ''..'') names)))"

definition persistent_target :: "filesys \<Rightarrow> string \<Rightarrow> string \<Rightarrow> string option" where
  "persistent_target F type persistent =
     (case get_persistent_name_path F type persistent of None \<Rightarrow> None | Some link \<Rightarrow> link_name F link)"

definition get_persistent_name_from_pretty :: "filesys \<Rightarrow> string \<Rightarrow> string \<Rightarrow> string option" where
  "get_persistent_name_from_pretty F type pretty =
     (case get_persistent_names F type of
        None \<Rightarrow> None
      | Some names \<Rightarrow>
          (case find (\<lambda>n. persistent_target F type n = Some pretty) names of
             None \<Rightarrow> None
           | Some n \<Rightarrow> if n = [] then None else Some n))"

text \<open>The pretty name that is returned points into a local array.\<close>

definition get_pretty_name_from_persistent :: "filesys \<Rightarrow> string \<Rightarrow> string \<Rightarrow> (string result) option" where
  "get_pretty_name_from_persistent F type persistent =
     map_option (\<lambda>_. Inl Dangling_Deref) (persistent_target F type persistent)"

section \<open>Names from numbers\<close>

definition get_devname_from_sysfs :: "filesys \<Rightarrow> 32 word \<Rightarrow> 32 word \<Rightarrow> string option" where
  "get_devname_from_sysfs F major minor =
     link_name F (fit 256 (''/sys/dev/block/'' @ dec_of_nat (unat major) @ '':'' @ dec_of_nat (unat minor)))"

definition IOCONF :: string where "IOCONF = ''/etc/sysconfig/sysstat.ioconf''"
definition LOCAL_IOCONF :: string where "LOCAL_IOCONF = ''./sysstat.ioconf''"

definition get_devname :: "filesys \<Rightarrow> 32 word \<Rightarrow> 32 word \<Rightarrow> ioc_table \<Rightarrow> (string \<times> ioc_table) result" where
  "get_devname F major minor t =
     (case get_devname_from_sysfs F major minor of
        Some n \<Rightarrow> Inr (n, t)
      | None \<Rightarrow>
          bind_r (ioc_name (fs_open F IOCONF) (fs_open F LOCAL_IOCONF) major minor t) (\<lambda>(n, t1).
            Inr (if n \<noteq> None \<and> n \<noteq> Some K_NODEV then the n
                 else fit 32 (''dev'' @ dec_of_nat (unat major) @ ''-'' @ dec_of_nat (unat minor)), t1)))"

text \<open>A directory that cannot be opened ends the process.\<close>

definition transform_devmapname :: "filesys \<Rightarrow> 32 word \<Rightarrow> 32 word \<Rightarrow> string option result" where
  "transform_devmapname F major minor =
     (case fs_list F ''/dev/mapper'' of
        None \<Rightarrow> Inl Process_Exit
      | Some names \<Rightarrow>
          Inr (map_option (fit MAX_NAME_LEN)
            (find (\<lambda>n. fs_rdev F (fit 512 (''/dev/mapper/'' @ n)) = Some (major, minor)) names)))"

definition get_dm_name_from_registered_name :: "filesys \<Rightarrow> string \<Rightarrow> string option" where
  "get_dm_name_from_registered_name F registered =
     (let path = ''/dev/mapper/'' @ registered
      in if PATH_MAX \<le> length path \<or> \<not> fs_exists F path then None
         else map_option basename (link_target F path))"

text \<open>The number of the device mapper is looked up once and kept; 0 stands for not yet.\<close>

record names_state =
  dm_major :: "32 word"
  names_table :: ioc_table

definition names_new :: names_state where
  "names_new = \<lparr>dm_major = 0, names_table = ioc_table_new\<rparr>"

text \<open>Its only caller asks for no stable name, so that branch is left out.\<close>

definition get_device_name ::
  "filesys \<Rightarrow> string \<Rightarrow> 32 word \<Rightarrow> 32 word \<Rightarrow> bool \<Rightarrow> bool \<Rightarrow> string option \<Rightarrow> names_state \<Rightarrow> (string \<times> names_state) result" where
  "get_device_name F type major minor disp_devmap_name disp_persist_name dflt_name s =
     bind_r (if disp_persist_name
             then bind_r (get_devname F major minor (names_table s)) (\<lambda>(n, t).
                    Inr (get_persistent_name_from_pretty F type n, s\<lparr>names_table := t\<rparr>))
             else Inr (None, s)) (\<lambda>(persist, s1).
     bind_r (if persist \<noteq> None then Inr (persist, s1)
             else if disp_devmap_name
             then let dm = (if dm_major s1 = 0 then get_devmap_major F else dm_major s1); s2 = s1\<lparr>dm_major := dm\<rparr>
                  in if major = dm then bind_r (transform_devmapname F major minor) (\<lambda>n. Inr (n, s2)) else Inr (None, s2)
             else Inr (None, s1)) (\<lambda>(n, s3).
     bind_r (case n of
               Some n \<Rightarrow> Inr (n, s3)
             | None \<Rightarrow>
                 (case dflt_name of
                    Some d \<Rightarrow> Inr (d, s3)
                  | None \<Rightarrow> bind_r (get_devname F major minor (names_table s3)) (\<lambda>(d, t). Inr (d, s3\<lparr>names_table := t\<rparr>)))) (\<lambda>(n, s4).
       Inr (swap_char CHR ''!'' CHR ''/'' (fit MAX_NAME_LEN n), s4))))"

lemma get_device_name_default:
  "get_device_name F type major minor False False (Some d) s = Inr (swap_char CHR ''!'' CHR ''/'' (fit MAX_NAME_LEN d), s)"
  by (simp add: get_device_name_def)

end
