(* ===== verification/Iostat_Stats.thy ===== *)
theory Iostat_Stats
  imports Iostat_Names Parser_Util
begin

text \<open>
  Counters of the kernel: app/source/source/host/collector/iostat/rd_stats.cc, its structures in
  rd_stats.h and common.h. \<open>exit\<close> is \<open>Process_Exit\<close>; arrays are lists, and an index outside is
  \<open>Out_Of_Bounds\<close>.
\<close>

section \<open>Processors\<close>

record stats_cpu =
  cpu_user :: "64 word"
  cpu_nice :: "64 word"
  cpu_sys :: "64 word"
  cpu_idle :: "64 word"
  cpu_iowait :: "64 word"
  cpu_steal :: "64 word"
  cpu_hardirq :: "64 word"
  cpu_softirq :: "64 word"
  cpu_guest :: "64 word"
  cpu_guest_nice :: "64 word"

definition stats_cpu_zero :: stats_cpu where
  "stats_cpu_zero =
     \<lparr>cpu_user = 0, cpu_nice = 0, cpu_sys = 0, cpu_idle = 0, cpu_iowait = 0, cpu_steal = 0,
      cpu_hardirq = 0, cpu_softirq = 0, cpu_guest = 0, cpu_guest_nice = 0\<rparr>"

text \<open>Fields the line does not have stay zero. In the file softirq stands before steal.\<close>

definition cpu_of :: "64 word list \<Rightarrow> stats_cpu" where
  "cpu_of vs =
     (let f = (\<lambda>i. if i < length vs then vs ! i else 0) in
      \<lparr>cpu_user = f 0, cpu_nice = f 1, cpu_sys = f 2, cpu_idle = f 3, cpu_iowait = f 4, cpu_steal = f 7,
       cpu_hardirq = f 5, cpu_softirq = f 6, cpu_guest = f 8, cpu_guest_nice = f 9\<rparr>)"

text \<open>The line of one processor. A line without a number leaves \<open>proc_nr\<close> as it was, which is not set
  before the first one.\<close>

definition proc_line ::
  "string \<Rightarrow> int \<Rightarrow> int option \<Rightarrow> int \<times> stats_cpu list \<Rightarrow> (bool \<times> int option \<times> int \<times> stats_cpu list) result" where
  "proc_line line nr_alloc proc_nr st =
     (let vs = map number_of (sscanf (Sc_Signed # replicate 10 Sc_Unsigned) (drop 3 line)) in
      case (if vs = [] then proc_nr else Some (sint (ucast (hd vs) :: 32 word))) of
        None \<Rightarrow> Inl Uninitialised_Read
      | Some nr \<Rightarrow>
          if 2 ^ 31 \<le> nr + 2 then Inl Signed_Overflow
          else if nr_alloc < nr + 2 then Inr (True, Some nr, - 1, snd st)
          else if nr + 1 < 0 \<or> length (snd st) \<le> nat (nr + 1) then Inl Out_Of_Bounds
          else Inr (False, Some nr, max (fst st) (nr + 2), (snd st)[nat (nr + 1) := cpu_of (tl vs)]))"

text \<open>The loop over the lines: the line of all processors, those of one, and the end at the first when
  only all are asked for. The numbers of the first start behind its fifth character.\<close>

fun cpu_lines :: "string list \<Rightarrow> int \<Rightarrow> int option \<Rightarrow> int \<times> stats_cpu list \<Rightarrow> (int \<times> stats_cpu list) result" where
  "cpu_lines [] nr_alloc proc_nr st = Inr st"
| "cpu_lines (line # lines) nr_alloc proc_nr st =
     (if starts_with ''cpu '' line
      then if length line < 5 then Inl Uninitialised_Read
           else if snd st = [] then Inl Out_Of_Bounds
           else let st1 = (if fst st = 0 then 1 else fst st,
                           (snd st)[0 := cpu_of (map number_of (sscanf (replicate 10 Sc_Unsigned) (drop 5 line)))])
                in if nr_alloc = 1 then Inr st1 else cpu_lines lines nr_alloc proc_nr st1
      else if starts_with ''cpu'' line
      then bind_r (proc_line line nr_alloc proc_nr st) (\<lambda>(stop, nr, st1).
             if stop then Inr st1 else cpu_lines lines nr_alloc nr st1)
      else cpu_lines lines nr_alloc proc_nr st)"

definition read_stat_cpu :: "string option \<Rightarrow> stats_cpu list \<Rightarrow> int \<Rightarrow> (int \<times> stats_cpu list) result" where
  "read_stat_cpu stat st_cpu nr_alloc =
     (case stat of
        None \<Rightarrow> Inl Process_Exit
      | Some content \<Rightarrow> cpu_lines (fgets_lines 8192 content) nr_alloc None (0, st_cpu))"

text \<open>The interval of one processor; the previous counters are corrected on the way.\<close>

definition almost_max :: "64 word" where "almost_max = - 1 - 0x7FFFF"

definition guest_shift :: "64 word \<Rightarrow> 64 word \<Rightarrow> 64 word \<Rightarrow> 64 word \<Rightarrow> 64 word" where
  "guest_shift c g c' g' = (if c - g < c' - g' then (c' - g') - (c - g) else 0)"

definition corrected_previous :: "stats_cpu \<Rightarrow> stats_cpu \<Rightarrow> stats_cpu" where
  "corrected_previous scc scp =
     (let p = (if cpu_iowait scc < cpu_iowait scp \<and> cpu_iowait scp < almost_max
               then if cpu_idle scc > cpu_idle scp \<or> almost_max \<le> cpu_idle scp
                    then scp\<lparr>cpu_iowait := cpu_iowait scc\<rparr> else scp\<lparr>cpu_iowait := 0\<rparr>
               else scp)
      in if cpu_idle scc < cpu_idle p \<and> cpu_idle p < almost_max then p\<lparr>cpu_idle := 0\<rparr> else p)"

definition busy_and_idle :: "stats_cpu \<Rightarrow> 64 word" where
  "busy_and_idle c =
     cpu_user c + cpu_nice c + cpu_sys c + cpu_iowait c + cpu_idle c + cpu_steal c + cpu_hardirq c + cpu_softirq c"

definition get_per_cpu_interval :: "stats_cpu \<Rightarrow> stats_cpu \<Rightarrow> 64 word \<times> stats_cpu" where
  "get_per_cpu_interval scc scp =
     (let ishift = guest_shift (cpu_user scc) (cpu_guest scc) (cpu_user scp) (cpu_guest scp) +
                   guest_shift (cpu_nice scc) (cpu_guest_nice scc) (cpu_nice scp) (cpu_guest_nice scp);
          p = corrected_previous scc scp
      in (busy_and_idle scc - busy_and_idle p + ishift, p))"

section \<open>Memory\<close>

record stats_memory =
  frmkb :: "64 word"
  bufkb :: "64 word"
  camkb :: "64 word"
  tlmkb :: "64 word"
  frskb :: "64 word"
  tlskb :: "64 word"
  caskb :: "64 word"
  comkb :: "64 word"
  activekb :: "64 word"
  inactkb :: "64 word"
  dirtykb :: "64 word"
  anonpgkb :: "64 word"
  slabkb :: "64 word"
  kstackkb :: "64 word"
  pgtblkb :: "64 word"
  vmusedkb :: "64 word"
  availablekb :: "64 word"

definition memory_fields :: "(string \<times> (64 word \<Rightarrow> stats_memory \<Rightarrow> stats_memory)) list" where
  "memory_fields =
     [(''MemTotal:'', \<lambda>v. tlmkb_update (\<lambda>_. v)), (''MemFree:'', \<lambda>v. frmkb_update (\<lambda>_. v)),
      (''MemAvailable:'', \<lambda>v. availablekb_update (\<lambda>_. v)), (''Buffers:'', \<lambda>v. bufkb_update (\<lambda>_. v)),
      (''Cached:'', \<lambda>v. camkb_update (\<lambda>_. v)), (''SwapCached:'', \<lambda>v. caskb_update (\<lambda>_. v)),
      (''Active:'', \<lambda>v. activekb_update (\<lambda>_. v)), (''Inactive:'', \<lambda>v. inactkb_update (\<lambda>_. v)),
      (''SwapTotal:'', \<lambda>v. tlskb_update (\<lambda>_. v)), (''SwapFree:'', \<lambda>v. frskb_update (\<lambda>_. v)),
      (''Dirty:'', \<lambda>v. dirtykb_update (\<lambda>_. v)), (''Committed_AS:'', \<lambda>v. comkb_update (\<lambda>_. v)),
      (''AnonPages:'', \<lambda>v. anonpgkb_update (\<lambda>_. v)), (''Slab:'', \<lambda>v. slabkb_update (\<lambda>_. v)),
      (''KernelStack:'', \<lambda>v. kstackkb_update (\<lambda>_. v)), (''PageTables:'', \<lambda>v. pgtblkb_update (\<lambda>_. v)),
      (''VmallocUsed:'', \<lambda>v. vmusedkb_update (\<lambda>_. v))]"

definition memory_line :: "string \<Rightarrow> stats_memory \<Rightarrow> stats_memory" where
  "memory_line line m =
     (case find (\<lambda>(k, f). starts_with k line) memory_fields of
        None \<Rightarrow> m
      | Some (k, f) \<Rightarrow> (case scan_ulong (drop (length k) line) of None \<Rightarrow> m | Some (v, _) \<Rightarrow> f v m))"

definition read_meminfo :: "string option \<Rightarrow> stats_memory \<Rightarrow> int \<times> stats_memory" where
  "read_meminfo meminfo m =
     (case meminfo of None \<Rightarrow> (0, m) | Some content \<Rightarrow> (1, fold memory_line (fgets_lines 128 content) m))"

section \<open>Disks\<close>

record stats_disk =
  nr_ios :: "64 word"
  rd_sect :: "64 word"
  wr_sect :: "64 word"
  dc_sect :: "64 word"
  sd_rd_ticks :: "32 word"
  sd_wr_ticks :: "32 word"
  sd_tot_ticks :: "32 word"
  sd_dc_ticks :: "32 word"

record 'd ext_disk_stats =
  util :: 'd
  await :: 'd
  arqsz :: 'd

text \<open>The macro \<open>S_VALUE\<close>, on 32-bit counters: the difference wraps at their width.\<close>

definition S_VALUE32 :: "'d double_ops \<Rightarrow> 32 word \<Rightarrow> 32 word \<Rightarrow> 64 word \<Rightarrow> 'd" where
  "S_VALUE32 D m n p = d_mul D (d_div D (d_of_u64 D (ucast (n - m))) (d_of_u64 D p)) (d_of_long D 100)"

definition compute_ext_disk_stats :: "'d double_ops \<Rightarrow> stats_disk \<Rightarrow> stats_disk \<Rightarrow> 64 word \<Rightarrow> 'd ext_disk_stats" where
  "compute_ext_disk_stats D sdc sdp itv =
     \<lparr>util = (if sd_tot_ticks sdc < sd_tot_ticks sdp then d_of_long D 0
              else S_VALUE32 D (sd_tot_ticks sdp) (sd_tot_ticks sdc) itv),
      await = (if nr_ios sdp < nr_ios sdc
               then d_div D (d_of_u64 D (ucast ((sd_rd_ticks sdc - sd_rd_ticks sdp) + (sd_wr_ticks sdc - sd_wr_ticks sdp) +
                      (sd_dc_ticks sdc - sd_dc_ticks sdp)))) (d_of_u64 D (nr_ios sdc - nr_ios sdp))
               else d_of_long D 0),
      arqsz = (if nr_ios sdp < nr_ios sdc
               then d_div D (d_of_u64 D ((rd_sect sdc - rd_sect sdp) + (wr_sect sdc - wr_sect sdp) + (dc_sect sdc - dc_sect sdp)))
                      (d_of_u64 D (nr_ios sdc - nr_ios sdp))
               else d_of_long D 0)\<rparr>"

end
