(* ===== verification/Iostat_Handler.thy ===== *)
theory Iostat_Handler
  imports Iostat_Common Iostat_Stats Net_Collector
begin

text \<open>
  Disk activity: app/source/source/host/collector/iostat/handler.cc, handler.h, iodevice.h and iostat.h.
  \<open>flags\<close> and \<open>alt_dir\<close> are never written after construction; they are constants here, and the tests on
  them stand where the code has them. The two samples of a device are a pair indexed by \<open>curr\<close>. The
  file system, the lines of /proc/uptime and the arithmetic of doubles are parameters.
\<close>

section \<open>Data\<close>

record io_stats =
  rd_sectors :: "64 word"
  wr_sectors :: "64 word"
  dc_sectors :: "64 word"
  rd_ios :: "64 word"
  rd_merges :: "64 word"
  wr_ios :: "64 word"
  wr_merges :: "64 word"
  dc_ios :: "64 word"
  dc_merges :: "64 word"
  fl_ios :: "64 word"
  rd_ticks :: "32 word"
  wr_ticks :: "32 word"
  dc_ticks :: "32 word"
  fl_ticks :: "32 word"
  ios_pgr :: "32 word"
  tot_ticks :: "32 word"
  rq_ticks :: "32 word"

definition iozero :: io_stats where
  "iozero =
     \<lparr>rd_sectors = 0, wr_sectors = 0, dc_sectors = 0, rd_ios = 0, rd_merges = 0, wr_ios = 0, wr_merges = 0,
      dc_ios = 0, dc_merges = 0, fl_ios = 0, rd_ticks = 0, wr_ticks = 0, dc_ticks = 0, fl_ticks = 0,
      ios_pgr = 0, tot_ticks = 0, rq_ticks = 0\<rparr>"

record io_device =
  io_name :: string
  dev_tp :: nat
  exist :: bool
  io_major :: "32 word"
  io_minor :: "32 word"
  samples :: "io_stats \<times> io_stats"

record 'd dev_stats =
  tps :: 'd
  read_bps :: 'd
  write_bps :: 'd
  dscd_bps :: 'd
  read_bytes :: "64 word"
  write_bytes :: "64 word"
  dscd_bytes :: "64 word"

definition T_PART :: nat where "T_PART = 0"
definition T_DEV :: nat where "T_DEV = 1"
definition T_PART_DEV :: nat where "T_PART_DEV = 2"
definition T_GROUP :: nat where "T_GROUP = 3"

record 'd io_handler =
  dev_list :: "(string \<times> io_device) list"
  io_uptime :: "64 word \<times> 64 word"
  io_curr :: bool
  device_stats :: "(string \<times> 'd dev_stats) list"
  io_names :: names_state

definition io_handler_new :: "'d io_handler" where
  "io_handler_new = \<lparr>dev_list = [], io_uptime = (0, 0), io_curr = True, device_stats = [], io_names = names_new\<rparr>"

definition flags :: "64 word" where "flags = 0"
definition alt_dir :: string where "alt_dir = []"

definition USE_ALL_DIR :: "64 word \<Rightarrow> bool" where "USE_ALL_DIR m \<longleftrightarrow> and m 0x40 = 0x40"
definition DISPLAY_EXTENDED :: "64 word \<Rightarrow> bool" where "DISPLAY_EXTENDED m \<longleftrightarrow> and m 0x8 = 0x8"
definition DISPLAY_UNFILTERED :: "64 word \<Rightarrow> bool" where "DISPLAY_UNFILTERED m \<longleftrightarrow> and m 0x100 = 0x100"
definition DISPLAY_ZERO_OMIT :: "64 word \<Rightarrow> bool" where "DISPLAY_ZERO_OMIT m \<longleftrightarrow> and m 0x80000 = 0x80000"
definition DISPLAY_DEVMAP_NAME :: "64 word \<Rightarrow> bool" where "DISPLAY_DEVMAP_NAME m \<longleftrightarrow> and m 0x10000 = 0x10000"
definition DISPLAY_PERSIST_NAME_I :: "64 word \<Rightarrow> bool" where "DISPLAY_PERSIST_NAME_I m \<longleftrightarrow> and m 0x2000 = 0x2000"

definition sample_at :: "bool \<Rightarrow> 'a \<times> 'a \<Rightarrow> 'a" where
  "sample_at b p = (if b then snd p else fst p)"

definition set_sample :: "bool \<Rightarrow> 'a \<Rightarrow> 'a \<times> 'a \<Rightarrow> 'a \<times> 'a" where
  "set_sample b x p = (if b then (fst p, x) else (x, snd p))"

record 'd io_env =
  io_fs :: filesys
  io_uptime_line :: "string option"
  io_doubles :: "'d double_ops"
  persistent_name_type :: string

section \<open>Reading a device\<close>

text \<open>The counters of a device or, with four numbers only, of a partition; \<open>vs\<close> are the numbers that
  were converted.\<close>

definition io_stats_of :: "64 word list \<Rightarrow> io_stats" where
  "io_stats_of vs =
     (let dev = iozero\<lparr>rd_ios := vs ! 0, rd_merges := vs ! 1, rd_sectors := vs ! 2, rd_ticks := ucast (vs ! 3),
            wr_ios := vs ! 4, wr_merges := vs ! 5, wr_sectors := vs ! 6, wr_ticks := ucast (vs ! 7),
            ios_pgr := ucast (vs ! 8), tot_ticks := ucast (vs ! 9), rq_ticks := ucast (vs ! 10)\<rparr>;
          dc = dev\<lparr>dc_ios := vs ! 11, dc_merges := vs ! 12, dc_sectors := vs ! 13, dc_ticks := ucast (vs ! 14)\<rparr>;
          fl = dc\<lparr>fl_ios := vs ! 15, fl_ticks := ucast (vs ! 16)\<rparr>
      in if length vs \<ge> 11 then (if length vs \<ge> 17 then fl else if length vs \<ge> 15 then dc else dev)
         else if length vs = 4
         then iozero\<lparr>rd_ios := vs ! 0, rd_sectors := vs ! 1, wr_ios := vs ! 2, wr_sectors := vs ! 3\<rparr>
         else iozero)"

definition read_sysfs_file_stat_work :: "filesys \<Rightarrow> string \<Rightarrow> io_stats option" where
  "read_sysfs_file_stat_work F filename =
     map_option (\<lambda>content. io_stats_of (map number_of (sscanf (replicate 17 Sc_Unsigned) content))) (fs_open F filename)"

section \<open>The list of devices\<close>

text \<open>Looking whether the name is a device writes exclamation marks for slashes into the caller's
  name, under which the device is then stored.\<close>

definition device_type :: "filesys \<Rightarrow> string \<Rightarrow> nat \<Rightarrow> nat" where
  "device_type F name dtype =
     (let rc = (alt_dir = [] \<or> USE_ALL_DIR flags) \<and> is_device F ''/sys'' name True;
          rc2 = (if alt_dir \<noteq> [] \<and> (\<not> USE_ALL_DIR flags \<or> \<not> rc) then is_device F alt_dir name True else rc)
      in if rc2 then (if dtype = T_PART_DEV then T_PART_DEV else T_DEV) else T_PART)"

definition UKWN_MAJ_NR :: "32 word" where "UKWN_MAJ_NR = 0"

definition new_device :: "filesys \<Rightarrow> string \<Rightarrow> nat \<Rightarrow> 32 word \<Rightarrow> 32 word \<Rightarrow> io_device" where
  "new_device F name dtype major minor =
     (let (mj, mn) = (if dtype = T_GROUP then (0, 0)
                      else if major \<noteq> UKWN_MAJ_NR then (major, minor)
                      else case get_major_minor_nr F name of None \<Rightarrow> (0, 0) | Some p \<Rightarrow> p)
      in \<lparr>io_name = name, dev_tp = (if dtype = T_GROUP then dtype else device_type F name dtype), exist = True,
          io_major = mj, io_minor = mn, samples = (iozero, iozero)\<rparr>)"

text \<open>The result is the key under which the device stands.\<close>

definition add_list_device ::
  "filesys \<Rightarrow> string \<Rightarrow> nat \<Rightarrow> 32 word \<Rightarrow> 32 word \<Rightarrow> (string \<times> io_device) list \<Rightarrow>
     (string \<times> io_device) list \<times> string option" where
  "add_list_device F name dtype major minor dlist =
     (if MAX_NAME_LEN \<le> length name then (dlist, None)
      else case map_of dlist name of
             Some d \<Rightarrow>
               (smap_put name (d\<lparr>dev_tp := (if dtype = T_PART_DEV \<and> dev_tp d = T_DEV then dtype else dev_tp d),
                                exist := True\<rparr>) dlist, Some name)
           | None \<Rightarrow>
               (let key = (if dtype = T_GROUP then name else swap_char CHR ''/'' CHR ''!'' name)
                in (smap_put key (new_device F name dtype major minor) dlist, Some key)))"

definition store_sample :: "bool \<Rightarrow> io_stats \<Rightarrow> string option \<Rightarrow> (string \<times> io_device) list \<Rightarrow> (string \<times> io_device) list" where
  "store_sample ix sdev key dlist =
     (case key of
        None \<Rightarrow> dlist
      | Some k \<Rightarrow>
          (case map_of dlist k of
             None \<Rightarrow> dlist
           | Some d \<Rightarrow> smap_put k (d\<lparr>samples := set_sample ix sdev (samples d)\<rparr>) dlist))"

definition read_device :: "filesys \<Rightarrow> bool \<Rightarrow> string \<Rightarrow> string \<Rightarrow> (string \<times> io_device) list \<Rightarrow> (string \<times> io_device) list" where
  "read_device F ix sysblock name dlist =
     (if name = ''.'' \<or> name = ''..'' then dlist
      else case read_sysfs_file_stat_work F (fit MAX_PF_NAME (sysblock @ ''/'' @ name @ ''/stat'')) of
             None \<Rightarrow> dlist
           | Some sdev \<Rightarrow>
               (let (l, key) = add_list_device F name 0 UKWN_MAJ_NR 0 dlist in store_sample ix sdev key l))"

definition read_sysfs_all_devices_stat_work ::
  "filesys \<Rightarrow> bool \<Rightarrow> string \<Rightarrow> (string \<times> io_device) list \<Rightarrow> (string \<times> io_device) list" where
  "read_sysfs_all_devices_stat_work F ix sysblock dlist =
     (case fs_list F sysblock of None \<Rightarrow> dlist | Some names \<Rightarrow> fold (read_device F ix sysblock) names dlist)"

definition read_sysfs_all_devices_stat :: "filesys \<Rightarrow> bool \<Rightarrow> (string \<times> io_device) list \<Rightarrow> (string \<times> io_device) list" where
  "read_sysfs_all_devices_stat F ix dlist =
     (let l1 = (if alt_dir = [] \<or> USE_ALL_DIR flags then read_sysfs_all_devices_stat_work F ix ''/sys/block'' dlist else dlist)
      in if alt_dir \<noteq> [] then read_sysfs_all_devices_stat_work F ix (fit MAX_PF_NAME (alt_dir @ ''/block'')) l1 else l1)"

text \<open>A line of a diskstats file: numbers, a name, and the counters behind it. The name is read into
  \<open>MAX_NAME_LEN\<close> bytes without a width.\<close>

definition read_diskstats_line ::
  "filesys \<Rightarrow> bool \<Rightarrow> string \<Rightarrow> (string \<times> io_device) list \<Rightarrow> ((string \<times> io_device) list) result" where
  "read_diskstats_line F ix line dlist =
     (let vs = sscanf ([Sc_Unsigned, Sc_Unsigned, Sc_Word None] @ replicate 17 Sc_Unsigned) line;
          ns = map number_of (drop 3 vs)
      in if 3 \<le> length vs \<and> MAX_NAME_LEN \<le> length (text_of (vs ! 2)) then Inl Out_Of_Bounds
         else if length vs \<ge> 14 \<or> length vs = 7 \<and> \<not> DISPLAY_EXTENDED flags
         then let (l, key) = add_list_device F (text_of (vs ! 2)) 0 (uint_of (vs ! 0)) (uint_of (vs ! 1)) dlist
              in Inr (store_sample ix (io_stats_of ns) key l)
         else Inr dlist)"

definition read_diskstats_stat_work ::
  "filesys \<Rightarrow> bool \<Rightarrow> string \<Rightarrow> (string \<times> io_device) list \<Rightarrow> ((string \<times> io_device) list) result" where
  "read_diskstats_stat_work F ix diskstats dlist =
     (case fs_open F diskstats of
        None \<Rightarrow> Inr dlist
      | Some content \<Rightarrow> fold_r (read_diskstats_line F ix) (fgets_lines 256 content) dlist)"

section \<open>The report of a round\<close>

text \<open>A difference of 32-bit counters is cut back to their width.\<close>

definition sector_diff :: "64 word \<Rightarrow> 64 word \<Rightarrow> 64 word" where
  "sector_diff i j = (if i < j \<and> j \<le> 0xFFFFFFFF then and (i - j) 0xFFFFFFFF else i - j)"

definition write_plain_basic_stat ::
  "'d double_ops \<Rightarrow> 64 word \<Rightarrow> io_stats \<Rightarrow> io_stats \<Rightarrow> string \<Rightarrow> 64 word \<Rightarrow> 64 word \<Rightarrow> 64 word \<Rightarrow>
     (string \<times> 'd dev_stats) list \<Rightarrow> (string \<times> 'd dev_stats) list" where
  "write_plain_basic_stat D itv ioi ioj devname rd_sec wr_sec dc_sec m =
     smap_put devname
       \<lparr>tps = S_VALUE D (rd_ios ioj + wr_ios ioj + dc_ios ioj) (rd_ios ioi + wr_ios ioi + dc_ios ioi) itv,
        read_bps = S_VALUE D (rd_sectors ioj) (rd_sectors ioi) itv,
        write_bps = S_VALUE D (wr_sectors ioj) (wr_sectors ioi) itv,
        dscd_bps = S_VALUE D (dc_sectors ioj) (dc_sectors ioi) itv,
        read_bytes = rd_sec, write_bytes = wr_sec, dscd_bytes = dc_sec\<rparr> m"

definition write_basic_stat ::
  "'d double_ops \<Rightarrow> 64 word \<Rightarrow> io_stats \<Rightarrow> io_stats \<Rightarrow> string \<Rightarrow> (string \<times> 'd dev_stats) list \<Rightarrow> (string \<times> 'd dev_stats) list" where
  "write_basic_stat D itv ioi ioj dname m =
     write_plain_basic_stat D itv ioi ioj dname (sector_diff (rd_sectors ioi) (rd_sectors ioj))
       (sector_diff (wr_sectors ioi) (wr_sectors ioj)) (sector_diff (dc_sectors ioi) (dc_sectors ioj)) m"

definition all_ios :: "io_stats \<Rightarrow> 64 word" where
  "all_ios s = rd_ios s + wr_ios s + dc_ios s + fl_ios s"

definition no_ios :: "io_stats \<Rightarrow> bool" where
  "no_ios s \<longleftrightarrow> rd_ios s = 0 \<and> wr_ios s = 0 \<and> dc_ios s = 0 \<and> fl_ios s = 0"

text \<open>A device that was removed and inserted again starts from zero.\<close>

definition reinserted :: "io_stats \<Rightarrow> io_stats \<Rightarrow> bool" where
  "reinserted ioi ioj \<longleftrightarrow>
     all_ios ioi < all_ios ioj \<and>
     (rd_sectors ioj = 0 \<or> rd_sectors ioi < rd_sectors ioj) \<and>
     (wr_sectors ioj = 0 \<or> wr_sectors ioi < wr_sectors ioj) \<and>
     (dc_sectors ioj = 0 \<or> dc_sectors ioi < dc_sectors ioj)"

text \<open>The group pointer stays null, so the branches for devices within a group are never taken, and
  a group would be written through it.\<close>

definition write_device ::
  "'d io_env \<Rightarrow> bool \<Rightarrow> 64 word \<Rightarrow> string \<times> io_device \<Rightarrow> (string \<times> 'd dev_stats) list \<times> names_state \<Rightarrow>
     ((string \<times> 'd dev_stats) list \<times> names_state) result" where
  "write_device E ix itv = (\<lambda>(k, d) (m, s).
     let ioi = sample_at ix (samples d); ioj = sample_at (\<not> ix) (samples d) in
     if T_GROUP \<le> dev_tp d then Inl Null_Deref
     else if \<not> exist d then Inr (m, s)
     else if \<not> DISPLAY_UNFILTERED flags \<and> no_ios ioi then Inr (m, s)
     else if DISPLAY_ZERO_OMIT flags \<and> rd_ios ioi = rd_ios ioj \<and> wr_ios ioi = wr_ios ioj \<and>
             dc_ios ioi = dc_ios ioj \<and> fl_ios ioi = fl_ios ioj then Inr (m, s)
     else bind_r (get_device_name (io_fs E) (persistent_name_type E) (io_major d) (io_minor d)
                    (DISPLAY_DEVMAP_NAME flags) (DISPLAY_PERSIST_NAME_I flags) (Some (io_name d)) s) (\<lambda>(n, s1).
            Inr (write_basic_stat (io_doubles E) itv ioi (if reinserted ioi ioj then iozero else ioj) n m, s1)))"

definition write_stats :: "'d io_env \<Rightarrow> bool \<Rightarrow> 'd io_handler \<Rightarrow> ('d io_handler) result" where
  "write_stats E ix h =
     bind_r (fold_r (write_device E ix (get_interval (sample_at (\<not> ix) (io_uptime h)) (sample_at ix (io_uptime h))))
               (dev_list h) (device_stats h, io_names h)) (\<lambda>(m, s).
       Inr (h\<lparr>device_stats := m, io_names := s\<rparr>))"

text \<open>One round. The statistics of the processors are read into two fresh entries and given back at its end.\<close>

definition io_round :: "'d io_env \<Rightarrow> 'd io_handler \<Rightarrow> ('d io_handler \<times> (string \<times> 'd dev_stats) list) result" where
  "io_round E h =
     (let ix = io_curr h;
          h1 = h\<lparr>dev_list := [], device_stats := [],
                 io_uptime := set_sample ix (read_uptime (io_uptime_line E) (sample_at ix (io_uptime h))) (io_uptime h)\<rparr> in
      bind_r (read_stat_cpu (fs_open (io_fs E) ''/proc/stat'') [stats_cpu_zero, stats_cpu_zero] 1) (\<lambda>_.
      bind_r (write_stats E ix (h1\<lparr>dev_list := read_sysfs_all_devices_stat (io_fs E) ix (dev_list h1)\<rparr>)) (\<lambda>h2.
        Inr (h2\<lparr>io_curr := \<not> ix\<rparr>, device_stats h2))))"

text \<open>The metric callbacks.\<close>

definition load_io_metric :: "('d dev_stats \<Rightarrow> 'd) \<Rightarrow> 'd io_handler \<Rightarrow> 'd metric_data list \<Rightarrow> 'd metric_data list" where
  "load_io_metric get_field h values = load_values get_field (device_stats h) values"

definition loadAllTpsMetric :: "'d io_handler \<Rightarrow> 'd metric_data list \<Rightarrow> 'd metric_data list" where
  "loadAllTpsMetric = load_io_metric tps"

definition loadAllReadBpsMetric :: "'d io_handler \<Rightarrow> 'd metric_data list \<Rightarrow> 'd metric_data list" where
  "loadAllReadBpsMetric = load_io_metric read_bps"

definition loadAllWriteBpsMetric :: "'d io_handler \<Rightarrow> 'd metric_data list \<Rightarrow> 'd metric_data list" where
  "loadAllWriteBpsMetric = load_io_metric write_bps"

definition loadAllDscdBpsMetric :: "'d io_handler \<Rightarrow> 'd metric_data list \<Rightarrow> 'd metric_data list" where
  "loadAllDscdBpsMetric = load_io_metric dscd_bps"

definition loadAllReadBytesMetric :: "'d double_ops \<Rightarrow> 'd io_handler \<Rightarrow> 'd metric_data list \<Rightarrow> 'd metric_data list" where
  "loadAllReadBytesMetric D = load_io_metric (\<lambda>s. d_of_u64 D (read_bytes s))"

definition loadAllWriteBytesMetric :: "'d double_ops \<Rightarrow> 'd io_handler \<Rightarrow> 'd metric_data list \<Rightarrow> 'd metric_data list" where
  "loadAllWriteBytesMetric D = load_io_metric (\<lambda>s. d_of_u64 D (write_bytes s))"

definition loadAllDscdBytesMetric :: "'d double_ops \<Rightarrow> 'd io_handler \<Rightarrow> 'd metric_data list \<Rightarrow> 'd metric_data list" where
  "loadAllDscdBytesMetric D = load_io_metric (\<lambda>s. d_of_u64 D (dscd_bytes s))"

section \<open>Lemmas\<close>

lemma flags_off [simp]:
  "\<not> USE_ALL_DIR flags" "\<not> DISPLAY_EXTENDED flags" "\<not> DISPLAY_UNFILTERED flags" "\<not> DISPLAY_ZERO_OMIT flags"
  "\<not> DISPLAY_DEVMAP_NAME flags" "\<not> DISPLAY_PERSIST_NAME_I flags" "alt_dir = []"
  by (simp_all add: flags_def alt_dir_def USE_ALL_DIR_def DISPLAY_EXTENDED_def DISPLAY_UNFILTERED_def
      DISPLAY_ZERO_OMIT_def DISPLAY_DEVMAP_NAME_def DISPLAY_PERSIST_NAME_I_def)

lemma samples_simps [simp]:
  "sample_at ix (set_sample ix x p) = x"
  "sample_at (\<not> ix) (set_sample ix x p) = sample_at (\<not> ix) p"
  "set_sample ix x (set_sample ix y p) = set_sample ix x p"
  "sample_at ix (x, x) = x"
  by (simp_all add: sample_at_def set_sample_def)

lemma device_kind: "device_type F n 0 < T_GROUP"
  by (simp add: device_type_def T_PART_DEV_def T_DEV_def T_PART_def T_GROUP_def)

lemma swap_char_absent: "a \<notin> set s \<Longrightarrow> swap_char a b s = s"
  by (induction s) (auto simp: swap_char_def)

lemma swap_char_back: "b \<notin> set s \<Longrightarrow> swap_char b a (swap_char a b s) = s"
  by (induction s) (auto simp: swap_char_def)

text \<open>The sample a round finds for an entry of the directory, and the device it makes of it.\<close>

definition entry_sample :: "filesys \<Rightarrow> string \<Rightarrow> string \<Rightarrow> io_stats option" where
  "entry_sample F sysblock n =
     (if n = ''.'' \<or> n = ''..'' \<or> MAX_NAME_LEN \<le> length n then None
      else read_sysfs_file_stat_work F (fit MAX_PF_NAME (sysblock @ ''/'' @ n @ ''/stat'')))"

definition entry_device :: "filesys \<Rightarrow> bool \<Rightarrow> string \<Rightarrow> string \<Rightarrow> io_device option" where
  "entry_device F ix sysblock n =
     map_option (\<lambda>st. (new_device F n 0 UKWN_MAJ_NR 0)\<lparr>samples := set_sample ix st (iozero, iozero)\<rparr>) (entry_sample F sysblock n)"

definition devices_ok :: "filesys \<Rightarrow> bool \<Rightarrow> string \<Rightarrow> (string \<times> io_device) list \<Rightarrow> bool" where
  "devices_ok F ix sysblock l \<longleftrightarrow> smap_ok l \<and> (\<forall>n d. map_of l n = Some d \<longrightarrow> entry_device F ix sysblock n = Some d)"

lemma new_device_simps [simp]:
  "samples (new_device F n tp mj mn) = (iozero, iozero)" "io_name (new_device F n tp mj mn) = n"
  "exist (new_device F n tp mj mn)" "dev_tp (new_device F n 0 mj mn) < T_GROUP"
  using device_kind by (simp_all add: new_device_def T_GROUP_def split: prod.splits)

lemma new_device_exists [simp]:
  "(new_device F n tp mj mn)\<lparr>exist := True, samples := x\<rparr> = (new_device F n tp mj mn)\<lparr>samples := x\<rparr>"
  by (simp add: new_device_def split: prod.splits)

lemma read_device_step:
  assumes "devices_ok F ix blk l" "CHR ''/'' \<notin> set n"
  shows "devices_ok F ix blk (read_device F ix blk n l)"
    and "map_of (read_device F ix blk n l) = (map_of l)(n := case entry_device F ix blk n of None \<Rightarrow> map_of l n | Some d \<Rightarrow> Some d)"
proof -
  have ok: "smap_ok l" using assms(1) by (simp add: devices_ok_def)
  have upd: "map_of (read_device F ix blk n l) = (map_of l)(n := case entry_device F ix blk n of None \<Rightarrow> map_of l n | Some d \<Rightarrow> Some d) \<and>
      smap_ok (read_device F ix blk n l)"
  proof (cases "entry_sample F blk n")
    case None
    then have "read_device F ix blk n l = l"
      by (auto simp: read_device_def entry_sample_def add_list_device_def store_sample_def split: if_splits option.splits)
    then show ?thesis using None ok by (simp add: entry_device_def)
  next
    case (Some st)
    then have h: "n \<noteq> ''.''" "n \<noteq> ''..''" "\<not> MAX_NAME_LEN \<le> length n"
      "read_sysfs_file_stat_work F (fit MAX_PF_NAME (blk @ ''/'' @ n @ ''/stat'')) = Some st"
      by (auto simp: entry_sample_def split: if_splits)
    let ?d = "(new_device F n 0 UKWN_MAJ_NR 0)\<lparr>samples := set_sample ix st (iozero, iozero)\<rparr>"
    have e: "entry_device F ix blk n = Some ?d" using Some by (simp add: entry_device_def)
    show ?thesis
    proof (cases "map_of l n")
      case None
      then show ?thesis using h e ok swap_char_absent [OF assms(2)]
        by (simp add: read_device_def add_list_device_def T_GROUP_def store_sample_def smap_ok_put)
    next
      case (Some d)
      then have "d = ?d" using assms(1) e by (auto simp: devices_ok_def)
      then show ?thesis using h e ok Some
        by (simp add: read_device_def add_list_device_def T_PART_DEV_def store_sample_def smap_ok_put)
    qed
  qed
  then show "map_of (read_device F ix blk n l) = (map_of l)(n := case entry_device F ix blk n of None \<Rightarrow> map_of l n | Some d \<Rightarrow> Some d)"
    by simp
  show "devices_ok F ix blk (read_device F ix blk n l)"
    using upd assms(1) by (cases "map_of l n") (auto simp: devices_ok_def split: option.splits if_splits)
qed

lemma read_devices:
  assumes "devices_ok F ix blk l" "\<forall>n\<in>set names. CHR ''/'' \<notin> set n"
  shows "devices_ok F ix blk (fold (read_device F ix blk) names l) \<and>
    (\<forall>n. map_of (fold (read_device F ix blk) names l) n =
      (if n \<in> set names \<and> entry_device F ix blk n \<noteq> None then entry_device F ix blk n else map_of l n))"
  using assms
proof (induction names arbitrary: l)
  case (Cons m names)
  have m: "CHR ''/'' \<notin> set m" using Cons.prems(2) by simp
  note step = read_device_step [OF Cons.prems(1) m]
  show ?case using Cons.IH [OF step(1)] Cons.prems(2) step(2)
    by (auto simp: fun_upd_def split: option.splits)
qed simp

text \<open>What is reported for an active device: its counters since boot, divided by the interval.\<close>

definition totals :: "'d double_ops \<Rightarrow> 64 word \<Rightarrow> io_stats \<Rightarrow> 'd dev_stats" where
  "totals D itv st =
     \<lparr>tps = S_VALUE D 0 (rd_ios st + wr_ios st + dc_ios st) itv, read_bps = S_VALUE D 0 (rd_sectors st) itv,
      write_bps = S_VALUE D 0 (wr_sectors st) itv, dscd_bps = S_VALUE D 0 (dc_sectors st) itv,
      read_bytes = rd_sectors st, write_bytes = wr_sectors st, dscd_bytes = dc_sectors st\<rparr>"

definition entry_report :: "'d io_env \<Rightarrow> 64 word \<Rightarrow> string \<Rightarrow> 'd dev_stats option" where
  "entry_report E itv n =
     (case entry_sample (io_fs E) ''/sys/block'' n of
        None \<Rightarrow> None
      | Some st \<Rightarrow> if no_ios st then None else Some (totals (io_doubles E) itv st))"

definition io_label :: "string \<Rightarrow> string" where
  "io_label n = swap_char CHR ''!'' CHR ''/'' n"

lemma io_label_inj: "CHR ''/'' \<notin> set n \<Longrightarrow> CHR ''/'' \<notin> set n' \<Longrightarrow> io_label n = io_label n' \<longleftrightarrow> n = n'"
  by (metis io_label_def swap_char_back)

lemma sector_diff_zero [simp]: "sector_diff i 0 = i"
  by (simp add: sector_diff_def)

lemma all_ios_zero: "all_ios iozero = 0"
  by (simp add: all_ios_def iozero_def)

lemma reinserted_zero [simp]: "\<not> reinserted ioi iozero"
  by (simp add: reinserted_def all_ios_zero)

lemma write_basic_stat_zero: "write_basic_stat D itv st iozero n m = smap_put n (totals D itv st) m"
  by (simp add: write_basic_stat_def write_plain_basic_stat_def totals_def) (simp add: iozero_def)

lemma write_entry:
  assumes "entry_device (io_fs E) ix ''/sys/block'' n = Some d"
  shows "write_device E ix itv (n, d) (m, s) =
    Inr (case entry_report E itv n of None \<Rightarrow> m | Some r \<Rightarrow> smap_put (io_label n) r m, s)"
proof -
  obtain st where st: "entry_sample (io_fs E) ''/sys/block'' n = Some st"
    "d = (new_device (io_fs E) n 0 UKWN_MAJ_NR 0)\<lparr>samples := set_sample ix st (iozero, iozero)\<rparr>"
    using assms by (auto simp: entry_device_def)
  then have len: "length n < MAX_NAME_LEN" by (auto simp: entry_sample_def split: if_splits)
  then have "fit MAX_NAME_LEN n = n" by (simp add: fit_def MAX_NAME_LEN_def)
  then show ?thesis
    using st(1) new_device_simps(4) [of "io_fs E" n UKWN_MAJ_NR 0]
    by (simp add: write_device_def st(2) entry_report_def io_label_def get_device_name_default write_basic_stat_zero
        del: new_device_simps(4))
qed

lemma write_entries:
  assumes "\<forall>(n, d)\<in>set ds. entry_device (io_fs E) ix ''/sys/block'' n = Some d \<and> CHR ''/'' \<notin> set n" "smap_ok m"
  shows "\<exists>m'. fold_r (write_device E ix itv) ds (m, s) = Inr (m', s) \<and> smap_ok m' \<and>
    (\<forall>n. CHR ''/'' \<notin> set n \<longrightarrow> map_of m' (io_label n) =
      (if n \<in> fst ` set ds \<and> entry_report E itv n \<noteq> None then entry_report E itv n else map_of m (io_label n)))"
  using assms
proof (induction ds arbitrary: m)
  case (Cons p ds)
  obtain k d where p: "p = (k, d)" by (cases p)
  have k: "entry_device (io_fs E) ix ''/sys/block'' k = Some d" "CHR ''/'' \<notin> set k" using Cons.prems(1) p by auto
  let ?m = "case entry_report E itv k of None \<Rightarrow> m | Some r \<Rightarrow> smap_put (io_label k) r m"
  have "smap_ok ?m" using Cons.prems(2) by (simp add: smap_ok_put split: option.splits)
  with Cons.IH [of ?m] Cons.prems(1) obtain m' where
    m': "fold_r (write_device E ix itv) ds (?m, s) = Inr (m', s)" "smap_ok m'"
    "\<And>n. CHR ''/'' \<notin> set n \<Longrightarrow> map_of m' (io_label n) =
      (if n \<in> fst ` set ds \<and> entry_report E itv n \<noteq> None then entry_report E itv n else map_of ?m (io_label n))" by auto
  have "map_of ?m (io_label n) = (if n = k \<and> entry_report E itv n \<noteq> None then entry_report E itv n else map_of m (io_label n))"
    if "CHR ''/'' \<notin> set n" for n
    using that k(2) Cons.prems(2) by (auto simp: io_label_inj split: option.splits)
  then show ?case using m' by (auto simp: p write_entry [OF k(1)])
qed simp

lemma round_devices:
  assumes "fs_list F ''/sys/block'' = Some names" "list_all (\<lambda>n. CHR ''/'' \<notin> set n) names"
  shows "devices_ok F ix ''/sys/block'' (read_sysfs_all_devices_stat F ix [])"
    and "map_of (read_sysfs_all_devices_stat F ix []) n = (if n \<in> set names then entry_device F ix ''/sys/block'' n else None)"
proof -
  have "devices_ok F ix ''/sys/block'' []" by (simp add: devices_ok_def)
  moreover have "\<forall>n\<in>set names. CHR ''/'' \<notin> set n" using assms(2) by (simp add: list_all_iff)
  ultimately have r: "devices_ok F ix ''/sys/block'' (fold (read_device F ix ''/sys/block'') names []) \<and>
    (\<forall>n. map_of (fold (read_device F ix ''/sys/block'') names []) n =
      (if n \<in> set names \<and> entry_device F ix ''/sys/block'' n \<noteq> None then entry_device F ix ''/sys/block'' n else map_of [] n))"
    by (rule read_devices)
  have eq: "read_sysfs_all_devices_stat F ix [] = fold (read_device F ix ''/sys/block'') names []"
    by (simp add: read_sysfs_all_devices_stat_def read_sysfs_all_devices_stat_work_def assms(1))
  show "devices_ok F ix ''/sys/block'' (read_sysfs_all_devices_stat F ix [])" unfolding eq using r by blast
  show "map_of (read_sysfs_all_devices_stat F ix []) n = (if n \<in> set names then entry_device F ix ''/sys/block'' n else None)"
    unfolding eq using r by auto
qed

section \<open>Properties\<close>

text \<open>C9: a round of the disk collector reports exactly the devices of /sys/block whose statistics can be
  read, whose name fits and that had any operation, whatever earlier rounds stored. The devices of the
  round before are forgotten first, so what is reported as the rate of the interval is the total since
  boot divided by the length of the interval, and the byte counts are sectors since boot.\<close>

theorem disk_report_totals_since_boot:
  assumes "fs_list (io_fs E) ''/sys/block'' = Some names" "list_all (\<lambda>n. CHR ''/'' \<notin> set n) names"
    and "read_stat_cpu (fs_open (io_fs E) ''/proc/stat'') [stats_cpu_zero, stats_cpu_zero] 1 = Inr r"
    and "itv = get_interval (sample_at (\<not> io_curr h) (io_uptime h))
                 (read_uptime (io_uptime_line E) (sample_at (io_curr h) (io_uptime h)))"
  shows "\<exists>h' report. io_round E h = Inr (h', report) \<and> report = device_stats h' \<and> io_curr h' = (\<not> io_curr h) \<and>
    (\<forall>n. CHR ''/'' \<notin> set n \<longrightarrow>
      map_of report (io_label n) = (if n \<in> set names then entry_report E itv n else None))"
proof -
  let ?ix = "io_curr h" and ?l = "read_sysfs_all_devices_stat (io_fs E) (io_curr h) []"
  note dev = round_devices [OF assms(1,2), of ?ix]
  have listed: "n \<in> fst ` set ?l \<longleftrightarrow> n \<in> set names \<and> entry_device (io_fs E) ?ix ''/sys/block'' n \<noteq> None" for n
    using dev(2) [of n] by (metis (no_types, lifting) map_of_eq_None_iff)
  have "\<forall>(n, d)\<in>set ?l. entry_device (io_fs E) ?ix ''/sys/block'' n = Some d \<and> CHR ''/'' \<notin> set n"
  proof clarify
    fix n d assume nd: "(n, d) \<in> set ?l"
    then have "map_of ?l n = Some d" using dev(1) smap_ok_distinct by (fastforce simp: devices_ok_def)
    moreover have "n \<in> set names" using listed [of n] nd by force
    ultimately show "entry_device (io_fs E) ?ix ''/sys/block'' n = Some d \<and> CHR ''/'' \<notin> set n"
      using dev(2) assms(2) by (auto simp: list_all_iff)
  qed
  from write_entries [OF this smap_ok_Nil, of itv "io_names h"] obtain m' where
    m': "fold_r (write_device E ?ix itv) ?l ([], io_names h) = Inr (m', io_names h)"
    "\<And>n. CHR ''/'' \<notin> set n \<Longrightarrow> map_of m' (io_label n) =
      (if n \<in> fst ` set ?l \<and> entry_report E itv n \<noteq> None then entry_report E itv n else None)" by auto
  have "entry_report E itv n \<noteq> None \<Longrightarrow> entry_device (io_fs E) ?ix ''/sys/block'' n \<noteq> None" for n
    by (auto simp: entry_report_def entry_device_def split: option.splits)
  then have "map_of m' (io_label n) = (if n \<in> set names then entry_report E itv n else None)" if "CHR ''/'' \<notin> set n" for n
    using m'(2) [OF that] listed [of n] by (cases "entry_report E itv n = None") auto
  then show ?thesis using m'(1) assms(3,4) by (auto simp: io_round_def Let_def write_stats_def)
qed

text \<open>A file system with one disk that has been read from once.\<close>

definition sample_disk_fs :: filesys where
  "sample_disk_fs =
     \<lparr>fs_open = (\<lambda>p. if p = ''/proc/stat'' then Some []
                     else if p = ''/sys/block/sda/stat'' then Some (print_row '' '' [1, 0, 8, 2, 0, 0, 0, 0, 0, 0, 0]) else None),
      fs_list = (\<lambda>p. if p = ''/sys/block'' then Some [''.'', ''..'', ''sda''] else None), fs_sorted = (\<lambda>p. None),
      fs_exists = (\<lambda>p. p = ''/sys/block/sda''), fs_readable = (\<lambda>p. False), fs_link = (\<lambda>p. None),
      fs_rdev = (\<lambda>p. None), fs_dir = (\<lambda>p. False)\<rparr>"

definition sample_disk_env :: "int io_env" where
  "sample_disk_env = \<lparr>io_fs = sample_disk_fs, io_uptime_line = None, io_doubles = int_doubles, persistent_name_type = []\<rparr>"

lemma sample_disk_sample:
  "entry_sample sample_disk_fs ''/sys/block'' ''sda'' = Some (iozero\<lparr>rd_ios := 1, rd_sectors := 8, rd_ticks := 2\<rparr>)"
proof -
  have "sscanf (replicate 17 Sc_Unsigned) (print_row '' '' [1, 0, 8, 2, 0, 0, 0, 0, 0, 0, 0] @ []) =
      map (\<lambda>n. Number (of_nat n)) [1, 0, 8, 2, 0, 0, 0, 0, 0, 0, 0]"
    by (rule sscanf_row) (auto simp: blanks_def is_space_def ulong_max_def scan_ulong_def)
  then show ?thesis
    by (simp add: entry_sample_def read_sysfs_file_stat_work_def sample_disk_fs_def fit_def MAX_PF_NAME_def
        MAX_NAME_LEN_def io_stats_of_def iozero_def)
qed

theorem disk_report_totals_since_boot_witness:
  "\<exists>h' report. io_round sample_disk_env io_handler_new = Inr (h', report) \<and>
     map_of report ''sda'' = Some \<lparr>tps = 100, read_bps = 800, write_bps = 0, dscd_bps = 0,
       read_bytes = 8, write_bytes = 0, dscd_bytes = 0\<rparr>"
proof -
  have "read_stat_cpu (fs_open (io_fs sample_disk_env) ''/proc/stat'') [stats_cpu_zero, stats_cpu_zero] 1 =
      Inr (0, [stats_cpu_zero, stats_cpu_zero])"
    by (simp add: sample_disk_env_def sample_disk_fs_def read_stat_cpu_def)
  moreover have "fs_list (io_fs sample_disk_env) ''/sys/block'' = Some [''.'', ''..'', ''sda'']"
    by (simp add: sample_disk_env_def sample_disk_fs_def)
  moreover have "list_all (\<lambda>n. CHR ''/'' \<notin> set n) [''.'', ''..'', ''sda'']" by simp
  ultimately obtain h' report where r: "io_round sample_disk_env io_handler_new = Inr (h', report)"
    "\<forall>n. CHR ''/'' \<notin> set n \<longrightarrow> map_of report (io_label n) =
      (if n \<in> set [''.'', ''..'', ''sda''] then entry_report sample_disk_env 1 n else None)"
    using disk_report_totals_since_boot [of sample_disk_env "[''.'', ''..'', ''sda'']" _ 1 io_handler_new]
    by (auto simp: io_handler_new_def sample_disk_env_def read_uptime_def uptime_value_def get_interval_def sample_at_def)
  have "map_of report (io_label ''sda'') = entry_report sample_disk_env 1 ''sda''" using r(2) by simp
  then have "map_of report ''sda'' = entry_report sample_disk_env 1 ''sda''" by (simp add: io_label_def swap_char_def)
  then show ?thesis
    using r(1) sample_disk_sample
    by (simp add: entry_report_def sample_disk_env_def totals_def no_ios_def iozero_def S_VALUE_def int_doubles_def)
qed

end
