(* ===== verification/Iostat_Irq.thy ===== *)
theory Iostat_Irq
  imports Iostat_Handler
begin

text \<open>
  Two parts of the sysstat port no caller in the agent reaches yet: the interrupt counters of
  \<open>read_stat_irq\<close> (app/source/source/host/collector/iostat/rd_stats.cc) and the sums of groups of devices
  (\<open>compute_device_groups_stats\<close> of handler.cc). The table of interrupts is one array with a row of \<open>nr_int\<close>
  cells per processor behind the row of all processors; a row begins with its sum.
\<close>

section \<open>Interrupts\<close>

record stats_irq =
  irq_nr :: "32 word"
  irq_name :: string

text \<open>\<open>strtol\<close> and \<open>strtoul\<close> with the end of the number, which is the start when there is none.\<close>

definition strtol_next :: "string \<Rightarrow> 64 word \<times> string" where
  "strtol_next s = (case scan_long s of None \<Rightarrow> (0, s) | Some p \<Rightarrow> p)"

definition strtoul_next :: "string \<Rightarrow> 64 word \<times> string" where
  "strtoul_next s = (case scan_ulong s of None \<Rightarrow> (0, s) | Some p \<Rightarrow> p)"

lemma strtol_next_length: "length (snd (strtol_next s)) \<le> length s"
proof -
  have "length (dropWhile is_digit u) \<le> length s" if "length u \<le> length s" for u
    using that length_dropWhile_le [of is_digit u] by linarith
  then show ?thesis
    using length_dropWhile_le [of is_space s]
    by (auto simp: strtol_next_def scan_long_def scan_ulong_def Let_def split: option.splits)
qed

text \<open>The processors of a header line; \<open>None\<close> when one does not fit into the table.\<close>

function header_cpus :: "nat \<Rightarrow> int \<Rightarrow> string \<Rightarrow> int list \<Rightarrow> (int list option) result" where
  "header_cpus cpu_nr nr_alloc next index =
     (case find_sub ''CPU'' next of
        None \<Rightarrow> Inr (Some index)
      | Some i \<Rightarrow>
          if cpu_nr \<le> length index then Inr (Some index)
          else let (v, next') = strtol_next (drop (i + 3) next);
                   cpu = sint (ucast v :: 32 word)
               in if 2 ^ 31 \<le> cpu + 2 then Inl Signed_Overflow
                  else if nr_alloc < cpu + 2 then Inr None
                  else header_cpus cpu_nr nr_alloc next' (index @ [cpu]))"
  by pat_completeness auto
termination
proof (relation "measure (\<lambda>(_, _, s, _). length s)")
  fix cpu_nr :: nat and nr_alloc :: int and s index i x v next' cpu
  assume a: "find_sub ''CPU'' s = Some i" "x = strtol_next (drop (i + 3) s)" "(v, next') = x"
  have "length next' \<le> length (drop (i + 3) s)"
    using strtol_next_length [of "drop (i + 3) s"] a(2,3) by (metis snd_conv)
  moreover have "i + 3 \<le> length s"
    using find_sub_Some [OF a(1)] starts_with_length [of "''CPU''" "drop i s"] by auto
  ultimately have "length next' < length s" by simp
  then show "((cpu_nr, nr_alloc, next', index @ [cpu]), (cpu_nr, nr_alloc, s, index)) \<in> measure (\<lambda>(_, _, s, _). length s)"
    by simp
qed simp

declare header_cpus.simps [simp del]

text \<open>Lines up to the first that names a processor; the processors and the lines that are left.\<close>

fun find_header :: "nat \<Rightarrow> int \<Rightarrow> string list \<Rightarrow> ((int list \<times> string list) option) result" where
  "find_header cpu_nr nr_alloc [] = Inr (Some ([], []))"
| "find_header cpu_nr nr_alloc (l # ls) =
     bind_r (header_cpus cpu_nr nr_alloc l []) (\<lambda>r.
       case r of
         None \<Rightarrow> Inr None
       | Some index \<Rightarrow> if index \<noteq> [] then Inr (Some (index, ls)) else find_header cpu_nr nr_alloc ls)"

definition irq_update :: "int \<Rightarrow> (stats_irq \<Rightarrow> stats_irq) \<Rightarrow> stats_irq list \<Rightarrow> (stats_irq list) result" where
  "irq_update k f st =
     (if k < 0 \<or> int (length st) \<le> k then Inl Out_Of_Bounds else Inr (st[nat k := f (st ! nat k)]))"

text \<open>The numbers of one interrupt, one for each processor of the header.\<close>

fun irq_cpus :: "int \<Rightarrow> int \<Rightarrow> int list \<Rightarrow> string \<Rightarrow> stats_irq list \<Rightarrow> (stats_irq list) result" where
  "irq_cpus nr_int irq [] cp st = Inr st"
| "irq_cpus nr_int irq (cpu # cpus) cp st =
     (let (v, next) = strtoul_next cp;
          n = ucast v :: 32 word;
          add = (\<lambda>c. c\<lparr>irq_nr := irq_nr c + n\<rparr>)
      in bind_r (irq_update ((cpu + 1) * nr_int + irq) (\<lambda>c. c\<lparr>irq_nr := n\<rparr>) st) (\<lambda>st1.
         bind_r (irq_update irq add st1) (\<lambda>st2.
         bind_r (irq_update ((cpu + 1) * nr_int) add st2) (\<lambda>st3.
         irq_cpus nr_int irq cpus next st3))))"

definition irq_label :: "string \<Rightarrow> string" where
  "irq_label line = take 7 (takeWhile (\<lambda>c. c \<noteq> CHR '':'') (dropWhile (\<lambda>c. c = CHR '' '') line))"

definition irq_line :: "int \<Rightarrow> int list \<Rightarrow> int \<Rightarrow> string \<Rightarrow> nat \<Rightarrow> stats_irq list \<Rightarrow> (stats_irq list) result" where
  "irq_line nr_int cpus irq line i st =
     bind_r (irq_update irq (\<lambda>c. c\<lparr>irq_name := irq_label line\<rparr>) st) (\<lambda>st1.
     bind_r (irq_cpus nr_int irq cpus (drop (i + 1) line) st1) (\<lambda>st2.
     irq_update 0 (\<lambda>c. c\<lparr>irq_nr := irq_nr c + irq_nr (st2 ! nat irq)\<rparr>) st2))"

text \<open>\<open>irq_read\<close> counts the lines with a colon.\<close>

fun irq_lines :: "int \<Rightarrow> int list \<Rightarrow> string list \<Rightarrow> int \<Rightarrow> stats_irq list \<Rightarrow> (int \<times> stats_irq list) result" where
  "irq_lines nr_int cpus [] irq_read st = Inr (irq_read, st)"
| "irq_lines nr_int cpus (line # lines) irq_read st =
     (if nr_int - 1 \<le> irq_read then Inr (irq_read, st)
      else case find_char (CHR '':'') line of
        None \<Rightarrow> irq_lines nr_int cpus lines irq_read st
      | Some i \<Rightarrow>
          bind_r (irq_line nr_int cpus (irq_read + 1) line i st) (irq_lines nr_int cpus lines (irq_read + 1)))"

text \<open>The number of processors read, 0 for none and -1 for a table that is too small. Without memory for
  the index, which is what a negative size asks for, the program exits.\<close>

definition read_stat_irq :: "string option \<Rightarrow> stats_irq list \<Rightarrow> int \<Rightarrow> int \<Rightarrow> (int \<times> stats_irq list) result" where
  "read_stat_irq interrupts st_irq nr_alloc nr_int =
     (let cpu_nr = (if nr_alloc = 1 then 1 else nr_alloc - 1)
      in if cpu_nr < 0 then Inl Process_Exit
         else case interrupts of
           None \<Rightarrow> Inr (0, st_irq)
         | Some content \<Rightarrow>
             let lines = fgets_lines (128 + 11 * nat cpu_nr) content
             in bind_r (find_header (nat cpu_nr) nr_alloc lines) (\<lambda>r.
                  case r of
                    None \<Rightarrow> Inr (- 1, st_irq)
                  | Some (cpus, rest) \<Rightarrow>
                      bind_r (irq_update 0 (\<lambda>c. c\<lparr>irq_name := ''sum''\<rparr>) st_irq) (\<lambda>st1.
                      bind_r (irq_lines nr_int cpus rest 0 st1) (\<lambda>(irq_read, st2).
                        Inr (if cpus = [] then 0 else last cpus + 2, st2)))))"

section \<open>Groups of devices\<close>

text \<open>The sample \<open>ix\<close> of the device is added to that of its group.\<close>

definition add_sample :: "io_stats \<Rightarrow> io_stats \<Rightarrow> io_stats" where
  "add_sample d g =
     \<lparr>rd_sectors = rd_sectors g + rd_sectors d, wr_sectors = wr_sectors g + wr_sectors d,
      dc_sectors = dc_sectors g + dc_sectors d, rd_ios = rd_ios g + rd_ios d, rd_merges = rd_merges g + rd_merges d,
      wr_ios = wr_ios g + wr_ios d, wr_merges = wr_merges g + wr_merges d, dc_ios = dc_ios g + dc_ios d,
      dc_merges = dc_merges g + dc_merges d, fl_ios = fl_ios g + fl_ios d, rd_ticks = rd_ticks g + rd_ticks d,
      wr_ticks = wr_ticks g + wr_ticks d, dc_ticks = dc_ticks g + dc_ticks d, fl_ticks = fl_ticks g + fl_ticks d,
      ios_pgr = ios_pgr g + ios_pgr d, tot_ticks = tot_ticks g + tot_ticks d, rq_ticks = rq_ticks g + rq_ticks d\<rparr>"

definition compute_device_groups_stats :: "64 word \<Rightarrow> bool \<Rightarrow> io_device \<Rightarrow> io_device \<Rightarrow> io_device" where
  "compute_device_groups_stats fl ix d g =
     (let s = sample_at ix (samples d)
      in if \<not> DISPLAY_UNFILTERED fl \<and> rd_ios s = 0 \<and> wr_ios s = 0 \<and> dc_ios s = 0 \<and> fl_ios s = 0 then g
         else g\<lparr>samples := set_sample ix (add_sample s (sample_at ix (samples g))) (samples g)\<rparr>)"

section \<open>Sums\<close>

text \<open>The cells of the table by row and column.\<close>

definition irq_cell :: "nat \<Rightarrow> stats_irq list \<Rightarrow> nat \<Rightarrow> nat \<Rightarrow> 32 word" where
  "irq_cell nr st r i = irq_nr (st ! (r * nr + i))"

lemma cell_index: "i < nr \<Longrightarrow> i' < nr \<Longrightarrow> r * nr + i = r' * nr + i' \<longleftrightarrow> r = r' \<and> i = i'" for r r' :: nat
proof
  assume a: "i < nr" "i' < nr" "r * nr + i = r' * nr + i'"
  have "(r * nr + i) div nr = r" "(r' * nr + i') div nr = r'" using a(1,2) by simp_all
  then show "r = r' \<and> i = i'" using a(3) by simp
qed simp

lemma cell_bound: "r < R \<Longrightarrow> i < nr \<Longrightarrow> r * nr + i < R * nr" for r R :: nat
proof -
  assume "r < R" "i < nr"
  then have "r * nr + i < Suc r * nr" "Suc r * nr \<le> R * nr" by (simp, intro mult_le_mono1, simp)
  then show ?thesis by linarith
qed

lemma irq_update_nat: "k < length st \<Longrightarrow> irq_update (int k) f st = Inr (st[k := f (st ! k)])"
  by (simp add: irq_update_def)

lemma irq_update_cell:
  assumes "length st = R * nr" "r < R" "i < nr"
  obtains st' where "irq_update (int (r * nr + i)) f st = Inr st'" "length st' = R * nr"
    "\<And>r' i'. r' < R \<Longrightarrow> i' < nr \<Longrightarrow>
       irq_cell nr st' r' i' = (if r' = r \<and> i' = i then irq_nr (f (st ! (r * nr + i))) else irq_cell nr st r' i')"
proof
  let ?k = "r * nr + i"
  show "irq_update (int ?k) f st = Inr (st[?k := f (st ! ?k)])"
    using cell_bound [OF assms(2,3)] assms(1) by (intro irq_update_nat) simp
  show "length (st[?k := f (st ! ?k)]) = R * nr" using assms(1) by simp
  show "irq_cell nr (st[?k := f (st ! ?k)]) r' i' = (if r' = r \<and> i' = i then irq_nr (f (st ! ?k)) else irq_cell nr st r' i')"
    if "r' < R" "i' < nr" for r' i'
    using that cell_bound [OF that] assms cell_index [OF assms(3) that(2), of r r'] by (auto simp: irq_cell_def nth_list_update)
qed

text \<open>The values of a line, and what they do to the table.\<close>

fun irq_values :: "nat \<Rightarrow> string \<Rightarrow> (32 word) list" where
  "irq_values 0 cp = []"
| "irq_values (Suc n) cp = (let (v, next) = strtoul_next cp in ucast v # irq_values n next)"

lemma length_irq_values [simp]: "length (irq_values n cp) = n"
  by (induction n arbitrary: cp) (auto split: prod.split)

definition rows_ok :: "nat \<Rightarrow> nat list \<Rightarrow> bool" where
  "rows_ok R cs \<longleftrightarrow> distinct cs \<and> (\<forall>c\<in>set cs. Suc c < R)"

definition value_of :: "nat list \<Rightarrow> (32 word) list \<Rightarrow> nat \<Rightarrow> 32 word" where
  "value_of cs vs r = (case map_of (zip cs vs) (r - 1) of None \<Rightarrow> 0 | Some v \<Rightarrow> v)"

text \<open>The table after a line, as a function of the one before.\<close>

definition irq_after :: "nat list \<Rightarrow> (32 word) list \<Rightarrow> nat \<Rightarrow> (nat \<Rightarrow> nat \<Rightarrow> 32 word) \<Rightarrow> nat \<Rightarrow> nat \<Rightarrow> 32 word" where
  "irq_after cs vs irq T r i =
     (if i = irq \<and> r = 0 then T 0 irq + sum_list vs
      else if 0 < r \<and> r - 1 \<in> set cs \<and> i = irq then value_of cs vs r
      else if 0 < r \<and> r - 1 \<in> set cs \<and> i = 0 then T r 0 + value_of cs vs r
      else T r i)"

lemma irq_after_Nil: "irq_after [] [] irq T r i = T r i"
  by (simp add: irq_after_def)

lemma irq_after_Cons:
  assumes "c \<notin> set cs" "0 < irq"
    and "\<And>r i. T' r i = (if r = Suc c \<and> i = irq then n else if r = 0 \<and> i = irq then T 0 irq + n
              else if r = Suc c \<and> i = 0 then T (Suc c) 0 + n else T r i)"
  shows "irq_after cs vs irq T' r i = irq_after (c # cs) (n # vs) irq T r i"
proof (cases r)
  case 0
  then show ?thesis using assms(2) by (simp add: irq_after_def assms(3) add.assoc)
next
  case (Suc k)
  then show ?thesis using assms(1,2) by (cases "k = c") (simp_all add: irq_after_def assms(3) value_of_def)
qed

definition irq_table :: "nat \<Rightarrow> nat \<Rightarrow> stats_irq list \<Rightarrow> (nat \<Rightarrow> nat \<Rightarrow> 32 word) \<Rightarrow> bool" where
  "irq_table R nr st T \<longleftrightarrow> length st = R * nr \<and> (\<forall>r<R. \<forall>i<nr. irq_cell nr st r i = T r i)"

definition put_cell :: "nat \<Rightarrow> nat \<Rightarrow> 32 word \<Rightarrow> (nat \<Rightarrow> nat \<Rightarrow> 32 word) \<Rightarrow> nat \<Rightarrow> nat \<Rightarrow> 32 word" where
  "put_cell r i x T = (\<lambda>r' i'. if r' = r \<and> i' = i then x else T r' i')"

lemma irq_update_table:
  assumes "irq_table R nr st T" "r < R" "i < nr" "\<And>c. irq_nr (f c) = g (irq_nr c)" "k = int (r * nr + i)"
  obtains st' where "irq_update k f st = Inr st'" "irq_table R nr st' (put_cell r i (g (T r i)) T)"
proof -
  have len: "length st = R * nr" using assms(1) by (simp add: irq_table_def)
  obtain st' where st': "irq_update (int (r * nr + i)) f st = Inr st'" "length st' = R * nr"
    "\<And>r' i'. r' < R \<Longrightarrow> i' < nr \<Longrightarrow>
       irq_cell nr st' r' i' = (if r' = r \<and> i' = i then irq_nr (f (st ! (r * nr + i))) else irq_cell nr st r' i')"
    by (rule irq_update_cell [OF len assms(2,3), of f]) blast
  have "irq_nr (st ! (r * nr + i)) = T r i" using assms(1-3) by (simp add: irq_table_def irq_cell_def)
  then show ?thesis using st' assms(1,5) by (intro that [of st']) (auto simp: irq_table_def put_cell_def assms(4))
qed

lemma irq_cpus_table:
  assumes "irq_table R nr st T" "rows_ok R cs" "0 < irq" "irq < nr" "0 < R"
  shows "\<exists>st'. irq_cpus (int nr) (int irq) (map int cs) cp st = Inr st' \<and>
           irq_table R nr st' (irq_after cs (irq_values (length cs) cp) irq T)"
  using assms(1,2)
proof (induction cs arbitrary: cp st T)
  case Nil
  then show ?case by (simp add: irq_table_def irq_after_Nil)
next
  case (Cons c cs)
  obtain v next' where v: "strtoul_next cp = (v, next')" by fastforce
  let ?n = "ucast v :: 32 word" and ?add = "\<lambda>c. c\<lparr>irq_nr := irq_nr c + (ucast v :: 32 word)\<rparr>"
  have c: "Suc c < R" "rows_ok R cs" "c \<notin> set cs" using Cons.prems(2) by (auto simp: rows_ok_def)
  have nr: "0 < nr" using assms(4) by simp
  let ?T1 = "put_cell (Suc c) irq ?n T"
  let ?T2 = "put_cell 0 irq (?T1 0 irq + ?n) ?T1"
  let ?T3 = "put_cell (Suc c) 0 (?T2 (Suc c) 0 + ?n) ?T2"
  obtain st1 where st1: "irq_update ((int c + 1) * int nr + int irq) (\<lambda>c. c\<lparr>irq_nr := ?n\<rparr>) st = Inr st1" "irq_table R nr st1 ?T1"
    by (rule irq_update_table [OF Cons.prems(1) c(1) assms(4), where g = "\<lambda>_. ?n"]) (auto simp: algebra_simps)
  obtain st2 where st2: "irq_update (int irq) ?add st1 = Inr st2" "irq_table R nr st2 ?T2"
    by (rule irq_update_table [OF st1(2) assms(5,4), where g = "\<lambda>m. m + ?n" and f = ?add]) auto
  obtain st3 where st3: "irq_update ((int c + 1) * int nr) ?add st2 = Inr st3" "irq_table R nr st3 ?T3"
    by (rule irq_update_table [OF st2(2) c(1) nr, where g = "\<lambda>m. m + ?n" and f = ?add]) (auto simp: algebra_simps)
  have after: "irq_after cs vs irq ?T3 = irq_after (c # cs) (?n # vs) irq T" for vs
    by (intro ext irq_after_Cons) (use c(3) assms(3) in \<open>auto simp: put_cell_def\<close>)
  show ?case using Cons.IH [OF st3(2) c(2), of next'] by (simp add: v st1(1) st2(1) st3(1) after)
qed

lemma sum_value_of:
  "distinct cs \<Longrightarrow> length vs = length cs \<Longrightarrow> (\<Sum>c\<leftarrow>cs. value_of cs vs (Suc c)) = sum_list vs"
proof (induction cs arbitrary: vs)
  case (Cons c cs)
  then obtain v ws where vs: "vs = v # ws" by (cases vs) auto
  have "(\<Sum>d\<leftarrow>cs. value_of (c # cs) (v # ws) (Suc d)) = (\<Sum>d\<leftarrow>cs. value_of cs ws (Suc d))"
    using Cons.prems(1) by (intro arg_cong [where f = sum_list] map_cong refl) (auto simp: value_of_def)
  then show ?case using Cons by (simp add: vs value_of_def)
qed simp

text \<open>After \<open>k\<close> interrupts: the first row holds the sums of the columns, the first column those of the rows, and
  what lies behind has not been touched.\<close>

definition irq_sums :: "nat list \<Rightarrow> nat \<Rightarrow> (nat \<Rightarrow> nat \<Rightarrow> 32 word) \<Rightarrow> bool" where
  "irq_sums cs k T \<longleftrightarrow>
     (\<forall>i. 0 < i \<and> i \<le> k \<longrightarrow> T 0 i = (\<Sum>c\<leftarrow>cs. T (Suc c) i)) \<and>
     (\<forall>c\<in>set cs. T (Suc c) 0 = (\<Sum>i\<leftarrow>[1..<Suc k]. T (Suc c) i)) \<and>
     T 0 0 = (\<Sum>i\<leftarrow>[1..<Suc k]. T 0 i) \<and> (\<forall>i>k. \<forall>r. T r i = 0)"

lemma irq_sums_zero: "irq_sums cs 0 (\<lambda>r i. 0)"
  by (simp add: irq_sums_def)

lemma irq_sums_step:
  assumes "irq_sums cs k T" "distinct cs" "length vs = length cs"
  shows "irq_sums cs (Suc k) (let A = irq_after cs vs (Suc k) T in put_cell 0 0 (A 0 0 + A 0 (Suc k)) A)"
proof -
  have old: "irq_after cs vs (Suc k) T r i = T r i" if "0 < i" "i \<le> k" for r i
    using that by (simp add: irq_after_def)
  have sums: "(\<Sum>i\<leftarrow>[1..<Suc k]. irq_after cs vs (Suc k) T r i) = (\<Sum>i\<leftarrow>[1..<Suc k]. T r i)" for r
    by (intro arg_cong [where f = sum_list] map_cong refl) (auto intro: old)
  have col: "(\<Sum>c\<leftarrow>cs. irq_after cs vs (Suc k) T (Suc c) (Suc k)) = sum_list vs"
    using sum_value_of [OF assms(2,3)] by (simp add: irq_after_def cong: map_cong)
  have zero: "T r (Suc k) = 0" for r using assms(1) by (simp add: irq_sums_def)
  have far: "irq_after cs vs (Suc k) T r i = 0" if "Suc k < i" for r i
    using that assms(1) by (simp add: irq_after_def irq_sums_def)
  have first: "irq_after cs vs (Suc k) T 0 (Suc k) = sum_list vs" "irq_after cs vs (Suc k) T 0 0 = T 0 0"
    using zero [of 0] by (simp_all add: irq_after_def)
  have row: "irq_after cs vs (Suc k) T (Suc c) 0 = T (Suc c) 0 + irq_after cs vs (Suc k) T (Suc c) (Suc k)" if "c \<in> set cs" for c
    using that by (simp add: irq_after_def)
  let ?A = "irq_after cs vs (Suc k) T"
  define B where "B = put_cell 0 0 (?A 0 0 + ?A 0 (Suc k)) ?A"
  have B: "B (Suc c) i = ?A (Suc c) i" "0 < i \<Longrightarrow> B r i = ?A r i" "B 0 0 = T 0 0 + sum_list vs" for r i c
    by (simp_all add: B_def put_cell_def first)
  have Bsums: "(\<Sum>i\<leftarrow>[1..<Suc k]. B r i) = (\<Sum>i\<leftarrow>[1..<Suc k]. T r i)" for r
    unfolding sums [symmetric] by (intro arg_cong [where f = sum_list] map_cong refl) (auto intro: B(2))
  have split: "(\<Sum>i\<leftarrow>[1..<Suc (Suc k)]. f i) = (\<Sum>i\<leftarrow>[1..<Suc k]. f i) + f (Suc k)" for f :: "nat \<Rightarrow> 32 word"
    by simp
  have "B 0 i = (\<Sum>c\<leftarrow>cs. B (Suc c) i)" if "0 < i" "i \<le> Suc k" for i
  proof (cases "i = Suc k")
    case True
    then show ?thesis by (simp add: B(1,2) col first)
  next
    case False
    then have "i \<le> k" using that(2) by simp
    then show ?thesis using that(1) assms(1) by (simp add: B(1,2) old irq_sums_def)
  qed
  moreover have "B (Suc c) 0 = (\<Sum>i\<leftarrow>[1..<Suc (Suc k)]. B (Suc c) i)" if "c \<in> set cs" for c
    unfolding split Bsums using that assms(1) row [OF that] by (simp add: B(1) irq_sums_def del: upt_Suc)
  moreover have "B 0 0 = (\<Sum>i\<leftarrow>[1..<Suc (Suc k)]. B 0 i)"
    unfolding split Bsums using assms(1) by (simp add: B(2,3) first irq_sums_def del: upt_Suc)
  moreover have "B r i = 0" if "Suc k < i" for r i using that by (simp add: B(2) far)
  ultimately have "irq_sums cs (Suc k) B" unfolding irq_sums_def by blast
  then show ?thesis unfolding B_def Let_def .
qed

lemma irq_line_table:
  assumes "irq_table R nr st T" "rows_ok R cs" "Suc k < nr" "0 < R" "irq_sums cs k T"
  shows "\<exists>st' T'. irq_line (int nr) (map int cs) (int (Suc k)) line i st = Inr st' \<and>
           irq_table R nr st' T' \<and> irq_sums cs (Suc k) T'"
proof -
  obtain st1 where st1: "irq_update (int (Suc k)) (\<lambda>c. c\<lparr>irq_name := irq_label line\<rparr>) st = Inr st1"
    "irq_table R nr st1 (put_cell 0 (Suc k) (T 0 (Suc k)) T)"
    by (rule irq_update_table [OF assms(1,4,3), where g = "\<lambda>m. m" and f = "\<lambda>c. c\<lparr>irq_name := irq_label line\<rparr>"]) auto
  have "put_cell 0 (Suc k) (T 0 (Suc k)) T = T" by (intro ext) (auto simp: put_cell_def)
  then have T1: "irq_table R nr st1 T" using st1(2) by simp
  let ?A = "irq_after cs (irq_values (length cs) (drop (i + 1) line)) (Suc k) T"
  obtain st2 where st2: "irq_cpus (int nr) (int (Suc k)) (map int cs) (drop (i + 1) line) st1 = Inr st2" "irq_table R nr st2 ?A"
    using irq_cpus_table [OF T1 assms(2) _ assms(3,4)] by blast
  have cell: "irq_nr (st2 ! Suc k) = ?A 0 (Suc k)"
    using st2(2) assms(3,4) by (auto simp: irq_table_def irq_cell_def dest: spec [of _ 0])
  have nr: "0 < nr" using assms(3) by simp
  obtain st3 where st3: "irq_update 0 (\<lambda>c. c\<lparr>irq_nr := irq_nr c + ?A 0 (Suc k)\<rparr>) st2 = Inr st3"
    "irq_table R nr st3 (put_cell 0 0 (?A 0 0 + ?A 0 (Suc k)) ?A)"
    by (rule irq_update_table [OF st2(2) assms(4) nr, where g = "\<lambda>m. m + ?A 0 (Suc k)"]) auto
  have "irq_line (int nr) (map int cs) (int (Suc k)) line i st = Inr st3"
    using st1(1) st2(1) st3(1) cell by (simp add: irq_line_def nat_add_distrib)
  then show ?thesis
    using st3(2) irq_sums_step [OF assms(5)] assms(2) by (auto simp: rows_ok_def Let_def)
qed

lemma irq_lines_table:
  assumes "irq_table R nr st T" "rows_ok R cs" "0 < R" "irq_sums cs k T" "k < nr"
  shows "\<exists>k' st' T'. irq_lines (int nr) (map int cs) lines (int k) st = Inr (int k', st') \<and> k' < nr \<and>
           irq_table R nr st' T' \<and> irq_sums cs k' T'"
  using assms(1,4,5)
proof (induction lines arbitrary: k st T)
  case Nil
  then show ?case by auto
next
  case (Cons line lines)
  show ?case
  proof (cases "find_char (CHR '':'') line")
    case None
    then show ?thesis using Cons by auto
  next
    case (Some i)
    show ?thesis
    proof (cases "Suc k < nr")
      case True
      obtain st' T' where st': "irq_line (int nr) (map int cs) (int (Suc k)) line i st = Inr st'"
        "irq_table R nr st' T'" "irq_sums cs (Suc k) T'"
        using irq_line_table [OF Cons.prems(1) assms(2) True assms(3) Cons.prems(2)] by blast
      then show ?thesis using Cons.IH [OF st'(2,3) True] True Some by (simp add: add.commute)
    next
      case False
      then show ?thesis using Cons.prems by auto
    qed
  qed
qed

text \<open>Reading into a table of zeros: whatever the lines hold, the sums agree.\<close>

lemma interrupt_sums_agree:
  assumes "find_header (nat cpu_nr) (int R) (fgets_lines (128 + 11 * nat cpu_nr) content) = Inr (Some (map int cs, rest))"
    and "cpu_nr = (if R = 1 then 1 else int R - 1)" "rows_ok R cs" "0 < R" "0 < nr"
    and "st = replicate (R * nr) \<lparr>irq_nr = 0, irq_name = []\<rparr>"
  shows "\<exists>rc st' T k. read_stat_irq (Some content) st (int R) (int nr) = Inr (rc, st') \<and>
           k < nr \<and> irq_table R nr st' T \<and> irq_sums cs k T"
proof -
  have "irq_cell nr st r i = 0" if "r < R" "i < nr" for r i
    using cell_bound [OF that] by (simp add: irq_cell_def assms(6))
  then have zero: "irq_table R nr st (\<lambda>r i. 0)" by (simp add: irq_table_def assms(6))
  obtain st1 where st1: "irq_update 0 (\<lambda>c. c\<lparr>irq_name := ''sum''\<rparr>) st = Inr st1" "irq_table R nr st1 (put_cell 0 0 0 (\<lambda>r i. 0))"
    by (rule irq_update_table [OF zero assms(4,5), where g = "\<lambda>m. m" and f = "\<lambda>c. c\<lparr>irq_name := ''sum''\<rparr>"]) auto
  have "put_cell 0 0 0 (\<lambda>r i. 0) = (\<lambda>r i. 0)" by (auto simp: put_cell_def)
  then have T1: "irq_table R nr st1 (\<lambda>r i. 0)" using st1(2) by simp
  obtain k' st2 T' where st2: "irq_lines (int nr) (map int cs) rest 0 st1 = Inr (int k', st2)" "k' < nr"
    "irq_table R nr st2 T'" "irq_sums cs k' T'"
    using irq_lines_table [OF T1 assms(3,4) irq_sums_zero assms(5), of rest] by auto
  have "\<not> cpu_nr < 0" using assms(2,4) by auto
  then show ?thesis
    using assms(1,2) st1(1) st2 by (auto simp: read_stat_irq_def)
qed

text \<open>The header of a machine with one processor is refused, although the index was made for it.\<close>

lemma one_processor_refused:
  "read_stat_irq (Some (''    CPU0'' @ [CHR 0x0A] @ ''0: 22'' @ [CHR 0x0A])) st 1 nr = Inr (- 1, st)"
proof -
  have "fgets_lines 139 (concat (map (\<lambda>l. l @ [CHR 0x0A]) [''    CPU0'', ''0: 22''])) =
      map (\<lambda>l. l @ [CHR 0x0A]) [''    CPU0'', ''0: 22'']"
    by (rule fgets_lines_concat) simp
  moreover have "strtol_next [CHR ''0'', CHR 0x0A] = (0, [CHR 0x0A])"
    by (simp add: strtol_next_def scan_long_def scan_int_def scan_ulong_def is_space_def is_digit_def nat_of_digits_def
        digit_val_def clamp_long_def long_max_def long_min_def ulong_max_def Let_def)
  then have "header_cpus 1 1 (''    CPU0'' @ [CHR 0x0A]) [] = Inr None"
    by (subst header_cpus.simps) simp
  ultimately show ?thesis by (simp add: read_stat_irq_def)
qed

text \<open>A group holds the sums of what its active members had.\<close>

lemma idle_device_skipped:
  "rd_ios s = 0 \<Longrightarrow> wr_ios s = 0 \<Longrightarrow> dc_ios s = 0 \<Longrightarrow> fl_ios s = 0 \<Longrightarrow> sample_at ix (samples d) = s \<Longrightarrow>
     compute_device_groups_stats flags ix d g = g"
  by (simp add: compute_device_groups_stats_def)

lemma group_sectors:
  assumes "\<forall>d\<in>set ds. \<not> no_ios (sample_at ix (samples d))"
  shows "rd_sectors (sample_at ix (samples (fold (compute_device_groups_stats flags ix) ds g))) =
           rd_sectors (sample_at ix (samples g)) + (\<Sum>d\<leftarrow>ds. rd_sectors (sample_at ix (samples d)))"
  using assms
proof (induction ds arbitrary: g)
  case (Cons d ds)
  have "compute_device_groups_stats flags ix d g =
      g\<lparr>samples := set_sample ix (add_sample (sample_at ix (samples d)) (sample_at ix (samples g))) (samples g)\<rparr>"
    using Cons.prems by (auto simp: compute_device_groups_stats_def no_ios_def Let_def)
  then show ?case
    using Cons by (simp add: add_sample_def add.assoc)
qed simp

end
