(* ===== verification/Iostat_Terminal.thy ===== *)
theory Iostat_Terminal
  imports Iostat_Names
begin

text \<open>
  What the sysstat port keeps of its life as a command: colours, dates, the height of the window and stable names of
  devices (app/source/source/host/collector/iostat/common.cc), and the replacements of system calls of its tests
  (systest.cc). The environment, the clock, the formatting of dates and the terminal are arguments; a static
  variable is a state that is passed along.
\<close>

section \<open>Colours\<close>

datatype colour =
    Percent_Warn | Percent_Xtreme | Zero_Int_Stat | Int_Stat | Item_Name | Sa_Restart | Sa_Comment | Trend_Pos | Trend_Neg | Normal

type_synonym colours = "colour \<Rightarrow> string"

definition sgr :: "string \<Rightarrow> string" where
  "sgr code = CHR 0x1B # CHR ''['' # code @ ''m''"

fun default_colours :: colours where
  "default_colours Percent_Warn = sgr ''35;1''"
| "default_colours Percent_Xtreme = sgr ''31;1''"
| "default_colours Zero_Int_Stat = sgr ''34;22''"
| "default_colours Int_Stat = sgr ''34;1''"
| "default_colours Item_Name = sgr ''32;22''"
| "default_colours Sa_Restart = sgr ''31;22''"
| "default_colours Sa_Comment = sgr ''33;22''"
| "default_colours Trend_Pos = sgr ''32;1''"
| "default_colours Trend_Neg = sgr ''31;1''"
| "default_colours Normal = sgr ''0''"

text \<open>The pieces \<open>strtok\<close> finds between colons, and what it leaves of the text it cuts: the first null
  character stands behind the first piece.\<close>

definition is_colon :: "char \<Rightarrow> bool" where
  "is_colon c \<longleftrightarrow> c = CHR '':''"

function tokens :: "string \<Rightarrow> string list" where
  "tokens s =
     (let t = dropWhile is_colon s
      in if t = [] then [] else takeWhile (\<lambda>c. \<not> is_colon c) t # tokens (dropWhile (\<lambda>c. \<not> is_colon c) t))"
  by pat_completeness auto
termination
proof (relation "measure length")
  fix s x assume x: "x = dropWhile is_colon s" "x \<noteq> []"
  have "\<not> is_colon (hd x)" using x hd_dropWhile by blast
  then obtain y ys where y: "x = y # ys" "\<not> is_colon y" using x(2) by (cases x) auto
  have "length (y # ys) \<le> length s" using x(1) y(1) length_dropWhile_le [of is_colon s] by argo
  moreover have "length (dropWhile (\<lambda>c. \<not> is_colon c) ys) \<le> length ys" by (rule length_dropWhile_le)
  ultimately have "length (dropWhile (\<lambda>c. \<not> is_colon c) (y # ys)) < length s" using y(2) by simp
  then show "(dropWhile (\<lambda>c. \<not> is_colon c) x, s) \<in> measure length" using y(1) by simp
qed simp

declare tokens.simps [simp del]

definition cut_by_strtok :: "string \<Rightarrow> string" where
  "cut_by_strtok s = takeWhile is_colon s @ takeWhile (\<lambda>c. \<not> is_colon c) (dropWhile is_colon s)"

definition colour_of_letter :: "char \<Rightarrow> colour option" where
  "colour_of_letter c =
     map_of [(CHR ''M'', Percent_Warn), (CHR ''W'', Percent_Warn), (CHR ''X'', Percent_Xtreme), (CHR ''H'', Percent_Xtreme),
       (CHR ''Z'', Zero_Int_Stat), (CHR ''N'', Int_Stat), (CHR ''I'', Item_Name), (CHR ''C'', Sa_Comment), (CHR ''R'', Sa_Restart),
       (CHR ''+'', Trend_Pos), (CHR ''-'', Trend_Neg)] c"

definition set_colour :: "string \<Rightarrow> colours \<Rightarrow> colours" where
  "set_colour p cs =
     (if 7 < length p \<or> length p < 3 \<or> p ! 1 \<noteq> CHR ''='' \<or> \<not> list_all (\<lambda>c. is_digit c \<or> c = CHR '';'') (drop 2 p) then cs
      else case colour_of_letter (hd p) of None \<Rightarrow> cs | Some k \<Rightarrow> cs(k := take 15 (sgr (drop 2 p))))"

record terminal_env =
  getenv :: "string \<Rightarrow> string option"
  isatty :: bool

text \<open>The colours and the environment afterwards.\<close>

definition init_colors :: "terminal_env \<Rightarrow> colours \<Rightarrow> colours \<times> terminal_env" where
  "init_colors E cs =
     (if (case getenv E ''S_COLORS'' of
            None \<Rightarrow> \<not> isatty E
          | Some e \<Rightarrow> e = ''never'' \<or> e \<noteq> ''always'' \<and> \<not> isatty E)
      then (\<lambda>_. [], E)
      else case getenv E ''S_COLORS_SGR'' of
        None \<Rightarrow> (cs, E)
      | Some e \<Rightarrow> (fold set_colour (tokens e) cs, E\<lparr>getenv := (getenv E)(''S_COLORS_SGR'' \<mapsto> cut_by_strtok e)\<rparr>))"

section \<open>Times and sizes\<close>

text \<open>Whether the format of dates is ISO, asked once; \<open>None\<close> is the -1 of the static variable.\<close>

definition is_iso_time_fmt :: "terminal_env \<Rightarrow> bool option \<Rightarrow> bool \<times> bool option" where
  "is_iso_time_fmt E s =
     (case s of
        Some b \<Rightarrow> (b, s)
      | None \<Rightarrow> let b = (getenv E ''S_TIME_FORMAT'' = Some ''ISO'') in (b, Some b))"

text \<open>\<open>strftime\<close> takes the format and the room. The text, what is returned and the static variable.\<close>

definition set_report_date ::
  "terminal_env \<Rightarrow> (string \<Rightarrow> nat \<Rightarrow> 't \<Rightarrow> string) \<Rightarrow> 't option \<Rightarrow> nat \<Rightarrow> bool option \<Rightarrow> string \<times> bool \<times> bool option" where
  "set_report_date E strftime tm sz s =
     (case tm of
        None \<Rightarrow> (take (sz - 1) ''?/?/?'', False, s)
      | Some t \<Rightarrow>
          (let (iso, s') = is_iso_time_fmt E s
           in if iso then (strftime ''%Y-%m-%d'' sz t, True, s') else (strftime ''%x'' sz t, False, s')))"

definition get_win_height :: "terminal_env \<Rightarrow> nat option \<Rightarrow> int" where
  "get_win_height E ws_row =
     (case ws_row of
        Some r \<Rightarrow> if 2 < r then int r - 2 else 86400
      | None \<Rightarrow>
          (case getenv E ''S_REPEAT_HEADER'' of
             None \<Rightarrow> 86400
           | Some e \<Rightarrow>
               if list_all is_digit e then let v = atoi e in if 0 < v then v else 86400 else 86400))"

record 't clock_env =
  unix_time :: int
  gmtime :: "int \<Rightarrow> 't"
  localtime :: "int \<Rightarrow> 't"

definition get_xtime :: "'t clock_env \<Rightarrow> int \<Rightarrow> bool \<Rightarrow> int \<times> 't" where
  "get_xtime C d_off utc =
     (let timer = unix_time C - 86400 * d_off in (timer, if utc then gmtime C timer else localtime C timer))"

text \<open>The static \<open>utc\<close>: 0 at first, then 1, or 2 when the variable asks for it.\<close>

definition get_time :: "terminal_env \<Rightarrow> 't clock_env \<Rightarrow> int \<Rightarrow> nat \<Rightarrow> (int \<times> 't) \<times> nat" where
  "get_time E C d_off utc =
     (let u = (if utc = 0 then (if getenv E ''S_TIME_DEF_TIME'' = Some ''UTC'' then 2 else 1) else utc)
      in (get_xtime C d_off (u = 2), u))"

definition get_HZ :: "int \<Rightarrow> 64 word" where
  "get_HZ ticks = word_of_int ticks"

definition sysstat_panic :: "'a result" where
  "sysstat_panic = Inl Process_Exit"

definition prtab :: "int \<Rightarrow> string" where
  "prtab nr_tab = replicate (nat nr_tab) (CHR 0x09)"

definition strtolower :: "string \<Rightarrow> string" where
  "strtolower s = lower s"

section \<open>Stable names\<close>

text \<open>\<open>%#016llx\<close> counts its prefix, so it pads to fourteen digits, and \<open>%016llx\<close> to sixteen.\<close>

definition stable_id :: "64 word \<times> 64 word \<Rightarrow> 32 word \<Rightarrow> string" where
  "stable_id wwn part_nr =
     fit 64 (''0x'' @ zero_padded 14 (hex_of_nat (unat (fst wwn))) @
             (if snd wwn \<noteq> 0 then zero_padded 16 (hex_of_nat (unat (snd wwn))) else []) @
             (if part_nr \<noteq> 0 then CHR ''-'' # dec_of_nat (unat part_nr) else []))"

definition get_any_device_name ::
  "filesys \<Rightarrow> string \<Rightarrow> 32 word \<Rightarrow> 32 word \<Rightarrow> 64 word \<times> 64 word \<Rightarrow> 32 word \<Rightarrow> bool \<Rightarrow> bool \<Rightarrow> bool \<Rightarrow> string option \<Rightarrow>
     names_state \<Rightarrow> (string \<times> names_state) result" where
  "get_any_device_name F type major minor wwn part_nr disp_devmap_name disp_persist_name use_stable_id dflt_name s =
     (if \<not> (use_stable_id \<and> fst wwn \<noteq> 0)
      then get_device_name F type major minor disp_devmap_name disp_persist_name dflt_name s
      else bind_r (if disp_persist_name
                   then bind_r (get_devname F major minor (names_table s)) (\<lambda>(n, t).
                          Inr (get_persistent_name_from_pretty F type n, s\<lparr>names_table := t\<rparr>))
                   else Inr (None, s)) (\<lambda>(persist, s1).
             Inr (swap_char CHR ''!'' CHR ''/'' (fit MAX_NAME_LEN
                    (case persist of None \<Rightarrow> stable_id wwn part_nr | Some n \<Rightarrow> n)), s1)))"

section \<open>Test mode\<close>

definition get_unix_time :: int where "get_unix_time = 1591016000"

definition get_uname :: "string \<times> string \<times> string \<times> string" where
  "get_uname = (''Linux'', ''SYSSTAT.TEST'', ''1.2.3-TEST'', ''x86_64'')"

record fs_numbers =
  f_bfree :: nat
  f_blocks :: nat
  f_bavail :: nat
  f_files :: nat
  f_ffree :: nat

definition test_filesystems :: "fs_numbers list" where
  "test_filesystems =
     [\<lparr>f_bfree = 739427840, f_blocks = 891291136, f_bavail = 722675712, f_files = 6111232, f_ffree = 6008414\<rparr>,
      \<lparr>f_bfree = 286670336, f_blocks = 502345216, f_bavail = 241253120, f_files = 19202048, f_ffree = 19201593\<rparr>,
      \<lparr>f_bfree = 1696156672, f_blocks = 1829043712, f_bavail = 1106515456, f_files = 1921360, f_ffree = 1621550\<rparr>,
      \<lparr>f_bfree = 2616732672, f_blocks = 3502345216, f_bavail = 1871315456, f_files = 19202048, f_ffree = 19051710\<rparr>]"

text \<open>The static index goes round.\<close>

definition get_fs_stat :: "nat \<Rightarrow> fs_numbers result \<times> nat" where
  "get_fs_stat p =
     (if p < length test_filesystems then Inr (test_filesystems ! p) else Inl Out_Of_Bounds, (p + 1) mod 4)"

definition get_env_value :: "terminal_env \<Rightarrow> bool \<Rightarrow> string \<Rightarrow> string option" where
  "get_env_value E use_env c = (if \<not> use_env then None else getenv E c)"

text \<open>The next name of a list file: the line without its last character, unless it is too short or too
  long for the 256 bytes of a directory entry. The rest of the file follows.\<close>

definition read_list :: "string \<Rightarrow> string option \<times> string" where
  "read_list file =
     (if file = [] then (None, [])
      else let (line, rest) = fgets_piece 1023 file
           in (if 1 < length line \<and> length line < 256 then Some (butlast line) else None, rest))"

definition get_realname :: "string \<Rightarrow> string" where
  "get_realname name = take 1023 name"

definition get_known_pid :: int where "get_known_pid = 8741"

section \<open>Lemmas\<close>

text \<open>No colour outgrows its sixteen bytes.\<close>

definition colours_ok :: "colours \<Rightarrow> bool" where
  "colours_ok cs \<longleftrightarrow> (\<forall>k. length (cs k) < 16)"

lemma default_colours_ok: "colours_ok default_colours"
  unfolding colours_ok_def by (intro allI, case_tac k) (simp_all add: sgr_def)

lemma set_colour_ok: "colours_ok cs \<Longrightarrow> colours_ok (set_colour p cs)"
  by (auto simp: set_colour_def colours_ok_def split: option.splits)

lemma init_colors_ok: "colours_ok cs \<Longrightarrow> colours_ok (fst (init_colors E cs))"
proof -
  assume cs: "colours_ok cs"
  have "colours_ok (fold set_colour ts cs)" for ts
    using cs by (induction ts arbitrary: cs) (simp_all add: set_colour_ok)
  then show ?thesis using cs by (auto simp: init_colors_def colours_ok_def split: option.splits if_splits)
qed

text \<open>A code that is accepted is never cut.\<close>

lemma set_colour_whole:
  "length p \<le> 7 \<Longrightarrow> take 15 (sgr (drop 2 p)) = sgr (drop 2 p)"
  by (simp add: sgr_def)

text \<open>Cutting the environment's own text loses the codes behind the first for whoever asks again.\<close>

lemma codes_lost:
  "tokens (cut_by_strtok s) = take 1 (tokens s)"
proof (cases "dropWhile is_colon s = []")
  case True
  then have "\<forall>c\<in>set s. is_colon c" by (simp add: dropWhile_eq_Nil_conv)
  then have "cut_by_strtok s = s" by (simp add: cut_by_strtok_def True takeWhile_eq_all_conv)
  then show ?thesis using True by (simp add: tokens.simps [of s])
next
  case False
  define t where "t = takeWhile (\<lambda>c. \<not> is_colon c) (dropWhile is_colon s)"
  have hd: "\<not> is_colon (hd (dropWhile is_colon s))" using False hd_dropWhile by blast
  then obtain x xs where t: "t = x # xs" "\<not> is_colon x"
    unfolding t_def using False by (cases "dropWhile is_colon s") auto
  have all: "\<forall>c\<in>set t. \<not> is_colon c" unfolding t_def using set_takeWhileD by fastforce
  have "dropWhile is_colon (cut_by_strtok s) = t"
    unfolding cut_by_strtok_def t_def [symmetric] using t set_takeWhileD by (subst dropWhile_append2) fastforce+
  moreover have "takeWhile (\<lambda>c. \<not> is_colon c) t = t" "dropWhile (\<lambda>c. \<not> is_colon c) t = []"
    using all by (simp_all add: takeWhile_eq_all_conv dropWhile_eq_Nil_conv)
  moreover have "tokens [] = []" by (simp add: tokens.simps)
  ultimately show ?thesis
    using False t(1) by (simp add: tokens.simps [of s] tokens.simps [of "cut_by_strtok s"] t_def [symmetric] Let_def)
qed

lemma stable_name_asked:
  "get_any_device_name F type major minor wwn part_nr dm persist False dflt s = get_device_name F type major minor dm persist dflt s"
  by (simp add: get_any_device_name_def)

text \<open>The utc flag is decided once.\<close>

lemma utc_decided_once: "snd (get_time E C d u) = v \<Longrightarrow> snd (get_time E' C' d' v) = v"
  by (auto simp: get_time_def Let_def split: if_splits)

text \<open>The index of the bogus file systems stays in range.\<close>

lemma fs_stat_in_range: "p < 4 \<Longrightarrow> \<exists>r. fst (get_fs_stat p) = Inr r \<and> snd (get_fs_stat p) < 4"
  by (simp add: get_fs_stat_def test_filesystems_def)

text \<open>A list file gives its names back one by one.\<close>

lemma list_file_read:
  assumes "CHR 0x0A \<notin> set n" "n \<noteq> []" "length n < 255"
  shows "read_list (n @ CHR 0x0A # rest) = (Some n, rest)"
  using fgets_piece_line [OF assms(1), of 1023 rest] assms(2,3) by (cases n) (simp_all add: read_list_def)

end
