(* ===== verification/Util_Names.thy ===== *)
theory Util_Names
  imports C_Stdio "HOL-Library.Product_Lexorder" "HOL-Library.Option_ord"
begin

text \<open>
  The helpers of app/source/common/util.cc and app/include/common/util.h: the version of the kernel, cut
  copies of strings, and the comparison of interface names that knows about numbers and alias suffixes.
  The comparison is related to the linear order of a key (prefix, number, alias).

  The locale \<open>weak_order\<close> is what an ordered container of the C++ library asks of its comparison: a strict
  weak order. Keeping a list sorted under such an order is proved there once.
\<close>

section \<open>Strict weak orders\<close>

fun insert_after :: "('a \<Rightarrow> 'a \<Rightarrow> bool) \<Rightarrow> 'a \<Rightarrow> 'a list \<Rightarrow> 'a list" where
  "insert_after lt x [] = [x]"
| "insert_after lt x (y # ys) = (if lt x y then x # y # ys else y # insert_after lt x ys)"

lemma set_insert_after [simp]: "set (insert_after lt x ys) = insert x (set ys)"
  by (induction ys) auto

lemma length_insert_after [simp]: "length (insert_after lt x ys) = Suc (length ys)"
  by (induction ys) auto

locale weak_order =
  fixes less_than :: "'a \<Rightarrow> 'a \<Rightarrow> bool"
  assumes irreflexive: "\<not> less_than x x"
    and trans: "less_than x y \<Longrightarrow> less_than y z \<Longrightarrow> less_than x z"
    and trans_incomparable: "less_than x z \<Longrightarrow> less_than x y \<or> less_than y z"
begin

definition equivalent :: "'a \<Rightarrow> 'a \<Rightarrow> bool" where
  "equivalent x y \<longleftrightarrow> \<not> less_than x y \<and> \<not> less_than y x"

definition ascending :: "'a list \<Rightarrow> bool" where
  "ascending xs \<longleftrightarrow> sorted_wrt (\<lambda>x y. \<not> less_than y x) xs"

lemma asym: "less_than x y \<Longrightarrow> \<not> less_than y x"
  using trans [of x y x] irreflexive [of x] by blast

lemma not_less_trans: "\<not> less_than y x \<Longrightarrow> \<not> less_than z y \<Longrightarrow> \<not> less_than z x"
  using trans_incomparable by blast

lemma equivalent_refl: "equivalent x x"
  by (simp add: equivalent_def irreflexive)

lemma equivalent_trans: "equivalent x y \<Longrightarrow> equivalent y z \<Longrightarrow> equivalent x z"
  unfolding equivalent_def using not_less_trans by blast

lemma equivalent_less: "equivalent x y \<Longrightarrow> less_than y z \<Longrightarrow> less_than x z"
  unfolding equivalent_def using trans_incomparable by blast

lemma ascending_insert_after: "ascending xs \<Longrightarrow> ascending (insert_after less_than x xs)"
proof (induction xs)
  case (Cons y ys)
  then have tail: "ascending ys" "\<And>z. z \<in> set ys \<Longrightarrow> \<not> less_than z y" by (simp_all add: ascending_def)
  show ?case
  proof (cases "less_than x y")
    case True
    have "\<not> less_than z x" if "z \<in> set ys" for z
      using that True tail(2) not_less_trans asym by blast
    then show ?thesis using True Cons.prems asym [OF True] by (simp add: ascending_def)
  next
    case False
    then show ?thesis using Cons.IH [OF tail(1)] tail(2) by (auto simp: ascending_def)
  qed
qed (simp add: ascending_def)

text \<open>An entry is found behind the entries that are equivalent to it.\<close>

lemma insert_after_group:
  assumes "ascending xs" "equivalent x k"
  shows "filter (equivalent k) (insert_after less_than x xs) = filter (equivalent k) xs @ [x]"
  using assms
proof (induction xs)
  case Nil
  then show ?case by (auto simp: equivalent_def)
next
  case (Cons y ys)
  then have tail: "ascending ys" "\<And>z. z \<in> set ys \<Longrightarrow> \<not> less_than z y" by (simp_all add: ascending_def)
  have kx: "equivalent k x" using Cons.prems(2) by (auto simp: equivalent_def)
  show ?case
  proof (cases "less_than x y")
    case True
    have "less_than k z" if "z \<in> set (y # ys)" for z
    proof -
      have "z = y \<or> \<not> less_than z y" using that tail(2) by auto
      then have "less_than x z" using True trans_incomparable by blast
      then show ?thesis by (rule equivalent_less [OF kx])
    qed
    then have none: "filter (equivalent k) (y # ys) = []"
      unfolding filter_empty_conv by (simp add: equivalent_def)
    have "insert_after less_than x (y # ys) = x # y # ys" using True by simp
    then show ?thesis using none kx by simp
  next
    case False
    then show ?thesis using Cons.IH [OF tail(1) Cons.prems(2)] by simp
  qed
qed

lemma insert_after_other:
  "\<not> equivalent k x \<Longrightarrow> filter (equivalent k) (insert_after less_than x xs) = filter (equivalent k) xs"
  by (induction xs) auto

end

text \<open>Comparing by a key gives a strict weak order.\<close>

lemma weak_order_key: "weak_order (\<lambda>x y. (f x :: 'k :: linorder) < f y)"
  by unfold_locales auto

section \<open>Versions and copies\<close>

definition KRELEASE :: "int \<Rightarrow> int \<Rightarrow> int \<Rightarrow> int" where
  "KRELEASE maj mnr patch = maj * 10000 + mnr * 1000 + patch"

text \<open>The release that \<open>uname\<close> reports, \<open>None\<close> when it fails; each number is the low half of what was
  read. The arithmetic is signed.\<close>

definition int_of_scanned :: "scanned \<Rightarrow> int" where
  "int_of_scanned v = sint (ucast (number_of v) :: 32 word)"

definition int_fits :: "int \<Rightarrow> bool" where
  "int_fits v \<longleftrightarrow> - (2 ^ 31) \<le> v \<and> v < 2 ^ 31"

definition kernel_version :: "string option \<Rightarrow> int result" where
  "kernel_version release =
     (case release of
        None \<Rightarrow> Inr (- 1)
      | Some s \<Rightarrow>
          (case map int_of_scanned (sscanf [Sc_Signed, Sc_Lit CHR ''.'', Sc_Signed, Sc_Lit CHR ''.'', Sc_Signed] s) of
             [a, b, c] \<Rightarrow>
               if int_fits (a * 10000) \<and> int_fits (b * 1000) \<and> int_fits (a * 10000 + b * 1000) \<and> int_fits (KRELEASE a b c)
               then Inr (KRELEASE a b c) else Inl Signed_Overflow
           | _ \<Rightarrow> Inr (- 1)))"

text \<open>The text in the buffer after the copy; no room at all writes in front of the buffer.\<close>

definition safe_strncpy :: "string \<Rightarrow> nat \<Rightarrow> string result" where
  "safe_strncpy src n = (if n = 0 then Inl Out_Of_Bounds else Inr (take (n - 1) src))"

section \<open>Comparing names\<close>

text \<open>\<open>strncmp\<close>: the difference of the first characters that differ, within \<open>n\<close>.\<close>

fun strncmp :: "string \<Rightarrow> string \<Rightarrow> nat \<Rightarrow> int" where
  "strncmp (a # as) (b # bs) (Suc n) = (if a = b then strncmp as bs n else of_char a - of_char b)"
| "strncmp (a # as) [] (Suc n) = of_char a"
| "strncmp [] (b # bs) (Suc n) = - of_char b"
| "strncmp as bs n = 0"

text \<open>The loop of \<open>cutalias\<close> runs backwards; the second argument is what it has passed.\<close>

fun cut_loop :: "string \<Rightarrow> string \<Rightarrow> bool \<Rightarrow> (string \<times> string) option" where
  "cut_loop [] passed digit = None"
| "cut_loop (c # r) passed digit =
     (if c = CHR '':'' \<and> digit then Some (rev r, passed)
      else if \<not> is_digit c then None
      else cut_loop r (c # passed) True)"

definition cutalias :: "string \<Rightarrow> string \<times> string option" where
  "cutalias n = (case cut_loop (rev n) [] False of None \<Rightarrow> (n, None) | Some (m, s) \<Rightarrow> (m, Some s))"

fun rindex_loop :: "string \<Rightarrow> nat" where
  "rindex_loop [] = 0"
| "rindex_loop (c # r) = (if \<not> is_digit c then Suc (length r) else rindex_loop r)"

definition rindex_nondigit :: "string \<Rightarrow> nat" where
  "rindex_nondigit n = rindex_loop (rev n)"

definition nstrcmp :: "string \<Rightarrow> string \<Rightarrow> int" where
  "nstrcmp ap bp =
     (let (a, aalias) = cutalias ap;
          (b, balias) = cutalias bp;
          aindex = rindex_nondigit a;
          bindex = rindex_nondigit b;
          complen = (if aindex < bindex then aindex else bindex);
          res = strncmp a b complen
      in if res \<noteq> 0 then res
         else if aindex > bindex then 1
         else if aindex < bindex then - 1
         else let av = atoi (drop aindex a); bv = atoi (drop bindex b)
              in if av < bv then - 1
                 else if av > bv then 1
                 else let av = (case aalias of None \<Rightarrow> - 1 | Some s \<Rightarrow> atoi s);
                          bv = (case balias of None \<Rightarrow> - 1 | Some s \<Rightarrow> atoi s)
                      in if av < bv then - 1 else if av > bv then 1 else 0)"

text \<open>What the comparison orders by.\<close>

definition name_key :: "string \<Rightarrow> string \<times> int \<times> int" where
  "name_key n =
     (let (m, al) = cutalias n; i = rindex_nondigit m
      in (take i m, atoi (drop i m), case al of None \<Rightarrow> - 1 | Some s \<Rightarrow> atoi s))"

lemma of_char_less: "(of_char a :: int) < of_char b \<longleftrightarrow> a < (b :: char)"
  by (metis less_char_def of_nat_less_iff of_nat_of_char)

lemma of_char_eq: "(of_char a :: int) = of_char b \<longleftrightarrow> a = (b :: char)"
  by simp

lemma strncmp_prefix:
  "n \<le> length as \<Longrightarrow> n \<le> length bs \<Longrightarrow>
     (strncmp as bs n = 0 \<longleftrightarrow> take n as = take n bs) \<and>
     (strncmp as bs n < 0 \<longleftrightarrow> take n as < take n bs)"
proof (induction as bs n rule: strncmp.induct)
  case (1 a as b bs n)
  then show ?case by (auto simp: of_char_less)
qed auto

lemma rindex_loop_le: "rindex_loop r \<le> length r"
  by (induction r) auto

lemma rindex_le: "rindex_nondigit n \<le> length n"
  using rindex_loop_le [of "rev n"] by (simp add: rindex_nondigit_def)

text \<open>Lists of equal length decide a comparison before what follows them.\<close>

lemma append_less:
  fixes xs ys :: "'a :: linorder list"
  shows "length xs = length ys \<Longrightarrow> xs @ us < ys @ vs \<longleftrightarrow> xs < ys \<or> xs = ys \<and> us < vs"
  by (induction xs ys rule: list_induct2) auto

lemma Nil_less: "[] < (xs :: 'a :: linorder list) \<longleftrightarrow> xs \<noteq> []"
  by (cases xs) auto

lemma take_split: "n \<le> m \<Longrightarrow> take m xs = take n xs @ take (m - n) (drop n xs)"
  by (metis le_add_diff_inverse take_add)

lemma prefix_order:
  assumes "i \<le> length a" "j \<le> length b" "c = (if i < j then i else j)"
  shows "take i a < take j b \<longleftrightarrow> strncmp a b c < 0 \<or> strncmp a b c = 0 \<and> i < j"
    and "take i a = take j b \<longleftrightarrow> strncmp a b c = 0 \<and> i = j"
proof -
  have c: "c \<le> i" "c \<le> j" using assms(3) by auto
  have len: "length (take c a) = length (take c b)" using c assms by simp
  note parts = take_split [OF c(1), of a] take_split [OF c(2), of b]
  have rest: "take (i - c) (drop c a) = [] \<longleftrightarrow> i = c" "take (j - c) (drop c b) = [] \<longleftrightarrow> j = c"
    using c assms by (auto simp: le_antisym)
  have one: "i = c \<or> j = c" using assms(3) by auto
  have less: "take (i - c) (drop c a) < take (j - c) (drop c b) \<longleftrightarrow> i < j"
    using one rest c by (auto simp: Nil_less)
  have sign: "strncmp a b c = 0 \<longleftrightarrow> take c a = take c b" "strncmp a b c < 0 \<longleftrightarrow> take c a < take c b"
    using strncmp_prefix [of c a b] c assms by auto
  show "take i a < take j b \<longleftrightarrow> strncmp a b c < 0 \<or> strncmp a b c = 0 \<and> i < j"
    unfolding parts append_less [OF len] less sign by auto
  have "take i a = take j b \<longleftrightarrow> take c a = take c b \<and> take (i - c) (drop c a) = take (j - c) (drop c b)"
    unfolding parts using len by simp
  then show "take i a = take j b \<longleftrightarrow> strncmp a b c = 0 \<and> i = j"
    using one rest sign by auto
qed

lemma less_triple:
  "(p, x, u) < (q, y, v) \<longleftrightarrow> p < q \<or> p = q \<and> (x < y \<or> x = y \<and> u < v)"
  for p q :: "'a :: linorder" and x y :: "'b :: linorder" and u v :: "'c :: linorder"
  by (auto simp: less_le_not_le)

lemma nstrcmp_key:
  "nstrcmp a b < 0 \<longleftrightarrow> name_key a < name_key b" "nstrcmp a b = 0 \<longleftrightarrow> name_key a = name_key b"
proof -
  obtain m al where m: "cutalias a = (m, al)" by fastforce
  obtain n bl where n: "cutalias b = (n, bl)" by fastforce
  define i where "i = rindex_nondigit m"
  define j where "j = rindex_nondigit n"
  define c where "c = (if i < j then i else j)"
  define r where "r = strncmp m n c"
  have i: "i \<le> length m" and j: "j \<le> length n" by (simp_all add: i_def j_def rindex_le)
  note p = prefix_order [OF i j c_def, folded r_def]
  have cmp: "nstrcmp a b =
      (if r \<noteq> 0 then r else if i > j then 1 else if i < j then - 1
       else if atoi (drop i m) < atoi (drop j n) then - 1
       else if atoi (drop i m) > atoi (drop j n) then 1
       else if (case al of None \<Rightarrow> - 1 | Some s \<Rightarrow> atoi s) < (case bl of None \<Rightarrow> - 1 | Some s \<Rightarrow> atoi s) then - 1
       else if (case al of None \<Rightarrow> - 1 | Some s \<Rightarrow> atoi s) > (case bl of None \<Rightarrow> - 1 | Some s \<Rightarrow> atoi s) then 1 else 0)"
    by (simp only: nstrcmp_def m n prod.case Let_def i_def j_def c_def r_def)
  have keys: "name_key a = (take i m, atoi (drop i m), case al of None \<Rightarrow> - 1 | Some s \<Rightarrow> atoi s)"
    "name_key b = (take j n, atoi (drop j n), case bl of None \<Rightarrow> - 1 | Some s \<Rightarrow> atoi s)"
    by (simp_all add: name_key_def m n i_def j_def Let_def)
  show "nstrcmp a b < 0 \<longleftrightarrow> name_key a < name_key b"
    unfolding cmp keys less_triple p by (cases r "0 :: int" rule: linorder_cases) simp_all
  show "nstrcmp a b = 0 \<longleftrightarrow> name_key a = name_key b"
    unfolding cmp keys prod.inject p by (cases r "0 :: int" rule: linorder_cases) auto
qed

interpretation names: weak_order "\<lambda>a b. nstrcmp a b < 0"
  unfolding nstrcmp_key(1) by (rule weak_order_key)

section \<open>Printed names\<close>

text \<open>The names of interfaces: a prefix, a number, and maybe an alias number behind a colon.\<close>

definition print_name :: "string \<Rightarrow> nat \<Rightarrow> nat option \<Rightarrow> string" where
  "print_name p n al = p @ dec_of_nat n @ (case al of None \<Rightarrow> [] | Some k \<Rightarrow> CHR '':'' # dec_of_nat k)"

definition name_prefix :: "string \<Rightarrow> bool" where
  "name_prefix p \<longleftrightarrow> p = [] \<or> \<not> is_digit (last p) \<and> last p \<noteq> CHR '':''"

definition small_alias :: "nat option \<Rightarrow> bool" where
  "small_alias al \<longleftrightarrow> (case al of None \<Rightarrow> True | Some k \<Rightarrow> k < 2 ^ 31)"

lemma cut_loop_digits:
  "list_all is_digit ds \<Longrightarrow> cut_loop (rev ds @ r) passed d = cut_loop r (ds @ passed) (d \<or> ds \<noteq> [])"
proof (induction ds arbitrary: passed d rule: rev_induct)
  case (snoc c ds)
  moreover have "c \<noteq> CHR '':''" using snoc.prems by (auto simp: is_digit_def)
  ultimately show ?case by simp
qed simp

lemma rindex_loop_digits: "list_all is_digit ds \<Longrightarrow> rindex_loop (rev ds @ r) = rindex_loop r"
  by (induction ds rule: rev_induct) auto

lemma dec_digits: "list_all is_digit (dec_of_nat n)"
  using dec_of_nat_digits by (simp add: list_all_iff)

lemma atoi_dec_of_nat: "n < 2 ^ 31 \<Longrightarrow> atoi (dec_of_nat n) = int n"
proof -
  assume n: "n < 2 ^ 31"
  have "sint (of_nat n :: 32 word) = int n"
    using n by (simp add: signed_of_nat signed_take_bit_int_eq_self_iff)
  then show ?thesis using n by (simp add: atoi_def strtol_def clamp_long_def long_max_def long_min_def)
qed

lemma cut_loop_prefix: "name_prefix p \<Longrightarrow> cut_loop (rev p) passed d = None"
  by (cases p rule: rev_cases) (auto simp: name_prefix_def)

lemma rindex_loop_prefix: "name_prefix p \<Longrightarrow> rindex_loop (rev p) = length p"
  by (cases p rule: rev_cases) (auto simp: name_prefix_def)

lemma cutalias_print_name:
  assumes "name_prefix p"
  shows "cutalias (print_name p n al) = (p @ dec_of_nat n, map_option dec_of_nat al)"
proof (cases al)
  case None
  have "cut_loop (rev (print_name p n al)) [] False = cut_loop (rev (dec_of_nat n) @ rev p) [] False"
    by (simp add: print_name_def None)
  also have "\<dots> = None" by (simp only: cut_loop_digits [OF dec_digits] cut_loop_prefix [OF assms])
  finally show ?thesis by (simp add: cutalias_def print_name_def None)
next
  case (Some k)
  have "cut_loop (rev (print_name p n al)) [] False =
      cut_loop (rev (dec_of_nat k) @ CHR '':'' # rev (p @ dec_of_nat n)) [] False"
    by (simp add: print_name_def Some)
  also have "\<dots> = Some (p @ dec_of_nat n, dec_of_nat k)" by (subst cut_loop_digits [OF dec_digits]) simp
  finally show ?thesis by (simp add: cutalias_def Some)
qed

lemma name_key_print_name:
  assumes "name_prefix p" "n < 2 ^ 31" "small_alias al"
  shows "name_key (print_name p n al) = (p, int n, case al of None \<Rightarrow> - 1 | Some k \<Rightarrow> int k)"
proof -
  have "rindex_nondigit (p @ dec_of_nat n) = length p"
    using rindex_loop_digits [OF dec_digits, of n "rev p"] rindex_loop_prefix [OF assms(1)]
    by (simp add: rindex_nondigit_def)
  then show ?thesis
    using assms(2,3) by (cases al)
      (auto simp: name_key_def cutalias_print_name [OF assms(1)] atoi_dec_of_nat small_alias_def)
qed

text \<open>C33: on names of interfaces, a prefix with a number and maybe an alias number behind a colon,
  \<open>nstrcmp\<close> is the comparison by prefix, then by number (\<open>eth2\<close> before \<open>eth10\<close>), then by alias, where no
  alias comes first; it yields 0 for equal names only.\<close>

theorem interface_names_ordered:
  assumes "name_prefix p" "name_prefix q" "m < 2 ^ 31" "n < 2 ^ 31" "small_alias al" "small_alias bl"
  shows "(nstrcmp (print_name p m al) (print_name q n bl) < 0 \<longleftrightarrow> (p, m, al) < (q, n, bl)) \<and>
    (nstrcmp (print_name p m al) (print_name q n bl) = 0 \<longleftrightarrow> (p, m, al) = (q, n, bl))"
proof
  note keys = name_key_print_name [OF assms(1,3,5)] name_key_print_name [OF assms(2,4,6)]
  have alias_eq: "(case al of None \<Rightarrow> - 1 | Some k \<Rightarrow> int k) < (case bl of None \<Rightarrow> - 1 | Some k \<Rightarrow> int k) \<longleftrightarrow> al < bl"
    "(case al of None \<Rightarrow> - 1 | Some k \<Rightarrow> int k) = (case bl of None \<Rightarrow> - 1 | Some k \<Rightarrow> int k) \<longleftrightarrow> al = bl"
    by (cases al; cases bl; simp)+
  show "nstrcmp (print_name p m al) (print_name q n bl) < 0 \<longleftrightarrow> (p, m, al) < (q, n, bl)"
    by (simp only: nstrcmp_key keys less_triple alias_eq of_nat_less_iff of_nat_eq_iff)
  show "nstrcmp (print_name p m al) (print_name q n bl) = 0 \<longleftrightarrow> (p, m, al) = (q, n, bl)"
    by (simp only: nstrcmp_key keys prod.inject alias_eq of_nat_eq_iff)
qed

theorem interface_names_ordered_witness:
  "nstrcmp ''eth2'' ''eth10'' < 0 \<and> nstrcmp ''eth10:3'' ''eth10'' \<noteq> 0"
proof -
  have names: "print_name ''eth'' 2 None = ''eth2''" "print_name ''eth'' 10 None = ''eth10''"
    "print_name ''eth'' 10 (Some 3) = ''eth10:3''" by code_simp+
  have p: "name_prefix ''eth''" by code_simp
  have "nstrcmp (print_name ''eth'' 2 None) (print_name ''eth'' 10 None) < 0"
    by (subst interface_names_ordered [OF p p, THEN conjunct1]) (simp_all add: small_alias_def)
  moreover have "nstrcmp (print_name ''eth'' 10 (Some 3)) (print_name ''eth'' 10 None) \<noteq> 0"
    by (subst interface_names_ordered [OF p p, THEN conjunct2]) (simp_all add: small_alias_def)
  ultimately show ?thesis unfolding names by blast
qed

text \<open>Names that are not printed like this can compare equal without being equal.\<close>

lemma unequal_names_tie: "nstrcmp ''lo'' ''lo0'' = 0" "nstrcmp ''lo'' ''lo00'' = 0"
  by code_simp+

end
