(* ===== verification/Net_Address.thy ===== *)
theory Net_Address
  imports Util_Names
begin

text \<open>
  Addresses of the network tools: app/include/source/host/collector/network/inet.h, inet6.h and unix.h.
  An Internet address is the 32-bit value its four bytes have in the memory of a little-endian machine,
  byte 0 first. The databases of hosts and networks, the conversions of IPv6 addresses and the entries of
  /etc/services and /etc/protocols are arguments; the cache of names, a list of the C code, is state.
\<close>

unbundle bit_operations_syntax

section \<open>Bytes and texts\<close>

type_synonym in_addr = "32 word"

definition octet :: "in_addr \<Rightarrow> nat \<Rightarrow> 8 word" where
  "octet a i = ucast (drop_bit (8 * i) a)"

definition of_octets :: "8 word \<Rightarrow> 8 word \<Rightarrow> 8 word \<Rightarrow> 8 word \<Rightarrow> in_addr" where
  "of_octets a b c d =
     ucast a OR push_bit 8 (ucast b) OR push_bit 16 (ucast c) OR push_bit 24 (ucast d)"

text \<open>\<open>htonl\<close> and \<open>ntohl\<close> on such a machine, and \<open>ntohs\<close>.\<close>

definition htonl :: "32 word \<Rightarrow> 32 word" where
  "htonl v = of_octets (octet v 3) (octet v 2) (octet v 1) (octet v 0)"

definition ntohs :: "16 word \<Rightarrow> 16 word" where
  "ntohs v = push_bit 8 v OR drop_bit 8 v"

definition dec_octet :: "8 word \<Rightarrow> string" where
  "dec_octet b = dec_of_nat (unat b)"

definition inet_ntoa :: "in_addr \<Rightarrow> string" where
  "inet_ntoa a =
     dec_octet (octet a 0) @ ''.'' @ dec_octet (octet a 1) @ ''.'' @ dec_octet (octet a 2) @ ''.'' @ dec_octet (octet a 3)"

section \<open>From names to addresses\<close>

record name_db =
  inet_aton :: "string \<Rightarrow> in_addr option"
  gethostbyname :: "string \<Rightarrow> in_addr option"
  getnetbyname :: "string \<Rightarrow> 32 word option"
  gethostbyaddr :: "in_addr \<Rightarrow> string option"
  getnetbyaddr :: "32 word \<Rightarrow> string option"

text \<open>The value returned (1 for a network, 0 for a host, -1 for none) and the address stored.\<close>

definition INET_resolve :: "name_db \<Rightarrow> string \<Rightarrow> bool \<Rightarrow> int \<times> in_addr option" where
  "INET_resolve D name hostfirst =
     (if name = ''default'' then (1, Some 0)
      else case inet_aton D name of
        Some a \<Rightarrow> (0, Some a)
      | None \<Rightarrow>
          (case (if hostfirst then gethostbyname D name else None) of
             Some a \<Rightarrow> (0, Some a)
           | None \<Rightarrow>
               (case getnetbyname D name of
                  Some n \<Rightarrow> (1, Some (htonl n))
                | None \<Rightarrow>
                    if hostfirst then (- 1, None)
                    else (case gethostbyname D name of None \<Rightarrow> (- 1, None) | Some a \<Rightarrow> (0, Some a)))))"

section \<open>From addresses to names\<close>

definition inet_family :: "16 word" where "inet_family = 2"

record sockaddr_in =
  sin_family :: "16 word"
  sin_addr :: in_addr

record name_entry =
  ne_addr :: in_addr
  ne_host :: bool
  ne_name :: string

type_synonym name_cache = "name_entry list"

definition cache_find :: "in_addr \<Rightarrow> bool \<Rightarrow> name_cache \<Rightarrow> string option" where
  "cache_find ad host cache =
     (case filter (\<lambda>e. ne_addr e = ad \<and> ne_host e = host) cache of [] \<Rightarrow> None | e # es \<Rightarrow> Some (ne_name e))"

text \<open>Whether the address is taken for a host: the mask is used as it is, without \<open>htonl\<close>.\<close>

definition is_host :: "in_addr \<Rightarrow> 32 word \<Rightarrow> 32 word \<Rightarrow> bool" where
  "is_host ad numeric netmask \<longleftrightarrow> ad AND NOT netmask \<noteq> 0 \<or> numeric AND 0x4000 \<noteq> 0"

definition database_name :: "name_db \<Rightarrow> in_addr \<Rightarrow> bool \<Rightarrow> string" where
  "database_name D ad host =
     (case (if host then gethostbyaddr D ad else getnetbyaddr D (htonl ad)) of
        Some n \<Rightarrow> n
      | None \<Rightarrow> inet_ntoa ad)"

text \<open>The name written (\<open>None\<close> with the error of another family) and the cache after the call.\<close>

definition INET_rresolve ::
  "name_db \<Rightarrow> nat \<Rightarrow> sockaddr_in \<Rightarrow> 32 word \<Rightarrow> 32 word \<Rightarrow> name_cache \<Rightarrow> (string option \<times> name_cache) result" where
  "INET_rresolve D len sin numeric netmask cache =
     (if sin_family sin \<noteq> inet_family then Inr (None, cache)
      else let ad = sin_addr sin in
        if ad = 0 \<and> numeric AND 0x0FFF = 0
        then bind_r (safe_strncpy (if numeric AND 0x8000 \<noteq> 0 then ''default'' else ''*'') len) (\<lambda>n. Inr (Some n, cache))
        else if numeric AND 0x0FFF \<noteq> 0 then bind_r (safe_strncpy (inet_ntoa ad) len) (\<lambda>n. Inr (Some n, cache))
        else let host = is_host ad numeric netmask in
          case cache_find ad host cache of
            Some nm \<Rightarrow> bind_r (safe_strncpy nm len) (\<lambda>n. Inr (Some n, cache))
          | None \<Rightarrow>
              bind_r (safe_strncpy (database_name D ad host) len) (\<lambda>n.
                Inr (Some n, \<lparr>ne_addr = ad, ne_host = host, ne_name = n\<rparr> # cache)))"

text \<open>Printing a socket address into a buffer of 128 bytes.\<close>

definition no_family :: "16 word \<Rightarrow> bool" where
  "no_family f \<longleftrightarrow> f = 0xFFFF \<or> f = 0"

definition INET_sprintmask ::
  "name_db \<Rightarrow> sockaddr_in \<Rightarrow> 32 word \<Rightarrow> 32 word \<Rightarrow> name_cache \<Rightarrow> (string option \<times> name_cache) result" where
  "INET_sprintmask D sap numeric netmask cache =
     (if no_family (sin_family sap) then bind_r (safe_strncpy ''[NONE SET]'' 128) (\<lambda>n. Inr (Some n, cache))
      else INET_rresolve D 128 sap numeric netmask cache)"

definition INET_sprint :: "name_db \<Rightarrow> sockaddr_in \<Rightarrow> 32 word \<Rightarrow> name_cache \<Rightarrow> (string option \<times> name_cache) result" where
  "INET_sprint D sap numeric cache =
     (if no_family (sin_family sap) then bind_r (safe_strncpy ''[NONE SET]'' 128) (\<lambda>n. Inr (Some n, cache))
      else INET_rresolve D 128 sap numeric 0xffffff00 cache)"

section \<open>Addresses in hexadecimal\<close>

definition toupper :: "char \<Rightarrow> char" where
  "toupper c = (if 97 \<le> (of_char c :: nat) \<and> (of_char c :: nat) \<le> 122 then char_of (of_char c - 32 :: nat) else c)"

definition hex_value :: "char \<Rightarrow> 8 word option" where
  "hex_value c =
     (let n = (of_char (toupper c) :: nat)
      in if 65 \<le> n \<and> n \<le> 70 then Some (of_nat (n - 65) + 10) else if 48 \<le> n \<and> n \<le> 57 then Some (of_nat (n - 48)) else None)"

text \<open>A pair of digits; the text of a C string ends in a character that is none.\<close>

fun hex_byte :: "string \<Rightarrow> (8 word \<times> string) option" where
  "hex_byte (a # b # s) =
     (case (hex_value a, hex_value b) of (Some x, Some y) \<Rightarrow> Some (push_bit 4 x OR y, s) | _ \<Rightarrow> None)"
| "hex_byte _ = None"

fun hex_bytes :: "nat \<Rightarrow> string \<Rightarrow> 8 word list option" where
  "hex_bytes 0 s = Some []"
| "hex_bytes (Suc n) s =
     (case hex_byte s of None \<Rightarrow> None | Some (b, r) \<Rightarrow> map_option ((#) b) (hex_bytes n r))"

definition INET_getsock :: "string \<Rightarrow> (nat \<times> sockaddr_in) option" where
  "INET_getsock s =
     (case hex_bytes 4 s of
        Some [a, b, c, d] \<Rightarrow> Some (8, \<lparr>sin_family = inet_family, sin_addr = htonl (of_octets a b c d)\<rparr>)
      | _ \<Rightarrow> None)"

text \<open>\<open>INET_input\<close>: the kind of text decides.\<close>

definition INET_input :: "name_db \<Rightarrow> nat \<Rightarrow> string \<Rightarrow> int \<times> in_addr option" where
  "INET_input D kind s =
     (if kind = 1 then (case INET_getsock s of None \<Rightarrow> (- 1, None) | Some (n, sa) \<Rightarrow> (int n, Some (sin_addr sa)))
      else if kind = 256 then INET_resolve D s True
      else INET_resolve D s False)"

text \<open>The mask of \<open>address/length\<close>: 0 without a slash, -1 for a length with a tail. A shift by 32 or more, or by
  a negative length, is undefined. \<open>strtoul\<close> with base 0 is an argument: the value and what follows.\<close>

definition INET_getnetmask ::
  "(string \<Rightarrow> 64 word \<times> string) \<Rightarrow> string \<Rightarrow> (int \<times> string \<times> in_addr option \<times> string option) result" where
  "INET_getnetmask strtoul adr =
     (case find_char CHR ''/'' adr of
        None \<Rightarrow> Inr (0, adr, None, None)
      | Some i \<Rightarrow>
          let cut = take i adr; (v, rest) = strtoul (drop (Suc i) adr); prefix = sint (ucast v :: 32 word)
          in if rest \<noteq> [] then Inr (- 1, cut, None, None)
             else if prefix < 0 \<or> 32 \<le> prefix then Inl Out_Of_Range
             else Inr (1, cut, Some (htonl (NOT (drop_bit (nat prefix) 0xffffffff))), Some (CHR ''/'' # dec_of_int prefix)))"

section \<open>Services\<close>

record net_service =
  sv_number :: "16 word"
  sv_name :: string

definition add2list :: "net_service list \<Rightarrow> net_service \<Rightarrow> net_service list" where
  "add2list base item = item # base"

fun searchlist :: "net_service list \<Rightarrow> 16 word \<Rightarrow> net_service option" where
  "searchlist [] number = None"
| "searchlist (item # rest) number = (if sv_number item = number then Some item else searchlist rest number)"

record service_names =
  tcp_name :: "net_service list"
  udp_name :: "net_service list"
  raw_name :: "net_service list"

definition service_names_empty :: service_names where
  "service_names_empty = \<lparr>tcp_name = [], udp_name = [], raw_name = []\<rparr>"

text \<open>An entry of /etc/services is a name, a port in network order and a protocol; one of /etc/protocols a name
  and a number.\<close>

definition add_service :: "string \<times> 16 word \<times> string \<Rightarrow> service_names \<Rightarrow> service_names" where
  "add_service e ns =
     (let (n, port, proto) = e; item = \<lparr>sv_number = port, sv_name = n\<rparr>
      in if proto = ''tcp'' then ns\<lparr>tcp_name := add2list (tcp_name ns) item\<rparr>
         else if proto = ''udp'' then ns\<lparr>udp_name := add2list (udp_name ns) item\<rparr>
         else if proto = ''raw'' then ns\<lparr>raw_name := add2list (raw_name ns) item\<rparr>
         else ns)"

definition add_protocol :: "string \<times> 16 word \<Rightarrow> service_names \<Rightarrow> service_names" where
  "add_protocol e ns = ns\<lparr>raw_name := add2list (raw_name ns) \<lparr>sv_number = ntohs (snd e), sv_name = fst e\<rparr>\<rparr>"

definition read_services ::
  "(string \<times> 16 word \<times> string) list \<Rightarrow> (string \<times> 16 word) list \<Rightarrow> service_names \<Rightarrow> service_names" where
  "read_services services protocols ns = fold add_protocol protocols (fold add_service services ns)"

text \<open>\<open>None\<close> is the state before the lists were read. A name of 64 bytes or more runs over the buffer.\<close>

definition get_sname ::
  "(string \<times> 16 word \<times> string) list \<Rightarrow> (string \<times> 16 word) list \<Rightarrow> 16 word \<Rightarrow> string \<Rightarrow> bool \<Rightarrow>
     service_names option \<Rightarrow> (string \<times> service_names option) result" where
  "get_sname services protocols socknumber proto numeric st =
     (if socknumber = 0 then Inr (''*'', st)
      else if numeric then Inr (dec_of_nat (unat (ntohs socknumber)), st)
      else let ns = (case st of None \<Rightarrow> read_services services protocols service_names_empty | Some ns \<Rightarrow> ns);
               base = (if proto = ''tcp'' then tcp_name ns else if proto = ''udp'' then udp_name ns
                       else if proto = ''raw'' then raw_name ns else [])
           in case searchlist base socknumber of
                None \<Rightarrow> Inr (dec_of_nat (unat (ntohs socknumber)), Some ns)
              | Some item \<Rightarrow>
                  if 64 \<le> length (sv_name item) then Inl Out_Of_Bounds
                  else if sv_name item = [] then Inr (dec_of_nat (unat (ntohs socknumber)), Some ns)
                  else Inr (sv_name item, Some ns))"

section \<open>Other families\<close>

definition hex_digit :: "nat \<Rightarrow> char" where
  "hex_digit d = (if d < 10 then char_of (48 + d) else char_of (55 + d))"

text \<open>The sixteen bytes of a socket address, two digits each.\<close>

definition UNSPEC_print :: "8 word list \<Rightarrow> string result" where
  "UNSPEC_print bytes =
     (if length bytes < 16 then Inl Out_Of_Bounds
      else Inr (butlast (concat (map (\<lambda>b. [hex_digit (unat b div 16), hex_digit (unat b mod 16), CHR ''-'']) (take 16 bytes)))))"

text \<open>It is given \<open>sa_data\<close>, which has fourteen.\<close>

definition UNSPEC_sprint :: "16 word \<Rightarrow> 8 word list \<Rightarrow> string result" where
  "UNSPEC_sprint family sa_data =
     (if no_family family then safe_strncpy ''[NONE SET]'' 64 else UNSPEC_print sa_data)"

definition UNIX_sprint :: "16 word \<Rightarrow> string \<Rightarrow> string result" where
  "UNIX_sprint family path = (if no_family family then safe_strncpy ''[NONE SET]'' 64 else Inr path)"

record in6_db =
  inet_ntop6 :: "8 word list \<Rightarrow> string"
  inet_pton6 :: "string \<Rightarrow> (8 word list) option"
  getaddrinfo6 :: "string \<Rightarrow> (8 word list) option"
  getnameinfo6 :: "8 word list \<Rightarrow> string option"

definition inet6_family :: "16 word" where "inet6_family = 10"

definition v4_mapped :: "8 word list \<Rightarrow> bool" where
  "v4_mapped a \<longleftrightarrow> take 12 a = replicate 10 0 @ [0xff, 0xff]"

text \<open>The dotted part of a mapped address: from behind the last colon in front of the first dot.\<close>

definition fix_v4_address :: "string \<Rightarrow> 8 word list \<Rightarrow> string" where
  "fix_v4_address buf a =
     (if v4_mapped a
      then (case find_char CHR ''.'' buf of
              None \<Rightarrow> buf
            | Some i \<Rightarrow> (case rfind_char CHR '':'' (take i buf) of None \<Rightarrow> buf | Some j \<Rightarrow> drop (Suc j) buf))
      else buf)"

definition INET6_resolve :: "in6_db \<Rightarrow> string \<Rightarrow> int \<times> (8 word list) option" where
  "INET6_resolve D name = (case getaddrinfo6 D name of None \<Rightarrow> (- 1, None) | Some a \<Rightarrow> (0, Some a))"

definition INET6_rresolve :: "in6_db \<Rightarrow> 16 word \<Rightarrow> 8 word list \<Rightarrow> 32 word \<Rightarrow> string option" where
  "INET6_rresolve D family a numeric =
     (if family \<noteq> inet6_family then None
      else if numeric AND 0x7FFF \<noteq> 0 then Some (inet_ntop6 D a)
      else if a = replicate 16 0 then Some (if numeric AND 0x8000 \<noteq> 0 then ''default'' else ''[::]'')
      else getnameinfo6 D a)"

definition INET6_print :: "in6_db \<Rightarrow> 8 word list \<Rightarrow> string" where
  "INET6_print D a = fix_v4_address (inet_ntop6 D a) a"

definition INET6_sprint :: "in6_db \<Rightarrow> 16 word \<Rightarrow> 8 word list \<Rightarrow> 32 word \<Rightarrow> string result" where
  "INET6_sprint D family a numeric =
     (if no_family family then safe_strncpy ''[NONE SET]'' 128
      else case INET6_rresolve D family a numeric of
             None \<Rightarrow> safe_strncpy ''[UNKNOWN]'' 128
           | Some n \<Rightarrow> Inr (fix_v4_address n a))"

text \<open>The text is replaced by its dotted part.\<close>

definition INET6_getsock :: "in6_db \<Rightarrow> string \<Rightarrow> (8 word list \<times> string) option" where
  "INET6_getsock D s = (case inet_pton6 D s of None \<Rightarrow> None | Some a \<Rightarrow> Some (a, fix_v4_address s a))"

definition INET6_input :: "in6_db \<Rightarrow> nat \<Rightarrow> string \<Rightarrow> int \<times> (8 word list) option" where
  "INET6_input D kind s =
     (if kind = 1 then (case INET6_getsock D s of None \<Rightarrow> (- 1, None) | Some (a, t) \<Rightarrow> (16, Some a))
      else INET6_resolve D s)"

section \<open>Stores of computed values\<close>

text \<open>What a store of computed values promises: a lookup finds what was stored last. Then asking through the
  store gives the computed value, as long as everything in it was computed.\<close>

locale memo_store =
  fixes find :: "'m \<Rightarrow> 'k \<Rightarrow> 'v option"
    and store :: "'k \<Rightarrow> 'v \<Rightarrow> 'm \<Rightarrow> 'm"
    and nothing :: 'm
  assumes find_store: "find (store k v m) l = (if l = k then Some v else find m l)"
    and find_nothing: "find nothing k = None"
begin

definition holds :: "('k \<Rightarrow> 'v) \<Rightarrow> 'm \<Rightarrow> bool" where
  "holds compute m \<longleftrightarrow> (\<forall>k v. find m k = Some v \<longrightarrow> v = compute k)"

definition ask :: "('k \<Rightarrow> 'v) \<Rightarrow> 'k \<Rightarrow> 'm \<Rightarrow> 'v \<times> 'm" where
  "ask compute k m = (case find m k of Some v \<Rightarrow> (v, m) | None \<Rightarrow> (compute k, store k (compute k) m))"

lemma holds_nothing: "holds compute nothing"
  by (simp add: holds_def find_nothing)

lemma ask_exact: "holds compute m \<Longrightarrow> fst (ask compute k m) = compute k"
  by (auto simp: ask_def holds_def split: option.split)

lemma ask_holds: "holds compute m \<Longrightarrow> holds compute (snd (ask compute k m))"
  by (auto simp: ask_def holds_def find_store split: option.split)

end

definition cache_at :: "name_cache \<Rightarrow> in_addr \<times> bool \<Rightarrow> string option" where
  "cache_at cache k = cache_find (fst k) (snd k) cache"

definition cache_put :: "in_addr \<times> bool \<Rightarrow> string \<Rightarrow> name_cache \<Rightarrow> name_cache" where
  "cache_put k n cache = \<lparr>ne_addr = fst k, ne_host = snd k, ne_name = n\<rparr> # cache"

interpretation names_memo: memo_store cache_at cache_put "[]"
  by unfold_locales (auto simp: cache_at_def cache_put_def cache_find_def)

definition cut_name :: "name_db \<Rightarrow> nat \<Rightarrow> in_addr \<times> bool \<Rightarrow> string" where
  "cut_name D len k = take (len - 1) (database_name D (fst k) (snd k))"

lemma rresolve_memo:
  assumes "0 < len" "sin_family sin = inet_family" "\<not> (sin_addr sin = 0 \<and> numeric AND 0x0FFF = 0)" "numeric AND 0x0FFF = 0"
    and "names_memo.holds (cut_name D len) cache"
  shows "INET_rresolve D len sin numeric netmask cache =
    Inr (map_prod Some id (names_memo.ask (cut_name D len) (sin_addr sin, is_host (sin_addr sin) numeric netmask) cache))"
proof -
  have "take (len - 1) nm = nm" if "cache_find a h cache = Some nm" for a h nm
  proof -
    have "nm = take (len - 1) (database_name D a h)"
      using assms(5) that by (simp add: names_memo.holds_def cache_at_def cut_name_def)
    then show ?thesis by simp
  qed
  then show ?thesis using assms
    by (auto simp: INET_rresolve_def Let_def safe_strncpy_def names_memo.ask_def cache_at_def cache_put_def cut_name_def
        split: option.split)
qed

section \<open>Lookups\<close>

text \<open>A sequence of lookups through the cache, and the name each has without one.\<close>

type_synonym lookup = "sockaddr_in \<times> 32 word \<times> 32 word"

fun lookups :: "name_db \<Rightarrow> nat \<Rightarrow> lookup list \<Rightarrow> name_cache \<Rightarrow> (string option) list result" where
  "lookups D len [] cache = Inr []"
| "lookups D len ((sin, numeric, netmask) # qs) cache =
     bind_r (INET_rresolve D len sin numeric netmask cache)
       (\<lambda>(n, cache'). bind_r (lookups D len qs cache') (\<lambda>ns. Inr (n # ns)))"

definition plain_name :: "name_db \<Rightarrow> nat \<Rightarrow> lookup \<Rightarrow> string option" where
  "plain_name D len q =
     (let (sin, numeric, netmask) = q; ad = sin_addr sin
      in if sin_family sin \<noteq> inet_family then None
         else if ad = 0 \<and> numeric AND 0x0FFF = 0
         then Some (take (len - 1) (if numeric AND 0x8000 \<noteq> 0 then ''default'' else ''*''))
         else if numeric AND 0x0FFF \<noteq> 0 then Some (take (len - 1) (inet_ntoa ad))
         else Some (take (len - 1) (database_name D ad (is_host ad numeric netmask))))"

lemma rresolve_plain:
  assumes "0 < len" "names_memo.holds (cut_name D len) cache"
  shows "\<exists>cache'. INET_rresolve D len sin numeric netmask cache = Inr (plain_name D len (sin, numeric, netmask), cache') \<and>
    names_memo.holds (cut_name D len) cache'"
proof (cases "sin_family sin = inet_family \<and> \<not> (sin_addr sin = 0 \<and> numeric AND 0x0FFF = 0) \<and> numeric AND 0x0FFF = 0")
  case True
  let ?k = "(sin_addr sin, is_host (sin_addr sin) numeric netmask)"
  let ?a = "names_memo.ask (cut_name D len) ?k cache"
  have "INET_rresolve D len sin numeric netmask cache = Inr (Some (fst ?a), snd ?a)"
    by (subst rresolve_memo [OF assms(1) _ _ _ assms(2)]) (use True in \<open>auto simp: map_prod_def case_prod_beta\<close>)
  moreover have "plain_name D len (sin, numeric, netmask) = Some (fst ?a)"
  proof -
    have "fst ?a = cut_name D len ?k" by (rule names_memo.ask_exact [OF assms(2)])
    then show ?thesis using True by (auto simp: plain_name_def cut_name_def Let_def)
  qed
  ultimately show ?thesis using names_memo.ask_holds [OF assms(2)] by auto
next
  case False
  then show ?thesis using assms
    by (auto simp: INET_rresolve_def plain_name_def Let_def safe_strncpy_def)
qed

lemma lookups_plain:
  "0 < len \<Longrightarrow> names_memo.holds (cut_name D len) cache \<Longrightarrow> lookups D len qs cache = Inr (map (plain_name D len) qs)"
proof (induction qs arbitrary: cache)
  case (Cons q qs)
  obtain sin numeric netmask where q: "q = (sin, numeric, netmask)" by (cases q)
  obtain cache' where "INET_rresolve D len sin numeric netmask cache = Inr (plain_name D len q, cache')"
    "names_memo.holds (cut_name D len) cache'"
    using rresolve_plain [OF Cons.prems] q by blast
  then show ?case using Cons.IH Cons.prems(1) by (simp add: q)
qed simp

text \<open>C34: the cache of names is transparent: on a stable database every sequence of lookups into a buffer of one
  size, hosts and networks mixed, answers each as if there were no cache.\<close>

theorem cached_names_exact:
  "lookups D (Suc n) qs [] = Inr (map (plain_name D (Suc n)) qs)"
  by (rule lookups_plain) (simp_all add: names_memo.holds_nothing)

text \<open>With buffers of different sizes it is not: the name cut for the first is what the second gets.\<close>

definition sample_name_db :: name_db where
  "sample_name_db = \<lparr>inet_aton = Map.empty, gethostbyname = Map.empty, getnetbyname = Map.empty,
     gethostbyaddr = (\<lambda>a. Some ''gateway''), getnetbyaddr = Map.empty\<rparr>"

lemma short_buffer_shortens:
  "bind_r (INET_rresolve sample_name_db 5 \<lparr>sin_family = inet_family, sin_addr = 1\<rparr> 0x4000 0 [])
     (\<lambda>(n, cache). INET_rresolve sample_name_db 128 \<lparr>sin_family = inet_family, sin_addr = 1\<rparr> 0x4000 0 cache) =
   Inr (Some ''gate'', [\<lparr>ne_addr = 1, ne_host = True, ne_name = ''gate''\<rparr>])"
  by (simp add: INET_rresolve_def inet_family_def is_host_def cache_find_def database_name_def sample_name_db_def
      safe_strncpy_def)

section \<open>Hexadecimal addresses\<close>

definition hex_text :: "8 word \<Rightarrow> string" where
  "hex_text b = [hex_digit (unat b div 16), hex_digit (unat b mod 16)]"

lemma hex_value_digit: "d < 16 \<Longrightarrow> hex_value (hex_digit d) = Some (of_nat d)"
proof -
  have "list_all (\<lambda>d. hex_value (hex_digit d) = Some (of_nat d)) [0..<16]"
    by (simp add: upt_rec hex_value_def hex_digit_def toupper_def Let_def)
  then show "d < 16 \<Longrightarrow> hex_value (hex_digit d) = Some (of_nat d)" by (simp add: list_all_iff)
qed

lemma nibbles: "push_bit 4 (of_nat (unat b div 16)) OR of_nat (unat b mod 16) = (b :: 8 word)"
proof -
  have d: "unat (b div 16) = unat b div 16" "unat (b mod 16) = unat b mod 16"
    by (simp_all add: unat_div unat_mod)
  have "of_nat (unat b div 16) = b div 16" "of_nat (unat b mod 16) = b mod 16"
    by (simp_all flip: d)
  moreover have "b div 16 = drop_bit 4 b" "b mod 16 = take_bit 4 b"
    by (simp_all add: drop_bit_eq_div take_bit_eq_mod)
  ultimately have "of_nat (unat b div 16) = drop_bit 4 b" "of_nat (unat b mod 16) = take_bit 4 b" by simp_all
  moreover have "push_bit 4 (drop_bit 4 b) OR take_bit 4 b = b"
    by (rule bit_word_eqI) (auto simp: bit_simps)
  ultimately show ?thesis by simp
qed

lemma hex_byte_text: "hex_byte (hex_text b @ s) = Some (b, s)"
proof -
  have "unat b < 256" using unsigned_less [of b] by simp
  then show ?thesis by (simp add: hex_text_def hex_value_digit nibbles less_mult_imp_div_less)
qed

lemma hex_bytes_text: "hex_bytes (length bs) (concat (map hex_text bs) @ s) = Some bs"
  by (induction bs) (simp_all add: hex_byte_text)

lemma octet_of_octets:
  "octet (of_octets a b c d) 0 = a" "octet (of_octets a b c d) 1 = b"
  "octet (of_octets a b c d) 2 = c" "octet (of_octets a b c d) 3 = d"
  by (rule bit_word_eqI; auto simp: octet_def of_octets_def bit_simps dest: bit_imp_le_length)+

lemmas octets = octet_of_octets octet_of_octets(2) [unfolded One_nat_def]

lemma of_octets_octet: "of_octets (octet a 0) (octet a 1) (octet a 2) (octet a 3) = a"
proof (rule bit_word_eqI)
  fix n assume "n < LENGTH(32)"
  then have "n < 8 \<or> 8 \<le> n \<and> n < 16 \<or> 16 \<le> n \<and> n < 24 \<or> 24 \<le> n \<and> n < 32" by auto
  then show "bit (of_octets (octet a 0) (octet a 1) (octet a 2) (octet a 3)) n = bit a n"
    by (auto simp: octet_def of_octets_def bit_simps)
qed

lemma htonl_octets: "htonl (of_octets a b c d) = of_octets d c b a"
  by (simp add: htonl_def octets)

text \<open>An address that the kernel prints as eight hexadecimal digits, the last byte of the address
  first, is read back by \<open>INET_getsock\<close>, whatever follows the digits.\<close>

lemma hex_address_roundtrip:
  "INET_getsock (concat (map hex_text [octet a 3, octet a 2, octet a 1, octet a 0]) @ s) =
     Some (8, \<lparr>sin_family = inet_family, sin_addr = a\<rparr>)"
proof -
  have "hex_bytes 4 (concat (map hex_text [octet a 3, octet a 2, octet a 1, octet a 0]) @ s) =
      Some [octet a 3, octet a 2, octet a 1, octet a 0]"
    using hex_bytes_text [of "[octet a 3, octet a 2, octet a 1, octet a 0]" s] by (simp add: eval_nat_numeral)
  then show ?thesis by (simp add: INET_getsock_def htonl_octets of_octets_octet [unfolded One_nat_def])
qed

section \<open>Service names\<close>

lemma searchlist_find: "searchlist base k = find (\<lambda>i. sv_number i = k) base"
  by (induction base) auto

text \<open>The last entry of the file wins, and for the protocols over the services.\<close>

lemma tcp_services:
  "tcp_name (fold add_service es ns) =
     rev (map (\<lambda>(n, port, proto). \<lparr>sv_number = port, sv_name = n\<rparr>) (filter (\<lambda>(n, port, proto). proto = ''tcp'') es)) @ tcp_name ns"
  by (induction es arbitrary: ns) (auto simp: add_service_def add2list_def Let_def)

lemma protocols_keep: "tcp_name (fold add_protocol es ns) = tcp_name ns"
  by (induction es arbitrary: ns) (auto simp: add_protocol_def)

text \<open>An address of no family prints as such; any other runs over the fourteen bytes it is given.\<close>

lemma unspec_overrun: "length sa_data = 14 \<Longrightarrow> \<not> no_family f \<Longrightarrow> UNSPEC_sprint f sa_data = Inl Out_Of_Bounds"
  by (simp add: UNSPEC_sprint_def UNSPEC_print_def)

text \<open>A full mask shifts by the width of the word.\<close>

lemma host_mask_undefined:
  "strtoul ''32'' = (32, []) \<Longrightarrow> INET_getnetmask strtoul ''10.0.0.1/32'' = Inl Out_Of_Range"
  by (simp add: INET_getnetmask_def)

end
