(* ===== verification/Ipv6_Routes.thy ===== *)
theory Ipv6_Routes
  imports Net_Address
begin

text \<open>
  Address families and IPv6 routes: app/source/source/host/collector/network/af.cc with af.h, and
  app/include/source/host/collector/network/inet6_gr.h (printing the kernel's tables) and inet6_sr.h (asking for
  a route to be added or deleted). Files are their contents, what is logged is a list of lines, without
  the headings of the tables, and the kernel and the conversions of addresses are arguments. The variables of a scan keep what an earlier line left in
  them: \<open>sscanf\<close> fills a prefix, and reading behind what was ever filled is \<open>Uninitialised_Read\<close>.
\<close>

section \<open>Families\<close>

record family =
  af_name :: string
  af_title :: "string option"
  af_number :: int
  af_alen :: nat

definition family_table :: "family list" where
  "family_table =
     [\<lparr>af_name = ''unix'', af_title = None, af_number = 1, af_alen = 0\<rparr>,
      \<lparr>af_name = ''inet'', af_title = None, af_number = 2, af_alen = 8\<rparr>,
      \<lparr>af_name = ''inet6'', af_title = None, af_number = 10, af_alen = 16\<rparr>,
      \<lparr>af_name = ''unspec'', af_title = None, af_number = 0, af_alen = 0\<rparr>]"

definition family_title :: "int \<Rightarrow> string" where
  "family_title af =
     (if af = 0 then ''UNSPEC'' else if af = 1 then ''UNIX Domain'' else if af = 2 then ''DARPA Internet'' else ''IPv6'')"

definition afinit :: "family list \<Rightarrow> family list" where
  "afinit table = map (\<lambda>a. a\<lparr>af_title := Some (family_title (af_number a))\<rparr>) table"

text \<open>The table, with the flag that says whether its titles are set, and the family found.\<close>

definition get_afntype :: "int \<Rightarrow> bool \<times> family list \<Rightarrow> family option \<times> bool \<times> family list" where
  "get_afntype af s =
     (let table = (if fst s then snd s else afinit (snd s))
      in (find (\<lambda>a. af_number a = af) table, True, table))"

section \<open>Scanning\<close>

datatype route_field = Group nat | Hex "nat option" | Name

definition is_hex :: "char \<Rightarrow> bool" where
  "is_hex c \<longleftrightarrow> is_digit c \<or> 97 \<le> (of_char c :: nat) \<and> (of_char c :: nat) \<le> 102 \<or> 65 \<le> (of_char c :: nat) \<and> (of_char c :: nat) \<le> 70"

definition hex_digit_value :: "char \<Rightarrow> nat" where
  "hex_digit_value c =
     (if is_digit c then digit_val c else if 97 \<le> (of_char c :: nat) then of_char c - 87 else of_char c - 55)"

text \<open>\<open>%x\<close> within a width: a sign, the prefix and digits.\<close>

definition scan_hex_width :: "nat option \<Rightarrow> string \<Rightarrow> (64 word \<times> string) option" where
  "scan_hex_width width s =
     (let t = dropWhile is_space s;
          u = (case width of None \<Rightarrow> t | Some n \<Rightarrow> take n t);
          neg = starts_with ''-'' u;
          v = (if neg \<or> starts_with ''+'' u then drop 1 u else u);
          w = (if starts_with ''0x'' v \<or> starts_with ''0X'' v then drop 2 v else v);
          ds = takeWhile is_hex w;
          n = foldl (\<lambda>n c. 16 * n + hex_digit_value c) 0 ds
      in if ds = [] then None
         else Some (if ulong_max < n then of_nat ulong_max else if neg then - of_nat n else of_nat n,
                    drop (length u - (length w - length ds)) t))"

fun scan_route :: "route_field list \<Rightarrow> string \<Rightarrow> scanned list" where
  "scan_route [] s = []"
| "scan_route (Group n # fs) s =
     (case scan_one (Sc_Word (Some n)) s of None \<Rightarrow> [] | Some (vs, r) \<Rightarrow> vs @ scan_route fs r)"
| "scan_route (Hex width # fs) s =
     (case scan_hex_width width s of None \<Rightarrow> [] | Some (v, r) \<Rightarrow> Number v # scan_route fs r)"
| "scan_route (Name # fs) s =
     (case scan_one (Sc_Word None) s of None \<Rightarrow> [] | Some (vs, r) \<Rightarrow> vs @ scan_route fs r)"

lemma length_scan_route: "length (scan_route fs s) \<le> length fs"
proof (induction fs s rule: scan_route.induct)
  case (2 n fs s)
  then show ?case by (fastforce simp: Let_def split: option.splits if_splits)
next
  case (4 fs s)
  then show ?case by (fastforce simp: Let_def split: option.splits if_splits)
qed (auto split: option.splits)

definition keep_old :: "scanned list \<Rightarrow> scanned list \<Rightarrow> scanned list" where
  "keep_old new old = new @ drop (length new) old"

definition var_at :: "nat \<Rightarrow> scanned list \<Rightarrow> scanned result" where
  "var_at i vars = (if i < length vars then Inr (vars ! i) else Inl Uninitialised_Read)"

definition int_at :: "nat \<Rightarrow> scanned list \<Rightarrow> (32 word) result" where
  "int_at i vars = bind_r (var_at i vars) (\<lambda>v. Inr (ucast (number_of v)))"

definition long_at :: "nat \<Rightarrow> scanned list \<Rightarrow> (64 word) result" where
  "long_at i vars = bind_r (var_at i vars) (\<lambda>v. Inr (number_of v))"

definition text_at :: "nat \<Rightarrow> scanned list \<Rightarrow> string result" where
  "text_at i vars = bind_r (var_at i vars) (\<lambda>v. Inr (text_of v))"

text \<open>Groups joined by colons.\<close>

fun joined :: "string list \<Rightarrow> string" where
  "joined [] = []"
| "joined [s] = s"
| "joined (s # ss) = s @ CHR '':'' # joined ss"

definition groups_at :: "nat \<Rightarrow> nat \<Rightarrow> scanned list \<Rightarrow> string result" where
  "groups_at i n vars = bind_r (map_r (\<lambda>k. text_at k vars) [i..<i + n]) (\<lambda>gs. Inr (joined gs))"

text \<open>\<open>input\<close> on a socket address that keeps its bytes when the text is none, and \<open>sprint\<close>.\<close>

definition input_over :: "in6_db \<Rightarrow> string \<Rightarrow> (8 word list) option \<Rightarrow> (8 word list) option" where
  "input_over D text old = (case INET6_input D 1 text of (rc, None) \<Rightarrow> old | (rc, Some a) \<Rightarrow> Some a)"

definition sprint_of :: "in6_db \<Rightarrow> (8 word list) option \<Rightarrow> 32 word \<Rightarrow> string result" where
  "sprint_of D a numeric = (case a of None \<Rightarrow> Inl Uninitialised_Read | Some b \<Rightarrow> INET6_sprint D inet6_family b numeric)"

section \<open>The routing table\<close>

definition RTF_CACHE :: "32 word" where "RTF_CACHE = 0x1000000"

definition letters :: "(32 word \<times> char) list \<Rightarrow> 32 word \<Rightarrow> string" where
  "letters table fl = map snd (filter (\<lambda>(bit, c). fl AND bit \<noteq> 0) table)"

definition route_letters :: "(32 word \<times> char) list" where
  "route_letters =
     [(0x1, CHR ''U''), (0x200, CHR ''!''), (0x2, CHR ''G''), (0x4, CHR ''H''), (0x10000, CHR ''D''), (0x40000, CHR ''A''),
      (0x1000000, CHR ''C''), (0x20000, CHR ''a''), (0x400000, CHR ''e''), (0x20, CHR ''m''), (0x200000, CHR ''n''),
      (0x2000000, CHR ''f'')]"

definition fib6_fields :: "route_field list" where
  "fib6_fields =
     replicate 8 (Group 4) @ [Hex (Some 2)] @ replicate 8 (Group 4) @ [Hex (Some 2)] @ replicate 8 (Group 4) @
     replicate 4 (Hex (Some 8)) @ [Name]"

record route_vars =
  rv_scanned :: "scanned list"
  rv_addr :: "(8 word list) option"
  rv_hop :: "(8 word list) option"

text \<open>The placeholders of the log line take six of the seven values; what follows each is text.\<close>

definition route_row :: "string \<Rightarrow> string \<Rightarrow> string \<Rightarrow> int \<Rightarrow> int \<Rightarrow> int \<Rightarrow> string" where
  "route_row addr6 naddr6 fl metric refcnt use =
     addr6 @ ''-30s '' @ naddr6 @ ''-26s '' @ fl @ ''-4s '' @ dec_of_int metric @ ''-3d '' @ dec_of_int refcnt @
     ''-1d'' @ dec_of_int use @ '' %s'' @ [CHR 0x0A]"

definition print_route :: "in6_db \<Rightarrow> route_vars \<Rightarrow> (route_vars \<times> string) result" where
  "print_route D v =
     (let vars = rv_scanned v in
      bind_r (groups_at 0 8 vars) (\<lambda>dst.
      bind_r (int_at 8 vars) (\<lambda>prefix_len.
      let addr = input_over D (take 127 dst) (rv_addr v) in
      bind_r (sprint_of D addr 1) (\<lambda>dst_text.
      bind_r (groups_at 18 8 vars) (\<lambda>hop.
      let naddr = input_over D (take 127 hop) (rv_hop v) in
      bind_r (sprint_of D naddr 1) (\<lambda>hop_text.
      bind_r (int_at 26 vars) (\<lambda>metric. bind_r (int_at 27 vars) (\<lambda>refcnt. bind_r (int_at 28 vars) (\<lambda>use.
      bind_r (int_at 29 vars) (\<lambda>iflags. bind_r (text_at 30 vars) (\<lambda>iface.
        Inr (v\<lparr>rv_addr := addr, rv_hop := naddr\<rparr>,
             route_row (take 127 (dst_text @ CHR ''/'' # dec_of_int (sint prefix_len))) (take 127 hop_text)
               (letters route_letters iflags) (sint metric) (sint refcnt) (sint use)))))))))))))"

text \<open>A line: the count \<open>sscanf\<close> returns is not looked at. The name of the interface goes into sixteen bytes.\<close>

definition fib6_line :: "in6_db \<Rightarrow> 32 word \<Rightarrow> string \<Rightarrow> route_vars \<times> string list \<Rightarrow> (route_vars \<times> string list) result" where
  "fib6_line D numeric buff s =
     (let new = scan_route fib6_fields buff;
          v = (fst s)\<lparr>rv_scanned := keep_old new (rv_scanned (fst s))\<rparr>
      in if length new = 31 \<and> 15 < length (text_of (new ! 30)) then Inl Out_Of_Bounds
         else bind_r (int_at 29 (rv_scanned v)) (\<lambda>iflags.
           if (iflags AND RTF_CACHE \<noteq> 0) \<noteq> (numeric AND RTF_CACHE \<noteq> 0) then Inr (v, snd s)
           else bind_r (print_route D v) (\<lambda>(v', row). Inr (v', snd s @ [row]))))"

definition route_vars_new :: route_vars where
  "route_vars_new = \<lparr>rv_scanned = [], rv_addr = None, rv_hop = None\<rparr>"

definition rprint_fib6 :: "in6_db \<Rightarrow> string option \<Rightarrow> 32 word \<Rightarrow> (int \<times> string list) result" where
  "rprint_fib6 D route6 numeric =
     (case route6 of
        None \<Rightarrow> Inr (1, [])
      | Some content \<Rightarrow>
          bind_r (fold_r (fib6_line D numeric) (fgets_lines 1023 content) (route_vars_new, [])) (\<lambda>(v, rows). Inr (0, rows)))"

section \<open>The neighbour cache\<close>

definition ndisc_fields :: "route_field list" where
  "ndisc_fields =
     replicate 8 (Group 4) @ replicate 4 (Hex (Some 2)) @ replicate 3 (Hex (Some 8)) @ replicate 3 (Hex (Some 4)) @
     [Group 8] @ replicate 6 (Group 2)"

definition neighbour_letters :: "(32 word \<times> char) list" where
  "neighbour_letters = [(0x80, CHR ''R''), (0x4, CHR ''x''), (0x2, CHR ''h''), (0x8, CHR ''P'')]"

definition state_text :: "32 word \<Rightarrow> string" where
  "state_text state =
     (if state = 0 then ''NONE'' else if state = 0x01 then ''INCOMPLETE'' else if state = 0x02 then ''REACHABLE''
      else if state = 0x04 then ''STALE'' else if state = 0x08 then ''DELAY'' else if state = 0x10 then ''PROBE''
      else if state = 0x20 then ''FAILED'' else if state = 0x40 then ''NOARP'' else if state = 0x80 then ''PERM''
      else take 19 (''UNKNOWN('' @ zero_padded 2 (hex_of_nat (unat state)) @ '')''))"

definition NUD_REACHABLE :: "32 word" where "NUD_REACHABLE = 0x02"

definition HZ :: int where "HZ = 100"

definition age_of :: "int \<Rightarrow> int \<Rightarrow> int" where
  "age_of t tstamp = (if tstamp < t then t - tstamp else 0)"

text \<open>The columns of a neighbour, and the two of its ages unless \<open>ext\<close> is 2.\<close>

definition print_neighbour :: "in6_db \<Rightarrow> 32 word \<Rightarrow> 32 word \<Rightarrow> route_vars \<Rightarrow> (route_vars \<times> string list) result" where
  "print_neighbour D ext numeric v =
     (let vars = rv_scanned v in
      bind_r (groups_at 0 8 vars) (\<lambda>dst.
      let addr = input_over D (take 127 dst) (rv_addr v) in
      bind_r (sprint_of D addr numeric) (\<lambda>dst_text.
      bind_r (int_at 9 vars) (\<lambda>prefix_len. bind_r (groups_at 19 6 vars) (\<lambda>haddr.
      bind_r (long_at 17 vars) (\<lambda>ndflags. bind_r (int_at 11 vars) (\<lambda>state.
      bind_r (text_at 18 vars) (\<lambda>iface. bind_r (int_at 16 vars) (\<lambda>refcnt.
      bind_r (long_at 13 vars) (\<lambda>tstamp. bind_r (long_at 14 vars) (\<lambda>reachable. bind_r (int_at 15 vars) (\<lambda>gc.
      let row = take 127 (dst_text @ CHR ''/'' # dec_of_int (sint prefix_len)) @ ''-43s '' @ take 19 haddr @ ''-17s '' @
                iface @ ''-8s '' @ letters neighbour_letters (ucast ndflags) @ ''-5s '' @ dec_of_int (sint refcnt) @ ''-3d '' @
                state_text state @ ''-16s'';
          stale = (if state = NUD_REACHABLE then age_of (sint reachable) (sint tstamp) else 0);
          delete1 = age_of (sint gc) (sint tstamp);
          ages = (if ext \<noteq> 2
                  then [CHR '' '' # dec_of_int (stale div HZ) @ ''-9ld '',
                        if refcnt \<noteq> 0 then '' * '' else dec_of_int (delete1 div HZ) @ ''-7ld '']
                  else [])
      in Inr (v\<lparr>rv_addr := addr\<rparr>, row # ages)))))))))))))"

definition ndisc_line ::
  "in6_db \<Rightarrow> 32 word \<Rightarrow> 32 word \<Rightarrow> string \<Rightarrow> route_vars \<times> string list \<Rightarrow> (route_vars \<times> string list) result" where
  "ndisc_line D ext numeric buff s =
     bind_r (print_neighbour D ext numeric
               ((fst s)\<lparr>rv_scanned := keep_old (scan_route ndisc_fields buff) (rv_scanned (fst s))\<rparr>))
       (\<lambda>(v, rows). Inr (v, snd s @ rows))"

definition rprint_cache6 :: "in6_db \<Rightarrow> string option \<Rightarrow> string option \<Rightarrow> 32 word \<Rightarrow> 32 word \<Rightarrow> (int \<times> string list) result" where
  "rprint_cache6 D route6 ndisc ext numeric =
     (case ndisc of
        None \<Rightarrow> rprint_fib6 D route6 (numeric OR RTF_CACHE)
      | Some content \<Rightarrow>
          bind_r (fold_r (ndisc_line D ext numeric) (fgets_lines 1023 content) (route_vars_new, [])) (\<lambda>(v, rows). Inr (0, rows)))"

definition INET6_rprint :: "in6_db \<Rightarrow> string option \<Rightarrow> string option \<Rightarrow> 32 word \<Rightarrow> (int \<times> string list) result" where
  "INET6_rprint D route6 ndisc options =
     (let ext = options AND 3;
          numeric = options AND 36
      in bind_r (if options AND 128 \<noteq> 0 then rprint_fib6 D route6 numeric else Inr (2, [])) (\<lambda>(rc, rows).
           if options AND 128 \<noteq> 0 \<and> rc \<noteq> 0 then Inr (rc, rows)
           else if options AND 64 \<noteq> 0
           then bind_r (rprint_cache6 D route6 ndisc ext numeric) (\<lambda>(rc', rows'). Inr (rc', rows @ rows'))
           else Inr (rc, rows)))"

section \<open>Setting a route\<close>

record in6_rtmsg =
  rtmsg_dst :: "8 word list"
  rtmsg_gateway :: "8 word list"
  rtmsg_dst_len :: "16 word"
  rtmsg_metric :: "32 word"
  rtmsg_flags :: "32 word"
  rtmsg_ifindex :: int

text \<open>The kernel: whether a socket can be made, the index of an interface and whether it takes a request.\<close>

record route_env =
  route_db :: in6_db
  route_socket :: bool
  if_index :: "string \<Rightarrow> int option"
  route_told :: "bool \<Rightarrow> in6_rtmsg \<Rightarrow> bool"

text \<open>The target and the length of its prefix, of which the check of the range has no effect.\<close>

definition parse_target :: "route_env \<Rightarrow> string \<Rightarrow> ((8 word list \<times> int) option) result" where
  "parse_target E arg =
     (if 128 \<le> length arg then Inl Out_Of_Bounds
      else if arg = ''default'' then Inr (Some (replicate 16 0, 0))
      else let (target, prefix_len) = (case find_char (CHR ''/'') arg of
                 None \<Rightarrow> (arg, 128)
               | Some i \<Rightarrow> (take i arg, atoi (drop (i + 1) arg)))
        in case INET6_input (route_db E) 1 target of
             (_, Some a) \<Rightarrow> Inr (Some (a, prefix_len))
           | (_, None) \<Rightarrow>
               (case INET6_input (route_db E) 0 target of
                  (_, Some a) \<Rightarrow> Inr (Some (a, prefix_len))
                | (_, None) \<Rightarrow> Inr None))"

text \<open>The request of a target before its options.\<close>

definition route_start :: "8 word list \<times> int \<Rightarrow> in6_rtmsg" where
  "route_start tp =
     \<lparr>rtmsg_dst = fst tp, rtmsg_gateway = replicate 16 0, rtmsg_dst_len = word_of_int (snd tp), rtmsg_metric = 1,
      rtmsg_flags = (if snd tp = 128 then 0x5 else 0x1), rtmsg_ifindex = 0\<rparr>"

text \<open>\<open>!strcmp(a, b)\<close>.\<close>

definition same :: "string \<Rightarrow> string \<Rightarrow> bool" where
  "same a b \<longleftrightarrow> a = b"

text \<open>The options: an error code, or the request and the name of the interface.\<close>

fun route_options ::
  "route_env \<Rightarrow> string list \<Rightarrow> in6_rtmsg \<Rightarrow> string option \<Rightarrow> (int + in6_rtmsg \<times> string option) result" where
  "route_options E [] rt dev = Inr (Inr (rt, dev))"
| "route_options E (a # as) rt dev =
     (if same a ''metric''
      then (case as of
              [] \<Rightarrow> Inr (Inl 4)
            | m # rest \<Rightarrow>
                if m = [] \<or> \<not> is_digit (hd m) then Inr (Inl 4)
                else route_options E rest (rt\<lparr>rtmsg_metric := word_of_int (atoi m)\<rparr>) dev)
      else if same a ''gw'' \<or> same a ''gateway''
      then (case as of
              [] \<Rightarrow> Inr (Inl 4)
            | g # rest \<Rightarrow>
                if rtmsg_flags rt AND 0x2 \<noteq> 0 then Inr (Inl 4)
                else if 128 \<le> length g then Inl Out_Of_Bounds
                else case INET6_input (route_db E) 1 g of
                       (_, None) \<Rightarrow> Inr (Inl 6)
                     | (_, Some b) \<Rightarrow>
                         route_options E rest (rt\<lparr>rtmsg_gateway := b, rtmsg_flags := rtmsg_flags rt OR 0x2\<rparr>) dev)
      else if same a ''mod'' then route_options E as (rt\<lparr>rtmsg_flags := rtmsg_flags rt OR 0x20\<rparr>) dev
      else if same a ''dyn'' then route_options E as (rt\<lparr>rtmsg_flags := rtmsg_flags rt OR 0x10\<rparr>) dev
      else if same a ''device'' \<or> same a ''dev''
      then (case as of [] \<Rightarrow> Inr (Inl 4) | d # rest \<Rightarrow> route_options E rest rt (Some d))
      else if as \<noteq> [] then Inr (Inl 4)
      else Inr (Inr (rt, Some a)))"

text \<open>The code returned, the request the kernel was told and whether the socket is left open.\<close>

definition tell_route :: "route_env \<Rightarrow> bool \<Rightarrow> in6_rtmsg \<Rightarrow> string option \<Rightarrow> (int \<times> in6_rtmsg option \<times> bool) result" where
  "tell_route E del rt dev =
     (if \<not> route_socket E then Inr (7, None, False)
      else case dev of
        None \<Rightarrow> (let r = rt\<lparr>rtmsg_ifindex := 0\<rparr> in Inr (if route_told E del r then 0 else 7, Some r, False))
      | Some name \<Rightarrow>
          if 16 \<le> length name then Inl Out_Of_Bounds
          else case if_index E name of
                 None \<Rightarrow> Inr (7, None, True)
               | Some i \<Rightarrow>
                   (let r = rt\<lparr>rtmsg_ifindex := i\<rparr> in Inr (if route_told E del r then 0 else 7, Some r, False)))"

definition INET6_setroute :: "route_env \<Rightarrow> int \<Rightarrow> string list \<Rightarrow> (int \<times> in6_rtmsg option \<times> bool) result" where
  "INET6_setroute E action args =
     (case args of
        [] \<Rightarrow> Inr (4, None, False)
      | t # opts \<Rightarrow>
          bind_r (parse_target E t) (\<lambda>target.
            case target of
              None \<Rightarrow> Inr (1, None, False)
            | Some tp \<Rightarrow>
                bind_r (route_options E opts (route_start tp) None) (\<lambda>r.
                  case r of
                    Inl code \<Rightarrow> Inr (code, None, False)
                  | Inr (rt, dev) \<Rightarrow> tell_route E (action = 2) rt dev)))"

definition INET6_rinput :: "route_env \<Rightarrow> int \<Rightarrow> string list \<Rightarrow> (int \<times> in6_rtmsg option \<times> bool) result" where
  "INET6_rinput E action args =
     (if action = 4 then Inr (4, None, False)
      else if args = [] \<or> action = 3 then Inr (4, None, False)
      else INET6_setroute E action args)"

section \<open>Lemmas\<close>

text \<open>Families are found by number, the titles are set once.\<close>

lemma family_found:
  "get_afntype 10 (False, family_table) = (Some \<lparr>af_name = ''inet6'', af_title = Some ''IPv6'', af_number = 10, af_alen = 16\<rparr>, True, afinit family_table)"
  by (simp add: get_afntype_def afinit_def family_table_def family_title_def)

lemma family_table_stable: "snd (get_afntype a (True, t)) = (True, t)"
  by (simp add: get_afntype_def)

text \<open>The letters fit into the sixteen bytes of \<open>flags\<close>.\<close>

lemma letters_length: "length (letters table fl) \<le> length table"
  by (simp add: letters_def)

lemma route_letters_fit: "length (letters route_letters fl) < 16"
  using letters_length [of route_letters fl] by (simp add: route_letters_def)

text \<open>A line with nothing in it prints the route of the line before once more.\<close>

lemma blank_line_repeats:
  assumes "scan_route fib6_fields buff = []" "length (rv_scanned v) = 31"
    and "(number_of (rv_scanned v ! 29) :: 64 word) = ucast fl" "fl AND RTF_CACHE = 0" "numeric AND RTF_CACHE = 0"
    and "print_route D v = Inr (v', row)"
  shows "fib6_line D numeric buff (v, rows) = Inr (v', rows @ [row])"
proof -
  have "ucast (ucast (fl :: 32 word) :: 64 word) = fl" by (simp add: ucast_up_ucast_id is_up)
  then show ?thesis
    using assms by (simp add: fib6_line_def keep_old_def int_at_def var_at_def)
qed

text \<open>A first line that is short is read all the same.\<close>

lemma short_first_line:
  "length (scan_route fib6_fields buff) < 30 \<Longrightarrow> fib6_line D numeric buff (route_vars_new, []) = Inl Uninitialised_Read"
  by (simp add: fib6_line_def keep_old_def route_vars_new_def int_at_def var_at_def Let_def)

text \<open>A prefix out of range goes to the kernel, cut to sixteen bits.\<close>

lemma prefix_not_checked:
  assumes "inet_pton6 (route_db E) ''fe80::'' = Some a" "route_socket E"
  shows "INET6_setroute E 1 [''fe80::/999''] =
           Inr (if route_told E False ((route_start (a, 999))) then 0 else 7, Some (route_start (a, 999)), False)"
proof -
  have "find_char (CHR ''/'') ''fe80::/999'' = Some 6" by simp
  moreover have "atoi ''999'' = 999" by (simp add: atoi_def strtol_def scan_int_def is_digit_def is_space_def
        nat_of_digits_def digit_val_def clamp_long_def long_max_def long_min_def Let_def)
  moreover have "(route_start (a, 999))\<lparr>rtmsg_ifindex := 0\<rparr> = route_start (a, 999)" by (simp add: route_start_def)
  ultimately show ?thesis
    using assms by (simp add: INET6_setroute_def parse_target_def INET6_input_def INET6_getsock_def tell_route_def Let_def)
qed

text \<open>The socket stays open when the interface is unknown.\<close>

lemma socket_left_open:
  "route_socket E \<Longrightarrow> length name < 16 \<Longrightarrow> if_index E name = None \<Longrightarrow> tell_route E del rt (Some name) = Inr (7, None, True)"
  by (simp add: tell_route_def)

section \<open>A line of the kernel\<close>

definition solid :: "string \<Rightarrow> bool" where
  "solid s \<longleftrightarrow> s \<noteq> [] \<and> (\<forall>c\<in>set s. \<not> is_space c)"

lemma skip_to_solid: "blanks b \<Longrightarrow> solid s \<Longrightarrow> dropWhile is_space (b @ s @ rest) = s @ rest"
  by (rule dropWhile_blanks) (auto simp: solid_def hd_append)

lemma scan_group:
  assumes "blanks b" "solid g"
  shows "scan_route (Group (length g) # fs) (b @ g @ rest) = Text g # scan_route fs rest"
proof -
  have "takeWhile (\<lambda>x. \<not> is_space x) (g @ rest) = g @ takeWhile (\<lambda>x. \<not> is_space x) rest"
    using assms(2) by (intro takeWhile_append2) (simp add: solid_def)
  moreover have "g \<noteq> []" using assms(2) by (simp add: solid_def)
  ultimately show ?thesis by (simp add: skip_to_solid [OF assms] Let_def)
qed

lemma scan_groups:
  assumes "blanks b" "\<forall>g\<in>set gs. solid g \<and> length g = k" "gs \<noteq> [] \<or> b = []"
  shows "scan_route (replicate (length gs) (Group k) @ fs) (b @ concat gs @ rest) = map Text gs @ scan_route fs rest"
  using assms
proof (induction gs arbitrary: b)
  case (Cons g gs)
  have "scan_route (replicate (length gs) (Group k) @ fs) ([] @ concat gs @ rest) = map Text gs @ scan_route fs rest"
    by (rule Cons.IH) (use Cons.prems in \<open>auto simp: blanks_def\<close>)
  then show ?case
    using scan_group [OF Cons.prems(1), of g "replicate (length gs) (Group k) @ fs" "concat gs @ rest"] Cons.prems(2)
    by (simp del: scan_route.simps)
qed simp

lemma scan_name:
  assumes "blanks b" "solid g" "rest = [] \<or> is_space (hd rest)"
  shows "scan_route [Name] (b @ g @ rest) = [Text g]"
proof -
  have "takeWhile (\<lambda>x. \<not> is_space x) (g @ rest) = g"
    using assms(2,3) by (cases rest) (auto simp: solid_def takeWhile_append2)
  then show ?thesis using assms(2) by (simp add: skip_to_solid [OF assms(1,2)] solid_def Let_def)
qed

definition hex_number :: "string \<Rightarrow> nat" where
  "hex_number ds = foldl (\<lambda>n c. 16 * n + hex_digit_value c) 0 ds"

lemma hex_digit_small: "is_hex c \<Longrightarrow> hex_digit_value c < 16 \<and> \<not> is_space c"
  by (auto simp: is_hex_def hex_digit_value_def is_digit_def digit_val_def is_space_def)

lemma hex_number_bound: "\<forall>c\<in>set ds. is_hex c \<Longrightarrow> hex_number ds < 16 ^ length ds"
proof (induction ds rule: rev_induct)
  case (snoc d ds)
  then have "hex_number ds < 16 ^ length ds" "hex_digit_value d < 16" using hex_digit_small by auto
  then show ?case by (simp add: hex_number_def)
qed (simp add: hex_number_def)

definition hex_digits :: "nat \<Rightarrow> string \<Rightarrow> bool" where
  "hex_digits n ds \<longleftrightarrow> length ds = n \<and> 0 < n \<and> (\<forall>c\<in>set ds. is_hex c)"

lemma scan_hex_digits:
  assumes "blanks b" "hex_digits n ds" "n \<le> 8"
  shows "scan_route (Hex (Some n) # fs) (b @ ds @ rest) = Number (of_nat (hex_number ds)) # scan_route fs rest"
proof -
  have ds: "solid ds" "length ds = n" "\<forall>c\<in>set ds. is_hex c"
    using assms(2) hex_digit_small by (auto simp: hex_digits_def solid_def)
  have t: "dropWhile is_space (b @ ds @ rest) = ds @ rest" by (rule skip_to_solid [OF assms(1) ds(1)])
  have no_sign: "\<not> starts_with ''-'' ds" "\<not> starts_with ''+'' ds"
    using ds(3) by (auto simp: starts_with_iff is_hex_def is_digit_def)
  have no_prefix: "\<not> starts_with ''0x'' ds" "\<not> starts_with ''0X'' ds"
    using ds(3) by (auto simp: starts_with_iff is_hex_def is_digit_def)
  have take: "takeWhile is_hex ds = ds" using ds(3) by (simp add: takeWhile_eq_all_conv)
  have "hex_number ds < 16 ^ n" using hex_number_bound [OF ds(3)] ds(2) by simp
  also have "\<dots> \<le> 16 ^ 8" using assms(3) by (intro power_increasing) auto
  finally have "hex_number ds \<le> ulong_max" by (simp add: ulong_max_def)
  then have "scan_hex_width (Some n) (b @ ds @ rest) = Some (of_nat (hex_number ds), rest)"
    using ds(1,2) no_sign no_prefix unfolding scan_hex_width_def hex_number_def
    by (simp add: t take solid_def Let_def)
  then show ?thesis by simp
qed

text \<open>The columns of a line of /proc/net/ipv6_route.\<close>

record route_line =
  rl_dst :: "string list"
  rl_prefix :: string
  rl_src :: "string list"
  rl_slen :: string
  rl_hop :: "string list"
  rl_metric :: string
  rl_refcnt :: string
  rl_use :: string
  rl_flags :: string
  rl_iface :: string

definition route_line_ok :: "route_line \<Rightarrow> bool" where
  "route_line_ok l \<longleftrightarrow>
     (\<forall>gs\<in>{rl_dst l, rl_src l, rl_hop l}. length gs = 8 \<and> (\<forall>g\<in>set gs. solid g \<and> length g = 4)) \<and>
     hex_digits 2 (rl_prefix l) \<and> hex_digits 2 (rl_slen l) \<and> hex_digits 8 (rl_metric l) \<and> hex_digits 8 (rl_refcnt l) \<and>
     hex_digits 8 (rl_use l) \<and> hex_digits 8 (rl_flags l) \<and> solid (rl_iface l) \<and> length (rl_iface l) < 16"

definition route_line_text :: "route_line \<Rightarrow> string" where
  "route_line_text l =
     concat (rl_dst l) @ '' '' @ rl_prefix l @ '' '' @ concat (rl_src l) @ '' '' @ rl_slen l @ '' '' @ concat (rl_hop l) @
     '' '' @ rl_metric l @ '' '' @ rl_refcnt l @ '' '' @ rl_use l @ '' '' @ rl_flags l @ ''     '' @ rl_iface l @ [CHR 0x0A]"

definition hex_value_of :: "string \<Rightarrow> scanned" where
  "hex_value_of ds = Number (of_nat (hex_number ds))"

text \<open>Every column is read back.\<close>

lemma route_line_scanned:
  assumes "route_line_ok l"
  shows "scan_route fib6_fields (route_line_text l) =
     map Text (rl_dst l) @ [hex_value_of (rl_prefix l)] @ map Text (rl_src l) @ [hex_value_of (rl_slen l)] @
     map Text (rl_hop l) @ map hex_value_of [rl_metric l, rl_refcnt l, rl_use l, rl_flags l] @ [Text (rl_iface l)]"
proof -
  have b: "blanks []" "blanks '' ''" "blanks ''     ''" by (simp_all add: blanks_def is_space_def)
  have groups: "scan_route (replicate 8 (Group 4) @ fs) (b @ concat gs @ rest) = map Text gs @ scan_route fs rest"
    if "gs \<in> {rl_dst l, rl_src l, rl_hop l}" "blanks b" for gs b fs rest
  proof -
    have gs: "length gs = 8" "\<forall>g\<in>set gs. solid g \<and> length g = 4" using assms that(1) by (auto simp: route_line_ok_def)
    have "scan_route (replicate (length gs) (Group 4) @ fs) (b @ concat gs @ rest) = map Text gs @ scan_route fs rest"
      by (rule scan_groups [OF that(2) gs(2)]) (use gs(1) in auto)
    then show ?thesis using gs(1) by (simp del: scan_route.simps)
  qed
  have hex: "hex_digits 2 (rl_prefix l)" "hex_digits 2 (rl_slen l)" "hex_digits 8 (rl_metric l)" "hex_digits 8 (rl_refcnt l)"
    "hex_digits 8 (rl_use l)" "hex_digits 8 (rl_flags l)" and iface: "solid (rl_iface l)"
    using assms by (simp_all add: route_line_ok_def)
  have four: "replicate 4 (Hex (Some 8)) @ [Name] = [Hex (Some 8), Hex (Some 8), Hex (Some 8), Hex (Some 8), Name]"
    by (simp add: numeral_eq_Suc)
  have name: "scan_route [Name] (''     '' @ rl_iface l @ [CHR 0x0A]) = [Text (rl_iface l)]"
    by (rule scan_name [OF b(3) iface]) (simp add: is_space_def)
  have one: "[f] @ fs = f # fs" for f :: route_field and fs by simp
  note scan = groups [OF _ b(1), simplified append_Nil] groups [OF _ b(2)] scan_hex_digits [OF b(2)]
  have "scan_route fib6_fields (route_line_text l) =
     map Text (rl_dst l) @ hex_value_of (rl_prefix l) # map Text (rl_src l) @ hex_value_of (rl_slen l) #
     map Text (rl_hop l) @ hex_value_of (rl_metric l) # hex_value_of (rl_refcnt l) # hex_value_of (rl_use l) #
     hex_value_of (rl_flags l) # [Text (rl_iface l)]"
    unfolding fib6_fields_def route_line_text_def four append_assoc one
    by (simp only: scan hex insertI1 insertI2 name hex_value_of_def numeral_le_iff semiring_norm order_refl)
  then show ?thesis by simp
qed

end
