(* ===== verification/Otlp_Export.thy ===== *)
theory Otlp_Export
  imports Otlp_Recordable "HOL-Library.Multiset"
begin

text \<open>
  From the SDK's metric and span data to the OTLP requests that are sent:
  app/source/common/opentelemetry/otlp_metric_utils.cc, otlp_recordable_utils.cc and the \<open>Consume\<close>
  of the trace and metric sinks (app/source/sink/opentelemetry). Of the SDK's enumerations the
  constructors the code names are kept, with one for the rest. Reading the alternative a variant does
  not hold throws inside a function that is \<open>noexcept\<close>, which ends the program. \<open>to_double\<close> converts
  a 64-bit integer.
\<close>

section \<open>Metric data of the SDK\<close>

datatype instrument_type = kCounter | kHistogram | kUpDownCounter | kObservableCounter | Instrument_Other

datatype temporality = kCumulative | kDelta | Temporality_Other

datatype 'd number_value = Num_Int "64 word" | Num_Double 'd

record 'd histogram_point =
  hi_sum :: "'d number_value"
  hi_count :: "64 word"
  hi_min :: "'d number_value"
  hi_max :: "'d number_value"
  hi_record_min_max :: bool
  hi_boundaries :: "'d list"
  hi_counts :: "64 word list"

datatype 'd point_data =
    Sum_Point "'d number_value"
  | Histogram_Point "'d histogram_point"
  | Last_Value_Point "'d number_value"
  | Drop_Point

type_synonym 'd point = "(string \<times> 'd owned_value) list \<times> 'd point_data"

record 'd sdk_metric =
  mt_name :: string
  mt_description :: string
  mt_unit :: string
  mt_type :: instrument_type
  mt_temporality :: temporality
  mt_start :: "64 word"
  mt_end :: "64 word"
  mt_points :: "'d point list"

record 'd scope_metrics =
  sc_scope :: "(string \<times> string \<times> string) option"
  sc_metrics :: "'d sdk_metric list"

record 'd resource_metrics =
  rm_resource :: "(string \<times> 'd owned_value) list option"
  rm_scopes :: "'d scope_metrics list"

section \<open>OTLP messages\<close>

record 'd number_data_point =
  np_start :: "64 word"
  np_time :: "64 word"
  np_value :: "'d number_value"
  np_attrs :: "'d attributes"

record 'd histogram_data_point =
  hp_start :: "64 word"
  hp_time :: "64 word"
  hp_sum :: 'd
  hp_count :: "64 word"
  hp_min :: "'d option"
  hp_max :: "'d option"
  hp_bounds :: "'d list"
  hp_buckets :: "64 word list"
  hp_attrs :: "'d attributes"

datatype proto_temporality = Temporality_Unspecified | Temporality_Delta | Temporality_Cumulative

datatype 'd metric_payload =
    Payload_None
  | Payload_Sum proto_temporality bool "'d number_data_point list"
  | Payload_Histogram proto_temporality "'d histogram_data_point list"
  | Payload_Gauge "'d number_data_point list"

record 'd proto_metric =
  pm_name :: string
  pm_description :: string
  pm_unit :: string
  pm_payload :: "'d metric_payload"

record 'd proto_scope_metrics =
  psm_scope :: "string \<times> string"
  psm_metrics :: "'d proto_metric list"

record 'd proto_resource_metrics =
  prm_resource :: "'d attributes"
  prm_schema_url :: string
  prm_scopes :: "'d proto_scope_metrics list"

section \<open>Conversion\<close>

fun GetProtoAggregationTemporality :: "temporality \<Rightarrow> proto_temporality" where
  "GetProtoAggregationTemporality kCumulative = Temporality_Cumulative"
| "GetProtoAggregationTemporality kDelta = Temporality_Delta"
| "GetProtoAggregationTemporality Temporality_Other = Temporality_Unspecified"

definition owned_attributes :: "(string \<times> 'd owned_value) list \<Rightarrow> 'd attributes" where
  "owned_attributes as = map (\<lambda>(k, v). (k, PopulateOwnedValue v)) as"

definition number_point :: "'d sdk_metric \<Rightarrow> (string \<times> 'd owned_value) list \<Rightarrow> 'd number_value \<Rightarrow> 'd number_data_point" where
  "number_point m as v = \<lparr>np_start = mt_start m, np_time = mt_end m, np_value = v, np_attrs = owned_attributes as\<rparr>"

definition sum_point :: "'d sdk_metric \<Rightarrow> 'd point \<Rightarrow> 'd number_data_point result" where
  "sum_point m p = (case snd p of Sum_Point v \<Rightarrow> Inr (number_point m (fst p) v) | _ \<Rightarrow> Inl Bad_Variant)"

definition gauge_point :: "'d sdk_metric \<Rightarrow> 'd point \<Rightarrow> 'd number_data_point result" where
  "gauge_point m p = (case snd p of Last_Value_Point v \<Rightarrow> Inr (number_point m (fst p) v) | _ \<Rightarrow> Inl Bad_Variant)"

definition as_double :: "(64 word \<Rightarrow> 'd) \<Rightarrow> 'd number_value \<Rightarrow> 'd" where
  "as_double to_double v = (case v of Num_Int i \<Rightarrow> to_double i | Num_Double d \<Rightarrow> d)"

definition histogram_point_of :: "(64 word \<Rightarrow> 'd) \<Rightarrow> 'd sdk_metric \<Rightarrow> 'd point \<Rightarrow> 'd histogram_data_point result" where
  "histogram_point_of to_double m p =
     (case snd p of
        Histogram_Point h \<Rightarrow>
          Inr \<lparr>hp_start = mt_start m, hp_time = mt_end m, hp_sum = as_double to_double (hi_sum h), hp_count = hi_count h,
               hp_min = (if hi_record_min_max h then Some (as_double to_double (hi_min h)) else None),
               hp_max = (if hi_record_min_max h then Some (as_double to_double (hi_max h)) else None),
               hp_bounds = hi_boundaries h, hp_buckets = hi_counts h, hp_attrs = owned_attributes (fst p)\<rparr>
      | _ \<Rightarrow> Inl Bad_Variant)"

definition ConvertSumMetric :: "'d sdk_metric \<Rightarrow> 'd metric_payload result" where
  "ConvertSumMetric m =
     bind_r (map_r (sum_point m) (mt_points m)) (\<lambda>ps.
       Inr (Payload_Sum (GetProtoAggregationTemporality (mt_temporality m))
              (mt_type m = kCounter \<or> mt_type m = kObservableCounter) ps))"

definition ConvertHistogramMetric :: "(64 word \<Rightarrow> 'd) \<Rightarrow> 'd sdk_metric \<Rightarrow> 'd metric_payload result" where
  "ConvertHistogramMetric to_double m =
     bind_r (map_r (histogram_point_of to_double m) (mt_points m)) (\<lambda>ps.
       Inr (Payload_Histogram (GetProtoAggregationTemporality (mt_temporality m)) ps))"

definition ConvertGaugeMetric :: "'d sdk_metric \<Rightarrow> 'd metric_payload result" where
  "ConvertGaugeMetric m = bind_r (map_r (gauge_point m) (mt_points m)) (\<lambda>ps. Inr (Payload_Gauge ps))"

datatype aggregation_type = Agg_Drop | Agg_Sum | Agg_Histogram | Agg_Last_Value

definition GetAggregationType :: "'d sdk_metric \<Rightarrow> aggregation_type" where
  "GetAggregationType m =
     (case mt_points m of
        [] \<Rightarrow> Agg_Drop
      | p # _ \<Rightarrow> (case snd p of Sum_Point v \<Rightarrow> Agg_Sum | Histogram_Point h \<Rightarrow> Agg_Histogram
                            | Last_Value_Point v \<Rightarrow> Agg_Last_Value | Drop_Point \<Rightarrow> Agg_Drop))"

definition PopulateInstrumentInfoMetrics :: "(64 word \<Rightarrow> 'd) \<Rightarrow> 'd sdk_metric \<Rightarrow> 'd proto_metric result" where
  "PopulateInstrumentInfoMetrics to_double m =
     bind_r (case GetAggregationType m of
               Agg_Sum \<Rightarrow> ConvertSumMetric m
             | Agg_Histogram \<Rightarrow> ConvertHistogramMetric to_double m
             | Agg_Last_Value \<Rightarrow> ConvertGaugeMetric m
             | Agg_Drop \<Rightarrow> Inr Payload_None)
       (\<lambda>d. Inr \<lparr>pm_name = mt_name m, pm_description = mt_description m, pm_unit = mt_unit m, pm_payload = d\<rparr>)"

text \<open>The schema URL of the resource is that of the last scope.\<close>

fun populate_scopes ::
  "(64 word \<Rightarrow> 'd) \<Rightarrow> 'd scope_metrics list \<Rightarrow> 'd proto_resource_metrics \<Rightarrow> 'd proto_resource_metrics result" where
  "populate_scopes to_double [] r = Inr r"
| "populate_scopes to_double (s # ss) r =
     (case sc_scope s of
        None \<Rightarrow> populate_scopes to_double ss r
      | Some (n, v, url) \<Rightarrow>
          bind_r (map_r (PopulateInstrumentInfoMetrics to_double) (sc_metrics s)) (\<lambda>ms.
            populate_scopes to_double ss
              (r\<lparr>prm_schema_url := url, prm_scopes := prm_scopes r @ [\<lparr>psm_scope = (n, v), psm_metrics = ms\<rparr>]\<rparr>)))"

definition PopulateResourceMetrics ::
  "(64 word \<Rightarrow> 'd) \<Rightarrow> (string \<times> 'd owned_value) list \<Rightarrow> 'd scope_metrics list \<Rightarrow> 'd proto_resource_metrics result" where
  "PopulateResourceMetrics to_double attributes scopes =
     populate_scopes to_double scopes
       \<lparr>prm_resource = PopulateResource attributes, prm_schema_url = [], prm_scopes = []\<rparr>"

definition PopulateMetricsRequest ::
  "(64 word \<Rightarrow> 'd) \<Rightarrow> 'd resource_metrics \<Rightarrow> 'd proto_resource_metrics list \<Rightarrow> 'd proto_resource_metrics list result" where
  "PopulateMetricsRequest to_double data request =
     (case rm_resource data of
        None \<Rightarrow> Inr request
      | Some res \<Rightarrow> bind_r (PopulateResourceMetrics to_double res (rm_scopes data)) (\<lambda>r. Inr (request @ [r])))"

section \<open>Spans\<close>

text \<open>Resources and scopes are told apart by their address; \<open>None\<close> is the null pointer. \<open>resource_at\<close> and
  \<open>scope_at\<close> are what the addresses point to: the attributes and schema URL of a resource, the name,
  version and schema URL of a scope.\<close>

record 'd sdk_heap =
  resource_at :: "nat \<Rightarrow> (string \<times> 'd owned_value) list \<times> string"
  scope_at :: "nat \<Rightarrow> string \<times> string \<times> string"

record 'd span_record =
  sr_resource :: "nat option"
  sr_scope :: "nat option"
  sr_span :: "'d otlp_span"

type_synonym 'd spans_by_scope = "(nat option \<times> 'd otlp_span list) list"
type_synonym 'd spans_index = "(nat option \<times> 'd spans_by_scope) list"

definition entry_of :: "'k \<Rightarrow> ('k \<times> 'v list) list \<Rightarrow> 'v list" where
  "entry_of k m = (case map_of m k of None \<Rightarrow> [] | Some vs \<Rightarrow> vs)"

definition index_add :: "'d span_record \<Rightarrow> 'd spans_index \<Rightarrow> 'd spans_index" where
  "index_add r idx =
     (let inner = entry_of (sr_resource r) idx
      in AList.update (sr_resource r)
           (AList.update (sr_scope r) (entry_of (sr_scope r) inner @ [sr_span r]) inner) idx)"

fun index_spans :: "'d span_record option list \<Rightarrow> 'd spans_index \<Rightarrow> 'd spans_index result" where
  "index_spans [] idx = Inr idx"
| "index_spans (None # ss) idx = Inl Null_Deref"
| "index_spans (Some r # ss) idx = index_spans ss (index_add r idx)"

record 'd scope_spans =
  ss_scope :: "(string \<times> string) option"
  ss_schema_url :: string
  ss_spans :: "'d otlp_span list"

record 'd resource_spans =
  rs_resource :: "'d attributes option"
  rs_schema_url :: string
  rs_scopes :: "'d scope_spans list"

definition add_scope_spans :: "'d sdk_heap \<Rightarrow> nat option \<times> 'd otlp_span list \<Rightarrow> 'd scope_spans" where
  "add_scope_spans H e =
     (case fst e of
        None \<Rightarrow> \<lparr>ss_scope = None, ss_schema_url = [], ss_spans = snd e\<rparr>
      | Some a \<Rightarrow> (case scope_at H a of (n, v, url) \<Rightarrow>
          \<lparr>ss_scope = Some (n, v), ss_schema_url = url, ss_spans = snd e\<rparr>))"

definition add_resource_spans :: "'d sdk_heap \<Rightarrow> nat option \<times> 'd spans_by_scope \<Rightarrow> 'd resource_spans" where
  "add_resource_spans H e =
     (case fst e of
        None \<Rightarrow> \<lparr>rs_resource = None, rs_schema_url = [], rs_scopes = map (add_scope_spans H) (snd e)\<rparr>
      | Some a \<Rightarrow> \<lparr>rs_resource = Some (PopulateResource (fst (resource_at H a))), rs_schema_url = snd (resource_at H a),
                  rs_scopes = map (add_scope_spans H) (snd e)\<rparr>)"

definition PopulateTraceRequest ::
  "'d sdk_heap \<Rightarrow> 'd span_record option list \<Rightarrow> 'd resource_spans list \<Rightarrow> 'd resource_spans list result" where
  "PopulateTraceRequest H spans request =
     bind_r (index_spans spans []) (\<lambda>idx. Inr (request @ map (add_resource_spans H) idx))"

section \<open>The sinks\<close>

text \<open>A sink takes the data out of the events, which keep a null pointer, and sends one request. \<open>None\<close> is
  an event without data; the request is \<open>None\<close> when nothing is sent.\<close>

fun metric_requests ::
  "(64 word \<Rightarrow> 'd) \<Rightarrow> 'd resource_metrics option list \<Rightarrow> 'd proto_resource_metrics list \<Rightarrow> 'd proto_resource_metrics list result" where
  "metric_requests to_double [] request = Inr request"
| "metric_requests to_double (None # ms) request = Inl Null_Deref"
| "metric_requests to_double (Some m # ms) request =
     bind_r (PopulateMetricsRequest to_double m request) (metric_requests to_double ms)"

definition metric_Consume ::
  "(64 word \<Rightarrow> 'd) \<Rightarrow> bool \<Rightarrow> 'd resource_metrics option list \<Rightarrow> 'd proto_resource_metrics list option result" where
  "metric_Consume to_double is_shutdown events =
     (if events = [] \<or> is_shutdown then Inr None
      else bind_r (metric_requests to_double events []) (\<lambda>r. Inr (Some r)))"

definition trace_Consume ::
  "'d sdk_heap \<Rightarrow> 'd span_record option list \<Rightarrow> 'd resource_spans list option result" where
  "trace_Consume H events =
     (if events = [] then Inr None else bind_r (PopulateTraceRequest H events []) (\<lambda>r. Inr (Some r)))"

section \<open>Metrics keep their points\<close>

datatype point_kind = Is_Sum | Is_Histogram | Is_Last_Value | Is_Drop

fun kind_of :: "'d point \<Rightarrow> point_kind" where
  "kind_of (as, Sum_Point v) = Is_Sum"
| "kind_of (as, Histogram_Point h) = Is_Histogram"
| "kind_of (as, Last_Value_Point v) = Is_Last_Value"
| "kind_of (as, Drop_Point) = Is_Drop"

lemma map_r_total_iff: "\<not> isl (map_r f xs) \<longleftrightarrow> (\<forall>x\<in>set xs. \<not> isl (f x))"
proof (induction xs)
  case (Cons x xs)
  then show ?case by (cases "f x"; cases "map_r f xs") auto
qed simp

lemma isl_bind_Inr: "isl (bind_r r (\<lambda>a. Inr (f a))) \<longleftrightarrow> isl r"
  by (cases r) auto

lemma points_convert:
  "\<not> isl (sum_point m p) \<longleftrightarrow> kind_of p = Is_Sum" "\<not> isl (gauge_point m p) \<longleftrightarrow> kind_of p = Is_Last_Value"
  "\<not> isl (histogram_point_of to_double m p) \<longleftrightarrow> kind_of p = Is_Histogram"
  by (cases p; cases "snd p"; simp add: sum_point_def gauge_point_def histogram_point_of_def)+

definition first_kind :: "'d sdk_metric \<Rightarrow> point_kind" where
  "first_kind m = (case mt_points m of [] \<Rightarrow> Is_Drop | p # _ \<Rightarrow> kind_of p)"

lemma aggregation_kind:
  "GetAggregationType m =
     (case first_kind m of Is_Sum \<Rightarrow> Agg_Sum | Is_Histogram \<Rightarrow> Agg_Histogram | Is_Last_Value \<Rightarrow> Agg_Last_Value | Is_Drop \<Rightarrow> Agg_Drop)"
  by (cases "mt_points m"; cases "hd (mt_points m)"; cases "snd (hd (mt_points m))")
    (simp_all add: GetAggregationType_def first_kind_def)

text \<open>What an OTLP payload says of its points: the times, the attributes, and a number if it is one.\<close>

type_synonym 'd point_view = "64 word \<times> 64 word \<times> 'd attributes \<times> 'd number_value option"

definition view_number :: "'d number_data_point \<Rightarrow> 'd point_view" where
  "view_number p = (np_start p, np_time p, np_attrs p, Some (np_value p))"

definition view_histogram :: "'d histogram_data_point \<Rightarrow> 'd point_view" where
  "view_histogram p = (hp_start p, hp_time p, hp_attrs p, None)"

fun payload_views :: "'d metric_payload \<Rightarrow> 'd point_view list" where
  "payload_views Payload_None = []"
| "payload_views (Payload_Sum t b ps) = map view_number ps"
| "payload_views (Payload_Histogram t ps) = map view_histogram ps"
| "payload_views (Payload_Gauge ps) = map view_number ps"

fun point_number :: "'d point_data \<Rightarrow> 'd number_value option" where
  "point_number (Sum_Point v) = Some v"
| "point_number (Last_Value_Point v) = Some v"
| "point_number _ = None"

definition point_view :: "'d sdk_metric \<Rightarrow> 'd point \<Rightarrow> 'd point_view" where
  "point_view m p = (mt_start m, mt_end m, owned_attributes (fst p), point_number (snd p))"

lemma views:
  "sum_point m p = Inr q \<Longrightarrow> view_number q = point_view m p"
  "gauge_point m p = Inr q \<Longrightarrow> view_number q = point_view m p"
  "histogram_point_of to_double m p = Inr h \<Longrightarrow> view_histogram h = point_view m p"
  by (auto simp: sum_point_def gauge_point_def histogram_point_of_def number_point_def view_number_def
      view_histogram_def point_view_def split: point_data.splits)

lemma map_r_views:
  "map_r f xs = Inr ys \<Longrightarrow> (\<And>x y. f x = Inr y \<Longrightarrow> g y = h x) \<Longrightarrow> map g ys = map h xs"
  by (induction xs arbitrary: ys) (auto simp: cpp_simps)

text \<open>A metric is uniform when its first point is dropped or every point has the kind of the first.\<close>

definition uniform :: "'d sdk_metric \<Rightarrow> bool" where
  "uniform m \<longleftrightarrow> first_kind m = Is_Drop \<or> (\<forall>p\<in>set (mt_points m). kind_of p = first_kind m)"

text \<open>C40: a metric is converted exactly when all its points are of the kind of the first; then the message
  has the name of the metric and one point for each of its points, in order, with its times, its
  attributes and its number. With points of two kinds the conversion ends the program; a metric
  without points, or whose first point is a drop, is sent empty.\<close>
theorem metric_converted_when_uniform:
  fixes m :: "'d sdk_metric"
  shows "case PopulateInstrumentInfoMetrics to_double m of
    Inl e \<Rightarrow> \<not> uniform m
  | Inr r \<Rightarrow> uniform m \<and> pm_name r = mt_name m \<and>
      payload_views (pm_payload r) = (if first_kind m = Is_Drop then [] else map (point_view m) (mt_points m))"
proof (cases "first_kind m")
  case Is_Sum
  have "map view_number ps = map (point_view m) (mt_points m)" if "map_r (sum_point m) (mt_points m) = Inr ps" for ps
    using map_r_views [OF that views(1)] .
  then show ?thesis
    using Is_Sum map_r_total_iff [of "sum_point m" "mt_points m"]
    by (cases "map_r (sum_point m) (mt_points m)")
      (auto simp: uniform_def PopulateInstrumentInfoMetrics_def aggregation_kind ConvertSumMetric_def points_convert)
next
  case Is_Histogram
  have "map view_histogram ps = map (point_view m) (mt_points m)"
    if "map_r (histogram_point_of to_double m) (mt_points m) = Inr ps" for ps
    using map_r_views [OF that views(3)] .
  then show ?thesis
    using Is_Histogram map_r_total_iff [of "histogram_point_of to_double m" "mt_points m"]
    by (cases "map_r (histogram_point_of to_double m) (mt_points m)")
      (auto simp: uniform_def PopulateInstrumentInfoMetrics_def aggregation_kind ConvertHistogramMetric_def points_convert)
next
  case Is_Last_Value
  have "map view_number ps = map (point_view m) (mt_points m)" if "map_r (gauge_point m) (mt_points m) = Inr ps" for ps
    using map_r_views [OF that views(2)] .
  then show ?thesis
    using Is_Last_Value map_r_total_iff [of "gauge_point m" "mt_points m"]
    by (cases "map_r (gauge_point m) (mt_points m)")
      (auto simp: uniform_def PopulateInstrumentInfoMetrics_def aggregation_kind ConvertGaugeMetric_def points_convert)
next
  case Is_Drop
  then show ?thesis by (simp add: uniform_def PopulateInstrumentInfoMetrics_def aggregation_kind)
qed

section \<open>No span is lost or sent twice\<close>

definition index_mset :: "'d spans_index \<Rightarrow> 'd otlp_span multiset" where
  "index_mset idx = (\<Sum>(r, inner)\<in>#mset idx. \<Sum>(s, spans)\<in>#mset inner. mset spans)"

lemma sum_update:
  fixes f :: "'v \<Rightarrow> 'a multiset"
  assumes "(case map_of m k of None \<Rightarrow> {#} | Some w \<Rightarrow> f w) + x = f v" "distinct (map fst m)"
  shows "(\<Sum>(k, v)\<in>#mset (AList.update k v m). f v) = (\<Sum>(k, v)\<in>#mset m. f v) + x"
  using assms
proof (induction m)
  case (Cons p m)
  obtain k' w where p: "p = (k', w)" by (cases p)
  show ?case
  proof (cases "k' = k")
    case True
    then show ?thesis using Cons.prems(1) p by (simp add: ac_simps)
  next
    case False
    then show ?thesis using Cons p by (simp add: ac_simps)
  qed
qed simp

definition idx_ok :: "'d spans_index \<Rightarrow> bool" where
  "idx_ok idx \<longleftrightarrow> umap_ok idx \<and> (\<forall>(r, inner)\<in>set idx. umap_ok inner)"

lemma entry_ok: "idx_ok idx \<Longrightarrow> umap_ok (entry_of r idx)"
  by (auto simp: idx_ok_def entry_of_def dest: map_of_SomeD split: option.splits)

lemma set_update_sub: "set (AList.update k v m) \<subseteq> insert (k, v) (set m)"
  by (induction m) auto

lemma index_add_ok: "idx_ok idx \<Longrightarrow> idx_ok (index_add r idx)"
  using set_update_sub entry_ok [of idx "sr_resource r"]
  by (fastforce simp: idx_ok_def index_add_def Let_def intro: umap_ok_update)

lemma entry_mset: "(case map_of m k of None \<Rightarrow> {#} | Some w \<Rightarrow> mset w) = mset (entry_of k m)"
  by (simp add: entry_of_def split: option.split)

lemma entry_inner_mset:
  "(case map_of m k of None \<Rightarrow> {#} | Some w \<Rightarrow> \<Sum>(s, spans)\<in>#mset w. mset spans) = (\<Sum>(s, spans)\<in>#mset (entry_of k m). mset spans)"
  by (simp add: entry_of_def split: option.split)

lemma index_add_mset:
  assumes "idx_ok idx"
  shows "index_mset (index_add r idx) = index_mset idx + {#sr_span r#}"
proof -
  let ?inner = "entry_of (sr_resource r) idx"
  let ?new = "AList.update (sr_scope r) (entry_of (sr_scope r) ?inner @ [sr_span r]) ?inner"
  have inner: "(\<Sum>(s, spans)\<in>#mset ?new. mset spans) = (\<Sum>(s, spans)\<in>#mset ?inner. mset spans) + {#sr_span r#}"
  proof (rule sum_update)
    show "(case map_of ?inner (sr_scope r) of None \<Rightarrow> {#} | Some w \<Rightarrow> mset w) + {#sr_span r#} =
        mset (entry_of (sr_scope r) ?inner @ [sr_span r])"
      unfolding entry_mset by simp
    show "distinct (map fst ?inner)" using entry_ok [OF assms, of "sr_resource r"] by (simp add: umap_ok_def)
  qed
  show ?thesis
    unfolding index_mset_def index_add_def Let_def
  proof (rule sum_update)
    show "(case map_of idx (sr_resource r) of None \<Rightarrow> {#} | Some w \<Rightarrow> \<Sum>(s, spans)\<in>#mset w. mset spans) + {#sr_span r#} =
        (\<Sum>(s, spans)\<in>#mset ?new. mset spans)"
      unfolding entry_inner_mset by (rule inner [symmetric])
    show "distinct (map fst idx)" using assms by (simp add: idx_ok_def umap_ok_def)
  qed
qed

lemma entry_of_Nil [simp]: "entry_of k [] = []"
  by (simp add: entry_of_def)

lemma entry_of_update [simp]: "entry_of k (AList.update k' v m) = (if k = k' then v else entry_of k m)"
  by (simp add: entry_of_def update_conv')

lemma index_add_entry:
  "entry_of s (entry_of r (index_add x idx)) =
     entry_of s (entry_of r idx) @ (if sr_resource x = r \<and> sr_scope x = s then [sr_span x] else [])"
  by (simp add: index_add_def Let_def)

lemma index_spans_fold: "index_spans (map Some rs) idx = Inr (fold index_add rs idx)"
  by (induction rs arbitrary: idx) simp_all

lemma fold_add_ok: "idx_ok idx \<Longrightarrow> idx_ok (fold index_add rs idx)"
  by (induction rs arbitrary: idx) (simp_all add: index_add_ok)

lemma fold_add_mset:
  "idx_ok idx \<Longrightarrow> index_mset (fold index_add rs idx) = index_mset idx + mset (map sr_span rs)"
  by (induction rs arbitrary: idx) (simp_all add: index_add_ok index_add_mset)

lemma fold_add_entry:
  "entry_of s (entry_of r (fold index_add rs idx)) =
     entry_of s (entry_of r idx) @ map sr_span (filter (\<lambda>x. sr_resource x = r \<and> sr_scope x = s) rs)"
  by (induction rs arbitrary: idx) (simp_all add: index_add_entry)

definition request_spans :: "'d resource_spans list \<Rightarrow> 'd otlp_span list" where
  "request_spans rs = concat (map (\<lambda>r. concat (map ss_spans (rs_scopes r))) rs)"

lemma ss_spans_add [simp]: "ss_spans (add_scope_spans H e) = snd e"
  by (simp add: add_scope_spans_def split: option.splits prod.splits)

lemma rs_scopes_add [simp]: "rs_scopes (add_resource_spans H e) = map (add_scope_spans H) (snd e)"
  by (simp add: add_resource_spans_def split: option.splits)

lemma mset_concat_groups: "mset (concat (map snd es)) = (\<Sum>(k, v)\<in>#mset es. mset v)"
  by (induction es) auto

lemma mset_request: "mset (request_spans (map (add_resource_spans H) idx)) = index_mset idx"
proof (induction idx)
  case (Cons e idx)
  have "concat (map (ss_spans \<circ> add_scope_spans H) (snd e)) = concat (map snd (snd e))"
    by (simp add: comp_def)
  then show ?case
    using Cons mset_concat_groups [of "snd e"]
    by (cases e) (simp add: request_spans_def index_mset_def comp_def)
qed (simp add: request_spans_def index_mset_def)

text \<open>C25: the request made of a batch of spans holds every span of the batch exactly once, behind what it
  held before, and each pair of a resource and a scope has one entry with its spans in the order of
  the batch.\<close>
theorem trace_request_keeps_spans:
  fixes H :: "'d sdk_heap" and rs :: "'d span_record list"
  shows "\<exists>idx. PopulateTraceRequest H (map Some rs) request = Inr (request @ map (add_resource_spans H) idx) \<and>
    idx_ok idx \<and>
    mset (request_spans (request @ map (add_resource_spans H) idx)) = mset (request_spans request) + mset (map sr_span rs) \<and>
    (\<forall>r s. entry_of s (entry_of r idx) = map sr_span (filter (\<lambda>x. sr_resource x = r \<and> sr_scope x = s) rs))"
proof -
  have ok: "idx_ok ([] :: 'd spans_index)" by (simp add: idx_ok_def)
  show ?thesis
    using mset_request [of H "fold index_add rs []"] fold_add_ok [OF ok] fold_add_mset [OF ok, of rs]
      fold_add_entry [where idx = "[] :: 'd spans_index" and rs = rs]
    by (intro exI [of _ "fold index_add rs []"])
      (simp add: PopulateTraceRequest_def request_spans_def index_spans_fold index_mset_def)
qed

text \<open>An event whose data another consumer has taken ends the program.\<close>

lemma index_spans_null: "None \<in> set es \<Longrightarrow> index_spans es idx = Inl Null_Deref"
  by (induction es idx rule: index_spans.induct) auto

lemma trace_Consume_taken: "None \<in> set events \<Longrightarrow> trace_Consume H events = Inl Null_Deref"
  by (auto simp: trace_Consume_def PopulateTraceRequest_def index_spans_null)

end
