(* ===== verification/Jvm_Metrics.thy ===== *)
theory Jvm_Metrics
  imports Otlp_Export
begin

text \<open>
  The interceptor that turns a SkyWalking collection of JVM metrics into metric data of the SDK:
  app/source/intercept/opentelemetry/metric/skywalking/processor.cc, with the names of
  app/include/common/opentelemetry/const.h. The messages of the collect protocol are records of the
  fields that are read. \<open>aggregate\<close> stands for the SDK's histogram aggregation of one value over the
  boundaries of the agent.
\<close>

section \<open>The collection\<close>

datatype pool_type =
    CODE_CACHE_USAGE | NEWGEN_USAGE | OLDGEN_USAGE | SURVIVOR_USAGE | PERMGEN_USAGE | METASPACE_USAGE | ZHEAP_USAGE
  | COMPRESSED_CLASS_SPACE_USAGE | CODEHEAP_NON_NMETHODS_USAGE | CODEHEAP_PROFILED_NMETHODS_USAGE
  | CODEHEAP_NON_PROFILED_NMETHODS_USAGE | PoolType_INT_MIN | PoolType_INT_MAX | Pool_Other

datatype gc_phase = NEW | OLD | NORMAL | GCPhase_INT_MIN | GCPhase_INT_MAX | Phase_Other

record jvm_memory =
  me_isheap :: bool
  me_init :: "64 word"
  me_max :: "64 word"
  me_used :: "64 word"
  me_committed :: "64 word"

record jvm_pool =
  po_type :: pool_type
  po_init :: "64 word"
  po_max :: "64 word"
  po_used :: "64 word"
  po_committed :: "64 word"

record jvm_gc =
  gc_phase_of :: gc_phase
  gc_time :: "64 word"

record jvm_thread =
  th_live :: "64 word"
  th_runnable :: "64 word"
  th_blocked :: "64 word"
  th_waiting :: "64 word"
  th_timed_waiting :: "64 word"
  th_daemon :: "64 word"
  th_peak :: "64 word"

record jvm_class =
  cl_loaded :: "64 word"
  cl_unloaded :: "64 word"
  cl_total :: "64 word"

record 'd jvm_metric =
  jm_time :: "64 word"
  jm_memory :: "jvm_memory list"
  jm_pools :: "jvm_pool list"
  jm_gc :: "jvm_gc list"
  jm_cpu :: 'd
  jm_thread :: jvm_thread
  jm_class :: jvm_class

record 'd jvm_collection =
  jc_service :: string
  jc_instance :: string
  jc_metrics :: "'d jvm_metric list"

section \<open>Names\<close>

fun getMemoryPoolTyp :: "pool_type \<Rightarrow> string" where
  "getMemoryPoolTyp CODE_CACHE_USAGE = ''CODE_CACHE_USAGE''"
| "getMemoryPoolTyp NEWGEN_USAGE = ''NEWGEN_USAGE''"
| "getMemoryPoolTyp OLDGEN_USAGE = ''OLDGEN_USAGE''"
| "getMemoryPoolTyp SURVIVOR_USAGE = ''SURVIVOR_USAGE''"
| "getMemoryPoolTyp PERMGEN_USAGE = ''PERMGEN_USAGE''"
| "getMemoryPoolTyp METASPACE_USAGE = ''METASPACE_USAGE''"
| "getMemoryPoolTyp ZHEAP_USAGE = ''ZHEAP_USAGE''"
| "getMemoryPoolTyp COMPRESSED_CLASS_SPACE_USAGE = ''COMPRESSED_CLASS_SPACE_USAGE''"
| "getMemoryPoolTyp CODEHEAP_NON_NMETHODS_USAGE = ''CODEHEAP_NON_NMETHODS_USAGE''"
| "getMemoryPoolTyp CODEHEAP_PROFILED_NMETHODS_USAGE = ''CODEHEAP_PROFILED_NMETHODS_USAGE''"
| "getMemoryPoolTyp CODEHEAP_NON_PROFILED_NMETHODS_USAGE = ''CODEHEAP_NON_PROFILED_NMETHODS_USAGE''"
| "getMemoryPoolTyp PoolType_INT_MIN = ''PoolType_INT_MIN_SENTINEL_DO_NOT_USE_''"
| "getMemoryPoolTyp PoolType_INT_MAX = ''PoolType_INT_MAX_SENTINEL_DO_NOT_USE_''"
| "getMemoryPoolTyp Pool_Other = ''UNKNOWN''"

fun getGCPhase :: "gc_phase \<Rightarrow> string" where
  "getGCPhase NEW = ''Young''"
| "getGCPhase OLD = ''Old''"
| "getGCPhase NORMAL = ''NORMAL''"
| "getGCPhase GCPhase_INT_MIN = ''GCPhase_INT_MIN_SENTINEL_DO_NOT_USE_''"
| "getGCPhase GCPhase_INT_MAX = ''GCPhase_INT_MAX_SENTINEL_DO_NOT_USE_''"
| "getGCPhase Phase_Other = ''UNKNOWN''"

definition memoryType :: string where "memoryType = ''jvm.memory.type''"
definition memoryPoolName :: string where "memoryPoolName = ''jvm.memory.pool.name''"
definition memoryUsed :: string where "memoryUsed = ''jvm.memory.used''"
definition memoryCommitted :: string where "memoryCommitted = ''jvm.memory.committed''"
definition memoryInit :: string where "memoryInit = ''jvm.memory.init''"
definition memoryLimit :: string where "memoryLimit = ''jvm.memory.limit''"
definition threadState :: string where "threadState = ''jvm.thread.state''"
definition gcName :: string where "gcName = ''jvm.gc.name''"

section \<open>The metrics of one report\<close>

text \<open>Milliseconds to microseconds, which the SDK keeps as nanoseconds.\<close>

definition nanos :: "64 word \<Rightarrow> 64 word" where
  "nanos ms = ms * 1000 * 1000"

definition new_metric :: "string \<Rightarrow> string \<Rightarrow> string \<Rightarrow> instrument_type \<Rightarrow> 'd jvm_metric \<Rightarrow> 'd point list \<Rightarrow> 'd sdk_metric" where
  "new_metric n d u t m ps =
     \<lparr>mt_name = n, mt_description = d, mt_unit = u, mt_type = t, mt_temporality = kDelta,
      mt_start = nanos (jm_time m), mt_end = nanos (jm_time m), mt_points = ps\<rparr>"

definition last_value :: "(string \<times> string) list \<Rightarrow> 64 word \<Rightarrow> 'd point" where
  "last_value as v = (map (\<lambda>(k, s). (k, Own_String s)) as, Last_Value_Point (Num_Int v))"

definition memory_point :: "(jvm_memory \<Rightarrow> 64 word) \<Rightarrow> jvm_memory \<Rightarrow> 'd point" where
  "memory_point get mem = last_value [(memoryType, if me_isheap mem then ''heap'' else ''non_heap'')] (get mem)"

definition pool_point :: "string \<Rightarrow> (jvm_pool \<Rightarrow> 64 word) \<Rightarrow> jvm_pool \<Rightarrow> 'd point" where
  "pool_point key get pool = last_value [(key, getMemoryPoolTyp (po_type pool))] (get pool)"

definition memory_points :: "string \<Rightarrow> (jvm_memory \<Rightarrow> 64 word) \<Rightarrow> (jvm_pool \<Rightarrow> 64 word) \<Rightarrow> 'd jvm_metric \<Rightarrow> 'd point list" where
  "memory_points pool_key mget pget m = map (memory_point mget) (jm_memory m) @ map (pool_point pool_key pget) (jm_pools m)"

definition memoryUsedMetric :: "'d jvm_metric \<Rightarrow> 'd sdk_metric" where
  "memoryUsedMetric m =
     new_metric memoryUsed ''Measure of memory used.'' ''By'' kUpDownCounter m (memory_points memoryPoolName me_used po_used m)"

definition memoryCommittedMetric :: "'d jvm_metric \<Rightarrow> 'd sdk_metric" where
  "memoryCommittedMetric m =
     new_metric memoryCommitted ''Measure of memory committed.'' ''By'' kUpDownCounter m
       (memory_points memoryPoolName me_committed po_committed m)"

definition memoryInitedMetric :: "'d jvm_metric \<Rightarrow> 'd sdk_metric" where
  "memoryInitedMetric m =
     new_metric memoryInit (''Measure of initial memory requested.'' @ [CHR 0x09]) ''By'' kUpDownCounter m
       (memory_points memoryPoolName me_init po_init m)"

text \<open>The metrics below are built but not put into the list.\<close>

definition memoryLimitMetric :: "'d jvm_metric \<Rightarrow> 'd sdk_metric" where
  "memoryLimitMetric m =
     new_metric memoryLimit ''Measure of max obtainable memory.'' ''By'' kUpDownCounter m (memory_points memoryType me_max po_max m)"

definition gcMetric :: "(64 word \<Rightarrow> 'd histogram_point) \<Rightarrow> 'd jvm_metric \<Rightarrow> 'd sdk_metric" where
  "gcMetric aggregate m =
     new_metric ''jvm.gc.duration'' ''Duration of JVM garbage collection actions.'' ''s'' kHistogram m
       (map (\<lambda>g. ([(gcName, Own_String (getGCPhase (gc_phase_of g)))], Histogram_Point (aggregate (gc_time g)))) (jm_gc m))"

definition cpuMetric :: "'d jvm_metric \<Rightarrow> 'd sdk_metric" where
  "cpuMetric m =
     new_metric ''jvm.cpu.recent_utilization'' ''Recent CPU utilization for the process as reported by the JVM. [1]'' ''1''
       kUpDownCounter m [([], Last_Value_Point (Num_Double (jm_cpu m)))]"

definition threadMetric :: "'d jvm_metric \<Rightarrow> 'd sdk_metric" where
  "threadMetric m =
     (let t = jm_thread m; p = (\<lambda>state. last_value [(threadState, state)]) in
      new_metric ''jvm.thread.count'' ''Number of executing platform threads.'' ''1'' kUpDownCounter m
        [p ''new'' (th_live t), p ''runnable'' (th_runnable t), p ''blocked'' (th_blocked t), p ''waiting'' (th_waiting t),
         p ''timed_waiting'' (th_timed_waiting t), p ''daemon'' (th_daemon t), p ''peak'' (th_peak t)])"

definition classLoadMetric :: "'d jvm_metric \<Rightarrow> 'd sdk_metric" where
  "classLoadMetric m =
     new_metric ''jvm.class.loaded'' ''Number of classes loaded since JVM start'' ''s'' kCounter m
       [last_value [] (cl_loaded (jm_class m))]"

definition classUnLoadMetric :: "'d jvm_metric \<Rightarrow> 'd sdk_metric" where
  "classUnLoadMetric m =
     new_metric ''jvm.class.unloaded'' ''Number of classes unloaded since JVM start.'' ''s'' kCounter m
       [last_value [] (cl_unloaded (jm_class m))]"

definition classCountMetric :: "'d jvm_metric \<Rightarrow> 'd sdk_metric" where
  "classCountMetric m =
     new_metric ''jvm.class.count'' ''Number of classes currently loaded.'' ''s'' kCounter m
       [last_value [] (cl_total (jm_class m))]"

text \<open>One round of the loop: what is built, and the three that are inserted.\<close>

definition built_metrics :: "(64 word \<Rightarrow> 'd histogram_point) \<Rightarrow> 'd jvm_metric \<Rightarrow> 'd sdk_metric list" where
  "built_metrics aggregate m =
     [memoryUsedMetric m, memoryCommittedMetric m, memoryInitedMetric m, memoryLimitMetric m, gcMetric aggregate m,
      cpuMetric m, threadMetric m, classLoadMetric m, classUnLoadMetric m, classCountMetric m]"

definition metric_vector :: "'d jvm_metric \<Rightarrow> 'd sdk_metric list" where
  "metric_vector m = [memoryUsedMetric m, memoryCommittedMetric m, memoryInitedMetric m]"

section \<open>The interceptor\<close>

definition agent_name :: string where "agent_name = ''trace-agent''"
definition agent_version :: string where "agent_version = ''0.1''"

definition defaultResource :: "(string \<times> string) list" where
  "defaultResource = [(''agent_name'', agent_name), (''agent_version'', agent_version)]"

text \<open>The loop over the default resource sets the service name once for each of its entries.\<close>

definition jvm_attributes :: "'d jvm_collection \<Rightarrow> (string \<times> 'd owned_value) list" where
  "jvm_attributes c =
     (let service = AList.update AttributeServiceName (Own_String (jc_service c));
          looped = fold (\<lambda>_. service) defaultResource []
      in AList.update AttributeServiceInstanceID (Own_String (jc_instance c)) (service looped))"

definition jvm_process :: "'d jvm_collection option \<Rightarrow> 'd resource_metrics option" where
  "jvm_process data =
     (case data of
        None \<Rightarrow> None
      | Some c \<Rightarrow>
          Some \<lparr>rm_resource = Some (jvm_attributes c),
                rm_scopes = [\<lparr>sc_scope = Some (agent_name, agent_version, []),
                              sc_metrics = concat (map metric_vector (jc_metrics c))\<rparr>]\<rparr>)"

definition jvm_intercept :: "'d jvm_collection option list \<Rightarrow> 'd resource_metrics option list" where
  "jvm_intercept events = (if events = [] then [] else map jvm_process events)"

section \<open>What is exported\<close>

text \<open>A gauge whose points are all last values becomes a gauge with their values, or nothing when there are
  none.\<close>

definition gauge_message :: "'d sdk_metric \<Rightarrow> 'd proto_metric" where
  "gauge_message m =
     \<lparr>pm_name = mt_name m, pm_description = mt_description m, pm_unit = mt_unit m,
      pm_payload = (if mt_points m = [] then Payload_None
                    else Payload_Gauge (map (\<lambda>p. case snd p of Last_Value_Point v \<Rightarrow> number_point m (fst p) v) (mt_points m)))\<rparr>"

lemma PopulateInstrumentInfoMetrics_gauge:
  assumes "\<forall>p\<in>set (mt_points m). \<exists>v. snd p = Last_Value_Point v"
  shows "PopulateInstrumentInfoMetrics to_double m = Inr (gauge_message m)"
proof (cases "mt_points m")
  case Nil
  then show ?thesis
    by (simp add: PopulateInstrumentInfoMetrics_def GetAggregationType_def gauge_message_def)
next
  case (Cons p ps)
  have "map_r (gauge_point m) (mt_points m) =
      Inr (map (\<lambda>p. case snd p of Last_Value_Point v \<Rightarrow> number_point m (fst p) v) (mt_points m))"
    using assms by (intro map_r_Inr) (auto simp: gauge_point_def split: point_data.splits)
  moreover have "GetAggregationType m = Agg_Last_Value"
    using assms Cons by (auto simp: GetAggregationType_def)
  ultimately show ?thesis
    using Cons by (simp add: PopulateInstrumentInfoMetrics_def ConvertGaugeMetric_def gauge_message_def)
qed

lemma memory_points_last: "\<forall>p\<in>set (memory_points key mget pget m). \<exists>v. snd p = Last_Value_Point v"
  by (auto simp: memory_points_def memory_point_def pool_point_def last_value_def)

lemma metric_vector_converted:
  "map_r (PopulateInstrumentInfoMetrics to_double) (concat (map metric_vector ms)) =
     Inr (map gauge_message (concat (map metric_vector ms)))"
  by (intro map_r_Inr ballI PopulateInstrumentInfoMetrics_gauge)
    (auto simp: metric_vector_def memoryUsedMetric_def memoryCommittedMetric_def memoryInitedMetric_def new_metric_def
      intro: memory_points_last [rule_format])

definition jvm_message :: "'d jvm_collection \<Rightarrow> 'd proto_resource_metrics" where
  "jvm_message c =
     \<lparr>prm_resource = [(AttributeServiceName, AV_String (jc_service c)), (AttributeServiceInstanceID, AV_String (jc_instance c))],
      prm_schema_url = [],
      prm_scopes = [\<lparr>psm_scope = (agent_name, agent_version),
                     psm_metrics = map gauge_message (concat (map metric_vector (jc_metrics c)))\<rparr>]\<rparr>"

lemma jvm_attributes_eq:
  "jvm_attributes c =
     [(AttributeServiceName, Own_String (jc_service c)), (AttributeServiceInstanceID, Own_String (jc_instance c))]"
  by (simp add: jvm_attributes_def Let_def defaultResource_def AttributeServiceName_def AttributeServiceInstanceID_def)

lemma jvm_process_request:
  assumes "jvm_process (Some c) = Some d"
  shows "PopulateMetricsRequest to_double d request = Inr (request @ [jvm_message c])"
proof -
  have "rm_resource d = Some (jvm_attributes c)"
    "rm_scopes d = [\<lparr>sc_scope = Some (agent_name, agent_version, []), sc_metrics = concat (map metric_vector (jc_metrics c))\<rparr>]"
    using assms by (auto simp: jvm_process_def)
  then show ?thesis
    by (simp add: PopulateMetricsRequest_def PopulateResourceMetrics_def metric_vector_converted jvm_message_def
        PopulateResource_def jvm_attributes_eq)
qed

lemma metric_requests_jvm:
  "metric_requests to_double (map (\<lambda>c. jvm_process (Some c)) cs) request = Inr (request @ map jvm_message cs)"
proof (induction cs arbitrary: request)
  case (Cons c cs)
  obtain d where d: "jvm_process (Some c) = Some d" by (simp add: jvm_process_def)
  show ?case using Cons jvm_process_request [OF d] by (simp add: d)
qed simp

text \<open>A batch of JVM collections is exported as one message per collection, with the service and the
  instance as its resource, and for each report the three gauges of the memory used, committed and
  initially requested, one point for each memory area and pool.\<close>
lemma jvm_batch_exported:
  fixes cs :: "'d jvm_collection list"
  assumes "cs \<noteq> []"
  shows "metric_Consume to_double False (jvm_intercept (map Some cs)) = Inr (Some (map jvm_message cs))"
  using assms metric_requests_jvm [of to_double cs "[]"]
  by (simp add: metric_Consume_def jvm_intercept_def comp_def)

text \<open>Nothing else of a report reaches the exporter: the collections sent are the same whatever its
  garbage collections, processor load, threads, classes and memory limits are.\<close>
lemma jvm_rest_never_exported:
  fixes c :: "'d jvm_collection"
  shows "jvm_process (Some (c\<lparr>jc_metrics := map (\<lambda>m. m\<lparr>jm_gc := g m, jm_cpu := u m, jm_thread := t m, jm_class := k m,
      jm_memory := map (\<lambda>a. a\<lparr>me_max := x a\<rparr>) (jm_memory m), jm_pools := map (\<lambda>p. p\<lparr>po_max := y p\<rparr>) (jm_pools m)\<rparr>)
      (jc_metrics c)\<rparr>)) = jvm_process (Some c)"
proof -
  have "metric_vector (m\<lparr>jm_gc := g m, jm_cpu := u m, jm_thread := t m, jm_class := k m,
      jm_memory := map (\<lambda>a. a\<lparr>me_max := x a\<rparr>) (jm_memory m), jm_pools := map (\<lambda>p. p\<lparr>po_max := y p\<rparr>) (jm_pools m)\<rparr>) =
      metric_vector m" for m :: "'d jvm_metric"
    by (simp add: comp_def metric_vector_def memoryUsedMetric_def memoryCommittedMetric_def memoryInitedMetric_def
        new_metric_def memory_points_def memory_point_def pool_point_def)
  then show ?thesis by (simp add: jvm_process_def jvm_attributes_eq comp_def)
qed

text \<open>An event without data passes the interceptor as a null pointer and ends the program in the sink.\<close>

lemma metric_requests_null:
  "None \<in> set events \<Longrightarrow> metric_requests to_double (map jvm_process events) request = Inl Null_Deref"
proof (induction events arbitrary: request)
  case (Cons e events)
  show ?case
  proof (cases e)
    case None
    then show ?thesis by (simp add: jvm_process_def)
  next
    case (Some c)
    obtain d where d: "jvm_process (Some c) = Some d" by (simp add: jvm_process_def)
    show ?thesis using Cons Some jvm_process_request [OF d] by (simp add: d)
  qed
qed simp

lemma jvm_missing_data_ends_program:
  "None \<in> set events \<Longrightarrow> metric_Consume to_double False (jvm_intercept events) = Inl Null_Deref"
  by (auto simp: metric_Consume_def jvm_intercept_def metric_requests_null)

definition sample_jvm :: "int jvm_collection" where
  "sample_jvm =
     \<lparr>jc_service = ''s'', jc_instance = ''i'',
      jc_metrics = [\<lparr>jm_time = 5, jm_memory = [\<lparr>me_isheap = True, me_init = 1, me_max = 9, me_used = 2, me_committed = 3\<rparr>],
        jm_pools = [], jm_gc = [], jm_cpu = 0,
        jm_thread = \<lparr>th_live = 0, th_runnable = 0, th_blocked = 0, th_waiting = 0, th_timed_waiting = 0, th_daemon = 0, th_peak = 0\<rparr>,
        jm_class = \<lparr>cl_loaded = 0, cl_unloaded = 0, cl_total = 0\<rparr>\<rparr>]\<rparr>"

lemma jvm_batch_exported_witness:
  "metric_Consume uint False (jvm_intercept (map Some [sample_jvm])) = Inr (Some (map jvm_message [sample_jvm]))"
  by (rule jvm_batch_exported) simp

end
