(* ===== verification/Pipeline.thy ===== *)
theory Pipeline
  imports Jvm_Metrics
begin

text \<open>
  The pipeline between a source and its sinks: app/include/intercept/chain.h,
  app/source/intercept/chain.cc, app/include/sink/channel/batch.h, app/source/sink/pipeline/pipeline.cc
  and the flush of app/source/sink/channel/grpc_channel.cc. Interceptors and consumers are functions on
  a batch and on \<open>'s\<close>, all the state behind them; an interceptor also says whether it failed. The
  pipeline relies on them through the locale \<open>stages\<close>, which is interpreted on the JVM metric pipeline
  of app/source/source/skywalking/grpc/source.cc.
\<close>

type_synonym ('e, 's) interceptor = "'e list \<Rightarrow> 's \<Rightarrow> (bool \<times> 'e list \<times> 's) result"
type_synonym ('e, 's) consumer = "'e list \<Rightarrow> 's \<Rightarrow> ('e list \<times> 's) result"

section \<open>Chain and batch\<close>

record 'e chain =
  chain_buffer :: "'e list"
  chain_batch :: "'e list"
  maxBuffer :: nat

definition chain_new :: "'e chain" where
  "chain_new = \<lparr>chain_buffer = [], chain_batch = [], maxBuffer = 0\<rparr>"

definition addBuffer :: "'e \<Rightarrow> 'e chain \<Rightarrow> 'e chain" where
  "addBuffer e c = c\<lparr>chain_buffer := chain_buffer c @ [e]\<rparr>"

definition bufferSize :: "'e chain \<Rightarrow> nat" where
  "bufferSize c = length (chain_buffer c)"

definition clearBatch :: "'e chain \<Rightarrow> 'e chain" where
  "clearBatch c = c\<lparr>chain_batch := []\<rparr>"

definition isFull :: "'e chain \<Rightarrow> bool" where
  "isFull c \<longleftrightarrow> length (chain_buffer c) \<ge> maxBuffer c"

text \<open>\<open>fill\<close> swaps the events in, and the ones before are destroyed with the local vector.\<close>

definition flushBatch :: "'e chain \<Rightarrow> 'e chain" where
  "flushBatch c = c\<lparr>chain_buffer := [], chain_batch := chain_buffer c\<rparr>"

fun chain_process :: "('e, 's) interceptor list \<Rightarrow> 'e list \<Rightarrow> 's \<Rightarrow> ('e list \<times> 's) result" where
  "chain_process [] b s = Inr (b, s)"
| "chain_process (i # ics) b s =
     bind_r (i b s) (\<lambda>(failed, b1, s1). if failed then Inr (b1, s1) else chain_process ics b1 s1)"

section \<open>Pipeline\<close>

fun consume_all :: "('e, 's) consumer list \<Rightarrow> 'e list \<Rightarrow> 's \<Rightarrow> ('e list \<times> 's) result" where
  "consume_all [] b s = Inr (b, s)"
| "consume_all (c # cs) b s = bind_r (c b s) (\<lambda>(b1, s1). consume_all cs b1 s1)"

definition pipeline_flush ::
  "('e, 's) interceptor list \<Rightarrow> ('e, 's) consumer list \<Rightarrow> 'e chain \<times> 's \<Rightarrow> ('e chain \<times> 's) result" where
  "pipeline_flush ics cs p =
     (let (c, s) = p in
      if cs = [] then Inr (c, s)
      else if bufferSize c = 0 then Inr (c, s)
      else let c1 = flushBatch c
           in bind_r (chain_process ics (chain_batch c1) s) (\<lambda>(b, s1).
              bind_r (consume_all cs b s1) (\<lambda>(b2, s2). Inr (c1\<lparr>chain_batch := b2\<rparr>, s2))))"

definition pipeline_push ::
  "('e, 's) interceptor list \<Rightarrow> ('e, 's) consumer list \<Rightarrow> 'e \<Rightarrow> 'e chain \<times> 's \<Rightarrow> ('e chain \<times> 's) result" where
  "pipeline_push ics cs e p =
     (let c1 = addBuffer e (fst p)
      in if \<not> isFull c1 then Inr (c1, snd p) else pipeline_flush ics cs (c1, snd p))"

text \<open>The channel flushes its pipelines in order, each with its stages.\<close>

fun channel_flush ::
  "(('e, 's) interceptor list \<times> ('e, 's) consumer list \<times> 'e chain) list \<Rightarrow> 's \<Rightarrow> ('e chain list \<times> 's) result" where
  "channel_flush [] s = Inr ([], s)"
| "channel_flush ((ics, cs, c) # ps) s =
     bind_r (pipeline_flush ics cs (c, s)) (\<lambda>(c1, s1).
       bind_r (channel_flush ps s1) (\<lambda>(cs2, s2). Inr (c1 # cs2, s2)))"

section \<open>One event at a time\<close>

definition pass :: "('e, 's) interceptor list \<Rightarrow> ('e, 's) consumer list \<Rightarrow> 'e \<Rightarrow> 's \<Rightarrow> ('e list \<times> 's) result" where
  "pass ics cs e s = bind_r (chain_process ics [e] s) (\<lambda>(b, s1). consume_all cs b s1)"

definition idle :: "'e chain \<Rightarrow> bool" where
  "idle c \<longleftrightarrow> chain_buffer c = [] \<and> maxBuffer c = 0"

lemma push_idle:
  assumes "idle c" "cs \<noteq> []"
  shows "pipeline_push ics cs e (c, s) =
    bind_r (pass ics cs e s) (\<lambda>(b, s1). Inr (c\<lparr>chain_buffer := [], chain_batch := b\<rparr>, s1))"
  using assms
  by (simp add: pipeline_push_def pipeline_flush_def idle_def addBuffer_def isFull_def bufferSize_def flushBatch_def
      pass_def bind_r_assoc Let_def split_def)


text \<open>Without a consumer nothing is ever passed on and the buffer grows.\<close>

lemma push_without_consumer:
  "pipeline_push ics [] e (c, s) = Inr (addBuffer e c, s)"
  by (simp add: pipeline_push_def pipeline_flush_def Let_def)

lemma pushes_without_consumer:
  "fold_r (pipeline_push ics []) es (c, s) = Inr (c\<lparr>chain_buffer := chain_buffer c @ es\<rparr>, s)"
  by (induction es arbitrary: c) (simp_all add: push_without_consumer addBuffer_def)

section \<open>Stages that deliver\<close>

locale stages =
  fixes interceptors :: "('e, 's) interceptor list"
    and consumers :: "('e, 's) consumer list"
    and good :: "'e \<Rightarrow> bool"
    and deliver :: "'e \<Rightarrow> 's \<Rightarrow> 's"
  assumes some_consumer: "consumers \<noteq> []"
    and pass_good: "good e \<Longrightarrow> \<exists>b. pass interceptors consumers e s = Inr (b, deliver e s)"
begin

lemma delivered:
  assumes "\<forall>e\<in>set es. good e" "idle c"
  shows "\<exists>c'. fold_r (pipeline_push interceptors consumers) es (c, s) = Inr (c', fold deliver es s) \<and> idle c'"
  using assms
proof (induction es arbitrary: c s)
  case (Cons e es)
  obtain b where "pass interceptors consumers e s = Inr (b, deliver e s)" using pass_good [of e s] Cons.prems(1) by auto
  then have push: "pipeline_push interceptors consumers e (c, s) = Inr (c\<lparr>chain_buffer := [], chain_batch := b\<rparr>, deliver e s)"
    using push_idle [OF Cons.prems(2) some_consumer] by simp
  have "idle (c\<lparr>chain_buffer := [], chain_batch := b\<rparr>)" using Cons.prems(2) by (simp add: idle_def)
  from Cons.IH [OF _ this, of "deliver e s"] show ?case using Cons.prems(1) push by simp
qed simp

end

section \<open>The JVM metric pipeline\<close>

text \<open>An event carries a collection of the collect protocol before the interceptor and metric data behind it;
  the sink reads whatever it finds as metric data. The state is the list of requests it hands to the
  client, which sends none of them (\<open>Grpc_Receivers\<close>).\<close>

datatype 'd metric_event = Raw_Event "'d jvm_collection option" | Metric_Event "'d resource_metrics option"

fun raw_data :: "'d metric_event \<Rightarrow> 'd jvm_collection option result" where
  "raw_data (Raw_Event c) = Inr c"
| "raw_data (Metric_Event m) = Inl Dangling_Deref"

fun metric_data_of :: "'d metric_event \<Rightarrow> 'd resource_metrics option result" where
  "metric_data_of (Metric_Event m) = Inr m"
| "metric_data_of (Raw_Event c) = Inl Dangling_Deref"

type_synonym 'd sent = "'d proto_resource_metrics list list"

definition jvm_stage :: "('d metric_event, 's) interceptor" where
  "jvm_stage b s = bind_r (map_r raw_data b) (\<lambda>ds. Inr (False, map Metric_Event (jvm_intercept ds), s))"

definition metric_sink :: "(64 word \<Rightarrow> 'd) \<Rightarrow> ('d metric_event, 'd sent) consumer" where
  "metric_sink to_double b s =
     bind_r (map_r metric_data_of b) (\<lambda>ms.
       bind_r (metric_Consume to_double False ms) (\<lambda>r.
         Inr (map (\<lambda>_. Metric_Event None) b, s @ (case r of None \<Rightarrow> [] | Some q \<Rightarrow> [q]))))"

definition has_data :: "'d metric_event \<Rightarrow> bool" where
  "has_data e \<longleftrightarrow> (\<exists>c. e = Raw_Event (Some c))"

definition send_jvm :: "'d metric_event \<Rightarrow> 'd sent \<Rightarrow> 'd sent" where
  "send_jvm e s = (case e of Raw_Event (Some c) \<Rightarrow> s @ [[jvm_message c]] | _ \<Rightarrow> s)"

lemma jvm_pass:
  "pass [jvm_stage] [metric_sink to_double] (Raw_Event (Some c)) s =
     Inr ([Metric_Event None], s @ [[jvm_message c]])"
  using jvm_batch_exported [of "[c]" to_double]
  by (simp add: pass_def jvm_stage_def metric_sink_def jvm_intercept_def)

interpretation jvm: stages "[jvm_stage]" "[metric_sink to_double]" has_data send_jvm for to_double :: "64 word \<Rightarrow> 'd"
  by unfold_locales (auto simp: has_data_def send_jvm_def jvm_pass)

text \<open>Every JVM collection pushed into the metric pipeline is handed to the client in a request of its
  own, in the order of the pushes, and no request is handed over besides.\<close>
lemma jvm_pipeline_exports:
  fixes cs :: "'d jvm_collection list"
  shows "\<exists>c. fold_r (pipeline_push [jvm_stage] [metric_sink to_double]) (map (\<lambda>c. Raw_Event (Some c)) cs) (chain_new, sent) =
    Inr (c, sent @ map (\<lambda>c. [jvm_message c]) cs) \<and> idle c"
proof -
  have "\<forall>e\<in>set (map (\<lambda>c. Raw_Event (Some c)) cs). has_data e" by (auto simp: has_data_def)
  moreover have "idle chain_new" by (simp add: idle_def chain_new_def)
  ultimately obtain c where "fold_r (pipeline_push [jvm_stage] [metric_sink to_double]) (map (\<lambda>c. Raw_Event (Some c)) cs) (chain_new, sent) =
      Inr (c, fold send_jvm (map (\<lambda>c. Raw_Event (Some c)) cs) sent)" "idle c"
    using jvm.delivered by blast
  moreover have "fold send_jvm (map (\<lambda>c. Raw_Event (Some c)) cs) s = s @ map (\<lambda>c. [jvm_message c]) cs" for s :: "'d sent"
    by (induction cs arbitrary: s) (simp_all add: send_jvm_def)
  ultimately show ?thesis by auto
qed


end
