(* ===== verification/Call_Data.thy ===== *)
theory Call_Data
  imports Pipeline
begin

text \<open>
  The call objects of an asynchronous server, which nothing creates at present: app/include/api/call_data.h
  with its state machine, the classes of app/include/source/skywalking/grpc (trace_segment, logging, jvm_metric,
  management, meter and configuration _server_call_data.h and their sources), the loop that drives them
  (app/source/sink/channel/grpc_channel.cc), the call object of app/include/sink/deep_observe/node/call_data.h and the
  registry of app/include/sink/manager.h. An operation handed to gRPC is an entry of \<open>outstanding\<close> until its
  tag comes out of the completion queue, with a flag that says whether it succeeded. Pushing an event and
  flushing the pipelines are arguments.
\<close>

section \<open>Objects\<close>

datatype call_status = CREATE | PROCESS | FINISH

datatype call_kind = Trace_Segments | Logs | Jvm_Metrics | Management | Meters | Configurations

datatype call_op = Op_Request | Op_Read | Op_Finish

record 'm call_object =
  co_kind :: call_kind
  co_status :: call_status
  times :: nat
  co_object :: 'm

record ('m, 's) call_world =
  objects :: "(nat \<times> 'm call_object) list"
  next_object :: nat
  outstanding :: "(nat \<times> call_op) list"
  pipes :: 's

record ('m, 's) call_env =
  push_event :: "call_kind \<Rightarrow> 'm option \<Rightarrow> 's \<Rightarrow> 's result"
  flush_pipes :: "'s \<Rightarrow> 's result"
  msg_initialized :: "'m \<Rightarrow> bool"
  msg_default :: 'm

definition update_object :: "nat \<Rightarrow> ('m call_object \<Rightarrow> 'm call_object) \<Rightarrow> ('m, 's) call_world \<Rightarrow> (('m, 's) call_world) result" where
  "update_object a f w =
     (case map_of (objects w) a of
        None \<Rightarrow> Inl Dangling_Deref
      | Some c \<Rightarrow> Inr (w\<lparr>objects := AList.update a (f c) (objects w)\<rparr>))"

definition start_op :: "nat \<Rightarrow> call_op \<Rightarrow> ('m, 's) call_world \<Rightarrow> ('m, 's) call_world" where
  "start_op a op w = w\<lparr>outstanding := outstanding w @ [(a, op)]\<rparr>"

text \<open>The first \<open>Proceed\<close>, which four of the constructors call: the state changes before the object asks for a call.\<close>

definition on_create :: "nat \<Rightarrow> ('m, 's) call_world \<Rightarrow> (('m, 's) call_world) result" where
  "on_create a w = bind_r (update_object a (co_status_update (\<lambda>_. PROCESS)) w) (\<lambda>w1. Inr (start_op a Op_Request w1))"

definition constructor_proceeds :: "call_kind \<Rightarrow> bool" where
  "constructor_proceeds k \<longleftrightarrow> k \<noteq> Meters \<and> k \<noteq> Configurations"

definition new_call :: "('m, 's) call_env \<Rightarrow> call_kind \<Rightarrow> ('m, 's) call_world \<Rightarrow> (('m, 's) call_world) result" where
  "new_call V k w =
     (let a = next_object w;
          w1 = w\<lparr>objects := (a, \<lparr>co_kind = k, co_status = CREATE, times = 0, co_object = msg_default V\<rparr>) # objects w,
                 next_object := a + 1\<rparr>
      in if constructor_proceeds k then on_create a w1 else Inr w1)"

definition push_msg :: "('m, 's) call_env \<Rightarrow> call_kind \<Rightarrow> 'm option \<Rightarrow> ('m, 's) call_world \<Rightarrow> (('m, 's) call_world) result" where
  "push_msg V k m w = bind_r (push_event V k m (pipes w)) (\<lambda>s. Inr (w\<lparr>pipes := s\<rparr>))"

text \<open>\<open>reader.Finish(...)\<close> or \<open>response.Finish(...)\<close> and \<open>finish()\<close>, whose assertion holds in \<open>PROCESS\<close>.\<close>

definition finish_call :: "nat \<Rightarrow> ('m, 's) call_world \<Rightarrow> (('m, 's) call_world) result" where
  "finish_call a w = update_object a (co_status_update (\<lambda>_. FINISH)) (start_op a Op_Finish w)"

section \<open>Processing\<close>

text \<open>The first time, a trace call reads and is finished at once without a change of its state.\<close>

definition trace_handleData :: "('m, 's) call_env \<Rightarrow> 'm \<Rightarrow> ('m, 's) call_world \<Rightarrow> (('m, 's) call_world) result" where
  "trace_handleData V m w = (if \<not> msg_initialized V m then Inr w else push_msg V Trace_Segments (Some m) w)"

definition trace_onProcess :: "('m, 's) call_env \<Rightarrow> nat \<Rightarrow> 'm call_object \<Rightarrow> ('m, 's) call_world \<Rightarrow> (('m, 's) call_world) result" where
  "trace_onProcess V a c w =
     (if times c = 0
      then bind_r (new_call V Trace_Segments w) (\<lambda>w1.
           bind_r (update_object a (times_update Suc) (start_op a Op_Read w1)) (\<lambda>w2. Inr (start_op a Op_Finish w2)))
      else bind_r (update_object a (times_update Suc) w) (\<lambda>w1.
           if 1000 < times c + 1 then finish_call a w1
           else bind_r (trace_handleData V (co_object c) w1) (\<lambda>w2. Inr (start_op a Op_Read w2))))"

text \<open>A log call pushes an event whose data have been moved away.\<close>

definition log_onProcess :: "('m, 's) call_env \<Rightarrow> nat \<Rightarrow> 'm call_object \<Rightarrow> ('m, 's) call_world \<Rightarrow> (('m, 's) call_world) result" where
  "log_onProcess V a c w =
     bind_r (if times c = 0 then new_call V Logs w else Inr w) (\<lambda>w1.
     bind_r (update_object a (times_update Suc) w1) (\<lambda>w2.
       if 1000 < times c + 1 then finish_call a w2
       else bind_r (if 1 < times c + 1 then push_msg V Logs None w2 else Inr w2) (\<lambda>w3. Inr (start_op a Op_Read w3))))"

definition jvm_onProcess :: "('m, 's) call_env \<Rightarrow> nat \<Rightarrow> 'm call_object \<Rightarrow> ('m, 's) call_world \<Rightarrow> (('m, 's) call_world) result" where
  "jvm_onProcess V a c w =
     bind_r (new_call V Jvm_Metrics w) (\<lambda>w1. bind_r (push_msg V Jvm_Metrics (Some (co_object c)) w1) (finish_call a))"

definition management_onProcess :: "('m, 's) call_env \<Rightarrow> nat \<Rightarrow> ('m, 's) call_world \<Rightarrow> (('m, 's) call_world) result" where
  "management_onProcess V a w = bind_r (new_call V Management w) (finish_call a)"

definition call_process :: "('m, 's) call_env \<Rightarrow> nat \<Rightarrow> 'm call_object \<Rightarrow> ('m, 's) call_world \<Rightarrow> (('m, 's) call_world) result" where
  "call_process V a c w =
     (case co_kind c of
        Trace_Segments \<Rightarrow> trace_onProcess V a c w
      | Logs \<Rightarrow> log_onProcess V a c w
      | Jvm_Metrics \<Rightarrow> jvm_onProcess V a c w
      | Management \<Rightarrow> management_onProcess V a w
      | Meters \<Rightarrow> Inr w
      | Configurations \<Rightarrow> Inr w)"

definition Proceed :: "('m, 's) call_env \<Rightarrow> nat \<Rightarrow> ('m, 's) call_world \<Rightarrow> (('m, 's) call_world) result" where
  "Proceed V a w =
     (case map_of (objects w) a of
        None \<Rightarrow> Inl Dangling_Deref
      | Some c \<Rightarrow>
          (case co_status c of
             CREATE \<Rightarrow> on_create a w
           | PROCESS \<Rightarrow> call_process V a c w
           | FINISH \<Rightarrow> Inr (w\<lparr>objects := AList.delete a (objects w)\<rparr>)))"

section \<open>The channel\<close>

text \<open>What comes out of the queue: the tag, its operation, whether it succeeded and the message that was read.\<close>

record 'm completion =
  cn_tag :: nat
  cn_op :: call_op
  cn_ok :: bool
  cn_message :: 'm

text \<open>A call with one message brings it with the request, a stream with each read.\<close>

definition fills_message :: "call_op \<Rightarrow> call_kind \<Rightarrow> bool" where
  "fills_message op k \<longleftrightarrow> op = Op_Read \<or> op = Op_Request \<and> (k = Jvm_Metrics \<or> k = Management)"

definition store_message :: "'m completion \<Rightarrow> ('m, 's) call_world \<Rightarrow> (('m, 's) call_world) result" where
  "store_message n w =
     (if cn_op n = Op_Finish then Inr w
      else update_object (cn_tag n)
             (\<lambda>c. if fills_message (cn_op n) (co_kind c) then c\<lparr>co_object := cn_message n\<rparr> else c) w)"

text \<open>One round of the loop of \<open>run\<close>. A failed operation is dropped with its object.\<close>

definition channel_round :: "('m, 's) call_env \<Rightarrow> 'm completion \<Rightarrow> ('m, 's) call_world \<Rightarrow> (('m, 's) call_world) result" where
  "channel_round V n w =
     (let w1 = w\<lparr>outstanding := remove1 (cn_tag n, cn_op n) (outstanding w)\<rparr>
      in bind_r (if cn_ok n then store_message n w1 else Inr w1) (\<lambda>w2.
         bind_r (flush_pipes V (pipes w2)) (\<lambda>s.
           let w3 = w2\<lparr>pipes := s\<rparr> in if cn_ok n then Proceed V (cn_tag n) w3 else Inr w3)))"

text \<open>\<open>run\<close> takes completions until the queue is shut down, which ends the list.\<close>

definition channel_run :: "('m, 's) call_env \<Rightarrow> 'm completion list \<Rightarrow> ('m, 's) call_world \<Rightarrow> (('m, 's) call_world) result" where
  "channel_run V = fold_r (channel_round V)"

inductive admissible_run :: "('m, 's) call_env \<Rightarrow> ('m, 's) call_world \<Rightarrow> 'm completion list \<Rightarrow> bool" for V where
  Stop: "admissible_run V w []"
| Next: "(cn_tag n, cn_op n) \<in> set (outstanding w) \<Longrightarrow> (\<And>w'. channel_round V n w = Inr w' \<Longrightarrow> admissible_run V w' ns) \<Longrightarrow>
         admissible_run V w (n # ns)"

inductive_cases admissible_runE: "admissible_run V w (n # ns)"

section \<open>Calls that answer once\<close>

text \<open>For the kinds whose objects have one operation at a time, every outstanding operation belongs to a live object.\<close>

definition one_at_a_time :: "call_kind \<Rightarrow> bool" where
  "one_at_a_time k \<longleftrightarrow> k \<in> {Logs, Jvm_Metrics, Management}"

definition calls_ok :: "('m, 's) call_world \<Rightarrow> bool" where
  "calls_ok w \<longleftrightarrow>
     umap_ok (objects w) \<and> (\<forall>(a, c)\<in>set (objects w). a < next_object w \<and> one_at_a_time (co_kind c) \<and> co_status c \<noteq> CREATE) \<and>
     distinct (map fst (outstanding w)) \<and> fst ` set (outstanding w) \<subseteq> fst ` set (objects w)"

text \<open>The world while the object \<open>a\<close> is at work: it is live and has nothing outstanding.\<close>

definition at_work :: "nat \<Rightarrow> ('m, 's) call_world \<Rightarrow> bool" where
  "at_work a w \<longleftrightarrow> calls_ok w \<and> a \<in> fst ` set (objects w) \<and> a \<notin> fst ` set (outstanding w)"

lemma live_object: "umap_ok m \<Longrightarrow> a \<in> fst ` set m \<longleftrightarrow> (\<exists>c. map_of m a = Some c \<and> (a, c) \<in> set m)"
  by (metis map_of_SomeD map_of_eq_None_iff not_None_eq image_eqI fst_conv)

lemma set_update_subset: "set (AList.update a c m) \<subseteq> insert (a, c) (set m)"
  by (induction m) auto

definition good_object :: "nat \<Rightarrow> nat \<times> 'm call_object \<Rightarrow> bool" where
  "good_object n p \<longleftrightarrow> fst p < n \<and> one_at_a_time (co_kind (snd p)) \<and> co_status (snd p) \<noteq> CREATE"

lemma calls_ok_alt:
  "calls_ok w \<longleftrightarrow> umap_ok (objects w) \<and> (\<forall>p\<in>set (objects w). good_object (next_object w) p) \<and>
     distinct (map fst (outstanding w)) \<and> fst ` set (outstanding w) \<subseteq> fst ` set (objects w)"
  by (auto simp: calls_ok_def good_object_def)

lemma update_object_ok:
  assumes "at_work a w" "\<And>c. one_at_a_time (co_kind c) \<Longrightarrow> one_at_a_time (co_kind (f c))"
    and "\<And>c. co_status c \<noteq> CREATE \<Longrightarrow> co_status (f c) \<noteq> CREATE"
  shows "\<exists>w'. update_object a f w = Inr w' \<and> at_work a w'"
proof -
  have w: "calls_ok w" "a \<in> fst ` set (objects w)" "a \<notin> fst ` set (outstanding w)" using assms(1) by (simp_all add: at_work_def)
  then have ok: "umap_ok (objects w)" by (simp add: calls_ok_def)
  obtain c where c: "map_of (objects w) a = Some c" "(a, c) \<in> set (objects w)"
    using w(2) live_object [OF ok] by auto
  let ?M = "AList.update a (f c) (objects w)"
  have "good_object (next_object w) (a, c)" using w(1) c(2) by (simp add: calls_ok_alt)
  then have "good_object (next_object w) (a, f c)" using assms(2,3) by (simp add: good_object_def)
  moreover have "p = (a, f c) \<or> p \<in> set (objects w)" if "p \<in> set ?M" for p
    using that set_update_subset by fast
  moreover have "\<forall>p\<in>set (objects w). good_object (next_object w) p" using w(1) by (simp add: calls_ok_alt)
  ultimately have good: "\<forall>p\<in>set ?M. good_object (next_object w) p" by metis
  have keys: "fst ` set ?M = fst ` set (objects w)"
    using w(2) by (simp add: AList.dom_update insert_absorb)
  have "at_work a (w\<lparr>objects := ?M\<rparr>)"
    using w good keys umap_ok_update [OF ok, of a "f c"] by (simp add: at_work_def calls_ok_alt)
  then show ?thesis using c(1) by (simp add: update_object_def)
qed

lemma start_op_ok: "at_work a w \<Longrightarrow> calls_ok (start_op a op w)"
  by (auto simp: at_work_def calls_ok_def start_op_def)

lemma new_call_ok:
  assumes "at_work a w" "one_at_a_time k"
  shows "\<exists>w'. new_call V k w = Inr w' \<and> at_work a w'"
proof -
  let ?b = "next_object w"
  let ?c = "\<lparr>co_kind = k, co_status = PROCESS, times = 0, co_object = msg_default V\<rparr>"
  have w: "umap_ok (objects w)" "\<forall>p\<in>set (objects w). good_object (next_object w) p" "distinct (map fst (outstanding w))"
    "fst ` set (outstanding w) \<subseteq> fst ` set (objects w)" "a \<in> fst ` set (objects w)" "a \<notin> fst ` set (outstanding w)"
    using assms(1) by (simp_all add: at_work_def calls_ok_alt)
  have fresh: "?b \<notin> fst ` set (objects w)" using w(2) by (auto simp: good_object_def)
  have ne: "a \<noteq> ?b" using fresh w(5) by metis
  have grow: "good_object (Suc n) p" if "good_object n p" for n and p :: "nat \<times> 'a call_object"
    using that by (simp add: good_object_def)
  let ?w' = "w\<lparr>objects := (?b, ?c) # objects w, next_object := ?b + 1, outstanding := outstanding w @ [(?b, Op_Request)]\<rparr>"
  have "new_call V k w = Inr ?w'"
    using assms(2) by (auto simp: new_call_def constructor_proceeds_def one_at_a_time_def on_create_def update_object_def start_op_def Let_def)
  moreover have "at_work a ?w'"
    using w fresh grow ne assms(2) by (auto simp: at_work_def calls_ok_alt umap_ok_def good_object_def [of _ "(?b, ?c)"])
  ultimately show ?thesis by blast
qed

text \<open>The pipelines take every event.\<close>

definition total_pipes :: "('m, 's) call_env \<Rightarrow> bool" where
  "total_pipes V \<longleftrightarrow> (\<forall>k m s. \<exists>s'. push_event V k m s = Inr s') \<and> (\<forall>s. \<exists>s'. flush_pipes V s = Inr s')"

lemma at_work_pipes [simp]: "at_work a (w\<lparr>pipes := s\<rparr>) = at_work a w" "calls_ok (w\<lparr>pipes := s\<rparr>) = calls_ok w"
  by (simp_all add: at_work_def calls_ok_def)

lemma push_msg_ok:
  assumes "total_pipes V" "at_work a w"
  shows "\<exists>w'. push_msg V k m w = Inr w' \<and> at_work a w'"
proof -
  obtain s where "push_event V k m (pipes w) = Inr s" using assms(1) unfolding total_pipes_def by blast
  then show ?thesis using assms(2) by (simp add: push_msg_def)
qed

lemma finish_call_ok:
  assumes "at_work a w"
  shows "\<exists>w'. finish_call a w = Inr w' \<and> calls_ok w'"
proof -
  obtain w' where w': "update_object a (co_status_update (\<lambda>_. FINISH)) w = Inr w'" "at_work a w'"
    using update_object_ok [OF assms, of "co_status_update (\<lambda>_. FINISH)"] by auto
  have "finish_call a w = Inr (start_op a Op_Finish w')"
    using w'(1) by (auto simp: finish_call_def update_object_def start_op_def split: option.splits)
  then show ?thesis using start_op_ok [OF w'(2)] by blast
qed

lemma log_onProcess_ok:
  assumes "total_pipes V" "at_work a w"
  shows "\<exists>w'. log_onProcess V a c w = Inr w' \<and> calls_ok w'"
proof -
  obtain w1 where w1: "(if times c = 0 then new_call V Logs w else Inr w) = Inr w1" "at_work a w1"
    using new_call_ok [OF assms(2), of Logs V] assms(2) by (cases "times c = 0") (auto simp: one_at_a_time_def)
  obtain w2 where w2: "update_object a (times_update Suc) w1 = Inr w2" "at_work a w2"
    using update_object_ok [OF w1(2), of "times_update Suc"] by auto
  obtain w3 where w3: "(if 1 < times c + 1 then push_msg V Logs None w2 else Inr w2) = Inr w3" "at_work a w3"
    using push_msg_ok [OF assms(1) w2(2), of Logs None] w2(2) by (cases "1 < times c + 1") auto
  show ?thesis
    using w1(1) w2 w3 finish_call_ok [OF w2(2)] start_op_ok [OF w3(2)] unfolding log_onProcess_def by auto
qed

lemma jvm_onProcess_ok:
  assumes "total_pipes V" "at_work a w"
  shows "\<exists>w'. jvm_onProcess V a c w = Inr w' \<and> calls_ok w'"
proof -
  obtain w1 where w1: "new_call V Jvm_Metrics w = Inr w1" "at_work a w1"
    using new_call_ok [OF assms(2), of Jvm_Metrics V] by (auto simp: one_at_a_time_def)
  obtain w2 where "push_msg V Jvm_Metrics (Some (co_object c)) w1 = Inr w2" "at_work a w2"
    using push_msg_ok [OF assms(1) w1(2)] by blast
  then show ?thesis using w1(1) finish_call_ok [of a w2] by (simp add: jvm_onProcess_def)
qed

lemma management_onProcess_ok: "at_work a w \<Longrightarrow> \<exists>w'. management_onProcess V a w = Inr w' \<and> calls_ok w'"
  using new_call_ok [of a w Management V] finish_call_ok by (fastforce simp: management_onProcess_def one_at_a_time_def)

lemma delete_object_ok:
  assumes "at_work a w"
  shows "calls_ok (w\<lparr>objects := AList.delete a (objects w)\<rparr>)"
proof -
  have "fst ` set (AList.delete a (objects w)) = fst ` set (objects w) - {a}"
    using AList.delete_keys [of a "objects w"] by (metis list.set_map set_removeAll)
  moreover have "\<forall>p\<in>set (AList.delete a (objects w)). good_object (next_object w) p"
    using assms by (auto simp: AList.delete_eq at_work_def calls_ok_alt)
  moreover have "fst ` set (outstanding w) \<subseteq> fst ` set (objects w) - {a}"
    using assms unfolding at_work_def calls_ok_alt by blast
  ultimately show ?thesis
    using assms unfolding at_work_def calls_ok_alt by (simp add: umap_ok_delete)
qed

lemma Proceed_ok:
  assumes "total_pipes V" "at_work a w"
  shows "\<exists>w'. Proceed V a w = Inr w' \<and> calls_ok w'"
proof -
  have w: "umap_ok (objects w)" "\<forall>p\<in>set (objects w). good_object (next_object w) p" "a \<in> fst ` set (objects w)"
    using assms(2) by (simp_all add: at_work_def calls_ok_alt)
  obtain c where c: "map_of (objects w) a = Some c" "(a, c) \<in> set (objects w)"
    using w(3) live_object [OF w(1)] by auto
  have "good_object (next_object w) (a, c)" using w(2) c(2) by blast
  then have "co_kind c \<in> {Logs, Jvm_Metrics, Management}" "co_status c \<noteq> CREATE" by (simp_all add: good_object_def one_at_a_time_def)
  then show ?thesis
    using c(1) delete_object_ok [OF assms(2)] log_onProcess_ok [OF assms, of c] jvm_onProcess_ok [OF assms, of c]
      management_onProcess_ok [OF assms(2), of V]
    by (cases "co_status c") (auto simp: Proceed_def call_process_def)
qed

lemma completion_at_work:
  assumes "calls_ok w" "(a, op) \<in> set (outstanding w)"
  shows "at_work a (w\<lparr>outstanding := remove1 (a, op) (outstanding w)\<rparr>)"
proof -
  have d: "distinct (map fst (outstanding w))" "fst ` set (outstanding w) \<subseteq> fst ` set (objects w)"
    using assms(1) by (simp_all add: calls_ok_def)
  have "distinct (outstanding w)" using d(1) by (simp add: distinct_map)
  then have r: "set (remove1 (a, op) (outstanding w)) = set (outstanding w) - {(a, op)}" by simp
  moreover have "a \<notin> fst ` (set (outstanding w) - {(a, op)})"
    using d(1) assms(2) by (auto dest: eq_key_imp_eq_value)
  moreover have "distinct (map fst (remove1 (a, op) (outstanding w)))"
    using d(1) \<open>distinct (outstanding w)\<close> by (auto simp: distinct_map r intro: inj_on_subset)
  moreover have "a \<in> fst ` set (objects w)" using d(2) assms(2) by force
  ultimately show ?thesis
    using assms d(2) by (auto simp: at_work_def calls_ok_def)
qed

lemma store_message_ok: "at_work (cn_tag n) w \<Longrightarrow> \<exists>w'. store_message n w = Inr w' \<and> at_work (cn_tag n) w'"
  by (cases "cn_op n = Op_Finish") (auto simp: store_message_def intro!: update_object_ok split: if_splits)

lemma channel_round_ok:
  assumes "total_pipes V" "calls_ok w" "(cn_tag n, cn_op n) \<in> set (outstanding w)"
  shows "\<exists>w'. channel_round V n w = Inr w' \<and> calls_ok w'"
proof -
  let ?w1 = "w\<lparr>outstanding := remove1 (cn_tag n, cn_op n) (outstanding w)\<rparr>"
  have w1: "at_work (cn_tag n) ?w1" by (rule completion_at_work [OF assms(2,3)])
  then obtain w2 where w2: "(if cn_ok n then store_message n ?w1 else Inr ?w1) = Inr w2" "at_work (cn_tag n) w2"
    using store_message_ok [OF w1] by (cases "cn_ok n") auto
  obtain s where s: "flush_pipes V (pipes w2) = Inr s" using assms(1) unfolding total_pipes_def by blast
  have "at_work (cn_tag n) (w2\<lparr>pipes := s\<rparr>)" using w2(2) by simp
  from Proceed_ok [OF assms(1) this] w2 s show ?thesis
    by (auto simp: channel_round_def Let_def at_work_def)
qed

lemma call_objects_never_dangle:
  "admissible_run V w ns \<Longrightarrow> total_pipes V \<Longrightarrow> calls_ok w \<Longrightarrow> \<exists>w'. channel_run V ns w = Inr w' \<and> calls_ok w'"
proof (induction rule: admissible_run.induct)
  case (Next n w ns)
  obtain w' where "channel_round V n w = Inr w'" "calls_ok w'"
    using channel_round_ok [OF Next.prems(1,2) Next.hyps(1)] by blast
  then show ?case using Next.IH Next.prems(1) by (simp add: channel_run_def)
qed (simp add: channel_run_def)

text \<open>The server's first objects.\<close>

definition first_calls :: "('m, 's) call_env \<Rightarrow> 's \<Rightarrow> (('m, 's) call_world) result" where
  "first_calls V s =
     fold_r (new_call V) [Logs, Jvm_Metrics, Management] \<lparr>objects = [], next_object = 0, outstanding = [], pipes = s\<rparr>"

lemma first_calls_ok: "\<exists>w. first_calls V s = Inr w \<and> calls_ok w \<and> length (outstanding w) = 3"
  by (simp add: first_calls_def new_call_def constructor_proceeds_def on_create_def update_object_def start_op_def Let_def
      calls_ok_def one_at_a_time_def umap_ok_def)

section \<open>A trace call\<close>

text \<open>Its object has two operations outstanding after the first round, and the message that was read is pushed
  once for the read and once more for the finish, which leaves the object in \<open>PROCESS\<close>.\<close>

definition trace_world :: "'m \<Rightarrow> 's \<Rightarrow> ('m, 's) call_world" where
  "trace_world m s =
     \<lparr>objects = [(0, \<lparr>co_kind = Trace_Segments, co_status = PROCESS, times = 0, co_object = m\<rparr>)],
      next_object = 1, outstanding = [(0, Op_Request)], pipes = s\<rparr>"

definition list_env :: "'m \<Rightarrow> ('m, 'm list) call_env" where
  "list_env d = \<lparr>push_event = \<lambda>k m s. Inr (s @ (case m of None \<Rightarrow> [] | Some x \<Rightarrow> [x])), flush_pipes = Inr,
     msg_initialized = \<lambda>m. True, msg_default = d\<rparr>"

lemma trace_message_pushed_twice:
  "\<exists>w. channel_run (list_env d)
      [\<lparr>cn_tag = 0, cn_op = Op_Request, cn_ok = True, cn_message = m\<rparr>,
       \<lparr>cn_tag = 0, cn_op = Op_Read, cn_ok = True, cn_message = x\<rparr>,
       \<lparr>cn_tag = 0, cn_op = Op_Finish, cn_ok = True, cn_message = m\<rparr>] (trace_world d []) = Inr w \<and>
     pipes w = [x, x] \<and> map_option co_status (map_of (objects w) 0) = Some PROCESS"
  by (simp add: channel_run_def channel_round_def trace_world_def list_env_def store_message_def fills_message_def
      update_object_def Proceed_def call_process_def trace_onProcess_def trace_handleData_def push_msg_def new_call_def
      constructor_proceeds_def on_create_def start_op_def Let_def)

text \<open>An object whose operation failed stays for good: nothing is outstanding that could delete it.\<close>

lemma failed_operation_leaks:
  assumes "calls_ok w" "(a, op) \<in> set (outstanding w)" "flush_pipes V (pipes w) = Inr s"
  shows "\<exists>w'. channel_round V \<lparr>cn_tag = a, cn_op = op, cn_ok = False, cn_message = m\<rparr> w = Inr w' \<and>
           objects w' = objects w \<and> a \<notin> fst ` set (outstanding w')"
  using completion_at_work [OF assms(1,2)] assms(3) by (simp add: channel_round_def at_work_def)

section \<open>The call object of the node client\<close>

text \<open>The object, or nothing once it has deleted itself; an empty function that is called throws.\<close>

record 's node_call_data =
  nc_status :: call_status
  nc_callable :: "(bool \<Rightarrow> 's \<Rightarrow> 's) option"

definition node_Proceed :: "bool \<Rightarrow> 's node_call_data \<times> 's \<Rightarrow> ('s node_call_data option \<times> 's) result" where
  "node_Proceed ok p =
     (case nc_status (fst p) of
        CREATE \<Rightarrow> Inr (Some ((fst p)\<lparr>nc_status := PROCESS\<rparr>), snd p)
      | PROCESS \<Rightarrow> (case nc_callable (fst p) of None \<Rightarrow> Inl Bad_Variant | Some f \<Rightarrow> Inr (None, f ok (snd p)))
      | FINISH \<Rightarrow> Inr (None, snd p))"

definition node_call_data_new :: "'s \<Rightarrow> ('s node_call_data option \<times> 's) result" where
  "node_call_data_new s = node_Proceed True (\<lparr>nc_status = CREATE, nc_callable = None\<rparr>, s)"

definition setCallable :: "(bool \<Rightarrow> 's \<Rightarrow> 's) \<Rightarrow> 's node_call_data \<Rightarrow> 's node_call_data" where
  "setCallable f c = c\<lparr>nc_callable := Some f\<rparr>"

lemma node_call_ends:
  "\<exists>c. node_call_data_new s = Inr (Some c, s) \<and> node_Proceed ok (setCallable f c, t) = Inr (None, f ok t)"
  by (simp add: node_call_data_new_def node_Proceed_def setCallable_def)

section \<open>The registry of sinks\<close>

text \<open>A map from names; the empty object stands for a name that is not bound.\<close>

definition bind :: "string \<Rightarrow> 'f \<Rightarrow> (string \<times> 'f) list \<Rightarrow> bool \<times> (string \<times> 'f) list" where
  "bind name f m =
     (if name = [] then (False, m) else if map_of m name \<noteq> None then (False, m) else (True, smap_put name f m))"

definition get :: "'f \<Rightarrow> string \<Rightarrow> (string \<times> 'f) list \<Rightarrow> 'f" where
  "get emptyObject name m =
     (if name = [] then emptyObject else case map_of m name of None \<Rightarrow> emptyObject | Some f \<Rightarrow> f)"

definition foreachContainer :: "('f \<Rightarrow> 's \<Rightarrow> 's) \<Rightarrow> (string \<times> 'f) list \<Rightarrow> 's \<Rightarrow> 's" where
  "foreachContainer closure m s = fold (\<lambda>p. closure (snd p)) m s"

lemma bind_once:
  assumes "smap_ok m" "name \<noteq> []" "map_of m name = None"
  shows "fst (bind name f m)" "get e name (snd (bind name f m)) = f" "smap_ok (snd (bind name f m))"
    "\<not> fst (bind name g (snd (bind name f m)))" "k \<noteq> name \<Longrightarrow> get e k (snd (bind name f m)) = get e k m"
  using assms by (simp_all add: bind_def get_def smap_ok_put)

end
