(* ===== verification/Kube_Watch.thy ===== *)
theory Kube_Watch
  imports Name_Control
begin

text \<open>
  The Kubernetes discovery source (app/source/source/kubernetes): the event handler of watcher.cc
  with the three dispatchers it feeds (service_dispatcher.cc, pods_dispatcher.cc,
  endpoint_dispatcher.cc), which turn a watch event into an operation of \<open>NameControl\<close>, and the
  watcher thread with its start and stop protocol as a step relation.

  Parameters: the JSON parser (\<open>parse\<close>, \<open>None\<close> for \<open>HasParseError\<close>) with the accessors
  \<open>J\<close>, and the generated Kubernetes client, of which only the call and its return are visible
  (\<open>Call\<close> and \<open>Return\<close> labels; while a call runs it may deliver events).
\<close>

section \<open>Dispatchers\<close>

text \<open>const.h\<close>

definition ev_added :: string where "ev_added = ''ADDED''"
definition ev_modified :: string where "ev_modified = ''MODIFIED''"
definition ev_deleted :: string where "ev_deleted = ''DELETED''"
definition ev_bookmark :: string where "ev_bookmark = ''BOOKMARK''"
definition ev_error :: string where "ev_error = ''ERROR''"

lemmas ev_defs = ev_added_def ev_modified_def ev_deleted_def ev_bookmark_def ev_error_def

definition dispatch_service :: "'j json_api \<Rightarrow> 'j \<Rightarrow> name_control \<Rightarrow> name_control result" where
  "dispatch_service J doc nc =
     bind_r (service_parse J doc empty_service) (\<lambda>(ret, service).
       if \<not> ret then bind_r (get_string J doc) (\<lambda>_. Inr nc)
       else guard_r (has_member J doc ''type'') nc (
         bind_r (bind_r (member_value J doc ''type'') (get_string J)) (\<lambda>t.
           if t = ev_added then set_service service nc
           else if t = ev_modified then set_service service nc
           else if t = ev_deleted then remove_service service nc
           else if t = ev_bookmark then Inr nc
           else if t = ev_error then Inr nc
           else Inr nc)))"

definition dispatch_pod :: "'j json_api \<Rightarrow> 'j \<Rightarrow> name_control \<Rightarrow> name_control result" where
  "dispatch_pod J doc nc =
     bind_r (pod_parse J doc empty_pod) (\<lambda>(ret, p).
       if \<not> ret then Inr nc
       else guard_r (has_member J doc ''type'') nc (
         bind_r (bind_r (member_value J doc ''type'') (get_string J)) (\<lambda>t.
           if t = ev_added then Inr (set_pod p nc)
           else if t = ev_modified then Inr (set_pod p nc)
           else if t = ev_deleted then Inr (remove_pod p nc)
           else if t = ev_bookmark then Inr nc
           else if t = ev_error then Inr nc
           else Inr nc)))"

definition dispatch_endpoint :: "'j json_api \<Rightarrow> 'j \<Rightarrow> name_control \<Rightarrow> name_control result" where
  "dispatch_endpoint J doc nc =
     guard_r (has_member J doc ''type'') nc (
     bind_r (endpoint_parse J doc empty_endpoint) (\<lambda>(ret, e).
       if \<not> ret then Inr nc
       else bind_r (bind_r (member_value J doc ''type'') (get_string J)) (\<lambda>t.
           if t = ev_added then set_endpoint e nc
           else if t = ev_modified then set_endpoint e nc
           else if t = ev_deleted then remove_endpoint e nc
           else if t = ev_bookmark then Inr nc
           else if t = ev_error then Inr nc
           else Inr nc)))"

datatype dispatcher = Service_Dispatcher | Pods_Dispatcher | Endpoint_Dispatcher

fun dispatch :: "dispatcher \<Rightarrow> 'j json_api \<Rightarrow> 'j \<Rightarrow> name_control \<Rightarrow> name_control result" where
  "dispatch Service_Dispatcher = dispatch_service"
| "dispatch Pods_Dispatcher = dispatch_pod"
| "dispatch Endpoint_Dispatcher = dispatch_endpoint"

section \<open>The event handler\<close>

text \<open>The static map \<open>dispatchers\<close> is filled by \<open>Watcher::start\<close>.\<close>

definition registered :: "string \<Rightarrow> dispatcher option" where
  "registered = [''Service'' \<mapsto> Service_Dispatcher, ''Pod'' \<mapsto> Pods_Dispatcher, ''Endpoints'' \<mapsto> Endpoint_Dispatcher]"

definition on_pod_event_comes ::
  "(string \<Rightarrow> 'j option) \<Rightarrow> 'j json_api \<Rightarrow> (string \<Rightarrow> dispatcher option) \<Rightarrow> string \<Rightarrow>
     name_control \<Rightarrow> name_control result" where
  "on_pod_event_comes parse J ds event_string nc =
     (case parse event_string of
        None \<Rightarrow> Inr nc
      | Some doc \<Rightarrow>
          guard_r (Inr (is_object J doc)) nc (
          guard_r (has_member J doc ''object'') nc (
          bind_r (member_value J doc ''object'') (\<lambda>object.
          guard_r (Inr (is_object J object)) nc (
          guard_r (has_member J object ''kind'') nc (
          bind_r (member_value J object ''kind'') (\<lambda>kind.
          guard_r (Inr (is_string J kind)) nc (
          bind_r (get_string J kind) (\<lambda>k.
            case ds k of
              None \<Rightarrow> Inr nc
            | Some d \<Rightarrow> dispatch d J doc nc)))))))))"

lemma on_event_dispatches:
  assumes "parse ev = Some doc" "json_str J doc [''object'', ''kind''] = Some k" "ds k = Some d"
    and "json_path J doc [''object''] = Some ob" "is_object J ob"
  shows "on_pod_event_comes parse J ds ev nc = dispatch d J doc nc"
  using assms by (auto simp: on_pod_event_comes_def cpp_simps json_path.simps(1) has_member_def
      member_value_def get_string_def)

text \<open>An event that is not a known object leaves the directory alone, without a fault.\<close>

lemma on_event_ignored:
  assumes "\<And>doc k. parse ev = Some doc \<Longrightarrow> json_str J doc [''object'', ''kind''] = Some k \<Longrightarrow> ds k = None"
  shows "on_pod_event_comes parse J ds ev nc = Inr nc"
  using assms
  by (auto simp: on_pod_event_comes_def guard_r_def has_member_def member_value_def get_string_def
      json_str_def json_path.simps split: option.splits)

section \<open>The watcher thread\<close>

datatype watch_kind = W_Service | W_Endpoints | W_Pods

text \<open>The thread is at the test of \<open>while (!is_shutdown_)\<close>, at the entry of one of the three
  \<open>watch_list\<close> functions, or inside the client call that function makes.\<close>

datatype thread_pc = Not_Started | Loop_Head | Enter watch_kind | Calling watch_kind | Exited

record watcher =
  shutdown :: bool
  client :: bool
  pc :: thread_pc
  dispatchers :: "string \<Rightarrow> dispatcher option"
  directory :: name_control

definition watcher_new :: watcher where
  "watcher_new = \<lparr>shutdown = False, client = False, pc = Not_Started, dispatchers = (\<lambda>_. None),
                  directory = name_control_new\<rparr>"

fun after_watch :: "watch_kind \<Rightarrow> thread_pc" where
  "after_watch W_Service = Enter W_Endpoints"
| "after_watch W_Endpoints = Enter W_Pods"
| "after_watch W_Pods = Loop_Head"

datatype watch_label =
  Start | Tau | Call watch_kind | Event string | Return watch_kind | Stop | Join

inductive watch_step ::
  "(string \<Rightarrow> 'j option) \<Rightarrow> 'j json_api \<Rightarrow> watcher \<Rightarrow> watch_label \<Rightarrow> watcher \<Rightarrow> bool"
  for parse :: "string \<Rightarrow> 'j option" and J :: "'j json_api" where
  start: "pc w = Not_Started \<Longrightarrow>
    watch_step parse J w Start (w\<lparr>client := True, pc := Loop_Head, dispatchers := registered\<rparr>)"
| loop_enter: "pc w = Loop_Head \<Longrightarrow> \<not> shutdown w \<Longrightarrow> watch_step parse J w Tau (w\<lparr>pc := Enter W_Service\<rparr>)"
| loop_exit: "pc w = Loop_Head \<Longrightarrow> shutdown w \<Longrightarrow> watch_step parse J w Tau (w\<lparr>pc := Exited\<rparr>)"
| guard_return: "pc w = Enter k \<Longrightarrow> \<not> shutdown w \<Longrightarrow> watch_step parse J w Tau (w\<lparr>pc := after_watch k\<rparr>)"
| guard_call: "pc w = Enter k \<Longrightarrow> \<not> \<not> shutdown w \<Longrightarrow> watch_step parse J w (Call k) (w\<lparr>pc := Calling k\<rparr>)"
| event: "pc w = Calling k \<Longrightarrow>
    on_pod_event_comes parse J (dispatchers w) ev (directory w) = Inr nc \<Longrightarrow>
    watch_step parse J w (Event ev) (w\<lparr>directory := nc\<rparr>)"
| return: "pc w = Calling k \<Longrightarrow> watch_step parse J w (Return k) (w\<lparr>pc := after_watch k\<rparr>)"
| stop: "watch_step parse J w Stop (w\<lparr>shutdown := True\<rparr>)"
| join: "shutdown w \<Longrightarrow> pc w = Exited \<or> pc w = Not_Started \<Longrightarrow>
    watch_step parse J w Join (w\<lparr>client := False\<rparr>)"

inductive_cases watch_stepE: "watch_step parse J w l w'"

inductive watch_run ::
  "(string \<Rightarrow> 'j option) \<Rightarrow> 'j json_api \<Rightarrow> watcher \<Rightarrow> watch_label list \<Rightarrow> watcher \<Rightarrow> bool"
  for parse :: "string \<Rightarrow> 'j option" and J :: "'j json_api" where
  run_nil: "watch_run parse J w [] w"
| run_snoc: "watch_run parse J w ls u \<Longrightarrow> watch_step parse J u l v \<Longrightarrow> watch_run parse J w (ls @ [l]) v"

inductive_simps watch_run_nil [simp]: "watch_run parse J w [] w'"

lemma watch_run_snocI: "watch_run parse J w ls u \<Longrightarrow> watch_step parse J u l v \<Longrightarrow> ms = ls @ [l] \<Longrightarrow> watch_run parse J w ms v"
  using run_snoc by fast

lemma watch_run_one: "watch_step parse J w l v \<Longrightarrow> watch_run parse J w [l] v"
  by (rule watch_run_snocI [OF run_nil]) simp_all

text \<open>\<open>my_watch_progress_func\<close>: a non-zero result makes libcurl abandon the running transfer.\<close>

definition my_watch_progress_func :: "watcher \<Rightarrow> nat" where
  "my_watch_progress_func w = (if shutdown w = True then 1 else 0)"

text \<open>\<open>Source::init\<close>, \<open>start\<close> and \<open>stop\<close> (source.cc) reach the watcher only when configured.\<close>

definition source_gate :: "bool \<Rightarrow> bool \<Rightarrow> ('w \<Rightarrow> 'w) \<Rightarrow> 'w \<Rightarrow> 'w" where
  "source_gate has_config enabled op w = (if \<not> has_config then w else if \<not> enabled then w else op w)"

section \<open>Invariants of the watcher\<close>

definition watcher_ok :: "watcher \<Rightarrow> bool" where
  "watcher_ok w \<longleftrightarrow>
     (pc w \<noteq> Not_Started \<and> pc w \<noteq> Exited \<longrightarrow> client w) \<and>
     (\<not> shutdown w \<longrightarrow> directory w = name_control_new \<and> (\<forall>k. pc w \<noteq> Calling k)) \<and>
     (\<forall>k. pc w = Calling k \<longrightarrow> client w \<and> shutdown w) \<and>
     endpoints_ok (directory w)"

lemma dispatch_endpoints_ok:
  "dispatch d J doc nc = Inr nc' \<Longrightarrow> endpoints_ok nc \<Longrightarrow> endpoints_ok nc'"
  by (cases d)
    (auto simp: dispatch_service_def dispatch_pod_def dispatch_endpoint_def guard_r_def cpp_simps pod_ops_frame
      service_ops_endpoint_frame endpoint_ops_ok split: if_splits)

lemma on_event_endpoints_ok:
  "on_pod_event_comes parse J ds ev nc = Inr nc' \<Longrightarrow> endpoints_ok nc \<Longrightarrow> endpoints_ok nc'"
  by (auto simp: on_pod_event_comes_def guard_r_def cpp_simps
      split: option.splits if_splits elim: dispatch_endpoints_ok)

lemma watcher_ok_new [inv_intros]: "watcher_ok watcher_new"
  by (simp add: watcher_ok_def watcher_new_def name_control_new_ok)

lemma watcher_ok_step: "watch_step parse J w l w' \<Longrightarrow> watcher_ok w \<Longrightarrow> watcher_ok w'"
proof (induction rule: watch_step.induct)
  case (guard_return w k)
  then show ?case by (cases k) (auto simp: watcher_ok_def)
next
  case (return w k)
  then show ?case by (cases k) (auto simp: watcher_ok_def)
next
  case (event w k ev nc)
  then show ?case using on_event_endpoints_ok [OF event(2)] by (auto simp: watcher_ok_def)
qed (auto simp: watcher_ok_def)

lemma watcher_ok_run: "watch_run parse J w ls w' \<Longrightarrow> watcher_ok w \<Longrightarrow> watcher_ok w'"
  by (induction rule: watch_run.induct) (auto intro: watcher_ok_step)

lemma shutdown_run:
  "watch_run parse J w ls w' \<Longrightarrow> shutdown w' \<longleftrightarrow> shutdown w \<or> Stop \<in> set ls"
proof (induction rule: watch_run.induct)
  case (run_snoc w ls u l v)
  have "shutdown v \<longleftrightarrow> shutdown u \<or> l = Stop"
    using run_snoc(2) by (auto elim: watch_stepE)
  then show ?case using run_snoc.IH by auto
qed simp

section \<open>Leaving the loop\<close>

fun watch_rank :: "thread_pc \<Rightarrow> nat" where
  "watch_rank Not_Started = 0"
| "watch_rank Exited = 0"
| "watch_rank Loop_Head = 1"
| "watch_rank (Calling W_Pods) = 2"
| "watch_rank (Enter W_Pods) = 3"
| "watch_rank (Calling W_Endpoints) = 4"
| "watch_rank (Enter W_Endpoints) = 5"
| "watch_rank (Calling W_Service) = 6"
| "watch_rank (Enter W_Service) = 7"

section \<open>Properties\<close>

text \<open>C23: as long as nobody has called \<open>stop\<close>, the watcher thread never issues a list-watch request
  and the directory stays empty: the guards of the three \<open>watch_list\<close> functions are inverted, so
  discovery is inert while the agent runs.\<close>

theorem no_watch_before_stop:
  assumes "watch_run parse J watcher_new ls w" "Stop \<notin> set ls"
  shows "(\<forall>k. Call k \<notin> set ls) \<and> directory w = name_control_new"
proof -
  have "Stop \<notin> set ls \<longrightarrow> (\<forall>k. Call k \<notin> set ls)" if "watch_run parse J x ls w" "x = watcher_new" for x
    using that
  proof (induction rule: watch_run.induct)
    case (run_snoc x ls u l v)
    have "l \<noteq> Call k" if "Stop \<notin> set ls" for k
    proof -
      have "\<not> shutdown u" using shutdown_run [OF run_snoc(1)] that run_snoc.prems by (simp add: watcher_new_def)
      then show ?thesis using run_snoc(2) by (auto elim: watch_stepE)
    qed
    with run_snoc show ?case by auto
  qed simp
  moreover have "\<not> shutdown w" using shutdown_run [OF assms(1)] assms(2) by (simp add: watcher_new_def)
  ultimately show ?thesis
    using assms watcher_ok_run [OF assms(1) watcher_ok_new] by (simp add: watcher_ok_def)
qed

lemma start_run:
  "watch_run parse J watcher_new [Start] (watcher_new\<lparr>client := True, pc := Loop_Head, dispatchers := registered\<rparr>)"
  by (rule watch_run_one [OF start]) (simp add: watcher_new_def)

theorem no_watch_before_stop_witness:
  "\<exists>w. watch_run (\<lambda>_. None) json_dom watcher_new [Start, Tau] w \<and> directory w = name_control_new"
proof -
  let ?u = "watcher_new\<lparr>client := True, pc := Loop_Head, dispatchers := registered\<rparr>"
  have r: "watch_run (\<lambda>_. None) json_dom watcher_new [Start, Tau] (?u\<lparr>pc := Enter W_Service\<rparr>)"
    by (rule watch_run_snocI [OF start_run loop_enter]) (simp_all add: watcher_new_def)
  show ?thesis using r no_watch_before_stop [OF r] by auto
qed

text \<open>In every reachable state a running client call uses a live client, is one that the progress
  callback orders to abort, and the endpoint index answers without following a dangling pointer.\<close>

lemma running_call_safe:
  assumes "watch_run parse J watcher_new ls w" "pc w = Calling k"
  shows "client w \<and> my_watch_progress_func w = 1 \<and> (\<exists>r. find_endpoint (directory w) ip = Inr r)"
  using watcher_ok_run [OF assms(1) watcher_ok_new] assms(2)
  by (auto simp: watcher_ok_def my_watch_progress_func_def intro: endpoints_ok_find)

lemma call_step:
  "pc w = Enter k \<Longrightarrow> shutdown w \<Longrightarrow> w' = w\<lparr>pc := Calling k\<rparr> \<Longrightarrow> watch_step parse J w (Call k) w'"
  using guard_call by simp

lemma running_call_safe_witness:
  "\<exists>ls w. watch_run (\<lambda>_. None) json_dom watcher_new ls w \<and> pc w = Calling W_Service \<and> client w"
proof -
  let ?u = "watcher_new\<lparr>client := True, pc := Loop_Head, dispatchers := registered\<rparr>"
  have "watch_run (\<lambda>_. None) json_dom watcher_new [Start, Tau] (?u\<lparr>pc := Enter W_Service\<rparr>)"
    by (rule watch_run_snocI [OF start_run loop_enter]) (simp_all add: watcher_new_def)
  then have "watch_run (\<lambda>_. None) json_dom watcher_new [Start, Tau, Stop] (?u\<lparr>pc := Enter W_Service, shutdown := True\<rparr>)"
    by (rule watch_run_snocI) (use stop [of _ _ "?u\<lparr>pc := Enter W_Service\<rparr>"] in auto)
  note q = this
  define w where "w = ?u\<lparr>pc := Calling W_Service, shutdown := True\<rparr>"
  have r: "watch_run (\<lambda>_. None) json_dom watcher_new [Start, Tau, Stop, Call W_Service] w"
    by (rule watch_run_snocI [OF q call_step]) (simp_all add: w_def)
  have "pc w = Calling W_Service" by (simp add: w_def)
  with r show ?thesis using running_call_safe [OF r] by blast
qed

text \<open>Only the thread's own steps bring it on; what others do leaves it where it is.\<close>

fun own_step :: "watch_label \<Rightarrow> bool" where
  "own_step Tau = True"
| "own_step (Call k) = True"
| "own_step (Return k) = True"
| "own_step l = False"

lemma own_step_rank:
  assumes "watch_step parse J w l v" "shutdown w" "pc w \<noteq> Not_Started"
  shows "shutdown v \<and> pc v \<noteq> Not_Started \<and> watch_rank (pc v) + (if own_step l then 1 else 0) \<le> watch_rank (pc w)"
  using assms
proof (cases rule: watch_step.cases)
  case (return k)
  then show ?thesis using assms by (cases k) auto
next
  case (guard_call k)
  then show ?thesis using assms by (cases k) auto
qed (use assms in auto)

lemma own_steps_rank:
  assumes "watch_run parse J w ls v" "shutdown w" "pc w \<noteq> Not_Started"
  shows "shutdown v \<and> pc v \<noteq> Not_Started \<and> watch_rank (pc v) + length (filter own_step ls) \<le> watch_rank (pc w)"
  using assms
proof (induction rule: watch_run.induct)
  case (run_snoc w ls u l v)
  then show ?case using own_step_rank [OF run_snoc.hyps(2)] by auto
qed simp

lemma own_step_possible:
  assumes "shutdown v" "pc v \<noteq> Not_Started" "pc v \<noteq> Exited"
  shows "\<exists>l v'. own_step l \<and> watch_step parse J v l v'"
proof (cases "pc v")
  case Loop_Head
  then show ?thesis using loop_exit [of v parse J] assms(1) own_step.simps(1) by blast
next
  case (Enter k)
  then show ?thesis using guard_call [of v k parse J] assms(1) own_step.simps(2) by blast
next
  case (Calling k)
  then show ?thesis using return [of v k parse J] own_step.simps(3) by blast
qed (use assms in auto)

text \<open>C38: once \<open>stop\<close> has set the flag, a started thread leaves its loop: in no run does it make more than
  seven steps of its own, whatever the others do meanwhile, and until it has left some step of its own is
  possible, provided each client call returns; so the join in \<open>stop\<close> comes back.\<close>

theorem watcher_stops:
  assumes "shutdown w" "pc w \<noteq> Not_Started" "watch_run parse J w ls v"
  shows "length (filter own_step ls) \<le> 7 \<and> (pc v = Exited \<or> (\<exists>l v'. own_step l \<and> watch_step parse J v l v'))"
proof -
  have "watch_rank p \<le> 7" for p by (cases p rule: watch_rank.cases) simp_all
  then have "watch_rank (pc w) \<le> 7" .
  moreover note own_steps_rank [OF assms(3,1,2)]
  ultimately have "length (filter own_step ls) \<le> 7 \<and> shutdown v \<and> pc v \<noteq> Not_Started" by simp
  then show ?thesis using own_step_possible [of v parse J] by auto
qed

theorem watcher_stops_witness:
  "\<exists>l v. own_step l \<and> watch_step (\<lambda>_. None) json_dom (watcher_new\<lparr>shutdown := True, client := True, pc := Enter W_Service\<rparr>) l v"
  using watcher_stops [of "watcher_new\<lparr>shutdown := True, client := True, pc := Enter W_Service\<rparr>" "\<lambda>_. None" json_dom "[]"
      "watcher_new\<lparr>shutdown := True, client := True, pc := Enter W_Service\<rparr>"]
  by simp

text \<open>C3: from event to lookup: a well-formed \<open>ADDED\<close> or \<open>MODIFIED\<close> Endpoints event makes every
  address listed in its subsets resolve to the endpoint of that name.\<close>

theorem endpoint_event_resolves:
  assumes "endpoints_ok nc" "parse ev = Some d"
    and "json_str J d [''object'', ''kind''] = Some ''Endpoints''"
    and "json_str J d [''type''] = Some t" "t \<in> {''ADDED'', ''MODIFIED''}"
    and "json_path J d [''object''] = Some ob" "is_object J ob"
    and "json_str J d [''object'', ''metadata'', ''name''] = Some n"
    and "json_str J d [''object'', ''metadata'', ''namespace''] = Some ns"
    and "json_path J d [''object'', ''subsets''] = Some ss" "is_array J ss"
    and "\<forall>x\<in>set (array_elems J ss). is_object J x"
    and "x \<in> set (array_elems J ss)" "ip \<in> set (subset_ips J x)"
  shows "\<exists>nc' e. on_pod_event_comes parse J registered ev nc = Inr nc' \<and> endpoints_ok nc' \<and>
                 find_endpoint nc' ip = Inr (Some e) \<and> ep_name e = n \<and> ep_namespace e = ns"
proof -
  let ?e = "empty_endpoint\<lparr>ep_name := n, ep_namespace := ns,
                addresses := addresses empty_endpoint @ concat (map (subset_ips J) (array_elems J ss))\<rparr>"
  have parsed: "endpoint_parse J d empty_endpoint = Inr (True, ?e)"
    by (rule endpoint_parse_ok [OF assms(8-12)])
  have "on_pod_event_comes parse J registered ev nc = dispatch Endpoint_Dispatcher J d nc"
    by (rule on_event_dispatches [where ob = ob and k = "''Endpoints''"]) (simp_all add: registered_def assms)
  also have "\<dots> = set_endpoint ?e nc"
    using assms(4,5) parsed
    by (auto simp: dispatch_endpoint_def cpp_simps json_path.simps(1) has_member_def member_value_def
        get_string_def ev_defs)
  finally have eq: "on_pod_event_comes parse J registered ev nc = set_endpoint ?e nc" .
  obtain nc' where "set_endpoint ?e nc = Inr nc'" "endpoints_ok nc'"
    "\<forall>k\<in>set (addresses ?e). find_endpoint nc' k = Inr (Some ?e)"
    using set_endpoint_ok [OF assms(1), of ?e] by blast
  moreover have "ip \<in> set (addresses ?e)" using assms(13,14) by auto
  ultimately show ?thesis using eq by fastforce
qed

definition sample_endpoints_event :: json where
  "sample_endpoints_event =
     JObject [(''type'', JString ''ADDED''), (''object'', JObject
       [(''kind'', JString ''Endpoints''),
        (''metadata'', JObject [(''name'', JString ''web''), (''namespace'', JString ''shop'')]),
        (''subsets'', JArray [JObject [(''addresses'', JArray [JObject [(''ip'', JString ''10.1.0.4'')]])]])])]"

theorem endpoint_event_resolves_witness:
  "\<exists>nc' e. on_pod_event_comes (\<lambda>_. Some sample_endpoints_event) json_dom registered ''{..}'' name_control_new = Inr nc' \<and>
           endpoints_ok nc' \<and> find_endpoint nc' ''10.1.0.4'' = Inr (Some e) \<and> ep_name e = ''web'' \<and>
           ep_namespace e = ''shop''"
  by (rule endpoint_event_resolves [OF name_control_new_ok(1)])
    (simp add: sample_endpoints_event_def json_str_def json_path.simps subset_ips_def address_ips_def)+

text \<open>A Service event whose object does not have the expected fields (an ExternalName service has
  no \<open>clusterIPs\<close>) is not logged and skipped: the log statement calls \<open>GetString\<close> on the
  document object, whose assertion stops the agent.\<close>

lemma rejected_service_event_aborts:
  assumes "is_object J d" "\<not> is_string J d" "service_parse J d empty_service = Inr (False, s)"
    and "parse ev = Some d" "json_str J d [''object'', ''kind''] = Some ''Service''"
    and "json_path J d [''object''] = Some ob" "is_object J ob"
  shows "on_pod_event_comes parse J registered ev nc = Inl Assert_Failed"
proof -
  have "on_pod_event_comes parse J registered ev nc = dispatch Service_Dispatcher J d nc"
    by (rule on_event_dispatches [where ob = ob and k = "''Service''"]) (simp_all add: registered_def assms)
  then show ?thesis using assms(2,3) by (simp add: dispatch_service_def get_string_def)
qed

lemma rejected_service_event_aborts_witness:
  "on_pod_event_comes (\<lambda>_. Some (JObject [(''type'', JString ''ADDED''),
       (''object'', JObject [(''kind'', JString ''Service''), (''metadata'', JObject [])])]))
     json_dom registered ''{..}'' name_control_new = Inl Assert_Failed"
proof -
  let ?d = "JObject [(''type'', JString ''ADDED''),
              (''object'', JObject [(''kind'', JString ''Service''), (''metadata'', JObject [])])]"
  have "service_parse json_dom ?d empty_service = Inr (False, empty_service)"
    by (simp add: service_parse_def parse_service_head_def has_member_def member_value_def)
  then show ?thesis
    by (intro rejected_service_event_aborts [where d = ?d and s = empty_service
          and ob = "JObject [(''kind'', JString ''Service''), (''metadata'', JObject [])]"])
      (simp_all add: json_str_def json_path.simps, simp_all add: json_dom_def)
qed

end
