(* ===== verification/Otlp_Env.thy ===== *)
theory Otlp_Env
  imports Prelude "HOL-Library.List_Lexorder"
begin

text \<open>
  Defaults of the OTLP exporters from environment variables
  (app/source/common/opentelemetry/otlp_environment.cc). The SDK's readers of a variable and its
  tokenizer of header lists are parameters: \<open>None\<close> when the reader reports that the variable does
  not exist, and for each pair the tokenizer yields, whether it is valid. \<open>OtlpHeaders\<close>, a
  \<open>std::multimap\<close> with a comparator that ignores case, is the list of its entries in iteration
  order: \<open>emplace\<close> inserts behind the entries with an equivalent key.
\<close>

section \<open>Reading a variable\<close>

record otlp_env =
  GetBoolEnvironmentVariable :: "string \<Rightarrow> bool option"
  GetDurationEnvironmentVariable :: "string \<Rightarrow> 64 word option"
  GetStringEnvironmentVariable :: "string \<Rightarrow> string option"
  tokenize :: "string \<Rightarrow> (bool \<times> string \<times> string) list"

definition first_of :: "(string \<Rightarrow> 'a option) \<Rightarrow> string \<Rightarrow> string \<Rightarrow> 'a option" where
  "first_of get_var signal_name generic_name =
     (case get_var signal_name of Some v \<Rightarrow> Some v | None \<Rightarrow> get_var generic_name)"

definition GetBoolDualEnvVar :: "otlp_env \<Rightarrow> string \<Rightarrow> string \<Rightarrow> bool option" where
  "GetBoolDualEnvVar E = first_of (GetBoolEnvironmentVariable E)"

definition GetDurationDualEnvVar :: "otlp_env \<Rightarrow> string \<Rightarrow> string \<Rightarrow> 64 word option" where
  "GetDurationDualEnvVar E = first_of (GetDurationEnvironmentVariable E)"

definition GetStringDualEnvVar :: "otlp_env \<Rightarrow> string \<Rightarrow> string \<Rightarrow> string option" where
  "GetStringDualEnvVar E = first_of (GetStringEnvironmentVariable E)"

text \<open>A getter returns the value when the variable exists, and its default otherwise; timeouts are in
  nanoseconds, the unit of the system clock's duration.\<close>

definition value_or :: "'a \<Rightarrow> 'a option \<Rightarrow> 'a" where
  "value_or d v = (case v of Some x \<Rightarrow> x | None \<Rightarrow> d)"

definition ten_seconds :: "64 word" where
  "ten_seconds = 10 * 1000000000"

section \<open>Endpoints\<close>

definition GetOtlpDefaultGrpcTracesEndpoint :: "otlp_env \<Rightarrow> string" where
  "GetOtlpDefaultGrpcTracesEndpoint E =
     value_or ''http://localhost:4317'' (GetStringDualEnvVar E ''OTEL_EXPORTER_OTLP_TRACES_ENDPOINT'' ''OTEL_EXPORTER_OTLP_ENDPOINT'')"

definition GetOtlpDefaultGrpcMetricsEndpoint :: "otlp_env \<Rightarrow> string" where
  "GetOtlpDefaultGrpcMetricsEndpoint E =
     value_or ''http://localhost:4317'' (GetStringDualEnvVar E ''OTEL_EXPORTER_OTLP_METRICS_ENDPOINT'' ''OTEL_EXPORTER_OTLP_ENDPOINT'')"

definition GetOtlpDefaultGrpcLogsEndpoint :: "otlp_env \<Rightarrow> string" where
  "GetOtlpDefaultGrpcLogsEndpoint E =
     value_or ''http://localhost:4317'' (GetStringDualEnvVar E ''OTEL_EXPORTER_OTLP_LOGS_ENDPOINT'' ''OTEL_EXPORTER_OTLP_ENDPOINT'')"

definition GetOtlpDefaultHttpTracesEndpoint :: "otlp_env \<Rightarrow> string" where
  "GetOtlpDefaultHttpTracesEndpoint E =
     (case GetStringEnvironmentVariable E ''OTEL_EXPORTER_OTLP_TRACES_ENDPOINT'' of
        Some v \<Rightarrow> v
      | None \<Rightarrow>
          (case GetStringEnvironmentVariable E ''OTEL_EXPORTER_OTLP_ENDPOINT'' of
             Some v \<Rightarrow> v @ ''/v1/traces''
           | None \<Rightarrow> ''http://localhost:4318/v1/traces''))"

definition GetOtlpDefaultHttpMetricsEndpoint :: "otlp_env \<Rightarrow> string" where
  "GetOtlpDefaultHttpMetricsEndpoint E =
     (case GetStringEnvironmentVariable E ''OTEL_EXPORTER_OTLP_METRICS_ENDPOINT'' of
        Some v \<Rightarrow> v
      | None \<Rightarrow>
          (case GetStringEnvironmentVariable E ''OTEL_EXPORTER_OTLP_ENDPOINT'' of
             Some v \<Rightarrow> v @ ''/v1/metrics''
           | None \<Rightarrow> ''http://localhost:4318/v1/metrics''))"

definition GetOtlpDefaultHttpLogsEndpoint :: "otlp_env \<Rightarrow> string" where
  "GetOtlpDefaultHttpLogsEndpoint E =
     (case GetStringEnvironmentVariable E ''OTEL_EXPORTER_OTLP_LOGS_ENDPOINT'' of
        Some v \<Rightarrow> v
      | None \<Rightarrow>
          (case GetStringEnvironmentVariable E ''OTEL_EXPORTER_OTLP_ENDPOINT'' of
             Some v \<Rightarrow> v @ ''/v1/logs''
           | None \<Rightarrow> ''http://localhost:4318/v1/logs''))"

section \<open>Transport security\<close>

text \<open>The scheme of the endpoint takes precedence over the variables; the logs have no old variables.\<close>

definition GetOtlpDefaultGrpcTracesIsInsecure :: "otlp_env \<Rightarrow> bool" where
  "GetOtlpDefaultGrpcTracesIsInsecure E =
     (let endpoint = GetOtlpDefaultGrpcTracesEndpoint E in
      if take 6 endpoint = ''https:'' then False
      else if take 5 endpoint = ''http:'' then True
      else case GetBoolDualEnvVar E ''OTEL_EXPORTER_OTLP_TRACES_INSECURE'' ''OTEL_EXPORTER_OTLP_INSECURE'' of
             Some insecure \<Rightarrow> insecure
           | None \<Rightarrow>
               (case GetBoolEnvironmentVariable E ''OTEL_EXPORTER_OTLP_TRACES_SSL_ENABLE'' of
                  Some ssl_enabled \<Rightarrow> \<not> ssl_enabled
                | None \<Rightarrow>
                    (case GetBoolEnvironmentVariable E ''OTEL_EXPORTER_OTLP_SSL_ENABLE'' of
                       Some ssl_enabled \<Rightarrow> \<not> ssl_enabled
                     | None \<Rightarrow> False)))"

definition GetOtlpDefaultGrpcMetricsIsInsecure :: "otlp_env \<Rightarrow> bool" where
  "GetOtlpDefaultGrpcMetricsIsInsecure E =
     (let endpoint = GetOtlpDefaultGrpcMetricsEndpoint E in
      if take 6 endpoint = ''https:'' then False
      else if take 5 endpoint = ''http:'' then True
      else case GetBoolDualEnvVar E ''OTEL_EXPORTER_OTLP_METRICS_INSECURE'' ''OTEL_EXPORTER_OTLP_INSECURE'' of
             Some insecure \<Rightarrow> insecure
           | None \<Rightarrow>
               (case GetBoolEnvironmentVariable E ''OTEL_EXPORTER_OTLP_METRICS_SSL_ENABLE'' of
                  Some ssl_enabled \<Rightarrow> \<not> ssl_enabled
                | None \<Rightarrow>
                    (case GetBoolEnvironmentVariable E ''OTEL_EXPORTER_OTLP_SSL_ENABLE'' of
                       Some ssl_enabled \<Rightarrow> \<not> ssl_enabled
                     | None \<Rightarrow> False)))"

definition GetOtlpDefaultGrpcLogsIsInsecure :: "otlp_env \<Rightarrow> bool" where
  "GetOtlpDefaultGrpcLogsIsInsecure E =
     (let endpoint = GetOtlpDefaultGrpcLogsEndpoint E in
      if take 6 endpoint = ''https:'' then False
      else if take 5 endpoint = ''http:'' then True
      else value_or False (GetBoolDualEnvVar E ''OTEL_EXPORTER_OTLP_LOGS_INSECURE'' ''OTEL_EXPORTER_OTLP_INSECURE''))"

section \<open>Certificates, keys and TLS\<close>

definition GetOtlpDefaultTracesSslCertificatePath :: "otlp_env \<Rightarrow> string" where
  "GetOtlpDefaultTracesSslCertificatePath E =
     value_or [] (GetStringDualEnvVar E ''OTEL_EXPORTER_OTLP_TRACES_CERTIFICATE''
       ''OTEL_EXPORTER_OTLP_CERTIFICATE'')"

definition GetOtlpDefaultMetricsSslCertificatePath :: "otlp_env \<Rightarrow> string" where
  "GetOtlpDefaultMetricsSslCertificatePath E =
     value_or [] (GetStringDualEnvVar E ''OTEL_EXPORTER_OTLP_METRICS_CERTIFICATE''
       ''OTEL_EXPORTER_OTLP_CERTIFICATE'')"

definition GetOtlpDefaultLogsSslCertificatePath :: "otlp_env \<Rightarrow> string" where
  "GetOtlpDefaultLogsSslCertificatePath E =
     value_or [] (GetStringDualEnvVar E ''OTEL_EXPORTER_OTLP_LOGS_CERTIFICATE''
       ''OTEL_EXPORTER_OTLP_CERTIFICATE'')"

definition GetOtlpDefaultTracesSslCertificateString :: "otlp_env \<Rightarrow> string" where
  "GetOtlpDefaultTracesSslCertificateString E =
     value_or [] (GetStringDualEnvVar E ''OTEL_EXPORTER_OTLP_TRACES_CERTIFICATE_STRING''
       ''OTEL_EXPORTER_OTLP_CERTIFICATE_STRING'')"

definition GetOtlpDefaultMetricsSslCertificateString :: "otlp_env \<Rightarrow> string" where
  "GetOtlpDefaultMetricsSslCertificateString E =
     value_or [] (GetStringDualEnvVar E ''OTEL_EXPORTER_OTLP_METRICS_CERTIFICATE_STRING''
       ''OTEL_EXPORTER_OTLP_CERTIFICATE_STRING'')"

definition GetOtlpDefaultLogsSslCertificateString :: "otlp_env \<Rightarrow> string" where
  "GetOtlpDefaultLogsSslCertificateString E =
     value_or [] (GetStringDualEnvVar E ''OTEL_EXPORTER_OTLP_LOGS_CERTIFICATE_STRING''
       ''OTEL_EXPORTER_OTLP_CERTIFICATE_STRING'')"

definition GetOtlpDefaultTracesSslClientKeyPath :: "otlp_env \<Rightarrow> string" where
  "GetOtlpDefaultTracesSslClientKeyPath E =
     value_or [] (GetStringDualEnvVar E ''OTEL_EXPORTER_OTLP_TRACES_CLIENT_KEY''
       ''OTEL_EXPORTER_OTLP_CLIENT_KEY'')"

definition GetOtlpDefaultMetricsSslClientKeyPath :: "otlp_env \<Rightarrow> string" where
  "GetOtlpDefaultMetricsSslClientKeyPath E =
     value_or [] (GetStringDualEnvVar E ''OTEL_EXPORTER_OTLP_METRICS_CLIENT_KEY''
       ''OTEL_EXPORTER_OTLP_CLIENT_KEY'')"

definition GetOtlpDefaultLogsSslClientKeyPath :: "otlp_env \<Rightarrow> string" where
  "GetOtlpDefaultLogsSslClientKeyPath E =
     value_or [] (GetStringDualEnvVar E ''OTEL_EXPORTER_OTLP_LOGS_CLIENT_KEY''
       ''OTEL_EXPORTER_OTLP_CLIENT_KEY'')"

definition GetOtlpDefaultTracesSslClientKeyString :: "otlp_env \<Rightarrow> string" where
  "GetOtlpDefaultTracesSslClientKeyString E =
     value_or [] (GetStringDualEnvVar E ''OTEL_EXPORTER_OTLP_TRACES_CLIENT_KEY_STRING''
       ''OTEL_EXPORTER_OTLP_CLIENT_KEY_STRING'')"

definition GetOtlpDefaultMetricsSslClientKeyString :: "otlp_env \<Rightarrow> string" where
  "GetOtlpDefaultMetricsSslClientKeyString E =
     value_or [] (GetStringDualEnvVar E ''OTEL_EXPORTER_OTLP_METRICS_CLIENT_KEY_STRING''
       ''OTEL_EXPORTER_OTLP_CLIENT_KEY_STRING'')"

definition GetOtlpDefaultLogsSslClientKeyString :: "otlp_env \<Rightarrow> string" where
  "GetOtlpDefaultLogsSslClientKeyString E =
     value_or [] (GetStringDualEnvVar E ''OTEL_EXPORTER_OTLP_LOGS_CLIENT_KEY_STRING''
       ''OTEL_EXPORTER_OTLP_CLIENT_KEY_STRING'')"

definition GetOtlpDefaultTracesSslClientCertificatePath :: "otlp_env \<Rightarrow> string" where
  "GetOtlpDefaultTracesSslClientCertificatePath E =
     value_or [] (GetStringDualEnvVar E ''OTEL_EXPORTER_OTLP_TRACES_CLIENT_CERTIFICATE''
       ''OTEL_EXPORTER_OTLP_CLIENT_CERTIFICATE'')"

definition GetOtlpDefaultMetricsSslClientCertificatePath :: "otlp_env \<Rightarrow> string" where
  "GetOtlpDefaultMetricsSslClientCertificatePath E =
     value_or [] (GetStringDualEnvVar E ''OTEL_EXPORTER_OTLP_METRICS_CLIENT_CERTIFICATE''
       ''OTEL_EXPORTER_OTLP_CLIENT_CERTIFICATE'')"

definition GetOtlpDefaultLogsSslClientCertificatePath :: "otlp_env \<Rightarrow> string" where
  "GetOtlpDefaultLogsSslClientCertificatePath E =
     value_or [] (GetStringDualEnvVar E ''OTEL_EXPORTER_OTLP_LOGS_CLIENT_CERTIFICATE''
       ''OTEL_EXPORTER_OTLP_CLIENT_CERTIFICATE'')"

definition GetOtlpDefaultTracesSslClientCertificateString :: "otlp_env \<Rightarrow> string" where
  "GetOtlpDefaultTracesSslClientCertificateString E =
     value_or [] (GetStringDualEnvVar E ''OTEL_EXPORTER_OTLP_TRACES_CLIENT_CERTIFICATE_STRING''
       ''OTEL_EXPORTER_OTLP_CLIENT_CERTIFICATE_STRING'')"

definition GetOtlpDefaultMetricsSslClientCertificateString :: "otlp_env \<Rightarrow> string" where
  "GetOtlpDefaultMetricsSslClientCertificateString E =
     value_or [] (GetStringDualEnvVar E ''OTEL_EXPORTER_OTLP_METRICS_CLIENT_CERTIFICATE_STRING''
       ''OTEL_EXPORTER_OTLP_CLIENT_CERTIFICATE_STRING'')"

definition GetOtlpDefaultLogsSslClientCertificateString :: "otlp_env \<Rightarrow> string" where
  "GetOtlpDefaultLogsSslClientCertificateString E =
     value_or [] (GetStringDualEnvVar E ''OTEL_EXPORTER_OTLP_LOGS_CLIENT_CERTIFICATE_STRING''
       ''OTEL_EXPORTER_OTLP_CLIENT_CERTIFICATE_STRING'')"

definition GetOtlpDefaultTracesSslTlsMinVersion :: "otlp_env \<Rightarrow> string" where
  "GetOtlpDefaultTracesSslTlsMinVersion E =
     value_or [] (GetStringDualEnvVar E ''OTEL_CPP_EXPORTER_OTLP_TRACES_MIN_TLS''
       ''OTEL_CPP_EXPORTER_OTLP_MIN_TLS'')"

definition GetOtlpDefaultMetricsSslTlsMinVersion :: "otlp_env \<Rightarrow> string" where
  "GetOtlpDefaultMetricsSslTlsMinVersion E =
     value_or [] (GetStringDualEnvVar E ''OTEL_CPP_EXPORTER_OTLP_METRICS_MIN_TLS''
       ''OTEL_CPP_EXPORTER_OTLP_MIN_TLS'')"

definition GetOtlpDefaultLogsSslTlsMinVersion :: "otlp_env \<Rightarrow> string" where
  "GetOtlpDefaultLogsSslTlsMinVersion E =
     value_or [] (GetStringDualEnvVar E ''OTEL_CPP_EXPORTER_OTLP_LOGS_MIN_TLS''
       ''OTEL_CPP_EXPORTER_OTLP_MIN_TLS'')"

definition GetOtlpDefaultTracesSslTlsMaxVersion :: "otlp_env \<Rightarrow> string" where
  "GetOtlpDefaultTracesSslTlsMaxVersion E =
     value_or [] (GetStringDualEnvVar E ''OTEL_CPP_EXPORTER_OTLP_TRACES_MAX_TLS''
       ''OTEL_CPP_EXPORTER_OTLP_MAX_TLS'')"

definition GetOtlpDefaultMetricsSslTlsMaxVersion :: "otlp_env \<Rightarrow> string" where
  "GetOtlpDefaultMetricsSslTlsMaxVersion E =
     value_or [] (GetStringDualEnvVar E ''OTEL_CPP_EXPORTER_OTLP_METRICS_MAX_TLS''
       ''OTEL_CPP_EXPORTER_OTLP_MAX_TLS'')"

definition GetOtlpDefaultLogsSslTlsMaxVersion :: "otlp_env \<Rightarrow> string" where
  "GetOtlpDefaultLogsSslTlsMaxVersion E =
     value_or [] (GetStringDualEnvVar E ''OTEL_CPP_EXPORTER_OTLP_LOGS_MAX_TLS''
       ''OTEL_CPP_EXPORTER_OTLP_MAX_TLS'')"

definition GetOtlpDefaultTracesSslTlsCipher :: "otlp_env \<Rightarrow> string" where
  "GetOtlpDefaultTracesSslTlsCipher E =
     value_or [] (GetStringDualEnvVar E ''OTEL_CPP_EXPORTER_OTLP_TRACES_CIPHER''
       ''OTEL_CPP_EXPORTER_OTLP_CIPHER'')"

definition GetOtlpDefaultMetricsSslTlsCipher :: "otlp_env \<Rightarrow> string" where
  "GetOtlpDefaultMetricsSslTlsCipher E =
     value_or [] (GetStringDualEnvVar E ''OTEL_CPP_EXPORTER_OTLP_METRICS_CIPHER''
       ''OTEL_CPP_EXPORTER_OTLP_CIPHER'')"

definition GetOtlpDefaultLogsSslTlsCipher :: "otlp_env \<Rightarrow> string" where
  "GetOtlpDefaultLogsSslTlsCipher E =
     value_or [] (GetStringDualEnvVar E ''OTEL_CPP_EXPORTER_OTLP_LOGS_CIPHER''
       ''OTEL_CPP_EXPORTER_OTLP_CIPHER'')"

definition GetOtlpDefaultTracesSslTlsCipherSuite :: "otlp_env \<Rightarrow> string" where
  "GetOtlpDefaultTracesSslTlsCipherSuite E =
     value_or [] (GetStringDualEnvVar E ''OTEL_CPP_EXPORTER_OTLP_TRACES_CIPHER_SUITE''
       ''OTEL_CPP_EXPORTER_OTLP_CIPHER_SUITE'')"

definition GetOtlpDefaultMetricsSslTlsCipherSuite :: "otlp_env \<Rightarrow> string" where
  "GetOtlpDefaultMetricsSslTlsCipherSuite E =
     value_or [] (GetStringDualEnvVar E ''OTEL_CPP_EXPORTER_OTLP_METRICS_CIPHER_SUITE''
       ''OTEL_CPP_EXPORTER_OTLP_CIPHER_SUITE'')"

definition GetOtlpDefaultLogsSslTlsCipherSuite :: "otlp_env \<Rightarrow> string" where
  "GetOtlpDefaultLogsSslTlsCipherSuite E =
     value_or [] (GetStringDualEnvVar E ''OTEL_CPP_EXPORTER_OTLP_LOGS_CIPHER_SUITE''
       ''OTEL_CPP_EXPORTER_OTLP_CIPHER_SUITE'')"

section \<open>Timeouts\<close>

definition GetOtlpDefaultTracesTimeout :: "otlp_env \<Rightarrow> 64 word" where
  "GetOtlpDefaultTracesTimeout E =
     value_or ten_seconds (GetDurationDualEnvVar E ''OTEL_EXPORTER_OTLP_TRACES_TIMEOUT'' ''OTEL_EXPORTER_OTLP_TIMEOUT'')"

definition GetOtlpDefaultMetricsTimeout :: "otlp_env \<Rightarrow> 64 word" where
  "GetOtlpDefaultMetricsTimeout E =
     value_or ten_seconds (GetDurationDualEnvVar E ''OTEL_EXPORTER_OTLP_METRICS_TIMEOUT'' ''OTEL_EXPORTER_OTLP_TIMEOUT'')"

definition GetOtlpDefaultLogsTimeout :: "otlp_env \<Rightarrow> 64 word" where
  "GetOtlpDefaultLogsTimeout E =
     value_or ten_seconds (GetDurationDualEnvVar E ''OTEL_EXPORTER_OTLP_LOGS_TIMEOUT'' ''OTEL_EXPORTER_OTLP_TIMEOUT'')"

section \<open>Headers\<close>

type_synonym otlp_headers = "(string \<times> string) list"

text \<open>\<open>tolower\<close> of a (signed) \<open>char\<close> in the C locale.\<close>

definition tolower :: "char \<Rightarrow> int" where
  "tolower c =
     (let n = sint (of_char c :: 8 word) in if 65 \<le> n \<and> n \<le> 90 then n + 32 else n)"

fun cmp_ic :: "string \<Rightarrow> string \<Rightarrow> bool" where
  "cmp_ic s [] = False"
| "cmp_ic [] (c2 # s2) = True"
| "cmp_ic (c1 # s1) (c2 # s2) =
     (if tolower c1 < tolower c2 then True
      else if tolower c2 < tolower c1 then False
      else cmp_ic s1 s2)"

definition same_key :: "string \<Rightarrow> string \<Rightarrow> bool" where
  "same_key a b \<longleftrightarrow> \<not> cmp_ic a b \<and> \<not> cmp_ic b a"

fun headers_emplace :: "string \<Rightarrow> string \<Rightarrow> otlp_headers \<Rightarrow> otlp_headers" where
  "headers_emplace key v [] = [(key, v)]"
| "headers_emplace key v ((k, w) # hs) =
     (if cmp_ic key k then (key, v) # (k, w) # hs else (k, w) # headers_emplace key v hs)"

definition headers_erase :: "string \<Rightarrow> otlp_headers \<Rightarrow> otlp_headers" where
  "headers_erase key hs = filter (\<lambda>(k, w). \<not> same_key key k) hs"

text \<open>The loop over the tokens: the first time a key is seen the entries it has in \<open>output\<close> go.\<close>

fun dump_tokens :: "(bool \<times> string \<times> string) list \<Rightarrow> string set \<Rightarrow> otlp_headers \<Rightarrow> otlp_headers" where
  "dump_tokens [] remove_cache output = output"
| "dump_tokens ((header_valid, key, v) # rest) remove_cache output =
     (if header_valid
      then if key \<notin> remove_cache
           then dump_tokens rest (insert key remove_cache) (headers_emplace key v (headers_erase key output))
           else dump_tokens rest remove_cache (headers_emplace key v output)
      else dump_tokens rest remove_cache output)"

definition DumpOtlpHeaders :: "otlp_env \<Rightarrow> otlp_headers \<Rightarrow> string \<Rightarrow> otlp_headers" where
  "DumpOtlpHeaders E output env_var_name =
     (case GetStringEnvironmentVariable E env_var_name of
        None \<Rightarrow> output
      | Some raw_value \<Rightarrow> dump_tokens (tokenize E raw_value) {} output)"

definition GetHeaders :: "otlp_env \<Rightarrow> string \<Rightarrow> string \<Rightarrow> otlp_headers" where
  "GetHeaders E signal_name generic_name =
     DumpOtlpHeaders E (DumpOtlpHeaders E [] generic_name) signal_name"

definition GetOtlpDefaultTracesHeaders :: "otlp_env \<Rightarrow> otlp_headers" where
  "GetOtlpDefaultTracesHeaders E = GetHeaders E ''OTEL_EXPORTER_OTLP_TRACES_HEADERS'' ''OTEL_EXPORTER_OTLP_HEADERS''"

definition GetOtlpDefaultMetricsHeaders :: "otlp_env \<Rightarrow> otlp_headers" where
  "GetOtlpDefaultMetricsHeaders E = GetHeaders E ''OTEL_EXPORTER_OTLP_METRICS_HEADERS'' ''OTEL_EXPORTER_OTLP_HEADERS''"

definition GetOtlpDefaultLogsHeaders :: "otlp_env \<Rightarrow> otlp_headers" where
  "GetOtlpDefaultLogsHeaders E = GetHeaders E ''OTEL_EXPORTER_OTLP_LOGS_HEADERS'' ''OTEL_EXPORTER_OTLP_HEADERS''"

section \<open>The header map\<close>

lemma cmp_ic_less: "cmp_ic a b \<longleftrightarrow> map tolower a < map tolower b"
  by (induction a b rule: cmp_ic.induct) auto

lemma same_key_iff: "same_key a b \<longleftrightarrow> map tolower a = map tolower b"
  by (auto simp: same_key_def cmp_ic_less)

text \<open>The entries stay sorted, and within a key in order of insertion.\<close>

definition headers_ok :: "otlp_headers \<Rightarrow> bool" where
  "headers_ok hs \<longleftrightarrow> sorted (map (\<lambda>(k, w). map tolower k) hs)"

definition header_values :: "string \<Rightarrow> otlp_headers \<Rightarrow> string list" where
  "header_values key hs = map snd (filter (\<lambda>(k, w). same_key key k) hs)"

lemma header_values_simps [simp]:
  "header_values key [] = []"
  "header_values key ((k, w) # hs) = (if same_key key k then w # header_values key hs else header_values key hs)"
  by (simp_all add: header_values_def)

lemma headers_ok_Nil [simp]: "headers_ok []"
  by (simp add: headers_ok_def)

lemma headers_ok_Cons:
  "headers_ok ((k, w) # hs) \<longleftrightarrow> (\<forall>(k', w')\<in>set hs. map tolower k \<le> map tolower k') \<and> headers_ok hs"
  by (auto simp: headers_ok_def)

lemma set_headers_emplace: "set (headers_emplace key v hs) = insert (key, v) (set hs)"
  by (induction key v hs rule: headers_emplace.induct) auto

lemma headers_emplace_ok: "headers_ok hs \<Longrightarrow> headers_ok (headers_emplace key v hs)"
proof (induction key v hs rule: headers_emplace.induct)
  case (2 key v k w hs)
  then show ?case
    by (auto simp: headers_ok_Cons set_headers_emplace cmp_ic_less not_less)
qed (simp add: headers_ok_def)

lemma headers_emplace_values:
  "headers_ok hs \<Longrightarrow>
     header_values k' (headers_emplace key v hs) = header_values k' hs @ (if same_key k' key then [v] else [])"
proof (induction key v hs rule: headers_emplace.induct)
  case (2 key v k w hs)
  show ?case
  proof (cases "cmp_ic key k")
    case True
    then have "header_values k' ((k, w) # hs) = []" if "same_key k' key"
      using that 2 by (auto simp: header_values_def headers_ok_Cons cmp_ic_less same_key_iff filter_empty_conv)
    then show ?thesis using True by auto
  qed (use 2 in \<open>simp add: headers_ok_Cons\<close>)
qed simp

lemma headers_erase_ok: "headers_ok hs \<Longrightarrow> headers_ok (headers_erase key hs)"
  by (induction hs) (auto simp: headers_erase_def headers_ok_Cons)

lemma headers_erase_values:
  "header_values k' (headers_erase key hs) = (if same_key k' key then [] else header_values k' hs)"
  by (induction hs) (auto simp: headers_erase_def same_key_iff)

text \<open>The valid pairs of a variable.\<close>

definition valid_tokens :: "(bool \<times> string \<times> string) list \<Rightarrow> otlp_headers" where
  "valid_tokens ts = map snd (filter fst ts)"

lemma valid_tokens_simps [simp]:
  "valid_tokens [] = []"
  "valid_tokens ((b, kv) # ts) = (if b then kv # valid_tokens ts else valid_tokens ts)"
  by (simp_all add: valid_tokens_def)

definition one_spelling :: "string set \<Rightarrow> bool" where
  "one_spelling ks \<longleftrightarrow> (\<forall>a\<in>ks. \<forall>b\<in>ks. same_key a b \<longrightarrow> a = b)"

lemma dump_tokens_ok: "headers_ok hs \<Longrightarrow> headers_ok (dump_tokens ts seen hs)"
  by (induction ts seen hs rule: dump_tokens.induct) (simp_all add: headers_emplace_ok headers_erase_ok)

lemma dump_tokens_values:
  assumes "headers_ok hs" "one_spelling (fst ` set (valid_tokens ts) \<union> seen)"
  shows "header_values k (dump_tokens ts seen hs) =
    (if (\<exists>a\<in>fst ` set (valid_tokens ts). same_key k a) \<and> (\<forall>a\<in>seen. \<not> same_key k a) then [] else header_values k hs) @
    header_values k (valid_tokens ts)"
  using assms
proof (induction ts seen hs rule: dump_tokens.induct)
  case (2 b key v rest seen hs)
  show ?case
  proof (cases b)
    case False
    then show ?thesis using 2 by simp
  next
    case True
    have spell: "one_spelling (fst ` set (valid_tokens rest) \<union> insert key seen)"
      using 2(5) True by (simp add: one_spelling_def)
    have spell': "one_spelling (fst ` set (valid_tokens rest) \<union> seen)"
      using 2(5) True by (simp add: one_spelling_def)
    have key: "a = key" if "a \<in> insert key seen" "same_key k a" "same_key k key" for a
      using that 2(5) True by (auto simp: one_spelling_def same_key_iff)
    show ?thesis
    proof (cases "key \<in> seen")
      case False
      have "header_values k (dump_tokens ((b, key, v) # rest) seen hs) =
          header_values k (dump_tokens rest (insert key seen) (headers_emplace key v (headers_erase key hs)))"
        using True False by simp
      also note "2.IH"(1) [OF True False headers_emplace_ok [OF headers_erase_ok [OF 2(4)]] spell]
      finally show ?thesis
        using True False key
        by (auto simp: headers_emplace_values headers_erase_ok headers_erase_values 2(4))
    next
      case in_seen: True
      have "header_values k (dump_tokens ((b, key, v) # rest) seen hs) =
          header_values k (dump_tokens rest seen (headers_emplace key v hs))"
        using True in_seen by simp
      also note "2.IH"(2) [OF True _ headers_emplace_ok [OF 2(4)] spell']
      finally show ?thesis
        using True in_seen by (auto simp: headers_emplace_values 2(4))
    qed
  qed
qed simp

definition header_tokens :: "otlp_env \<Rightarrow> string \<Rightarrow> otlp_headers" where
  "header_tokens E name =
     (case GetStringEnvironmentVariable E name of None \<Rightarrow> [] | Some raw \<Rightarrow> valid_tokens (tokenize E raw))"

lemma DumpOtlpHeaders_ok: "headers_ok hs \<Longrightarrow> headers_ok (DumpOtlpHeaders E hs name)"
  by (simp add: DumpOtlpHeaders_def dump_tokens_ok split: option.splits)

lemma DumpOtlpHeaders_values:
  assumes "headers_ok hs" "one_spelling (fst ` set (header_tokens E name))"
  shows "header_values k (DumpOtlpHeaders E hs name) =
    (if \<exists>a\<in>fst ` set (header_tokens E name). same_key k a then [] else header_values k hs) @
    header_values k (header_tokens E name)"
proof (cases "GetStringEnvironmentVariable E name")
  case (Some raw)
  then show ?thesis
    using assms(2) dump_tokens_values [OF assms(1), of "tokenize E raw" "{}" k]
    by (simp add: DumpOtlpHeaders_def header_tokens_def)
qed (simp add: DumpOtlpHeaders_def header_tokens_def)

lemma header_values_absent: "\<forall>a\<in>fst ` set hs. \<not> same_key k a \<Longrightarrow> header_values k hs = []"
  by (induction hs) auto

section \<open>Properties\<close>

text \<open>C32: the headers of a signal are sorted by key, and for each key they are exactly the values of the
  signal's own variable, in its order, when it has the key in any case, and otherwise those of the
  generic variable; provided neither variable spells a key in two ways.\<close>

theorem signal_headers_override:
  assumes "one_spelling (fst ` set (header_tokens E signal))" "one_spelling (fst ` set (header_tokens E generic))"
  shows "headers_ok (GetHeaders E signal generic) \<and>
    header_values k (GetHeaders E signal generic) =
      (if \<exists>a\<in>fst ` set (header_tokens E signal). same_key k a then header_values k (header_tokens E signal)
       else header_values k (header_tokens E generic))"
proof -
  have g: "headers_ok (DumpOtlpHeaders E [] generic)" by (simp add: DumpOtlpHeaders_ok)
  have "header_values k (DumpOtlpHeaders E [] generic) = header_values k (header_tokens E generic)"
    by (simp add: DumpOtlpHeaders_values [OF headers_ok_Nil assms(2)])
  then show ?thesis
    using DumpOtlpHeaders_values [OF g assms(1), of k] header_values_absent [of "header_tokens E signal" k]
    by (auto simp: GetHeaders_def DumpOtlpHeaders_ok g)
qed

definition sample_otlp_env :: otlp_env where
  "sample_otlp_env =
     \<lparr>GetBoolEnvironmentVariable = (\<lambda>_. Some True), GetDurationEnvironmentVariable = (\<lambda>_. None),
      GetStringEnvironmentVariable =
        [''OTEL_EXPORTER_OTLP_TRACES_HEADERS'' \<mapsto> ''key=a,key=b'', ''OTEL_EXPORTER_OTLP_HEADERS'' \<mapsto> ''Key=c,other=d''],
      tokenize = (\<lambda>raw. if raw = ''key=a,key=b'' then [(True, ''key'', ''a''), (True, ''key'', ''b'')]
                        else [(True, ''Key'', ''c''), (False, [], []), (True, ''other'', ''d'')])\<rparr>"

theorem signal_headers_override_witness:
  "header_values ''key'' (GetHeaders sample_otlp_env ''OTEL_EXPORTER_OTLP_TRACES_HEADERS'' ''OTEL_EXPORTER_OTLP_HEADERS'') =
     [''a'', ''b''] \<and>
   header_values ''other'' (GetHeaders sample_otlp_env ''OTEL_EXPORTER_OTLP_TRACES_HEADERS'' ''OTEL_EXPORTER_OTLP_HEADERS'') =
     [''d'']"
proof -
  have s: "header_tokens sample_otlp_env ''OTEL_EXPORTER_OTLP_TRACES_HEADERS'' = [(''key'', ''a''), (''key'', ''b'')]"
    "header_tokens sample_otlp_env ''OTEL_EXPORTER_OTLP_HEADERS'' = [(''Key'', ''c''), (''other'', ''d'')]"
    by (simp_all add: header_tokens_def sample_otlp_env_def)
  have one: "one_spelling (fst ` set (header_tokens sample_otlp_env ''OTEL_EXPORTER_OTLP_TRACES_HEADERS''))"
    "one_spelling (fst ` set (header_tokens sample_otlp_env ''OTEL_EXPORTER_OTLP_HEADERS''))"
    by (simp_all add: s one_spelling_def same_key_iff tolower_def Let_def)
  have "same_key ''key'' ''key''" "\<not> same_key ''other'' ''key''" "same_key ''other'' ''other''" "\<not> same_key ''other'' ''Key''"
    by (simp_all add: same_key_iff tolower_def Let_def)
  then show ?thesis
    using signal_headers_override [OF one, of "''key''"] signal_headers_override [OF one, of "''other''"]
    by (simp add: s)
qed

text \<open>Whether the trace exporter uses TLS is decided by the scheme of its endpoint alone when that is
  \<open>http\<close> or \<open>https\<close>; in particular without an endpoint variable it is insecure, whatever the
  \<open>INSECURE\<close> and \<open>SSL_ENABLE\<close> variables say.\<close>

lemma scheme_decides_security:
  assumes "GetStringEnvironmentVariable E ''OTEL_EXPORTER_OTLP_TRACES_ENDPOINT'' = Some endpoint \<or>
           GetStringEnvironmentVariable E ''OTEL_EXPORTER_OTLP_TRACES_ENDPOINT'' = None \<and>
           GetStringEnvironmentVariable E ''OTEL_EXPORTER_OTLP_ENDPOINT'' = None \<and> endpoint = ''http://localhost:4317''"
    and "take 6 endpoint = ''https:'' \<or> take 5 endpoint = ''http:''"
  shows "GetOtlpDefaultGrpcTracesIsInsecure E \<longleftrightarrow> take 6 endpoint \<noteq> ''https:''"
proof -
  have "GetOtlpDefaultGrpcTracesEndpoint E = endpoint"
    using assms(1)
    by (auto simp: GetOtlpDefaultGrpcTracesEndpoint_def GetStringDualEnvVar_def first_of_def value_or_def)
  then show ?thesis using assms(2) by (auto simp: GetOtlpDefaultGrpcTracesIsInsecure_def Let_def)
qed

lemma scheme_decides_security_witness:
  "GetOtlpDefaultGrpcTracesIsInsecure
     (sample_otlp_env\<lparr>GetBoolEnvironmentVariable := (\<lambda>_. Some False), GetStringEnvironmentVariable := (\<lambda>_. None)\<rparr>)"
  by (subst scheme_decides_security [where endpoint = "''http://localhost:4317''"]) simp_all

end
