(* ===== verification/Grpc_Options.thy ===== *)
theory Grpc_Options
  imports Util_Names Otlp_Env
begin

text \<open>
  The options of a gRPC client and what is made of them: ClientOptions and MakeChannel of
  app/include/common/grpc/grpc_client_options.h and app/source/common/grpc/grpc_client_options.cc, the
  same two of the OTLP client (otlp_grpc_client_options.h and otlp_grpc_client.cc), its client context, and
  the options the OTLP sinks choose. A channel is described by what it is created from. The URL parser of
  OpenTelemetry and the contents of files (empty for one that cannot be opened) are arguments.
\<close>

section \<open>Options\<close>

record grpc_options =
  endpoint :: string
  use_ssl_credentials :: bool
  ssl_credentials_cacert_path :: string
  ssl_credentials_cacert_as_string :: string
  export_timeout :: "64 word"
  metadata :: otlp_headers
  user_agent :: string
  max_threads :: "64 word"
  max_requests :: "64 word"

text \<open>The two structures have the same members.\<close>

type_synonym client_options = grpc_options

text \<open>\<open>std::make_shared\<close> of the structure: everything zero or empty.\<close>

definition options_zero :: grpc_options where
  "options_zero = \<lparr>endpoint = [], use_ssl_credentials = False, ssl_credentials_cacert_path = [],
     ssl_credentials_cacert_as_string = [], export_timeout = 0, metadata = [], user_agent = [], max_threads = 0,
     max_requests = 0\<rparr>"

text \<open>The constructor of each OTLP sink, for the value of \<open>SINK_HOST\<close>.\<close>

definition sink_options :: "string option \<Rightarrow> grpc_options" where
  "sink_options sink_host =
     options_zero\<lparr>max_requests := 1000,
       endpoint := (case sink_host of None \<Rightarrow> ''localhost:4317'' | Some h \<Rightarrow> h)\<rparr>"

section \<open>Channels\<close>

datatype credentials = Insecure | Ssl (pem_root_certs: string)

record channel =
  grpc_target :: string
  user_agent_prefix :: string
  thread_quota :: "int option"
  channel_credentials :: credentials

type_synonym url_parser = "string \<Rightarrow> (string \<times> 16 word) option"

definition GetFileContentsOrInMemoryContents :: "(string \<Rightarrow> string) \<Rightarrow> string \<Rightarrow> string \<Rightarrow> string" where
  "GetFileContentsOrInMemoryContents files file_path contents = (if file_path \<noteq> [] then files file_path else contents)"

text \<open>The null pointer is \<open>None\<close>. The build does not define \<open>ENABLE_OTLP_GRPC_SSL_MTLS_PREVIEW\<close>.\<close>

definition MakeChannel :: "url_parser \<Rightarrow> (string \<Rightarrow> string) \<Rightarrow> client_options \<Rightarrow> channel option" where
  "MakeChannel parse files opts =
     (case parse (endpoint opts) of
        None \<Rightarrow> None
      | Some (host, port) \<Rightarrow>
          Some \<lparr>grpc_target = host @ '':'' @ dec_of_nat (unat port),
                user_agent_prefix = user_agent opts,
                thread_quota = (if max_threads opts > 0 then Some (sint (ucast (max_threads opts) :: 32 word)) else None),
                channel_credentials =
                  (if use_ssl_credentials opts
                   then Ssl (GetFileContentsOrInMemoryContents files (ssl_credentials_cacert_path opts)
                               (ssl_credentials_cacert_as_string opts))
                   else Insecure)\<rparr>)"

definition otlp_MakeChannel :: "url_parser \<Rightarrow> (string \<Rightarrow> string) \<Rightarrow> grpc_options \<Rightarrow> channel option" where
  "otlp_MakeChannel parse files opts =
     (case parse (endpoint opts) of
        None \<Rightarrow> None
      | Some (host, port) \<Rightarrow>
          Some \<lparr>grpc_target = host @ '':'' @ dec_of_nat (unat port),
                user_agent_prefix = user_agent opts,
                thread_quota = (if max_threads opts > 0 then Some (sint (ucast (max_threads opts) :: 32 word)) else None),
                channel_credentials =
                  (if use_ssl_credentials opts
                   then Ssl (GetFileContentsOrInMemoryContents files (ssl_credentials_cacert_path opts)
                               (ssl_credentials_cacert_as_string opts))
                   else Insecure)\<rparr>)"

section \<open>Contexts\<close>

text \<open>What a call is sent with. Times are nanoseconds; metadata is added in the order of the map.\<close>

record client_context =
  deadline :: "int option"
  sent_metadata :: "(string \<times> string) list"

definition MakeClientContext :: "int \<Rightarrow> grpc_options \<Rightarrow> client_context" where
  "MakeClientContext now opts =
     \<lparr>deadline = (if 0 < sint (export_timeout opts) then Some (now + sint (export_timeout opts)) else None),
      sent_metadata = metadata opts\<rparr>"

text \<open>The context of the call object that \<open>Export\<close> makes, and that of the calls to the node service.\<close>

definition export_call_context :: "int \<Rightarrow> client_context" where
  "export_call_context now = \<lparr>deadline = Some (now + 5 * 10 ^ 9), sent_metadata = []\<rparr>"

section \<open>Lemmas\<close>

lemma cmp_ic_key: "cmp_ic = (\<lambda>a b. map tolower a < map tolower b)"
  by (simp add: fun_eq_iff cmp_ic_less)

text \<open>The header map is a container over a strict weak order, and its insertion the generic one.\<close>

interpretation headers: weak_order cmp_ic
  unfolding cmp_ic_key by (rule weak_order_key)

interpretation header_entries: weak_order "\<lambda>x y. cmp_ic (fst x) (fst y)"
  unfolding cmp_ic_key by (rule weak_order_key)

lemma headers_emplace_insert: "headers_emplace key v hs = insert_after (\<lambda>x y. cmp_ic (fst x) (fst y)) (key, v) hs"
  by (induction key v hs rule: headers_emplace.induct) auto

lemma same_key_equivalent: "headers.equivalent a b \<longleftrightarrow> same_key a b"
  by (simp add: headers.equivalent_def same_key_def)

lemma channels_agree: "otlp_MakeChannel = MakeChannel"
  by (simp add: fun_eq_iff otlp_MakeChannel_def MakeChannel_def)

text \<open>The channel of a sink: to the host, without encryption and without a quota of threads; its options
  set no timeout, so a context made from them has no deadline.\<close>

lemma sink_channel:
  "otlp_MakeChannel parse files (sink_options (Some h)) =
     map_option (\<lambda>(host, port). \<lparr>grpc_target = host @ '':'' @ dec_of_nat (unat port), user_agent_prefix = [],
        thread_quota = None, channel_credentials = Insecure\<rparr>) (parse h)"
  by (auto simp: otlp_MakeChannel_def sink_options_def options_zero_def split: option.split)

lemma sink_context: "MakeClientContext now (sink_options host) = \<lparr>deadline = None, sent_metadata = []\<rparr>"
  by (simp add: MakeClientContext_def sink_options_def options_zero_def)

end
