(* ===== verification/Node_Client.thy ===== *)
theory Node_Client
  imports Grpc_Options
begin

text \<open>
  Reporting to the node service: app/source/sink/deep_observe/node/client.cc, sink.cc and their headers,
  and the requests app/source/source/host/source.cc makes in a round. A call object is an entry of
  \<open>live_calls\<close> from the time it is allocated until its callback deletes it; gRPC ends calls from its own
  threads. Times are nanoseconds. \<open>'b\<close> is what the collectors put into a message.
\<close>

section \<open>Messages\<close>

record 'b node_info =
  ni_company_uuid :: string
  ni_cluster :: string
  ni_host_name :: string
  ni_object_id :: "64 word"
  ni_body :: "'b list"

record 'b list_request =
  lr_series_id :: int
  lr_object_id :: "64 word"
  lr_hostname :: string
  lr_items :: "'b list"

datatype 'b node_request =
    Node_Info "'b node_info"
  | Node_Usage "'b list"
  | Process_Info "'b list_request"
  | Container_Info "'b list_request"

section \<open>The client\<close>

datatype node_method = Register | Update | ReportProcess | ReportContainer

record 'b unary_call =
  call_method :: node_method
  call_context :: client_context
  call_request :: "'b node_request"

record 'b node_client =
  node_options :: client_options
  live_calls :: "(nat \<times> 'b unary_call) list"
  next_address :: nat
  call_errors :: nat

text \<open>The constructor of the call object: all headers, and five seconds from now.\<close>

definition AsyncUnaryCall :: "int \<Rightarrow> otlp_headers \<Rightarrow> client_context" where
  "AsyncUnaryCall now hs = \<lparr>deadline = Some (now + 5 * 10 ^ 9), sent_metadata = hs\<rparr>"

definition start_call :: "int \<Rightarrow> node_method \<Rightarrow> 'b node_request \<Rightarrow> 'b node_client \<Rightarrow> 'b node_client" where
  "start_call now method request cl =
     cl\<lparr>live_calls := live_calls cl @
          [(next_address cl, \<lparr>call_method = method, call_context = AsyncUnaryCall now (metadata (node_options cl)),
                              call_request = request\<rparr>)],
        next_address := Suc (next_address cl)\<rparr>"

text \<open>Each function swaps the caller's message with the empty one of the call: the second value is what the
  caller is left with.\<close>

definition node_info_empty :: "'b node_info" where
  "node_info_empty = \<lparr>ni_company_uuid = [], ni_cluster = [], ni_host_name = [], ni_object_id = 0, ni_body = []\<rparr>"

definition list_request_empty :: "'b list_request" where
  "list_request_empty = \<lparr>lr_series_id = 0, lr_object_id = 0, lr_hostname = [], lr_items = []\<rparr>"

definition SendRegisterRequest :: "int \<Rightarrow> 'b node_info \<Rightarrow> 'b node_client \<Rightarrow> 'b node_client \<times> 'b node_info" where
  "SendRegisterRequest now request cl = (start_call now Register (Node_Info request) cl, node_info_empty)"

definition SendUpdateRequest :: "int \<Rightarrow> 'b list \<Rightarrow> 'b node_client \<Rightarrow> 'b node_client \<times> 'b list" where
  "SendUpdateRequest now request cl = (start_call now Update (Node_Usage request) cl, [])"

definition SendReportProcessRequest ::
  "int \<Rightarrow> 'b list_request \<Rightarrow> 'b node_client \<Rightarrow> 'b node_client \<times> 'b list_request" where
  "SendReportProcessRequest now request cl = (start_call now ReportProcess (Process_Info request) cl, list_request_empty)"

definition SendReportContainerRequest ::
  "int \<Rightarrow> 'b list_request \<Rightarrow> 'b node_client \<Rightarrow> 'b node_client \<times> 'b list_request" where
  "SendReportContainerRequest now request cl =
     (start_call now ReportContainer (Container_Info request) cl, list_request_empty)"

text \<open>The end of a call: an error is logged, and the object deleted by its own callback.\<close>

definition node_OnDone :: "nat \<Rightarrow> bool \<Rightarrow> 'b node_client \<Rightarrow> 'b node_client result" where
  "node_OnDone address status_ok cl =
     (if map_of (live_calls cl) address = None then Inl Dangling_Deref
      else Inr (cl\<lparr>live_calls := AList.delete address (live_calls cl),
                   call_errors := (if status_ok then call_errors cl else Suc (call_errors cl))\<rparr>))"

section \<open>The sink\<close>

record host_config =
  company_uuid :: string
  cluster :: string
  node_report_host :: string
  container_enable :: bool
  runtime_is_docker :: bool

definition node_sink_new :: "host_config \<Rightarrow> 'b node_client" where
  "node_sink_new cfg =
     \<lparr>node_options = options_zero\<lparr>max_requests := 1000, endpoint := node_report_host cfg,
        metadata := headers_emplace ''company_uuid'' (company_uuid cfg) []\<rparr>,
      live_calls = [], next_address = 0, call_errors = 0\<rparr>"

text \<open>The three functions of the sink, on whatever message they are given.\<close>

definition sink_send :: "int \<Rightarrow> 'b node_request \<Rightarrow> 'b node_client \<Rightarrow> 'b node_client" where
  "sink_send now request cl =
     (case request of
        Node_Info i \<Rightarrow> fst (SendRegisterRequest now i cl)
      | Node_Usage u \<Rightarrow> fst (SendUpdateRequest now u cl)
      | Process_Info p \<Rightarrow> fst (SendReportProcessRequest now p cl)
      | Container_Info c \<Rightarrow> fst (SendReportContainerRequest now c cl))"

section \<open>What the host source sends\<close>

text \<open>The first report: what the collectors filled in, with the two values of the constructor.\<close>

definition first_report :: "host_config \<Rightarrow> string \<Rightarrow> 64 word \<Rightarrow> 'b list \<Rightarrow> 'b node_request" where
  "first_report cfg host ident body =
     Node_Info \<lparr>ni_company_uuid = company_uuid cfg, ni_cluster = cluster cfg, ni_host_name = host, ni_object_id = ident,
                ni_body = body\<rparr>"

text \<open>A round, with the lists the collectors yield. The name and the id of the first message are those the
  node collector read at the start, the others are read anew.\<close>

record 'b collected =
  col_node :: "'b list"
  col_processes :: "'b list"
  col_containers :: "'b list"
  col_now :: int
  col_machine_id :: "64 word"
  col_hostname :: string

definition round_list :: "'b collected \<Rightarrow> 'b list \<Rightarrow> 'b list_request" where
  "round_list c xs =
     \<lparr>lr_series_id = col_now c, lr_object_id = col_machine_id c, lr_hostname = col_hostname c, lr_items = xs\<rparr>"

definition round_requests :: "host_config \<Rightarrow> string \<Rightarrow> 64 word \<Rightarrow> 'b collected \<Rightarrow> 'b node_request list" where
  "round_requests cfg host ident c =
     [Node_Info \<lparr>ni_company_uuid = company_uuid cfg, ni_cluster = cluster cfg, ni_host_name = host, ni_object_id = ident,
                 ni_body = col_node c\<rparr>,
      Process_Info (round_list c (col_processes c))] @
     (if container_enable cfg \<and> runtime_is_docker cfg then [Container_Info (round_list c (col_containers c))] else []) @
     (if container_enable cfg \<and> \<not> runtime_is_docker cfg \<and> col_containers c \<noteq> []
      then [Container_Info (round_list c (col_containers c))] else [])"

section \<open>Runs in time\<close>

text \<open>\<open>to_send\<close> is what the thread of the running task has still to send; a round begins when its timer has fired
  and the thread is free. The timer is armed when the source starts and at the end of each round. Time
  passes only as far as gRPC's promise lets it: a call whose deadline is over has ended.\<close>

record 'b reporting =
  client :: "'b node_client"
  wall_clock :: int
  timer_at :: "int option"
  to_send :: "'b node_request list"

definition ten_s :: int where "ten_s = 10 * 10 ^ 9"

definition deadlines_kept :: "int \<Rightarrow> 'b node_client \<Rightarrow> bool" where
  "deadlines_kept t cl \<longleftrightarrow>
     list_all (\<lambda>(a, c). case deadline (call_context c) of None \<Rightarrow> True | Some d \<Rightarrow> t \<le> d) (live_calls cl)"

definition send_next :: "'b reporting \<Rightarrow> 'b reporting" where
  "send_next s =
     (case to_send s of
        [] \<Rightarrow> s
      | r # rs \<Rightarrow>
          s\<lparr>client := sink_send (wall_clock s) r (client s), to_send := rs,
            timer_at := (if rs = [] \<and> timer_at s = None then Some (wall_clock s + ten_s) else timer_at s)\<rparr>)"

inductive report_step :: "host_config \<Rightarrow> string \<Rightarrow> 64 word \<Rightarrow> 'b reporting \<Rightarrow> 'b reporting \<Rightarrow> bool" for cfg host ident where
  Timer: "to_send s = [] \<Longrightarrow> timer_at s = Some t \<Longrightarrow> t \<le> wall_clock s \<Longrightarrow>
    report_step cfg host ident s (s\<lparr>timer_at := None, to_send := round_requests cfg host ident c\<rparr>)"
| Send: "to_send s \<noteq> [] \<Longrightarrow> report_step cfg host ident s (send_next s)"
| Elapse: "wall_clock s \<le> t \<Longrightarrow> deadlines_kept t (client s) \<Longrightarrow> report_step cfg host ident s (s\<lparr>wall_clock := t\<rparr>)"
| Ended: "map_of (live_calls (client s)) a = Some c \<Longrightarrow> node_OnDone a ok (client s) = Inr cl \<Longrightarrow>
    report_step cfg host ident s (s\<lparr>client := cl\<rparr>)"

inductive report_run :: "host_config \<Rightarrow> string \<Rightarrow> 64 word \<Rightarrow> 'b reporting \<Rightarrow> bool" for cfg host ident where
  Begin: "report_run cfg host ident
    \<lparr>client = node_sink_new cfg, wall_clock = t, timer_at = Some (t + ten_s), to_send = [first_report cfg host ident body]\<rparr>"
| Next: "report_run cfg host ident s \<Longrightarrow> report_step cfg host ident s s' \<Longrightarrow> report_run cfg host ident s'"

section \<open>Invariant\<close>

text \<open>Every call carries the company's header and ends within five seconds from now. Before a timer that was
  armed by a round, all calls end five seconds before it fires.\<close>

definition call_ok :: "host_config \<Rightarrow> int \<Rightarrow> 'b unary_call \<Rightarrow> bool" where
  "call_ok cfg now c \<longleftrightarrow>
     sent_metadata (call_context c) = [(''company_uuid'', company_uuid cfg)] \<and>
     (\<exists>d. deadline (call_context c) = Some d \<and> now \<le> d \<and> d \<le> now + 5 * 10 ^ 9)"

definition ends_before :: "int \<Rightarrow> 'b unary_call \<Rightarrow> bool" where
  "ends_before t c \<longleftrightarrow> (\<exists>d. deadline (call_context c) = Some d \<and> d < t)"

definition calls_of :: "'b reporting \<Rightarrow> 'b unary_call set" where
  "calls_of s = snd ` set (live_calls (client s))"

definition report_ok :: "host_config \<Rightarrow> 'b reporting \<Rightarrow> bool" where
  "report_ok cfg s \<longleftrightarrow>
     metadata (node_options (client s)) = [(''company_uuid'', company_uuid cfg)] \<and>
     umap_ok (live_calls (client s)) \<and> (\<forall>a\<in>fst ` set (live_calls (client s)). a < next_address (client s)) \<and>
     (\<forall>c\<in>calls_of s. call_ok cfg (wall_clock s) c) \<and>
     (case timer_at s of
        None \<Rightarrow> to_send s \<noteq> [] \<and> length (live_calls (client s)) + length (to_send s) \<le> 4
      | Some t \<Rightarrow> length (live_calls (client s)) + length (to_send s) \<le> 1 \<or>
          to_send s = [] \<and> length (live_calls (client s)) \<le> 4 \<and> (\<forall>c\<in>calls_of s. ends_before t c))"

lemma round_requests_length: "round_requests cfg host ident c \<noteq> []" "length (round_requests cfg host ident c) \<le> 3"
  by (simp_all add: round_requests_def)

lemma sink_send_fields:
  "node_options (sink_send now r cl) = node_options cl"
  "next_address (sink_send now r cl) = Suc (next_address cl)"
  "\<exists>m. live_calls (sink_send now r cl) = live_calls cl @
     [(next_address cl, \<lparr>call_method = m, call_context = AsyncUnaryCall now (metadata (node_options cl)), call_request = r\<rparr>)]"
  by (cases r; simp add: sink_send_def start_call_def SendRegisterRequest_def SendUpdateRequest_def
      SendReportProcessRequest_def SendReportContainerRequest_def)+

lemma report_ok_begin:
  "report_ok cfg \<lparr>client = node_sink_new cfg, wall_clock = t, timer_at = Some (t + ten_s), to_send = [r]\<rparr>"
  by (simp add: report_ok_def node_sink_new_def calls_of_def options_zero_def)

text \<open>When the timer of a round fires, the calls of the round before have ended.\<close>

lemma timer_finds_few:
  assumes "report_ok cfg s" "to_send s = []" "timer_at s = Some t" "t \<le> wall_clock s"
  shows "length (live_calls (client s)) \<le> 1"
proof (rule ccontr)
  assume "\<not> length (live_calls (client s)) \<le> 1"
  then have "\<forall>c\<in>calls_of s. ends_before t c" "live_calls (client s) \<noteq> []"
    using assms(1-3) by (auto simp: report_ok_def)
  then obtain p where "p \<in> set (live_calls (client s))" by (cases "live_calls (client s)") auto
  then obtain c where c: "c \<in> calls_of s" "ends_before t c"
    using \<open>\<forall>c\<in>calls_of s. ends_before t c\<close> by (auto simp: calls_of_def)
  then have "call_ok cfg (wall_clock s) c" using assms(1) by (simp add: report_ok_def)
  then show False using c(2) assms(4) by (auto simp: call_ok_def ends_before_def)
qed

lemma report_ok_timer:
  assumes "report_ok cfg s" "to_send s = []" "timer_at s = Some t" "t \<le> wall_clock s"
  shows "report_ok cfg (s\<lparr>timer_at := None, to_send := round_requests cfg host ident c\<rparr>)"
  using timer_finds_few [OF assms] assms(1) round_requests_length [of cfg host ident c]
  by (simp add: report_ok_def calls_of_def)

lemma report_ok_send:
  assumes "report_ok cfg s" "to_send s \<noteq> []"
  shows "report_ok cfg (send_next s)"
proof -
  obtain r rs where r: "to_send s = r # rs" using assms(2) by (cases "to_send s") auto
  obtain m where m: "live_calls (sink_send (wall_clock s) r (client s)) = live_calls (client s) @
     [(next_address (client s), \<lparr>call_method = m,
        call_context = AsyncUnaryCall (wall_clock s) (metadata (node_options (client s))), call_request = r\<rparr>)]"
    using sink_send_fields(3) by blast
  have fresh: "next_address (client s) \<notin> fst ` set (live_calls (client s))"
    using assms(1) by (auto simp: report_ok_def)
  have new: "call_ok cfg (wall_clock s) \<lparr>call_method = m,
      call_context = AsyncUnaryCall (wall_clock s) (metadata (node_options (client s))), call_request = r\<rparr>"
    using assms(1) by (simp add: call_ok_def AsyncUnaryCall_def report_ok_def)
  have calls: "\<forall>c\<in>calls_of (send_next s). call_ok cfg (wall_clock s) c"
    using assms(1) new m by (auto simp: calls_of_def send_next_def r report_ok_def)
  then have early: "\<forall>c\<in>calls_of (send_next s). ends_before (wall_clock s + ten_s) c"
    by (fastforce simp: call_ok_def ends_before_def ten_s_def)
  have umap: "umap_ok (live_calls (client (send_next s)))"
    using assms(1) fresh m by (auto simp: send_next_def r report_ok_def umap_ok_def)
  have below: "\<forall>a\<in>fst ` set (live_calls (client (send_next s))). a < next_address (client (send_next s))"
    using assms(1) m by (auto simp: send_next_def r report_ok_def sink_send_fields less_Suc_eq)
  have len: "length (live_calls (client (send_next s))) + length (to_send (send_next s)) =
      length (live_calls (client s)) + length (to_send s)"
    by (simp add: send_next_def r m)
  have fields: "metadata (node_options (client (send_next s))) = metadata (node_options (client s))"
    "wall_clock (send_next s) = wall_clock s" "to_send (send_next s) = rs"
    "timer_at (send_next s) = (if rs = [] \<and> timer_at s = None then Some (wall_clock s + ten_s) else timer_at s)"
    by (simp_all add: send_next_def r sink_send_fields)
  show ?thesis
    using assms calls early umap below len r unfolding report_ok_def fields by (auto split: option.splits)
qed

lemma report_ok_elapse:
  assumes "report_ok cfg s" "wall_clock s \<le> t" "deadlines_kept t (client s)"
  shows "report_ok cfg (s\<lparr>wall_clock := t\<rparr>)"
proof -
  have "call_ok cfg t c" if "c \<in> calls_of s" for c
    using that assms by (fastforce simp: report_ok_def calls_of_def call_ok_def deadlines_kept_def list_all_iff)
  moreover have "calls_of (s\<lparr>wall_clock := t\<rparr>) = calls_of s" by (simp add: calls_of_def)
  ultimately show ?thesis using assms(1) by (cases "timer_at s") (simp_all add: report_ok_def)
qed

lemma report_ok_ended:
  assumes "report_ok cfg s" "node_OnDone a ok (client s) = Inr cl"
  shows "report_ok cfg (s\<lparr>client := cl\<rparr>)"
proof -
  have cl: "live_calls cl = AList.delete a (live_calls (client s))" "node_options cl = node_options (client s)"
    "next_address cl = next_address (client s)"
    using assms(2) by (auto simp: node_OnDone_def split: if_splits)
  have sub: "set (AList.delete a (live_calls (client s))) \<subseteq> set (live_calls (client s))"
    by (auto simp: AList.delete_eq)
  have len: "length (AList.delete a (live_calls (client s))) \<le> length (live_calls (client s))"
    by (rule length_delete_le)
  have calls: "calls_of (s\<lparr>client := cl\<rparr>) \<subseteq> calls_of s" using sub cl by (auto simp: calls_of_def)
  show ?thesis
    using assms(1) cl sub len calls unfolding report_ok_def
    by (auto simp: umap_ok_delete split: option.splits)
qed

lemma report_run_ok: "report_run cfg host ident s \<Longrightarrow> report_ok cfg s"
proof (induction rule: report_run.induct)
  case (Begin t body)
  then show ?case by (rule report_ok_begin)
next
  case (Next s s')
  from Next.hyps(2) Next.IH show ?case
    by cases (auto intro: report_ok_timer report_ok_send report_ok_elapse report_ok_ended)
qed

section \<open>Properties\<close>

text \<open>C21: however long the agent runs and however the node service answers, at most four calls to it are open:
  since gRPC ends a call five seconds after its start and the timer waits ten seconds from the end of a
  round, the calls of a round are gone before the next one starts. Every open call carries the
  company's header and a deadline at most five seconds away.\<close>

theorem node_calls_bounded:
  assumes "report_run cfg host ident s"
  shows "length (live_calls (client s)) \<le> 4 \<and> umap_ok (live_calls (client s)) \<and>
    list_all (\<lambda>(a, c). sent_metadata (call_context c) = [(''company_uuid'', company_uuid cfg)] \<and>
      (case deadline (call_context c) of None \<Rightarrow> False | Some d \<Rightarrow> d \<le> wall_clock s + 5 * 10 ^ 9)) (live_calls (client s))"
proof -
  have ok: "report_ok cfg s" by (rule report_run_ok [OF assms])
  then have "\<forall>c\<in>calls_of s. call_ok cfg (wall_clock s) c" by (simp add: report_ok_def)
  then have "list_all (\<lambda>(a, c). sent_metadata (call_context c) = [(''company_uuid'', company_uuid cfg)] \<and>
      (case deadline (call_context c) of None \<Rightarrow> False | Some d \<Rightarrow> d \<le> wall_clock s + 5 * 10 ^ 9)) (live_calls (client s))"
    by (fastforce simp: list_all_iff calls_of_def call_ok_def)
  then show ?thesis using ok by (auto simp: report_ok_def split: option.splits)
qed

definition sample_host_config :: host_config where
  "sample_host_config = \<lparr>company_uuid = ''c1'', cluster = ''k'', node_report_host = ''node:1'', container_enable = True,
     runtime_is_docker = True\<rparr>"

definition sample_reporting :: "nat reporting" where
  "sample_reporting = \<lparr>client = node_sink_new sample_host_config, wall_clock = 0, timer_at = Some (0 + ten_s),
     to_send = [first_report sample_host_config ''h'' 7 [1]]\<rparr>"

lemma sample_send:
  "live_calls (client (send_next sample_reporting)) =
     [(0, \<lparr>call_method = Register, call_context = AsyncUnaryCall 0 [(''company_uuid'', ''c1'')],
           call_request = first_report sample_host_config ''h'' 7 [1]\<rparr>)]"
  by (simp add: send_next_def sample_reporting_def sample_host_config_def node_sink_new_def options_zero_def sink_send_def
      first_report_def SendRegisterRequest_def start_call_def)

theorem node_calls_bounded_witness:
  "length (live_calls (client (send_next sample_reporting))) \<le> 4 \<and>
   map (\<lambda>(a, c). sent_metadata (call_context c)) (live_calls (client (send_next sample_reporting))) =
     [[(''company_uuid'', ''c1'')]]"
proof -
  have start: "report_run sample_host_config ''h'' 7 sample_reporting"
    unfolding sample_reporting_def by (rule Begin)
  have "to_send sample_reporting \<noteq> []" by (simp add: sample_reporting_def)
  from node_calls_bounded [OF Next [OF start Send [OF this]]] show ?thesis
    by (simp add: sample_send AsyncUnaryCall_def)
qed

text \<open>The requests of a round carry one series, one id and one name; the first message carries the name and the
  id of the start. An empty list of containers is reported with docker and not without.\<close>

lemma round_identity:
  "list_all (\<lambda>r. case r of
       Node_Info i \<Rightarrow> ni_host_name i = host \<and> ni_object_id i = ident
     | Node_Usage u \<Rightarrow> False
     | Process_Info p \<Rightarrow> lr_series_id p = col_now c \<and> lr_object_id p = col_machine_id c \<and> lr_hostname p = col_hostname c
     | Container_Info p \<Rightarrow> lr_series_id p = col_now c \<and> lr_object_id p = col_machine_id c \<and> lr_hostname p = col_hostname c)
   (round_requests cfg host ident c)"
  by (simp add: round_requests_def round_list_def)

lemma empty_container_list:
  "col_containers c = [] \<Longrightarrow>
     length (round_requests cfg host ident c) = (if container_enable cfg \<and> runtime_is_docker cfg then 3 else 2)"
  by (simp add: round_requests_def)

text \<open>The limit of a thousand requests the sink sets is not looked at: without the end of a call the number of
  open calls grows with every message.\<close>

lemma node_limit_ignored: "length (live_calls ((sink_send now r ^^ n) cl)) = length (live_calls cl) + n"
proof (induction n)
  case (Suc n)
  obtain m where "live_calls (sink_send now r ((sink_send now r ^^ n) cl)) = live_calls ((sink_send now r ^^ n) cl) @
     [(next_address ((sink_send now r ^^ n) cl), \<lparr>call_method = m,
        call_context = AsyncUnaryCall now (metadata (node_options ((sink_send now r ^^ n) cl))), call_request = r\<rparr>)]"
    using sink_send_fields(3) by blast
  then show ?case using Suc.IH by simp
qed simp

end
