(* ===== verification/Cpu_Feature.thy ===== *)
theory Cpu_Feature
  imports Cpp_Strings "HOL-Library.Word"
begin

text \<open>
  What the agent reports of its processor: app/source/source/host/collector/cpu/cpu_feature.cc,
  cpu_topology.cc and collector.cc, for an x86 machine. What cpu_features and hwloc return is an argument; zlib is
  its \<open>deflate\<close>, a step on an abstract stream that fills at most the output buffer and yields one of three
  kinds of result. The loop of \<open>gzipCompress\<close> is a partial function: \<open>None\<close> means that it does not end.
\<close>

section \<open>Features\<close>

datatype cache_type =
    CACHE_NULL | CACHE_DATA | CACHE_INSTRUCTION | CACHE_UNIFIED | CACHE_TLB | CACHE_DTLB | CACHE_STLB | CACHE_PREFETCH

record cache_level =
  cl_level :: int
  cl_type :: cache_type
  cl_size :: int
  cl_ways :: int
  cl_line_size :: int
  cl_tlb_entries :: int
  cl_partitioning :: int

record x86_info =
  brand_string :: string
  x86_family :: int
  x86_model :: int
  x86_stepping :: int
  microarchitecture_name :: string
  x86_features :: "(string \<times> bool) list"
  cache_levels :: "cache_level list"

record cpu_feature =
  cf_arch :: string
  cf_brand :: string
  cf_family :: string
  cf_model :: string
  cf_stepping :: string
  cf_uarch :: string
  cf_flags :: "string list"
  cf_caches :: "(string \<rightharpoonup> string) list"

fun GetCacheTypeString :: "cache_type \<Rightarrow> string" where
  "GetCacheTypeString CACHE_NULL = ''null''"
| "GetCacheTypeString CACHE_DATA = ''data''"
| "GetCacheTypeString CACHE_INSTRUCTION = ''instruction''"
| "GetCacheTypeString CACHE_UNIFIED = ''unified''"
| "GetCacheTypeString CACHE_TLB = ''tlb''"
| "GetCacheTypeString CACHE_DTLB = ''dtlb''"
| "GetCacheTypeString CACHE_STLB = ''stlb''"
| "GetCacheTypeString CACHE_PREFETCH = ''prefetch''"

text \<open>The features in the order of the enumeration, each with whether the processor has it.\<close>

definition AddFlags :: "(string \<times> bool) list \<Rightarrow> cpu_feature \<Rightarrow> cpu_feature" where
  "AddFlags features f = f\<lparr>cf_flags := cf_flags f @ map fst (filter snd features)\<rparr>"

definition cache_map :: "cache_level \<Rightarrow> string \<rightharpoonup> string" where
  "cache_map i =
     Map.empty(''level'' \<mapsto> dec_of_int (cl_level i), ''cache_type'' \<mapsto> GetCacheTypeString (cl_type i),
       ''ways'' \<mapsto> dec_of_int (cl_ways i), ''cache_size'' \<mapsto> dec_of_int (cl_size i),
       ''line_size'' \<mapsto> dec_of_int (cl_line_size i), ''tlb_entries'' \<mapsto> dec_of_int (cl_tlb_entries i),
       ''partitioning'' \<mapsto> dec_of_int (cl_partitioning i))"

definition AddCacheInfo :: "cache_level list \<Rightarrow> cpu_feature \<Rightarrow> cpu_feature" where
  "AddCacheInfo levels f = f\<lparr>cf_caches := cf_caches f @ map cache_map levels\<rparr>"

text \<open>\<open>lastCollectTime\<close> in nanoseconds, \<open>None\<close> for the smallest time point it starts with.\<close>

record cpu_feature_state =
  isRun :: bool
  lastCollectTime :: "int option"

definition cpu_feature_new :: cpu_feature_state where
  "cpu_feature_new = \<lparr>isRun = False, lastCollectTime = None\<rparr>"

definition collect_features :: "x86_info \<Rightarrow> cpu_feature" where
  "collect_features info =
     AddCacheInfo (cache_levels info) (AddFlags (x86_features info)
       \<lparr>cf_arch = ''x86'', cf_brand = brand_string info, cf_family = dec_of_int (x86_family info),
        cf_model = dec_of_int (x86_model info), cf_stepping = dec_of_int (x86_stepping info),
        cf_uarch = microarchitecture_name info, cf_flags = [], cf_caches = []\<rparr>)"

text \<open>The feature message of the node after the call, and the state, which no branch changes.\<close>

definition cpu_feature_run ::
  "x86_info \<Rightarrow> int \<Rightarrow> cpu_feature_state \<Rightarrow> cpu_feature option \<Rightarrow> cpu_feature option \<times> cpu_feature_state" where
  "cpu_feature_run info now st old =
     (if isRun st then (old, st)
      else case lastCollectTime st of
             None \<Rightarrow> (Some (collect_features info), st)
           | Some t \<Rightarrow> if (now - t) div 10 ^ 9 < 3600 then (old, st) else (Some (collect_features info), st))"

definition cpu_feature_stop :: "cpu_feature_state \<Rightarrow> cpu_feature_state" where
  "cpu_feature_stop st = st\<lparr>isRun := False\<rparr>"

section \<open>Compression\<close>

datatype z_result = Z_OK | Z_STREAM_END | Z_ERROR

type_synonym 'z deflate = "'z \<Rightarrow> z_result \<times> 8 word list \<times> 'z"

text \<open>A round of the loop: \<open>total_out\<close> counts what all calls produced, and what is new is appended.\<close>

partial_function (option) gzip_loop :: "'z deflate \<Rightarrow> 'z \<Rightarrow> nat \<Rightarrow> 8 word list \<Rightarrow> (z_result \<times> 8 word list) option" where
  "gzip_loop deflate z total_out outstring =
     (let (ret, produced, z') = deflate z;
          total' = total_out + length produced;
          out = (if length outstring < total' then outstring @ take (total' - length outstring) produced else outstring)
      in if ret = Z_OK then gzip_loop deflate z' total' out else Some (ret, out))"

text \<open>\<open>deflateInit2\<close> with the data, whose size is cut to 32 bits.\<close>

definition gzipCompress :: "('z deflate) \<Rightarrow> (8 word list \<Rightarrow> 'z option) \<Rightarrow> 8 word list \<Rightarrow> (8 word list) option" where
  "gzipCompress deflate deflateInit2 data =
     (case deflateInit2 (take (length data mod 2 ^ 32) data) of
        None \<Rightarrow> Some []
      | Some z \<Rightarrow> map_option (\<lambda>(ret, out). if ret \<noteq> Z_STREAM_END then [] else out) (gzip_loop deflate z 0 []))"

text \<open>The topology as XML, empty when the export fails.\<close>

definition GetTopologyXML :: "(8 word list) option \<Rightarrow> 8 word list" where
  "GetTopologyXML exported = (case exported of None \<Rightarrow> [] | Some xml \<Rightarrow> xml)"

definition GetCPUTopology ::
  "('z deflate) \<Rightarrow> (8 word list \<Rightarrow> 'z option) \<Rightarrow> (8 word list) option \<Rightarrow> (8 word list) option" where
  "GetCPUTopology deflate deflateInit2 exported = gzipCompress deflate deflateInit2 (GetTopologyXML exported)"

section \<open>Lemmas\<close>

text \<open>Nothing ever sets the state, so every call collects.\<close>

lemma every_call_collects: "cpu_feature_run info now cpu_feature_new old = (Some (collect_features info), cpu_feature_new)"
  by (simp add: cpu_feature_run_def cpu_feature_new_def)

lemma caches_one_each:
  "length (cf_caches (collect_features info)) = length (cache_levels info)"
  "cf_flags (collect_features info) = map fst (filter snd (x86_features info))"
  by (simp_all add: collect_features_def AddCacheInfo_def AddFlags_def)

text \<open>What a stream produces until it stops saying \<open>Z_OK\<close>.\<close>

inductive deflates :: "'z deflate \<Rightarrow> 'z \<Rightarrow> 8 word list list \<Rightarrow> z_result \<Rightarrow> bool" for deflate where
  Last: "deflate z = (ret, c, z') \<Longrightarrow> ret \<noteq> Z_OK \<Longrightarrow> deflates deflate z [c] ret"
| More: "deflate z = (Z_OK, c, z') \<Longrightarrow> deflates deflate z' cs ret \<Longrightarrow> deflates deflate z (c # cs) ret"

lemma gzip_loop_deflates:
  "deflates deflate z cs ret \<Longrightarrow> gzip_loop deflate z (length out) out = Some (ret, out @ concat cs)"
proof (induction arbitrary: out rule: deflates.induct)
  case (Last z ret c z')
  then show ?case by (subst gzip_loop.simps) (simp add: Let_def)
next
  case (More z c z' cs ret)
  have "gzip_loop deflate z (length out) out = gzip_loop deflate z' (length (out @ c)) (out @ c)"
    by (subst gzip_loop.simps) (simp add: More.hyps(1) Let_def)
  then show ?case using More.IH [of "out @ c"] by simp
qed

text \<open>A stream that comes closer to its end with each call ends.\<close>

lemma deflates_exists:
  assumes "\<And>z c z'. deflate z = (Z_OK, c, z') \<Longrightarrow> left z' < (left z :: nat)"
  shows "\<exists>cs ret. deflates deflate z cs ret"
proof (induction "left z" arbitrary: z rule: less_induct)
  case less
  obtain ret c z' where d: "deflate z = (ret, c, z')" by (cases "deflate z")
  show ?case
  proof (cases "ret = Z_OK")
    case True
    then obtain cs r where "deflates deflate z' cs r" using less [of z'] assms [of z c z'] d by auto
    then show ?thesis using More [of deflate z c z' cs r] d True by auto
  next
    case False
    have "deflates deflate z [c] ret" by (rule Last [where deflate = deflate and z = z, OF d False])
    then show ?thesis by blast
  qed
qed

lemma deflates_Z_OK: "deflates deflate z cs ret \<Longrightarrow> ret \<noteq> Z_OK"
  by (induction rule: deflates.induct) auto

section \<open>Properties\<close>

text \<open>When zlib comes closer to the end of its stream with each call that has not finished, the
  compression ends, and its result is the whole stream in order when zlib reports the end, and empty when
  it fails.\<close>

lemma compression_complete:
  assumes "\<And>z c z'. deflate z = (Z_OK, c, z') \<Longrightarrow> left z' < (left z :: nat)" "length data < 2 ^ 32" "deflateInit2 data = Some z"
  shows "\<exists>cs ret. deflates deflate z cs ret \<and>
    gzipCompress deflate deflateInit2 data = Some (if ret = Z_STREAM_END then concat cs else [])"
proof -
  obtain cs ret where d: "deflates deflate z cs ret" using deflates_exists [of deflate left z] assms(1) by blast
  have "gzip_loop deflate z 0 [] = Some (ret, concat cs)" using gzip_loop_deflates [OF d, of "[]"] by simp
  then show ?thesis using d assms(2,3) by (auto simp: gzipCompress_def)
qed

text \<open>A stream that stores its input, a buffer at a time, as a run with compression level zero does.\<close>

definition store_stream :: "(8 word list) deflate" where
  "store_stream z = (if length z \<le> 2 then (Z_STREAM_END, z, []) else (Z_OK, take 2 z, drop 2 z))"

lemma compression_complete_witness:
  "gzipCompress store_stream Some [1, 2, 3, 4, 5] = Some [1, 2, 3, 4, 5] \<and>
   (\<exists>cs ret. deflates store_stream [1, 2, 3, 4, 5] cs ret \<and>
      gzipCompress store_stream Some [1, 2, 3, 4, 5] = Some (if ret = Z_STREAM_END then concat cs else []))"
proof -
  have closer: "store_stream z = (Z_OK, c, z') \<Longrightarrow> length z' < length z" for z c z'
    by (auto simp: store_stream_def split: if_splits)
  have "\<exists>cs ret. deflates store_stream [1, 2, 3, 4, 5] cs ret \<and>
      gzipCompress store_stream Some [1, 2, 3, 4, 5] = Some (if ret = Z_STREAM_END then concat cs else [])"
    by (rule compression_complete [where left = length, OF closer]) simp_all
  moreover have "gzipCompress store_stream Some [1, 2, 3, 4, 5] = Some [1, 2, 3, 4, 5]"
    by (simp add: gzipCompress_def gzip_loop.simps store_stream_def)
  ultimately show ?thesis by simp
qed

end
