(* ===== verification/Cgroup.thy ===== *)
theory Cgroup
  imports Parser_Util
begin

text \<open>
  The collector of control group (version 2) data:
  app/source/source/host/collector/cgroup/cgroup_collector.cc. A message of the payload repository is
  a map from the dotted path of a field to its value, since its declarations are not in this
  repository: \<open>mount->mutable_cpu()->set_idle(v)\<close> puts \<open>v\<close> at "cpu.idle". The mounts of the tree
  live in a list, and a pointer to one is its index.
\<close>

section \<open>Messages\<close>

datatype 'd pvalue =
    P_Int int
  | P_Real 'd
  | P_String string
  | P_Ints "int list"
  | P_Strings "string list"
  | P_Messages "(string \<times> 'd pvalue) list list"

type_synonym 'd message = "(string \<times> 'd pvalue) list"

definition set_field :: "string \<Rightarrow> 'd pvalue \<Rightarrow> 'd message \<Rightarrow> 'd message" where
  "set_field path v m = AList.update path v m"

definition ints_of :: "string \<Rightarrow> 'd message \<Rightarrow> int list" where
  "ints_of path m = (case map_of m path of Some (P_Ints xs) \<Rightarrow> xs | _ \<Rightarrow> [])"

definition strings_of :: "string \<Rightarrow> 'd message \<Rightarrow> string list" where
  "strings_of path m = (case map_of m path of Some (P_Strings xs) \<Rightarrow> xs | _ \<Rightarrow> [])"

definition messages_of :: "string \<Rightarrow> 'd message \<Rightarrow> 'd message list" where
  "messages_of path m = (case map_of m path of Some (P_Messages xs) \<Rightarrow> xs | _ \<Rightarrow> [])"

definition add_int :: "string \<Rightarrow> int \<Rightarrow> 'd message \<Rightarrow> 'd message" where
  "add_int path i m = set_field path (P_Ints (ints_of path m @ [i])) m"

definition add_string :: "string \<Rightarrow> string \<Rightarrow> 'd message \<Rightarrow> 'd message" where
  "add_string path s m = set_field path (P_Strings (strings_of path m @ [s])) m"

definition add_message :: "string \<Rightarrow> 'd message \<Rightarrow> 'd message \<Rightarrow> 'd message" where
  "add_message path s m = set_field path (P_Messages (messages_of path m @ [s])) m"

section \<open>Values\<close>

record 'd cgroup_env =
  cg_numbers :: "'d parse_env"
  SimpleAtof :: "string \<Rightarrow> bool \<times> 'd"
  real_zero :: 'd
  cg_read_file :: "string \<Rightarrow> string option"
  cg_access :: "string \<Rightarrow> bool"

definition conv_float :: "'d cgroup_env \<Rightarrow> string \<Rightarrow> string \<Rightarrow> bool \<Rightarrow> 'd \<Rightarrow> bool \<times> 'd" where
  "conv_float E str buf simple val = SimpleAtof E str"

definition parsed_or :: "'v \<Rightarrow> bool \<times> 'v \<Rightarrow> 'v" where
  "parsed_or zero r = (if fst r then snd r else zero)"

definition GetValue_int32 :: "'d cgroup_env \<Rightarrow> string \<Rightarrow> string \<Rightarrow> int" where
  "GetValue_int32 E content key =
     sint (parsed_or 0 (ReadKeyVal (ConvertStr2Number_int (cg_numbers E)) content key True True (0 :: 32 word)))"

text \<open>\<open>int64_t\<close>, whose decimal conversion is that of \<open>long\<close>.\<close>

definition conv_long :: "'d cgroup_env \<Rightarrow> string \<Rightarrow> string \<Rightarrow> bool \<Rightarrow> 64 word \<Rightarrow> bool \<times> 64 word" where
  "conv_long E str buf simple val = SimpleAtoi_long (cg_numbers E) str"

definition GetValue_int64 :: "'d cgroup_env \<Rightarrow> string \<Rightarrow> string \<Rightarrow> bool \<Rightarrow> int" where
  "GetValue_int64 E content key required = sint (parsed_or 0 (ReadKeyVal (conv_long E) content key True required 0))"

definition GetValue_float :: "'d cgroup_env \<Rightarrow> string \<Rightarrow> string \<Rightarrow> 'd" where
  "GetValue_float E content key = parsed_or (real_zero E) (ReadKeyVal (conv_float E) content key True True (real_zero E))"

definition GetValue_string :: "string \<Rightarrow> string \<Rightarrow> string" where
  "GetValue_string content key = parsed_or [] (ReadKeyVal take_string content key True True [])"

definition Str2Number_int32 :: "'d cgroup_env \<Rightarrow> string \<Rightarrow> int" where
  "Str2Number_int32 E s = sint (parsed_or 0 (SimpleAtoi_int (cg_numbers E) s))"

definition Str2Number_int64 :: "'d cgroup_env \<Rightarrow> string \<Rightarrow> int" where
  "Str2Number_int64 E s = sint (parsed_or 0 (SimpleAtoi_long (cg_numbers E) s))"

definition Str2Number_float :: "'d cgroup_env \<Rightarrow> string \<Rightarrow> 'd" where
  "Str2Number_float E s = parsed_or (real_zero E) (SimpleAtof E s)"

text \<open>\<open>v[i]\<close> on a vector of pieces.\<close>

definition piece :: "string list \<Rightarrow> nat \<Rightarrow> string result" where
  "piece fl i = (if i < length fl then Inr (fl ! i) else Inl Out_Of_Bounds)"

definition split :: "'d cgroup_env \<Rightarrow> string \<Rightarrow> char \<Rightarrow> string list" where
  "split E s c = StrSplit (cg_numbers E) s c"

section \<open>Files with their own format\<close>

definition ParseCGroupCPUMax :: "'d cgroup_env \<Rightarrow> string \<Rightarrow> string \<Rightarrow> 'd message \<Rightarrow> 'd message" where
  "ParseCGroupCPUMax E path content m =
     (case split E content CHR '' '' of
        [v, p] \<Rightarrow>
          let m1 = (if v = ''max'' then set_field (path @ ''.max_string'') (P_String ''max'') m
                    else set_field (path @ ''.max_value'') (P_Int (Str2Number_int64 E v)) m)
          in set_field (path @ ''.period'') (P_Int (Str2Number_int64 E p)) m1
      | _ \<Rightarrow> m)"

text \<open>\<open>for (int i = start; i <= end; i++)\<close>, with \<open>end\<close> of 64 bits: incrementing the largest \<open>int\<close> overflows.\<close>

definition int_max :: int where "int_max = 2 ^ 31 - 1"

function cpu_range :: "int \<Rightarrow> int \<Rightarrow> int list result" where
  "cpu_range i e =
     (if i > e then Inr []
      else if i \<ge> int_max then Inl Signed_Overflow
      else bind_r (cpu_range (i + 1) e) (\<lambda>is. Inr (i # is)))"
  by pat_completeness auto
termination by (relation "measure (\<lambda>(i, e). nat (e + 1 - i))") auto

declare cpu_range.simps [simp del]

definition cpu_field :: "'d cgroup_env \<Rightarrow> string \<Rightarrow> int list result" where
  "cpu_field E field =
     (case split E field CHR ''-'' of
        [] \<Rightarrow> Inl Out_Of_Bounds
      | [r] \<Rightarrow> Inr [signed_take_bit 31 (Str2Number_int64 E r)]
      | a # b # _ \<Rightarrow> cpu_range (signed_take_bit 31 (Str2Number_int64 E a)) (Str2Number_int64 E b))"

definition ParseCPUSetList :: "'d cgroup_env \<Rightarrow> string \<Rightarrow> string \<Rightarrow> 'd message \<Rightarrow> 'd message result" where
  "ParseCPUSetList E path content m =
     fold_r (\<lambda>field m. bind_r (cpu_field E field) (\<lambda>is. Inr (fold (add_int path) is m))) (split E content CHR '','') m"

definition ParseCGroupStat :: "'d cgroup_env \<Rightarrow> string \<Rightarrow> string \<Rightarrow> 'd message \<Rightarrow> 'd message" where
  "ParseCGroupStat E path content m =
     set_field (path @ ''.nr_dying_descendants'') (P_Int (GetValue_int32 E content ''nr_dying_descendants''))
       (set_field (path @ ''.nr_descendants'') (P_Int (GetValue_int32 E content ''nr_descendants'')) m)"

definition pressure_fields :: "'d cgroup_env \<Rightarrow> string \<Rightarrow> (string \<Rightarrow> 'd pvalue) \<Rightarrow> string list \<Rightarrow> 'd message \<Rightarrow> 'd message result" where
  "pressure_fields E path tot fl m =
     bind_r (piece fl 1) (\<lambda>f1. let m1 = set_field (path @ ''.avg10'') (P_Real (GetValue_float E f1 ''avg10='')) m in
     bind_r (piece fl 2) (\<lambda>f2. let m2 = set_field (path @ ''.avg60'') (P_Real (GetValue_float E f2 ''avg60='')) m1 in
     bind_r (piece fl 3) (\<lambda>f3. let m3 = set_field (path @ ''.avg300'') (P_Real (GetValue_float E f3 ''avg300='')) m2 in
     bind_r (piece fl 4) (\<lambda>f4. Inr (set_field (path @ ''.total'') (tot f4) m3)))))"

definition pressure_line :: "'d cgroup_env \<Rightarrow> string \<Rightarrow> string \<Rightarrow> 'd message \<Rightarrow> 'd message result" where
  "pressure_line E path line m =
     (let fl = split E line CHR '' '' in
      bind_r (piece fl 0) (\<lambda>f0.
        if f0 = ''some'' then pressure_fields E (path @ ''.some'') (\<lambda>f. P_Int (GetValue_int32 E f ''total='')) fl m
        else if f0 = ''full'' then pressure_fields E (path @ ''.full'') (\<lambda>f. P_Real (GetValue_float E f ''total='')) fl m
        else Inr m))"

definition ParseCGroupPressure :: "'d cgroup_env \<Rightarrow> string \<Rightarrow> string \<Rightarrow> 'd message \<Rightarrow> 'd message result" where
  "ParseCGroupPressure E path content m = fold_r (pressure_line E path) (split E content newline) m"

definition set_int64 :: "'d cgroup_env \<Rightarrow> string \<Rightarrow> string \<Rightarrow> bool \<Rightarrow> string \<times> string \<Rightarrow> 'd message \<Rightarrow> 'd message" where
  "set_int64 E path content required fk m =
     set_field (path @ fst fk) (P_Int (GetValue_int64 E content (snd fk) required)) m"

definition ParseCGroupCPUStat :: "'d cgroup_env \<Rightarrow> string \<Rightarrow> string \<Rightarrow> 'd message \<Rightarrow> 'd message" where
  "ParseCGroupCPUStat E path content =
     fold (set_int64 E path content False)
       [(''.usage_usec'', ''usage_usec''), (''.user_usec'', ''user_usec''), (''.system_usec'', ''system_usec''),
        (''.core_sched_force_idle_usec'', ''core_sched.force_idle_usec''), (''.nr_periods'', ''nr_periods''),
        (''.nr_throttled'', ''nr_throttled''), (''.throttled_usec'', ''throttled_usec''),
        (''.nr_bursts'', ''nr_bursts''), (''.burst_usec'', ''burst_usec'')]"

definition ParseMemoryEvents :: "'d cgroup_env \<Rightarrow> string \<Rightarrow> string \<Rightarrow> 'd message \<Rightarrow> 'd message" where
  "ParseMemoryEvents E path content =
     fold (set_int64 E path content True) [(''.low'', ''low''), (''.high'', ''high''), (''.max'', ''max''), (''.oom'', ''oom'')]"

definition ParseMemorySwapEvents :: "'d cgroup_env \<Rightarrow> string \<Rightarrow> string \<Rightarrow> 'd message \<Rightarrow> 'd message" where
  "ParseMemorySwapEvents E path content =
     fold (set_int64 E path content True) [(''.high'', ''high''), (''.max'', ''max''), (''.fail'', ''fail'')]"

text \<open>The limits of a device: the second one reports "max" in the field of the first.\<close>

definition limit_field ::
  "'d cgroup_env \<Rightarrow> string \<Rightarrow> string \<Rightarrow> string \<Rightarrow> string \<Rightarrow> 'd message \<Rightarrow> 'd message" where
  "limit_field E field key string_path value_path m =
     (let v = GetValue_string field key in
      if v = ''max'' then set_field string_path (P_String ''max'') m
      else set_field value_path (P_Int (Str2Number_int32 E v)) m)"

definition io_max_line :: "'d cgroup_env \<Rightarrow> string \<Rightarrow> 'd message result" where
  "io_max_line E line =
     (let fl = split E line CHR '' '' in
      bind_r (piece fl 1) (\<lambda>f1. let m1 = limit_field E f1 ''rbps'' ''rbps_string'' ''rbps_value'' [] in
      bind_r (piece fl 2) (\<lambda>f2. let m2 = limit_field E f2 ''wbps'' ''rbps_string'' ''wbps_value'' m1 in
      bind_r (piece fl 3) (\<lambda>f3. let m3 = limit_field E f3 ''riops'' ''riops_string'' ''riops_value'' m2 in
      bind_r (piece fl 4) (\<lambda>f4. Inr (limit_field E f4 ''wiops'' ''wiops_string'' ''wiops_value'' m3))))))"

definition ParseIOMax :: "'d cgroup_env \<Rightarrow> string \<Rightarrow> string \<Rightarrow> 'd message \<Rightarrow> 'd message result" where
  "ParseIOMax E path content m =
     (if content = [] then Inr m
      else fold_r (\<lambda>line m. bind_r (io_max_line E line) (\<lambda>x. Inr (add_message path x m))) (split E content newline) m)"

section \<open>The table of files\<close>

type_synonym 'd handler = "'d cgroup_env \<Rightarrow> string \<Rightarrow> 'd message \<Rightarrow> 'd message result"

definition set_i32 :: "string \<Rightarrow> 'd handler" where
  "set_i32 path E content m = Inr (set_field path (P_Int (Str2Number_int32 E content)) m)"

definition set_i64 :: "string \<Rightarrow> 'd handler" where
  "set_i64 path E content m = Inr (set_field path (P_Int (Str2Number_int64 E content)) m)"

definition set_real :: "string \<Rightarrow> 'd handler" where
  "set_real path E content m = Inr (set_field path (P_Real (Str2Number_float E content)) m)"

definition set_text :: "string \<Rightarrow> 'd handler" where
  "set_text path E content m = Inr (set_field path (P_String content) m)"

definition set_max32 :: "string \<Rightarrow> 'd handler" where
  "set_max32 path E content m =
     Inr (if content = ''max'' then set_field (path @ ''_string'') (P_String ''max'') m
          else set_field (path @ ''_value'') (P_Int (Str2Number_int32 E content)) m)"

definition set_max64 :: "string \<Rightarrow> 'd handler" where
  "set_max64 path E content m =
     Inr (if content = ''max'' then set_field (path @ ''_string'') (P_String ''max'') m
          else set_field (path @ ''_value'') (P_Int (Str2Number_int64 E content)) m)"

definition set_words :: "string \<Rightarrow> 'd handler" where
  "set_words path E content m = Inr (fold (add_string path) (split E content CHR '' '') m)"

definition set_lines :: "string \<Rightarrow> 'd handler" where
  "set_lines path E content m = Inr (fold (\<lambda>f. add_int path (Str2Number_int32 E f)) (split E content newline) m)"

definition set_events :: "'d handler" where
  "set_events E content m =
     Inr (set_field ''cgroup.events.frozen'' (P_Int (GetValue_int32 E content ''frozen''))
       (set_field ''cgroup.events.populated'' (P_Int (GetValue_int32 E content ''populated'')) m))"

definition set_pids_events :: "'d handler" where
  "set_pids_events E content m = Inr (set_field ''pids.events'' (P_Int (GetValue_int32 E content ''max'')) m)"

definition set_nothing :: "'d handler" where
  "set_nothing E content m = Inr m"

definition parse_v :: "('d cgroup_env \<Rightarrow> string \<Rightarrow> string \<Rightarrow> 'd message \<Rightarrow> 'd message) \<Rightarrow> string \<Rightarrow> 'd handler" where
  "parse_v f path E content m = Inr (f E path content m)"

definition parse_r :: "('d cgroup_env \<Rightarrow> string \<Rightarrow> string \<Rightarrow> 'd message \<Rightarrow> 'd message result) \<Rightarrow> string \<Rightarrow> 'd handler" where
  "parse_r f path E content m = f E path content m"

definition cgroup_cpu_table :: "(string \<times> 'd handler) list" where
  "cgroup_cpu_table =
     [(''cgroup.controllers'', set_words ''cgroup.controllers''),
      (''cgroup.events'', set_events),
      (''cgroup.freeze'', set_i32 ''cgroup.freeze''),
      (''cgroup.max.depth'', set_max32 ''cgroup.max_depth''),
      (''cgroup.max.descendants'', set_max32 ''cgroup.max_descendants''),
      (''cgroup.pressure'', set_i32 ''cgroup.pressure''),
      (''cgroup.procs'', set_lines ''cgroup.procs''),
      (''cgroup.stat'', parse_v ParseCGroupStat ''cgroup.stat''),
      (''cgroup.threads'', set_lines ''cgroup.threads''),
      (''cgroup.type'', set_text ''cgroup.type''),
      (''cpu.idle'', set_i32 ''cpu.idle''),
      (''cpu.max'', parse_v ParseCGroupCPUMax ''cpu.max''),
      (''cpu.max.burst'', set_i32 ''cpu.max_burst''),
      (''cpu.pressure'', parse_r ParseCGroupPressure ''cpu.pressure''),
      (''cpu.stat'', parse_v ParseCGroupCPUStat ''cpu.stat''),
      (''cpu.stat.local'', parse_v ParseCGroupCPUStat ''cpu.stat_local''),
      (''cpu.uclamp.max'', set_max32 ''cpu.uclamp_max''),
      (''cpu.uclamp.min'', set_real ''cpu.uclamp_min''),
      (''cpu.weight'', set_i32 ''cpu.weight''),
      (''cpu.weight.nice'', set_i32 ''cpu.weight_nice''),
      (''cpuset.cpus'', parse_r ParseCPUSetList ''cpuset.cpus''),
      (''cpuset.cpus.effective'', parse_r ParseCPUSetList ''cpuset.cpus_effective''),
      (''cpuset.cpus.exclusive'', parse_r ParseCPUSetList ''cpuset.cpus_exclusive''),
      (''cpuset.cpus.exclusive.effective'', parse_r ParseCPUSetList ''cpuset.cpus_exclusive_effective''),
      (''cpuset.cpus.partition'', set_text ''cpuset.cpus_partition''),
      (''cpuset.mems'', parse_r ParseCPUSetList ''cpuset.mems''),
      (''cpuset.mems.effective'', parse_r ParseCPUSetList ''cpuset.mems_effective'')]"

definition io_memory_table :: "(string \<times> 'd handler) list" where
  "io_memory_table =
     [(''io.max'', parse_r ParseIOMax ''io.max''),
      (''io.pressure'', parse_r ParseCGroupPressure ''io.pressure''),
      (''io.prio.class'', set_nothing),
      (''io.stat'', set_nothing),
      (''io.weight'', set_nothing),
      (''memory.current'', set_i64 ''memory.current''),
      (''memory.events'', parse_v ParseMemoryEvents ''memory.events''),
      (''memory.events.local'', parse_v ParseMemoryEvents ''memory.events''),
      (''memory.high'', set_max64 ''memory.high''),
      (''memory.low'', set_i64 ''memory.low''),
      (''memory.max'', set_max64 ''memory.max''),
      (''memory.min'', set_i64 ''memory.min''),
      (''memory.numa_stat'', set_nothing),
      (''memory.oom.group'', set_i32 ''memory.oom_group''),
      (''memory.peak'', set_i64 ''memory.peak''),
      (''memory.pressure'', parse_r ParseCGroupPressure ''memory.pressure''),
      (''memory.stat'', set_nothing),
      (''memory.swap.current'', set_i64 ''memory.swap_current''),
      (''memory.swap.events'', parse_v ParseMemorySwapEvents ''memory.swap_events''),
      (''memory.swap.high'', set_max64 ''memory.swap_high''),
      (''memory.swap.max'', set_max64 ''memory.swap_max''),
      (''memory.swap.peak'', set_i64 ''memory.swap_peak''),
      (''memory.zswap.current'', set_i64 ''memory.zswap_current''),
      (''memory.zswap.max'', set_max64 ''memory.zswap_max''),
      (''memory.zswap.writeback'', set_i32 ''memory.zswap_writeback''),
      (''pids.current'', set_i32 ''pids.current''),
      (''pids.events'', set_pids_events),
      (''pids.max'', set_max32 ''pids.max''),
      (''pids.peak'', set_i32 ''pids.peak''),
      (''misc.current'', set_nothing),
      (''misc.events'', set_nothing),
      (''rdma.current'', set_nothing),
      (''rdma.max'', set_nothing)]"

definition cgroup_table :: "(string \<times> 'd handler) list" where
  "cgroup_table = cgroup_cpu_table @ io_memory_table"

section \<open>Huge pages\<close>

definition hugetlb_event :: "'d cgroup_env \<Rightarrow> string \<Rightarrow> string \<Rightarrow> 'd message \<Rightarrow> 'd message" where
  "hugetlb_event E path content m =
     (case split E content CHR '' '' of
        [k, v] \<Rightarrow>
          let m1 = (if k = ''max'' then set_field (path @ ''.max_string'') (P_String ''max'') m
                    else set_field (path @ ''.max_value'') (P_Int (Str2Number_int32 E k)) m)
          in set_field (path @ ''.period'') (P_Int (Str2Number_int32 E v)) m1
      | _ \<Rightarrow> m)"

fun dotted :: "string list \<Rightarrow> string" where
  "dotted [] = []"
| "dotted [f] = f"
| "dotted (f # fs) = f @ ''.'' @ dotted fs"

definition hugetlb_table :: "string \<Rightarrow> (string \<times> 'd handler) list" where
  "hugetlb_table entry =
     [(''current'', set_i32 (entry @ ''.current'')),
      (''events.local'', parse_v hugetlb_event (entry @ ''.events_local'')),
      (''events'', parse_v hugetlb_event (entry @ ''.events'')),
      (''max'', set_max32 (entry @ ''.max'')),
      (''numa_stat'', set_nothing),
      (''rsvd.current'', set_i32 (entry @ ''.max_value'')),
      (''rsvd.max'', set_max32 (entry @ ''.rsvd_max''))]"

definition handleHugetlb :: "'d cgroup_env \<Rightarrow> string \<Rightarrow> string \<Rightarrow> 'd message \<Rightarrow> 'd message result" where
  "handleHugetlb E filename content m =
     (case split E filename CHR ''.'' of
        a # sz # f # fs \<Rightarrow>
          (case map_of (hugetlb_table (''hugetlb.tlb.'' @ sz)) (dotted (f # fs)) of
             None \<Rightarrow> Inr m
           | Some h \<Rightarrow> h E content m)
      | _ \<Rightarrow> Inr m)"

section \<open>A file, and the tree\<close>

definition ignored_files :: "string list" where
  "ignored_files = [''cgroup.subtree_control'', ''cgroup.kill'', ''memory.reclaim'']"

definition strip_newlines :: "string \<Rightarrow> string" where
  "strip_newlines s = rev (dropWhile (\<lambda>c. c = newline) (rev s))"

definition filename_of :: "string \<Rightarrow> string" where
  "filename_of path = (case rfind_char CHR ''/'' path of None \<Rightarrow> path | Some i \<Rightarrow> drop (i + 1) path)"

definition parent_path :: "string \<Rightarrow> string" where
  "parent_path path = (case rfind_char CHR ''/'' path of None \<Rightarrow> [] | Some i \<Rightarrow> take i path)"

definition handleFile :: "'d cgroup_env \<Rightarrow> string \<Rightarrow> 'd message \<Rightarrow> 'd message result" where
  "handleFile E path m =
     (let filename = filename_of path in
      if filename \<in> set ignored_files then Inr m
      else case cg_read_file E path of
             None \<Rightarrow> Inr m
           | Some raw \<Rightarrow>
               let content = strip_newlines raw in
               if content = [] then Inr m
               else case map_of cgroup_table filename of
                      Some h \<Rightarrow> h E content m
                    | None \<Rightarrow>
                        if length filename > 8 \<and> take 8 filename = ''hugetlb.'' then handleHugetlb E filename content m
                        else Inr m)"

record 'd cgroup_mount =
  mount_point :: string
  mount_children :: "nat list"
  mount_fields :: "'d message"

definition mount_new :: "string \<Rightarrow> 'd cgroup_mount" where
  "mount_new path = \<lparr>mount_point = path, mount_children = [], mount_fields = []\<rparr>"

datatype entry_kind = Directory | Regular | Other_File

record 'd cgroup_walk =
  walk_mounts :: "'d cgroup_mount list"
  walk_table :: "(string \<times> nat) list"

definition cgroup_root :: string where "cgroup_root = ''/sys/fs/cgroup''"

definition walk_start :: "'d cgroup_walk" where
  "walk_start = \<lparr>walk_mounts = [mount_new cgroup_root], walk_table = [(cgroup_root, 0)]\<rparr>"

definition walk_entry :: "'d cgroup_env \<Rightarrow> string \<times> entry_kind \<Rightarrow> 'd cgroup_walk \<Rightarrow> 'd cgroup_walk result" where
  "walk_entry E e w =
     (let (path, kind) = e in
      case kind of
        Directory \<Rightarrow>
          (case map_of (walk_table w) (parent_path path) of
             None \<Rightarrow> Inl Assert_Failed
           | Some p \<Rightarrow>
               let curr = length (walk_mounts w);
                   pm = walk_mounts w ! p
               in Inr \<lparr>walk_mounts = (walk_mounts w)[p := pm\<lparr>mount_children := mount_children pm @ [curr]\<rparr>] @ [mount_new path],
                      walk_table = AList.update path curr (walk_table w)\<rparr>)
      | Regular \<Rightarrow>
          (case map_of (walk_table w) (parent_path path) of
             None \<Rightarrow> Inl Assert_Failed
           | Some p \<Rightarrow>
               bind_r (handleFile E path (mount_fields (walk_mounts w ! p)))
                 (\<lambda>m. Inr (w\<lparr>walk_mounts := (walk_mounts w)[p := (walk_mounts w ! p)\<lparr>mount_fields := m\<rparr>]\<rparr>)))
      | Other_File \<Rightarrow> Inr w)"

definition GetCgroupVersion :: "'d cgroup_env \<Rightarrow> string" where
  "GetCgroupVersion E = (if cg_access E ''/sys/fs/cgroup/cgroup.controllers'' then ''v2'' else ''v1'')"

definition GetCGroupInfo :: "'d cgroup_env \<Rightarrow> (string \<times> entry_kind) list \<Rightarrow> (string \<times> 'd cgroup_walk) result" where
  "GetCGroupInfo E entries =
     bind_r (fold_r (walk_entry E) entries walk_start) (\<lambda>w. Inr (GetCgroupVersion E, w))"

section \<open>A sample system\<close>

definition sample_cgroup_env :: "int cgroup_env" where
  "sample_cgroup_env =
     \<lparr>cg_numbers = sample_parse_env, SimpleAtof = SimpleAtod sample_parse_env, real_zero = 0,
      cg_read_file = (\<lambda>path. if path = ''/sys/fs/cgroup/a/pids.max'' then Some (''max'' @ [newline]) else None),
      cg_access = (\<lambda>path. True)\<rparr>"

definition sample_entries :: "(string \<times> entry_kind) list" where
  "sample_entries =
     [(''/sys/fs/cgroup/a'', Directory), (''/sys/fs/cgroup/a/pids.max'', Regular), (''/sys/fs/cgroup/a/b'', Directory)]"

section \<open>The tree of mounts\<close>

text \<open>Every directory has one mount, found under its path, and is the child of the mount of its parent.\<close>

definition walk_ok :: "'d cgroup_walk \<Rightarrow> bool" where
  "walk_ok w \<longleftrightarrow>
     (\<forall>p i. map_of (walk_table w) p = Some i \<longleftrightarrow> i < length (walk_mounts w) \<and> mount_point (walk_mounts w ! i) = p) \<and>
     (\<forall>p<length (walk_mounts w). \<forall>j. j \<in> set (mount_children (walk_mounts w ! p)) \<longleftrightarrow>
        0 < j \<and> j < length (walk_mounts w) \<and>
        parent_path (mount_point (walk_mounts w ! j)) = mount_point (walk_mounts w ! p)) \<and>
     (\<forall>j<length (walk_mounts w). 0 < j \<longrightarrow> parent_path (mount_point (walk_mounts w ! j)) \<in> dom (map_of (walk_table w)))"

definition walk_points :: "'d cgroup_walk \<Rightarrow> string list" where
  "walk_points w = map mount_point (walk_mounts w)"

definition directories :: "(string \<times> entry_kind) list \<Rightarrow> string list" where
  "directories entries = map fst (filter (\<lambda>(p, k). k = Directory) entries)"

lemma directories_simps [simp]:
  "directories [] = []"
  "directories ((p, k) # es) = (if k = Directory then p # directories es else directories es)"
  by (simp_all add: directories_def)

lemma walk_start_ok: "walk_ok walk_start" "walk_points walk_start = [cgroup_root]"
  by (auto simp: walk_ok_def walk_start_def walk_points_def mount_new_def split: if_splits)

lemma walk_entry_Directory:
  assumes ok: "walk_ok w" and new: "path \<notin> set (walk_points w)"
    and step: "walk_entry E (path, Directory) w = Inr w'" and up: "parent_path path \<noteq> path"
  shows "walk_ok w' \<and> walk_points w' = walk_points w @ [path]"
proof -
  let ?n = "length (walk_mounts w)"
  obtain p where p: "map_of (walk_table w) (parent_path path) = Some p"
    and w': "w' = \<lparr>walk_mounts = (walk_mounts w)[p := (walk_mounts w ! p)
        \<lparr>mount_children := mount_children (walk_mounts w ! p) @ [?n]\<rparr>] @ [mount_new path],
      walk_table = AList.update path ?n (walk_table w)\<rparr>"
    using step by (auto simp: walk_entry_def Let_def split: option.splits)
  have pn: "p < ?n" "mount_point (walk_mounts w ! p) = parent_path path"
    using ok p by (auto simp: walk_ok_def)
  have point: "mount_point (walk_mounts w' ! i) = (if i < ?n then mount_point (walk_mounts w ! i) else path)"
    if "i < Suc ?n" for i
    using that pn by (auto simp: w' nth_append nth_list_update mount_new_def)
  have len: "length (walk_mounts w') = Suc ?n" by (simp add: w')
  have fresh: "mount_point (walk_mounts w ! i) \<noteq> path" if "i < ?n" for i
    using new that by (auto simp: walk_points_def)
  have uniq: "i = p" if "i < ?n" "mount_point (walk_mounts w ! i) = parent_path path" for i
  proof -
    have "map_of (walk_table w) (parent_path path) = Some i"
      using ok that by (simp add: walk_ok_def)
    then show ?thesis using p by simp
  qed
  have t: "map_of (walk_table w') q = Some i \<longleftrightarrow> i < Suc ?n \<and> mount_point (walk_mounts w' ! i) = q" for q i
    using ok fresh point by (auto simp: w' walk_ok_def update_conv' less_Suc_eq)
  have par: "parent_path (mount_point (walk_mounts w' ! j)) \<in> dom (map_of (walk_table w'))" if "j < Suc ?n" "0 < j" for j
    using ok p that point [of j] by (auto simp: w' walk_ok_def update_conv')
  have kids: "mount_children (walk_mounts w' ! q) =
      (if q = p then mount_children (walk_mounts w ! p) @ [?n] else if q < ?n then mount_children (walk_mounts w ! q) else [])"
    if "q < Suc ?n" for q
    using that pn by (auto simp: w' nth_append nth_list_update mount_new_def)
  have c: "j \<in> set (mount_children (walk_mounts w' ! q)) \<longleftrightarrow>
      0 < j \<and> j < Suc ?n \<and> parent_path (mount_point (walk_mounts w' ! j)) = mount_point (walk_mounts w' ! q)"
    if q: "q < Suc ?n" for q j
  proof (cases "q < ?n")
    case True
    have old: "j \<in> set (mount_children (walk_mounts w ! q)) \<longleftrightarrow>
        0 < j \<and> j < ?n \<and> parent_path (mount_point (walk_mounts w ! j)) = mount_point (walk_mounts w ! q)"
      using ok True by (auto simp: walk_ok_def)
    have here: "q = p \<longleftrightarrow> parent_path path = mount_point (walk_mounts w ! q)"
      using uniq [OF True] pn(2) by auto
    show ?thesis
      using old here kids [OF q] point [OF q] point [of j] True pn(1) by (cases "j = ?n") auto
  next
    case False
    then have qn: "q = ?n" using q by simp
    have "parent_path (mount_point (walk_mounts w' ! j)) \<noteq> path" if j: "0 < j" "j < Suc ?n"
    proof (cases "j = ?n")
      case True
      then show ?thesis using point [of j] up by simp
    next
      case False
      then have jn: "j < ?n" using j by simp
      then have "parent_path (mount_point (walk_mounts w ! j)) \<in> dom (map_of (walk_table w))"
        using ok j by (simp add: walk_ok_def)
      then obtain i where "i < ?n" "mount_point (walk_mounts w ! i) = parent_path (mount_point (walk_mounts w ! j))"
        using ok by (auto simp: walk_ok_def)
      with fresh [of i] show ?thesis using point [OF j(2)] jn by simp
    qed
    then show ?thesis using kids [OF q] qn pn(1) point [OF q] by auto
  qed
  show ?thesis
  proof (intro conjI)
    show "walk_ok w'" unfolding walk_ok_def len using t c par by blast
    show "walk_points w' = walk_points w @ [path]"
      by (auto simp: w' walk_points_def mount_new_def map_update pn(1) intro!: nth_equalityI simp: nth_list_update)
  qed
qed

lemma walk_fields_ok:
  assumes "walk_ok w" "p < length (walk_mounts w)"
  shows "walk_ok (w\<lparr>walk_mounts := (walk_mounts w)[p := (walk_mounts w ! p)\<lparr>mount_fields := m\<rparr>]\<rparr>)"
    "walk_points (w\<lparr>walk_mounts := (walk_mounts w)[p := (walk_mounts w ! p)\<lparr>mount_fields := m\<rparr>]\<rparr>) = walk_points w"
proof -
  let ?w = "w\<lparr>walk_mounts := (walk_mounts w)[p := (walk_mounts w ! p)\<lparr>mount_fields := m\<rparr>]\<rparr>"
  have same: "mount_point (walk_mounts ?w ! i) = mount_point (walk_mounts w ! i)"
    "mount_children (walk_mounts ?w ! i) = mount_children (walk_mounts w ! i)" for i
    using assms(2) by (cases "i = p"; simp)+
  show "walk_ok ?w" using assms(1) unfolding walk_ok_def same by simp
  show "walk_points ?w = walk_points w"
    by (simp add: walk_points_def map_update assms(2)) (metis assms(2) length_map list_update_id nth_map)
qed

lemma walk_entry_other:
  assumes "walk_ok w" "kind \<noteq> Directory" "walk_entry E (path, kind) w = Inr w'"
  shows "walk_ok w' \<and> walk_points w' = walk_points w"
proof (cases kind)
  case Regular
  then obtain p m where p: "map_of (walk_table w) (parent_path path) = Some p"
    and w': "w' = w\<lparr>walk_mounts := (walk_mounts w)[p := (walk_mounts w ! p)\<lparr>mount_fields := m\<rparr>]\<rparr>"
    using assms(3) by (auto simp: walk_entry_def cpp_simps split: option.splits)
  have "p < length (walk_mounts w)" using assms(1) p by (auto simp: walk_ok_def)
  from walk_fields_ok [OF assms(1) this] show ?thesis by (simp add: w')
qed (use assms in \<open>simp_all add: walk_entry_def\<close>)

text \<open>C30: the walk over /sys/fs/cgroup, when it ends, leaves one mount for the root and for each directory, in
  the order they were met, and each mount below the root is among the children of exactly the mount
  of its parent directory.\<close>
theorem mounts_mirror_directories:
  fixes E :: "'d cgroup_env"
  assumes "GetCGroupInfo E entries = Inr (version, w)"
    and "distinct (cgroup_root # directories entries)"
    and "\<forall>p\<in>set (directories entries). parent_path p \<noteq> p"
  shows "walk_ok w \<and> walk_points w = cgroup_root # directories entries"
proof -
  have all: "walk_ok w \<and> walk_points w = walk_points v @ directories es"
    if "fold_r (walk_entry E) es v = Inr w" "walk_ok v" "distinct (walk_points v @ directories es)"
      "\<forall>p\<in>set (directories es). parent_path p \<noteq> p" for es v
    using that
  proof (induction es arbitrary: v)
    case (Cons e es)
    obtain path kind where e: "e = (path, kind)" by (cases e)
    obtain u where u: "walk_entry E e v = Inr u" "fold_r (walk_entry E) es u = Inr w"
      using Cons.prems(1) by (auto simp: cpp_simps)
    show ?case
    proof (cases "kind = Directory")
      case True
      then have "walk_ok u \<and> walk_points u = walk_points v @ [path]"
        using walk_entry_Directory [OF Cons.prems(2), of path E u] u(1) Cons.prems(3,4) by (simp add: e)
      then show ?thesis using Cons.IH [OF u(2)] Cons.prems(3,4) True by (simp add: e)
    next
      case False
      with walk_entry_other [OF Cons.prems(2), of kind E path u] u(1)
      have "walk_ok u \<and> walk_points u = walk_points v" by (simp add: e)
      then show ?thesis using Cons.IH [OF u(2)] Cons.prems(3,4) False by (simp add: e)
    qed
  qed simp
  have "fold_r (walk_entry E) entries walk_start = Inr w"
    using assms(1) by (auto simp: GetCGroupInfo_def cpp_simps)
  from all [OF this walk_start_ok(1)] show ?thesis using assms(2,3) by (simp add: walk_start_ok(2))
qed

theorem mounts_mirror_directories_witness:
  "walk_ok (snd (projr (GetCGroupInfo sample_cgroup_env sample_entries))) \<and>
   walk_points (snd (projr (GetCGroupInfo sample_cgroup_env sample_entries))) = cgroup_root # directories sample_entries"
proof (rule mounts_mirror_directories)
  have "case GetCGroupInfo sample_cgroup_env sample_entries of Inl _ \<Rightarrow> False | Inr _ \<Rightarrow> True" by code_simp
  then show "GetCGroupInfo sample_cgroup_env sample_entries =
      Inr (fst (projr (GetCGroupInfo sample_cgroup_env sample_entries)), snd (projr (GetCGroupInfo sample_cgroup_env sample_entries)))"
    by (cases "GetCGroupInfo sample_cgroup_env sample_entries") simp_all
  show "distinct (cgroup_root # directories sample_entries)"
    by (simp add: cgroup_root_def sample_entries_def)
  show "\<forall>p\<in>set (directories sample_entries). parent_path p \<noteq> p"
    by code_simp
qed

section \<open>A walk does not fail an assertion\<close>

definition asserts_hold :: "'a result \<Rightarrow> bool" where
  "asserts_hold r \<longleftrightarrow> r \<noteq> Inl Assert_Failed"

lemma asserts_simps [simp]:
  "asserts_hold (Inr x)" "asserts_hold (Inl Out_Of_Bounds)" "asserts_hold (Inl Signed_Overflow)"
  by (simp_all add: asserts_hold_def)

lemma asserts_bind: "asserts_hold r \<Longrightarrow> (\<And>a. asserts_hold (f a)) \<Longrightarrow> asserts_hold (bind_r r f)"
  by (cases r) (auto simp: asserts_hold_def)

lemma asserts_fold: "(\<And>x s. asserts_hold (f x s)) \<Longrightarrow> asserts_hold (fold_r f xs s)"
  by (induction xs arbitrary: s) (auto intro: asserts_bind)

lemma asserts_piece: "asserts_hold (piece fl i)"
  by (simp add: piece_def)

lemma asserts_cpu_range: "asserts_hold (cpu_range i e)"
  by (induction i e rule: cpu_range.induct) (subst cpu_range.simps, auto intro!: asserts_bind)

lemma asserts_cpu_field: "asserts_hold (cpu_field E f)"
  by (auto simp: cpu_field_def asserts_cpu_range split: list.splits)

lemma asserts_parsers:
  "asserts_hold (ParseCPUSetList E path c m)" "asserts_hold (ParseCGroupPressure E path c m)"
  "asserts_hold (ParseIOMax E path c m)"
  by (auto simp: ParseCPUSetList_def ParseCGroupPressure_def ParseIOMax_def pressure_line_def pressure_fields_def
      io_max_line_def Let_def intro!: asserts_fold asserts_bind asserts_cpu_field asserts_piece)

definition handler_asserts :: "'d handler \<Rightarrow> bool" where
  "handler_asserts h \<longleftrightarrow> (\<forall>E c m. asserts_hold (h E c m))"

lemma handler_asserts_simps:
  "handler_asserts (set_i32 p)" "handler_asserts (set_i64 p)" "handler_asserts (set_real p)" "handler_asserts (set_text p)"
  "handler_asserts (set_max32 p)" "handler_asserts (set_max64 p)" "handler_asserts (set_words p)"
  "handler_asserts (set_lines p)" "handler_asserts set_events" "handler_asserts set_pids_events"
  "handler_asserts set_nothing" "handler_asserts (parse_v f p)" "handler_asserts (parse_r ParseCPUSetList p)"
  "handler_asserts (parse_r ParseCGroupPressure p)" "handler_asserts (parse_r ParseIOMax p)"
  by (simp_all add: handler_asserts_def set_i32_def set_i64_def set_real_def set_text_def set_max32_def set_max64_def
      set_words_def set_lines_def set_events_def set_pids_events_def set_nothing_def parse_v_def parse_r_def asserts_parsers)

lemma table_asserts: "list_all (\<lambda>(f, h). handler_asserts h) cgroup_table"
  by (simp add: cgroup_table_def cgroup_cpu_table_def io_memory_table_def handler_asserts_simps)

lemma hugetlb_asserts: "list_all (\<lambda>(f, h). handler_asserts h) (hugetlb_table entry)"
  by (simp add: hugetlb_table_def handler_asserts_simps)

lemma lookup_asserts:
  "list_all (\<lambda>(f, h). handler_asserts h) t \<Longrightarrow> map_of t f = Some h \<Longrightarrow> asserts_hold (h E c m)"
  by (fastforce simp: list_all_iff handler_asserts_def dest: map_of_SomeD)

lemma asserts_handleFile: "asserts_hold (handleFile E path m)"
  by (auto simp: handleFile_def handleHugetlb_def Let_def intro: lookup_asserts [OF table_asserts]
      lookup_asserts [OF hugetlb_asserts] split: option.splits list.splits)

text \<open>A directory is listed before what it holds, as a recursive directory iterator does.\<close>

fun parents_first :: "string list \<Rightarrow> (string \<times> entry_kind) list \<Rightarrow> bool" where
  "parents_first known [] = True"
| "parents_first known ((p, k) # es) =
     ((k = Other_File \<or> parent_path p \<in> set known) \<and>
      parents_first (if k = Directory then known @ [p] else known) es)"

lemma walk_asserts:
  "set known \<subseteq> dom (map_of (walk_table w)) \<Longrightarrow> parents_first known es \<Longrightarrow> asserts_hold (fold_r (walk_entry E) es w)"
proof (induction known es arbitrary: w rule: parents_first.induct)
  case (2 known p k es)
  show ?case
  proof (cases "walk_entry E (p, k) w")
    case (Inl f)
    have "asserts_hold (walk_entry E (p, k) w)"
      using 2(2,3) by (cases k) (auto simp: walk_entry_def Let_def intro!: asserts_bind asserts_handleFile split: option.splits)
    then show ?thesis by (simp add: Inl asserts_hold_def)
  next
    case (Inr u)
    have "set (if k = Directory then known @ [p] else known) \<subseteq> dom (map_of (walk_table u))"
      using 2(2) Inr by (cases k) (auto simp: walk_entry_def Let_def cpp_simps update_conv' split: option.splits)
    then show ?thesis using 2(1) [of u] 2(3) Inr by simp
  qed
qed simp

text \<open>A walk over a listing in which directories come before what they hold never fails its assertions,
  so a mount pointer that is dereferenced is one of the tree.\<close>
lemma walk_finds_parents:
  fixes E :: "'d cgroup_env"
  assumes "parents_first [cgroup_root] entries"
  shows "asserts_hold (GetCGroupInfo E entries)"
  unfolding GetCGroupInfo_def
  by (intro asserts_bind asserts_simps walk_asserts [OF _ assms]) (simp add: walk_start_def)

lemma walk_finds_parents_witness: "asserts_hold (GetCGroupInfo sample_cgroup_env sample_entries)"
  by (rule walk_finds_parents) code_simp

section \<open>Limits of devices\<close>

text \<open>Abseil documents that a conversion fails on text that is not a number.\<close>

definition rejects_equals :: "'d cgroup_env \<Rightarrow> bool" where
  "rejects_equals E \<longleftrightarrow> (\<forall>s. \<not> fst (SimpleAtoi_int (cg_numbers E) (CHR ''='' # s)))"

lemma limit_field_zero:
  assumes "rejects_equals E"
  shows "limit_field E (key @ CHR ''='' # v) key sp vp m = set_field vp (P_Int 0) m"
proof -
  have "value_text (key @ CHR ''='' # v) key = Some (CHR ''='' # v)"
    using after_key_here [of key "CHR ''='' # v"] by (simp add: value_text_def is_blank_def)
  then have "GetValue_string (key @ CHR ''='' # v) key = CHR ''='' # first_line v"
    by (simp add: GetValue_string_def ReadKeyVal_def take_string_def parsed_or_def first_line_def newline_def)
  then show ?thesis
    using assms(1) by (simp add: limit_field_def Str2Number_int32_def parsed_or_def rejects_equals_def)
qed

text \<open>Whatever the limits of a device in io.max are, "max" or a number, the four values reported are
  zero: the keys are looked up without their equals sign, which is left in front of the value.\<close>
lemma io_limits_read_zero:
  fixes E :: "'d cgroup_env"
  assumes "rejects_equals E"
    and "split E line CHR '' '' = [dev, ''rbps='' @ a, ''wbps='' @ b, ''riops='' @ c, ''wiops='' @ d]"
  shows "io_max_line E line =
    Inr [(''rbps_value'', P_Int 0), (''wbps_value'', P_Int 0), (''riops_value'', P_Int 0), (''wiops_value'', P_Int 0)]"
  using limit_field_zero [OF assms(1), of "''rbps''" a] limit_field_zero [OF assms(1), of "''wbps''" b]
    limit_field_zero [OF assms(1), of "''riops''" c] limit_field_zero [OF assms(1), of "''wiops''" d]
  by (simp add: io_max_line_def assms(2) piece_def set_field_def)

lemma io_limits_read_zero_witness:
  "io_max_line sample_cgroup_env ''8:16 rbps=2097152 wbps=max riops=max wiops=max'' =
    Inr [(''rbps_value'', P_Int 0), (''wbps_value'', P_Int 0), (''riops_value'', P_Int 0), (''wiops_value'', P_Int 0)]"
proof (rule io_limits_read_zero)
  show "rejects_equals sample_cgroup_env"
    by (simp add: rejects_equals_def sample_cgroup_env_def sample_parse_env_def read_number_def scan_int_def is_space_def
        is_digit_def)
  show "split sample_cgroup_env ''8:16 rbps=2097152 wbps=max riops=max wiops=max'' CHR '' '' =
      [''8:16'', ''rbps='' @ ''2097152'', ''wbps='' @ ''max'', ''riops='' @ ''max'', ''wiops='' @ ''max'']"
    by (simp add: split_def sample_cgroup_env_def sample_parse_env_def)
qed

section \<open>Sets of processors\<close>

definition range_text :: "nat \<times> nat \<Rightarrow> string" where
  "range_text r = (if fst r = snd r then dec_of_nat (fst r) else join CHR ''-'' [dec_of_nat (fst r), dec_of_nat (snd r)])"

definition range_cpus :: "nat \<times> nat \<Rightarrow> int list" where
  "range_cpus r = map int [fst r..<Suc (snd r)]"

lemma dec_char: "\<not> is_digit c \<Longrightarrow> c \<notin> set (dec_of_nat n)"
  using dec_of_nat_digits [of n] by blast

lemma cpu_range_nat: "int b < int_max \<Longrightarrow> cpu_range (int a) (int b) = Inr (map int [a..<Suc b])"
proof (induction "Suc b - a" arbitrary: a)
  case 0
  then show ?case by (simp add: cpu_range.simps)
next
  case (Suc n)
  then have "cpu_range (int (Suc a)) (int b) = Inr (map int [Suc a..<Suc b])"
    by (intro Suc.hyps(1)) (simp_all del: upt_Suc)
  then show ?case
    using Suc.hyps(2) Suc.prems
    by (simp add: cpu_range.simps [of "int a"] upt_conv_Cons add.commute del: upt_Suc)
qed

lemma Str2Number_dec: "decimal_law (cg_numbers E) \<Longrightarrow> int n < int_max \<Longrightarrow> Str2Number_int64 E (dec_of_nat n) = int n"
  by (simp add: Str2Number_int64_def decimal_law_def parsed_or_def int_max_def signed_of_nat signed_take_bit_int_eq_self_iff)

lemma narrow_id: "int n < int_max \<Longrightarrow> signed_take_bit 31 (int n) = int n"
  by (simp add: int_max_def signed_take_bit_int_eq_self_iff)

lemma cpu_field_range:
  assumes "join_law (cg_numbers E)" "decimal_law (cg_numbers E)" "fst r \<le> snd r" "int (snd r) < int_max"
  shows "cpu_field E (range_text r) = Inr (range_cpus r)"
proof -
  have nd: "\<not> is_digit CHR ''-''" by (simp add: is_digit_def)
  have f: "int (fst r) < int_max" using assms(3,4) by linarith
  show ?thesis
  proof (cases "fst r = snd r")
    case True
    have "split E (join CHR ''-'' [dec_of_nat (fst r)]) CHR ''-'' = [dec_of_nat (fst r)]"
      using assms(1) dec_char [OF nd] by (simp add: split_def join_law_def del: join.simps)
    then show ?thesis
      using True Str2Number_dec [OF assms(2) f] narrow_id [OF f]
      by (simp add: cpu_field_def range_text_def range_cpus_def)
  next
    case False
    have "split E (join CHR ''-'' [dec_of_nat (fst r), dec_of_nat (snd r)]) CHR ''-'' = [dec_of_nat (fst r), dec_of_nat (snd r)]"
      using assms(1) dec_char [OF nd] by (simp add: split_def join_law_def del: join.simps)
    then show ?thesis
      using False Str2Number_dec [OF assms(2) f] Str2Number_dec [OF assms(2,4)] narrow_id [OF f]
        cpu_range_nat [OF assms(4), of "fst r"]
      by (simp add: cpu_field_def range_text_def range_cpus_def del: join.simps)
  qed
qed

lemma fold_add_int: "is \<noteq> [] \<Longrightarrow> fold (add_int path) is m = set_field path (P_Ints (ints_of path m @ is)) m"
proof (induction "is" arbitrary: m)
  case (Cons i js)
  have a: "add_int path i m = set_field path (P_Ints (ints_of path m @ [i])) m" by (simp add: add_int_def)
  show ?case
  proof (cases "js = []")
    case False
    have "ints_of path (add_int path i m) = ints_of path m @ [i]"
      by (simp add: a set_field_def ints_of_def update_conv')
    then show ?thesis using Cons.IH [OF False] by (simp add: a set_field_def)
  qed (simp add: a)
qed simp

lemma range_text_no_comma: "CHR '','' \<notin> set (range_text r)"
  using dec_char [of "CHR '',''"] by (simp add: range_text_def is_digit_def)

text \<open>A list of processors in the kernel's format, single numbers and ranges between commas, is read
  as the processors of its ranges in order, behind those already in the message, when no number
  reaches the largest int.\<close>
lemma cpu_list_read:
  fixes E :: "'d cgroup_env" and rs :: "(nat \<times> nat) list"
  assumes "join_law (cg_numbers E)" "decimal_law (cg_numbers E)" "rs \<noteq> []"
    and "\<forall>(a, b)\<in>set rs. a \<le> b \<and> int b < int_max"
  shows "ParseCPUSetList E path (join CHR '','' (map range_text rs)) m =
    Inr (set_field path (P_Ints (ints_of path m @ concat (map range_cpus rs))) m)"
proof -
  have s: "split E (join CHR '','' (map range_text rs)) CHR '','' = map range_text rs"
    using assms(1,3) range_text_no_comma by (simp add: split_def join_law_def)
  let ?f = "\<lambda>field m. bind_r (cpu_field E field) (\<lambda>is. Inr (fold (add_int path) is m))"
  have "fold_r ?f (map range_text rs) m = Inr (fold (add_int path) (concat (map range_cpus rs)) m)"
    using assms(4) cpu_field_range [OF assms(1,2)] by (induction rs arbitrary: m) auto
  moreover have "concat (map range_cpus rs) \<noteq> []"
    using assms(3,4) by (cases rs) (auto simp: range_cpus_def)
  ultimately show ?thesis by (simp add: ParseCPUSetList_def s fold_add_int)
qed

text \<open>A range that ends at the largest int or beyond does not end well: the counter overflows.\<close>

lemma cpu_range_overflow: "e \<ge> int_max \<Longrightarrow> i \<le> e \<Longrightarrow> cpu_range i e = Inl Signed_Overflow"
  by (induction i e rule: cpu_range.induct) (subst cpu_range.simps, auto simp: int_max_def)

lemma cpu_list_read_witness:
  "ParseCPUSetList sample_cgroup_env ''cpuset.cpus'' (join CHR '','' (map range_text [(0, 3), (7, 7)])) [] =
    Inr (set_field ''cpuset.cpus'' (P_Ints (ints_of ''cpuset.cpus'' ([] :: int message) @ concat (map range_cpus [(0, 3), (7, 7)]))) [])"
  by (rule cpu_list_read) (simp_all add: sample_cgroup_env_def sample_laws int_max_def)

section \<open>Fields written by two files\<close>

text \<open>Whatever memory.events said, memory.events.local, which is listed behind it, replaces it.\<close>

lemma map_of_ParseMemoryEvents:
  "map_of (ParseMemoryEvents E path content m) (path @ ''.oom'') = Some (P_Int (GetValue_int64 E content ''oom'' True))"
  by (simp add: ParseMemoryEvents_def set_int64_def set_field_def update_conv')

lemma local_events_replace:
  "map_of (ParseMemoryEvents E path local_content (ParseMemoryEvents E path content m)) (path @ ''.oom'') =
     Some (P_Int (GetValue_int64 E local_content ''oom'' True))"
  by (rule map_of_ParseMemoryEvents)

lemma rsvd_current_replaces_max:
  "map_of (hugetlb_table entry) ''rsvd.current'' = Some (set_i32 (entry @ ''.max_value''))"
  by (simp add: hugetlb_table_def)

end
