(* ===== verification/Mount_List.thy ===== *)
theory Mount_List
  imports C_Scan
begin

text \<open>
  The list of mounted file systems: app/source/common/file.cc, which reads /proc/self/mountinfo, and
  app/source/source/host/collector/fs/fs_collector.cc. The lines of the file and the answers of
  \<open>statfs\<close> and \<open>stat\<close> are parameters. The blanks that the code overwrites with null characters cut the
  line into its pieces. The round trip is with the escaping that proc(5) documents for the paths.
\<close>

section \<open>Kinds of file systems\<close>

definition me_remote :: "string \<Rightarrow> string \<Rightarrow> bool" where
  "me_remote fs_name fs_type \<longleftrightarrow>
     CHR '':'' \<in> set fs_name \<or>
     starts_with ''//'' fs_name \<and> (fs_type = ''smbfs'' \<or> fs_type = ''smb3'' \<or> fs_type = ''cifs'') \<or>
     fs_type \<in> set [''acfs'', ''afs'', ''coda'', ''auristorfs'', ''fhgfs'', ''gpfs'', ''ibrix'', ''ocfs2'', ''vxfs''] \<or>
     fs_name = ''-hosts''"

definition me_dummy :: "string \<Rightarrow> string \<Rightarrow> bool" where
  "me_dummy fs_name fs_type \<longleftrightarrow>
     fs_type \<in> set [''none'', ''autofs'', ''proc'', ''subfs'', ''debugfs'', ''devpts'', ''fusectl'', ''fuse.portal'',
       ''mqueue'', ''rpc_pipefs'', ''sysfs'', ''squashfs'', ''nsfs'', ''cgroup'', ''devtmpfs'', ''devfs'', ''kernfs'', ''ignore'']"

section \<open>Escaped paths\<close>

definition octal_upto :: "nat \<Rightarrow> char \<Rightarrow> bool" where
  "octal_upto n c \<longleftrightarrow> 48 \<le> (of_char c :: nat) \<and> (of_char c :: nat) \<le> 48 + n"

definition octal_char :: "char \<Rightarrow> char \<Rightarrow> char \<Rightarrow> char" where
  "octal_char a b c = char_of ((of_char a - 48) * 64 + (of_char b - 48) * 8 + (of_char c - 48) :: nat)"

text \<open>\<open>i + 4 < len\<close> with \<open>len\<close> counting the final null: three characters must follow.\<close>

fun unescape_tab :: "string \<Rightarrow> string" where
  "unescape_tab (x # a # b # c # s) =
     (if x = CHR 0x5C \<and> octal_upto 3 a \<and> octal_upto 7 b \<and> octal_upto 7 c
      then octal_char a b c # unescape_tab s
      else x # unescape_tab (a # b # c # s))"
| "unescape_tab s = s"

section \<open>A line of mountinfo\<close>

definition skip_space :: "string \<Rightarrow> string" where
  "skip_space s = dropWhile is_space s"

definition scan_uint :: "string \<Rightarrow> (32 word \<times> string) option" where
  "scan_uint s = map_option (\<lambda>(v, rest). (ucast v, rest)) (scan_ulong s)"

text \<open>\<open>sscanf(line, "%*u %*u %u:%u %n", ...)\<close>: the device numbers and the text from the mount root on.\<close>

definition scan_device :: "string \<Rightarrow> (32 word \<times> 32 word \<times> string) option" where
  "scan_device line =
     (case scan_ulong line of None \<Rightarrow> None | Some (_, r1) \<Rightarrow>
     (case scan_ulong (skip_space r1) of None \<Rightarrow> None | Some (_, r2) \<Rightarrow>
     (case scan_uint (skip_space r2) of None \<Rightarrow> None | Some (devmaj, r3) \<Rightarrow>
        (if r3 = [] \<or> hd r3 \<noteq> CHR '':'' then None
         else (case scan_uint (tl r3) of None \<Rightarrow> None | Some (devmin, r4) \<Rightarrow> Some (devmaj, devmin, skip_space r4))))))"

definition terminate_at_blank :: "string \<Rightarrow> (string \<times> string) option" where
  "terminate_at_blank s = map_option (\<lambda>i. (take i s, drop (i + 1) s)) (find_char CHR '' '' s)"

definition strstr :: "string \<Rightarrow> string \<Rightarrow> string option" where
  "strstr s p = map_option (\<lambda>i. drop i s) (find_sub p s)"

record mount_line =
  ml_major :: "32 word"
  ml_minor :: "32 word"
  ml_mntroot :: string
  ml_target :: string
  ml_fstype :: string
  ml_source :: string

definition parse_mount :: "string \<Rightarrow> mount_line option" where
  "parse_mount line =
     (case scan_device line of None \<Rightarrow> None | Some (devmaj, devmin, r) \<Rightarrow>
     (case terminate_at_blank r of None \<Rightarrow> None | Some (mntroot, r1) \<Rightarrow>
     (case terminate_at_blank r1 of None \<Rightarrow> None | Some (target, r2) \<Rightarrow>
     (case strstr r2 '' - '' of None \<Rightarrow> None | Some dash \<Rightarrow>
     (case terminate_at_blank (drop 3 dash) of None \<Rightarrow> None | Some (fstype, r3) \<Rightarrow>
     (case terminate_at_blank r3 of None \<Rightarrow> None | Some (src, _) \<Rightarrow>
        Some \<lparr>ml_major = devmaj, ml_minor = devmin, ml_mntroot = unescape_tab mntroot, ml_target = unescape_tab target,
              ml_fstype = unescape_tab fstype, ml_source = unescape_tab src\<rparr>))))))"

section \<open>The list\<close>

record statfs_buf =
  f_blocks :: "64 word"
  f_frsize :: "64 word"
  f_bsize :: "64 word"
  f_files :: "64 word"
  f_ffree :: "64 word"

record mount_env =
  statfs :: "string \<Rightarrow> statfs_buf option"
  stat_ok :: "string \<Rightarrow> bool"

record mount_entry =
  me_devname :: string
  me_mountdir :: string
  me_mntroot :: string
  me_type :: string
  me_dev :: "32 word"
  me_size :: "64 word"
  me_used :: "64 word"
  me_available :: "64 word"

definition makedev :: "32 word \<Rightarrow> 32 word \<Rightarrow> 32 word" where
  "makedev devmaj devmin = or (push_bit 8 devmaj) devmin"

definition entry_sizes :: "statfs_buf \<Rightarrow> 64 word \<times> 64 word \<times> 64 word" where
  "entry_sizes fsd =
     (let block_size = (if f_frsize fsd \<noteq> 0 then f_frsize fsd else f_bsize fsd);
          available = f_ffree fsd * block_size;
          size = f_files fsd * block_size
      in (size, if size * block_size > available * block_size then size * block_size - available * block_size else 0, available))"

definition mount_of :: "mount_env \<Rightarrow> string \<Rightarrow> mount_entry option" where
  "mount_of E line =
     (case parse_mount line of None \<Rightarrow> None | Some l \<Rightarrow>
        if me_dummy (ml_source l) (ml_fstype l) \<or> me_remote (ml_source l) (ml_fstype l) then None
        else (case statfs E (ml_target l) of None \<Rightarrow> None | Some fsd \<Rightarrow>
          if f_blocks fsd = 0 \<or> \<not> stat_ok E (ml_target l) then None
          else (case entry_sizes fsd of (sz, used, available) \<Rightarrow>
            Some \<lparr>me_devname = ml_source l, me_mountdir = ml_target l, me_mntroot = ml_mntroot l, me_type = ml_fstype l,
                  me_dev = makedev (ml_major l) (ml_minor l), me_size = sz, me_used = used, me_available = available\<rparr>)))"

text \<open>\<open>None\<close> when the file cannot be opened; the linked list is a list.\<close>

fun mount_entries :: "mount_env \<Rightarrow> string list \<Rightarrow> mount_entry list" where
  "mount_entries E [] = []"
| "mount_entries E (line # lines) =
     (case mount_of E line of None \<Rightarrow> mount_entries E lines | Some e \<Rightarrow> e # mount_entries E lines)"

definition ReadFileSystemList :: "mount_env \<Rightarrow> string list option \<Rightarrow> mount_entry list" where
  "ReadFileSystemList E lines = (case lines of None \<Rightarrow> [] | Some ls \<Rightarrow> mount_entries E ls)"

text \<open>What the collector reports of an entry.\<close>

record file_system_info =
  fs_available :: "64 word"
  fs_size :: "64 word"
  fs_used :: "64 word"
  fs_name :: string
  fs_type :: string
  fs_monit_point :: string

definition fs_run :: "mount_entry list \<Rightarrow> file_system_info list \<Rightarrow> file_system_info list" where
  "fs_run entries infos =
     infos @ map (\<lambda>e. \<lparr>fs_available = me_available e, fs_size = me_size e, fs_used = me_used e, fs_name = me_devname e,
                        fs_type = me_type e, fs_monit_point = me_mountdir e\<rparr>) entries"

section \<open>Round trips\<close>

text \<open>The kernel writes a blank, a tab, a line end and a backslash as three octal digits behind a backslash.\<close>

definition mangled :: "char \<Rightarrow> bool" where
  "mangled c \<longleftrightarrow> c \<in> set [CHR '' '', CHR 0x09, CHR 0x0A, CHR 0x5C]"

definition octal_digit :: "nat \<Rightarrow> char" where
  "octal_digit n = char_of (48 + n)"

fun mangle :: "string \<Rightarrow> string" where
  "mangle [] = []"
| "mangle (c # s) =
     (if mangled c
      then CHR 0x5C # octal_digit (of_char c div 64) # octal_digit (of_char c div 8 mod 8) # octal_digit (of_char c mod 8) # mangle s
      else c # mangle s)"

lemma octal_digit_upto: "n \<le> m \<Longrightarrow> m < 8 \<Longrightarrow> octal_upto m (octal_digit n)"
  by (simp add: octal_upto_def octal_digit_def)

lemma of_char_octal [simp]: "n < 8 \<Longrightarrow> of_char (octal_digit n) = 48 + n"
  by (simp add: octal_digit_def)

lemma unescape_plain: "x \<noteq> CHR 0x5C \<Longrightarrow> unescape_tab (x # s) = x # unescape_tab s"
  by (cases s; cases "tl s"; cases "tl (tl s)") auto

lemma octal_digits: "n div 64 * 64 + n div 8 mod 8 * 8 + n mod 8 = (n :: nat)"
proof -
  have "n div 8 div 8 * 8 + n div 8 mod 8 = n div 8" "n div 8 * 8 + n mod 8 = n" by (rule div_mult_mod_eq)+
  moreover have "n div 64 = n div 8 div 8" by (simp add: div_mult2_eq [symmetric])
  ultimately show ?thesis by linarith
qed

lemma octal_char_digits:
  assumes "n < 128"
  shows "octal_char (octal_digit (n div 64)) (octal_digit (n div 8 mod 8)) (octal_digit (n mod 8)) = char_of n"
proof -
  have "n div 64 < 8" "n div 8 mod 8 < 8" "n mod 8 < 8" using assms by simp_all
  then show ?thesis using octal_digits [of n] by (simp add: octal_char_def)
qed

lemma mangled_small: "mangled c \<Longrightarrow> (of_char c :: nat) < 128"
  by (auto simp: mangled_def)

text \<open>Unescaping undoes the escaping of the kernel, for paths with blanks, tabs, line ends and
  backslashes, at the end of the path too.\<close>
lemma unescape_mangle:
  fixes s :: string
  shows "unescape_tab (mangle s) = s"
proof (induction s)
  case (Cons c s)
  show ?case
  proof (cases "mangled c")
    case True
    let ?n = "of_char c :: nat"
    have n: "?n < 128" by (rule mangled_small [OF True])
    then have d: "?n div 64 \<le> 3" "?n div 8 mod 8 \<le> 7" "?n mod 8 \<le> 7" by simp_all
    have "octal_upto 3 (octal_digit (?n div 64))" "octal_upto 7 (octal_digit (?n div 8 mod 8))" "octal_upto 7 (octal_digit (?n mod 8))"
      using d by (simp_all add: octal_digit_upto)
    then show ?thesis
      using True Cons octal_char_digits [OF n] by simp
  next
    case False
    then have "c \<noteq> CHR 0x5C" by (auto simp: mangled_def)
    then show ?thesis using False Cons by (simp add: unescape_plain)
  qed
qed simp

lemma octal_digit_no_blank: "n < 8 \<Longrightarrow> CHR '' '' \<noteq> octal_digit n"
proof
  assume n: "n < 8" and "CHR '' '' = octal_digit n"
  then have "(of_char CHR '' '' :: nat) = of_char (octal_digit n)" by simp
  then show False using of_char_octal [OF n] by simp
qed

lemma mangle_no_blank: "CHR '' '' \<notin> set (mangle s)"
proof (induction s)
  case (Cons c s)
  show ?case
  proof (cases "mangled c")
    case True
    then have "(of_char c :: nat) div 64 < 8" using mangled_small [of c] by simp
    then show ?thesis using Cons True by (simp add: octal_digit_no_blank)
  next
    case False
    then show ?thesis using Cons by (auto simp: mangled_def)
  qed
qed simp

section \<open>Lines of mountinfo\<close>

definition mount_text :: "nat \<Rightarrow> nat \<Rightarrow> nat \<Rightarrow> nat \<Rightarrow> string \<Rightarrow> string \<Rightarrow> string \<Rightarrow> string \<Rightarrow> string \<Rightarrow> string \<Rightarrow> string" where
  "mount_text mnt_id parent_id devmaj devmin root target opts fstype src supers =
     dec_of_nat mnt_id @ '' '' @ dec_of_nat parent_id @ '' '' @ dec_of_nat devmaj @ '':'' @ dec_of_nat devmin @ '' '' @
     mangle root @ '' '' @ mangle target @ '' '' @ opts @ '' - '' @ mangle fstype @ '' '' @ mangle src @ '' '' @ supers"

lemma scan_ulong_digits: "n \<le> ulong_max \<Longrightarrow> \<not> is_digit c \<Longrightarrow> scan_ulong (dec_of_nat n @ c # s) = Some (of_nat n, c # s)"
  using scan_ulong_dec [of "[]" n "c # s"] by (simp add: blanks_def)

lemma skip_space_dec: "skip_space (CHR '' '' # dec_of_nat n @ s) = dec_of_nat n @ s"
proof -
  obtain d ds where d: "dec_of_nat n = d # ds" by (cases "dec_of_nat n") auto
  then have "is_digit d" using dec_of_nat_digits [of n] by simp
  then show ?thesis by (simp add: skip_space_def d digit_not_space is_space_def [of "CHR '' ''"])
qed

lemma skip_space_text: "s = [] \<or> \<not> is_space (hd s) \<Longrightarrow> skip_space (CHR '' '' # s) = s"
  by (cases s) (auto simp: skip_space_def is_space_def [of "CHR '' ''"])

lemma terminate_first: "CHR '' '' \<notin> set a \<Longrightarrow> terminate_at_blank (a @ CHR '' '' # s) = Some (a, s)"
  by (simp add: terminate_at_blank_def find_char_first)

lemma strstr_dash: "CHR ''-'' \<notin> set opts \<Longrightarrow> strstr (opts @ '' - '' @ s) '' - '' = Some ('' - '' @ s)"
proof -
  assume "CHR ''-'' \<notin> set opts"
  then have "find_sub '' - '' (opts @ '' - '' @ s) = Some (length opts)"
  proof (induction opts)
    case (Cons c opts)
    have "\<not> starts_with '' - '' ((c # opts) @ '' - '' @ s)"
      using Cons.prems by (cases opts) auto
    then show ?case using Cons by simp
  qed simp
  then show ?thesis by (simp add: strstr_def)
qed

text \<open>C31: a line of mountinfo whose paths are escaped as the kernel does is read back: the device numbers,
  the root, the mount point, the type and the source, whatever options stand between them, as long as
  these have no dash.\<close>
theorem mountinfo_line_roundtrip:
  fixes opts :: string
  assumes "mnt_id \<le> ulong_max" "parent_id \<le> ulong_max" "devmaj < 2 ^ 32" "devmin < 2 ^ 32"
    and root: "root \<noteq> []" and opts: "CHR ''-'' \<notin> set opts"
    and hd: "\<not> is_space (hd (mangle root))"
  shows "parse_mount (mount_text mnt_id parent_id devmaj devmin root target opts fstype src supers) =
    Some \<lparr>ml_major = of_nat devmaj, ml_minor = of_nat devmin, ml_mntroot = root, ml_target = target, ml_fstype = fstype,
          ml_source = src\<rparr>"
proof -
  have nd: "\<not> is_digit CHR '' ''" "\<not> is_digit CHR '':''" by (simp_all add: is_digit_def)
  have le: "devmaj \<le> ulong_max" "devmin \<le> ulong_max" using assms(3,4) by (simp_all add: ulong_max_def)
  have cut: "ucast (of_nat n :: 64 word) = (of_nat n :: 32 word)" if "n < 2 ^ 32" for n
    using that by (simp add: unsigned_of_nat take_bit_nat_eq_self)
  have ne: "mangle root \<noteq> []" using root by (cases root) auto
  let ?rest = "mangle root @ '' '' @ mangle target @ '' '' @ opts @ '' - '' @ mangle fstype @ '' '' @ mangle src @ '' '' @ supers"
  have sp: "skip_space (CHR '' '' # ?rest) = ?rest"
    by (rule skip_space_text) (use hd ne in \<open>simp add: hd_append\<close>)
  have dev: "scan_device (mount_text mnt_id parent_id devmaj devmin root target opts fstype src supers) =
      Some (of_nat devmaj, of_nat devmin, ?rest)"
    using sp by (simp add: scan_device_def mount_text_def scan_ulong_digits assms(1,2) le nd skip_space_dec scan_uint_def cut [OF assms(3)] cut [OF assms(4)])
  note b = terminate_first [OF mangle_no_blank]
  have "strstr (opts @ '' - '' @ mangle fstype @ '' '' @ mangle src @ '' '' @ supers) '' - '' =
      Some ('' - '' @ mangle fstype @ '' '' @ mangle src @ '' '' @ supers)"
    by (rule strstr_dash [OF opts])
  then show ?thesis
    unfolding parse_mount_def dev by (simp add: b unescape_mangle)
qed

theorem mountinfo_line_roundtrip_witness:
  "parse_mount (mount_text 36 35 98 0 ''/'' ''/my disk'' ''rw,noatime master:1'' ''ext3'' ''/dev/root'' ''rw'') =
    Some \<lparr>ml_major = of_nat 98, ml_minor = of_nat 0, ml_mntroot = ''/'', ml_target = ''/my disk'', ml_fstype = ''ext3'',
          ml_source = ''/dev/root''\<rparr>"
  by (rule mountinfo_line_roundtrip) (simp_all add: ulong_max_def mangled_def is_space_def)

section \<open>Sizes\<close>

text \<open>The sizes reported of a file system are computed from its inodes: the number of its blocks only
  decides whether it is listed, and two answers of statfs that differ in it give the same entry.\<close>
lemma sizes_ignore_blocks:
  fixes E :: mount_env
  assumes "\<forall>t. k t \<noteq> 0"
  shows "mount_of (E\<lparr>statfs := \<lambda>t. map_option (\<lambda>b. if f_blocks b = 0 then b else b\<lparr>f_blocks := k t\<rparr>) (statfs E t)\<rparr>) line = mount_of E line"
  using assms by (simp add: mount_of_def entry_sizes_def Let_def split: option.split)

lemma sizes_ignore_blocks_witness:
  "mount_of (\<lparr>statfs = \<lambda>t. Some \<lparr>f_blocks = 9, f_frsize = 4096, f_bsize = 4096, f_files = 7, f_ffree = 5\<rparr>, stat_ok = \<lambda>t. True\<rparr>
      \<lparr>statfs := \<lambda>t. map_option (\<lambda>b. if f_blocks b = 0 then b else b\<lparr>f_blocks := 1\<rparr>)
        (statfs \<lparr>statfs = \<lambda>t. Some \<lparr>f_blocks = 9, f_frsize = 4096, f_bsize = 4096, f_files = 7, f_ffree = 5\<rparr>, stat_ok = \<lambda>t. True\<rparr> t)\<rparr>)
      ''36 35 98:0 / / rw - ext3 /dev/root rw'' =
   mount_of \<lparr>statfs = \<lambda>t. Some \<lparr>f_blocks = 9, f_frsize = 4096, f_bsize = 4096, f_files = 7, f_ffree = 5\<rparr>, stat_ok = \<lambda>t. True\<rparr>
      ''36 35 98:0 / / rw - ext3 /dev/root rw''"
  by (rule sizes_ignore_blocks [of "\<lambda>t. 1"]) simp

text \<open>Numbers of devices collide once a minor number needs more than eight bits.\<close>

lemma makedev_collides: "makedev 8 0 = makedev 0 2048"
  by (simp add: makedev_def)

end
