(* ===== verification/Disk_Collector.thy ===== *)
theory Disk_Collector
  imports Host_Metrics Mount_List
begin

text \<open>
  The collector of disks: app/source/source/host/collector/disk/disk_collector.cc. Files, \<open>statvfs\<close> and
  the steady clock are parameters; the clock is read for each line of /proc/diskstats, and the reading
  for a line is given by its position.
\<close>

section \<open>Data\<close>

record disk_info =
  di_device :: string
  di_mount_point :: string
  di_filesystem :: string
  di_vendor :: string
  di_space_total :: "64 word"
  di_space_free :: "64 word"
  di_inode_free :: "64 word"
  di_inode_total :: "64 word"

definition disk_info_new :: disk_info where
  "disk_info_new =
     \<lparr>di_device = [], di_mount_point = [], di_filesystem = [], di_vendor = [], di_space_total = 0, di_space_free = 0,
      di_inode_free = 0, di_inode_total = 0\<rparr>"

definition space_used :: "disk_info \<Rightarrow> 64 word" where
  "space_used d = di_space_total d - di_space_free d"

record disk_time =
  dt_read :: "64 word"
  dt_write :: "64 word"
  dt_ts :: "64 word"

record statvfs_buf =
  v_blocks :: "64 word"
  v_bfree :: "64 word"
  v_frsize :: "64 word"
  v_files :: "64 word"
  v_ffree :: "64 word"

record 'd disk_env =
  dk_numbers :: "'d parse_env"
  dk_doubles :: "'d double_ops"
  dk_read_file :: "string \<Rightarrow> string option"
  statvfs :: "string \<Rightarrow> statvfs_buf option"
  steady_now :: "nat \<Rightarrow> 64 word"

section \<open>Mounted disks\<close>

definition GetVendor :: "'d disk_env \<Rightarrow> string \<Rightarrow> string \<Rightarrow> bool \<times> string" where
  "GetVendor E device_name vendor =
     (case dk_read_file E (''/sys/class/block/'' @ device_name @ ''/device/vendor'') of
        None \<Rightarrow> (False, vendor)
      | Some content \<Rightarrow> (True, filter (\<lambda>c. \<not> is_space c) content))"

definition disk_of_line :: "'d disk_env \<Rightarrow> string \<Rightarrow> disk_info option" where
  "disk_of_line E line =
     (if line = [] then None
      else let fl = StrSplit (dk_numbers E) line CHR '' '' in
           if length fl \<noteq> 6 then None
           else let device = fl ! 0; mnt = fl ! 1 in
                if \<not> starts_with ''/dev/'' device then None
                else (case statvfs E mnt of
                        None \<Rightarrow> None
                      | Some st \<Rightarrow>
                          Some (disk_info_new\<lparr>di_device := device, di_mount_point := mnt,
                            di_space_total := v_blocks st * v_frsize st, di_space_free := v_bfree st * v_frsize st,
                            di_inode_total := v_files st, di_inode_free := v_ffree st,
                            di_vendor := snd (GetVendor E (drop 5 device) [])\<rparr>)))"

fun disks_of_lines :: "'d disk_env \<Rightarrow> string list \<Rightarrow> disk_info list" where
  "disks_of_lines E [] = []"
| "disks_of_lines E (line # lines) =
     (case disk_of_line E line of None \<Rightarrow> disks_of_lines E lines | Some d \<Rightarrow> d # disks_of_lines E lines)"

definition GetDiskList :: "'d disk_env \<Rightarrow> disk_info list \<Rightarrow> bool \<times> disk_info list" where
  "GetDiskList E disks =
     (case dk_read_file E ''/proc/mounts'' of
        None \<Rightarrow> (False, disks)
      | Some content \<Rightarrow> (True, disks @ disks_of_lines E (StrSplit (dk_numbers E) content newline)))"

text \<open>The message of a disk; a share is only set for a total that is positive as a signed number.\<close>

record 'd disk_message =
  dm_info :: disk_info
  dm_space_used :: "64 word"
  dm_space_usage :: "'d option"
  dm_inode_used :: "64 word"
  dm_inode_usage :: "'d option"

definition share :: "'d disk_env \<Rightarrow> 64 word \<Rightarrow> 64 word \<Rightarrow> 'd option" where
  "share E used tot =
     (if 0 <s tot then Some (d_div (dk_doubles E) (d_of_long (dk_doubles E) used) (d_of_long (dk_doubles E) tot)) else None)"

definition disk_message_of :: "'d disk_env \<Rightarrow> disk_info \<Rightarrow> 'd disk_message" where
  "disk_message_of E d =
     (let su = di_space_total d - di_space_free d; iu = di_inode_total d - di_inode_free d
      in \<lparr>dm_info = d, dm_space_used = su, dm_space_usage = share E su (di_space_total d), dm_inode_used = iu,
          dm_inode_usage = share E iu (di_inode_total d)\<rparr>)"

definition GetDiskList_request :: "'d disk_env \<Rightarrow> 'd disk_message list \<Rightarrow> 'd disk_message list" where
  "GetDiskList_request E request =
     (let (ok, disks) = GetDiskList E [] in if \<not> ok then request else request @ map (disk_message_of E) disks)"

section \<open>Helpers without a caller\<close>

definition IsTargetFs :: "string \<Rightarrow> bool" where
  "IsTargetFs fs \<longleftrightarrow> lower fs \<in> set [''ext2'', ''ext3'', ''ext4'', ''xfs'', ''btrfs'', ''reiserfs'', ''jfs'', ''zfs'']"

definition IsPrimaryMount :: "'d disk_env \<Rightarrow> string \<Rightarrow> bool" where
  "IsPrimaryMount E flags \<longleftrightarrow> ''rw'' \<in> set (StrSplit (dk_numbers E) flags CHR '','')"

datatype disk_type = Unkonwn | SSD | HDD

definition GetDiskType :: "'d disk_env \<Rightarrow> string \<Rightarrow> disk_type" where
  "GetDiskType E device_name =
     (case dk_read_file E (''/sys/class/block/'' @ device_name @ ''/queue/rotational'') of
        None \<Rightarrow> Unkonwn
      | Some content \<Rightarrow>
          let (ok, rotational) = SimpleAtoi_int (dk_numbers E) content in if ok \<and> rotational = 0 then SSD else HDD)"

section \<open>Times of the disks\<close>

definition disk_time_of :: "'d disk_env \<Rightarrow> nat \<Rightarrow> string list \<Rightarrow> (string \<times> disk_time) option result" where
  "disk_time_of E i fl =
     (if length fl \<le> 2 then Inl Out_Of_Bounds
      else if take 4 (fl ! 2) = ''loop'' then Inr None
      else if length fl \<le> 10 then Inl Out_Of_Bounds
      else Inr (Some (fl ! 2, \<lparr>dt_read = snd (SimpleAtoi_long (dk_numbers E) (fl ! 6)),
                              dt_write = snd (SimpleAtoi_long (dk_numbers E) (fl ! 10)), dt_ts = steady_now E i\<rparr>)))"

fun disk_times :: "'d disk_env \<Rightarrow> nat \<Rightarrow> string list \<Rightarrow> (string \<times> disk_time) list \<Rightarrow> (string \<times> disk_time) list result" where
  "disk_times E i [] stats = Inr stats"
| "disk_times E i (line # lines) stats =
     bind_r (disk_time_of E i (StrSplit (dk_numbers E) line CHR '' '')) (\<lambda>t.
       disk_times E (Suc i) lines (case t of None \<Rightarrow> stats | Some (n, s) \<Rightarrow> smap_put n s stats))"

definition ReadProcFSState :: "'d disk_env \<Rightarrow> (string \<times> disk_time) list \<Rightarrow> (bool \<times> (string \<times> disk_time) list) result" where
  "ReadProcFSState E stats =
     (case dk_read_file E ''/proc/diskstats'' of
        None \<Rightarrow> Inr (False, stats)
      | Some content \<Rightarrow> bind_r (disk_times E 0 (StrSplit (dk_numbers E) content newline) stats) (\<lambda>s. Inr (True, s)))"

text \<open>The two callbacks: each keeps its own stats of the round before.\<close>

definition time_share ::
  "'d disk_env \<Rightarrow> (disk_time \<Rightarrow> 64 word) \<Rightarrow> (string \<times> disk_time) list \<Rightarrow> string \<times> disk_time \<Rightarrow> 'd metric_data list" where
  "time_share E get prev e =
     (case map_of prev (fst e) of
        None \<Rightarrow> []
      | Some p \<Rightarrow>
          let d = get (snd e) - get p; dtime = dt_ts (snd e) - dt_ts p
          in if 0 <s dtime
             then [\<lparr>md_data = MV_Double (d_div (dk_doubles E) (d_of_long (dk_doubles E) d) (d_of_long (dk_doubles E) dtime)),
                    md_labels = [(''device'', fst e)]\<rparr>]
             else [])"

definition disk_share_metric :: "'d disk_env \<Rightarrow> (disk_time \<Rightarrow> 64 word) \<Rightarrow> ('d, (string \<times> disk_time) list) gauge_callback" where
  "disk_share_metric E get =
     Multi_Value (\<lambda>prev values.
       bind_r (ReadProcFSState E []) (\<lambda>(ok, stats). Inr (values @ concat (map (time_share E get prev) stats), stats)))"

definition GetDiskReadTime :: "'d disk_env \<Rightarrow> ('d, (string \<times> disk_time) list) gauge_callback" where
  "GetDiskReadTime E = disk_share_metric E dt_read"

definition GetDiskWriteTime :: "'d disk_env \<Rightarrow> ('d, (string \<times> disk_time) list) gauge_callback" where
  "GetDiskWriteTime E = disk_share_metric E dt_write"

definition system_disk_used :: "'d disk_env \<Rightarrow> ('d, unit) gauge_callback" where
  "system_disk_used E =
     Multi_Value (\<lambda>s values.
       Inr (values @ map (\<lambda>d. \<lparr>md_data = MV_Int (space_used d), md_labels = [(''device'', di_device d)]\<rparr>) (snd (GetDiskList E [])), s))"

section \<open>Lemmas\<close>

text \<open>A line that is not of the kernel's shape, the empty one behind the last line end among them, is read out
  of bounds.\<close>

lemma disk_times_short:
  assumes "line \<in> set lines" "length (StrSplit (dk_numbers E) line CHR '' '') \<le> 2"
  shows "disk_times E i lines stats = Inl Out_Of_Bounds"
  using assms(1)
proof (induction lines arbitrary: i stats)
  case (Cons l lines)
  show ?case
  proof (cases "disk_time_of E i (StrSplit (dk_numbers E) l CHR '' '')")
    case (Inl f)
    then have "f = Out_Of_Bounds" by (auto simp: disk_time_of_def split: if_splits)
    then show ?thesis using Inl by simp
  next
    case (Inr t)
    then have "l \<noteq> line" using assms(2) by (auto simp: disk_time_of_def)
    then show ?thesis using Cons Inr by simp
  qed
qed simp

lemma join_snoc_empty: "ls \<noteq> [] \<Longrightarrow> join c (ls @ [[]]) = join c ls @ [c]"
  by (induction c ls rule: join.induct) auto

text \<open>Whenever /proc/diskstats can be read, each of the two time metrics reads out of bounds: the file
  ends with a line end, and the empty text behind it has no third field.\<close>
lemma disk_time_metrics_read_out_of_bounds:
  fixes E :: "'d disk_env"
  assumes "join_law (dk_numbers E)" "ls \<noteq> []" "\<forall>l\<in>set ls. newline \<notin> set l"
    and "dk_read_file E ''/proc/diskstats'' = Some (join newline ls @ [newline])"
  shows "Report Double_Gauge (GetDiskReadTime E) prev = Inl Out_Of_Bounds \<and>
    Report Double_Gauge (GetDiskWriteTime E) prev = Inl Out_Of_Bounds"
proof -
  have "StrSplit (dk_numbers E) (join newline (ls @ [[]])) newline = ls @ [[]]"
    using assms(1,3) by (simp add: join_law_def)
  moreover have "StrSplit (dk_numbers E) [] CHR '' '' = [[]]"
  proof -
    have "StrSplit (dk_numbers E) (join CHR '' '' [[]]) CHR '' '' = [[]]"
      using assms(1) unfolding join_law_def by (metis empty_iff empty_set list.set_cases set_ConsD list.distinct(1))
    then show ?thesis by simp
  qed
  ultimately have "ReadProcFSState E [] = Inl Out_Of_Bounds"
    using disk_times_short [of "[]" "ls @ [[]]" E 0 "[]"] assms(2,4)
    by (simp add: ReadProcFSState_def join_snoc_empty)
  then show ?thesis
    by (simp add: Report_def GetDiskReadTime_def GetDiskWriteTime_def disk_share_metric_def)
qed

definition sample_disk_env :: "int disk_env" where
  "sample_disk_env =
     \<lparr>dk_numbers = sample_parse_env, dk_doubles = int_doubles,
      dk_read_file = (\<lambda>path. if path = ''/proc/diskstats'' then Some (join newline [''8 0 sda 1 2 3 4 5 6 7 8''] @ [newline]) else None),
      statvfs = (\<lambda>m. None), steady_now = (\<lambda>i. 0)\<rparr>"

lemma disk_time_metrics_read_out_of_bounds_witness:
  "Report Double_Gauge (GetDiskReadTime sample_disk_env) [] = Inl Out_Of_Bounds \<and>
   Report Double_Gauge (GetDiskWriteTime sample_disk_env) [] = Inl Out_Of_Bounds"
  by (rule disk_time_metrics_read_out_of_bounds [of _ "[''8 0 sda 1 2 3 4 5 6 7 8'']"])
    (simp_all add: sample_disk_env_def sample_laws newline_def)

text \<open>A listed disk is a device with its mount point; its file system is never filled in.\<close>

lemma disk_of_line_facts:
  "disk_of_line E line = Some d \<Longrightarrow>
     starts_with ''/dev/'' (di_device d) \<and> di_filesystem d = [] \<and> statvfs E (di_mount_point d) \<noteq> None"
  by (auto simp: disk_of_line_def disk_info_new_def Let_def split: if_splits option.splits)

lemma listed_disks:
  "d \<in> set (snd (GetDiskList E [])) \<Longrightarrow>
     starts_with ''/dev/'' (di_device d) \<and> di_filesystem d = [] \<and> statvfs E (di_mount_point d) \<noteq> None"
proof -
  have "d \<in> set (disks_of_lines E lines) \<Longrightarrow> \<exists>line. disk_of_line E line = Some d" for lines
    by (induction lines) (auto split: option.splits)
  then show "d \<in> set (snd (GetDiskList E [])) \<Longrightarrow> ?thesis"
    using disk_of_line_facts by (fastforce simp: GetDiskList_def split: option.splits)
qed

lemma disk_used_reported:
  "Report Int64_Gauge (system_disk_used E) () =
     Inr (map (\<lambda>d. (MV_Int (space_used d), [(''device'', di_device d)])) (snd (GetDiskList E [])), ())"
  by (simp add: Report_def system_disk_used_def ReportMultiValue_def map_r_Inr [where g = "\<lambda>v. (md_data v, md_labels v)"])

end
