(* ===== verification/Node_Platform.thy ===== *)
theory Node_Platform
  imports Cpp_Strings
begin

text \<open>
  The distribution and the name of the machine: app/source/source/host/collector/node/node.cc. What the
  system answers is the record \<open>node_env\<close>: whether a file exists, what \<open>Core::OS::readline\<close> returns call by
  call on an opened file (its result and the buffer; after the list it returns zero), \<open>uname\<close>, the machine
  id and the address. The two kinds of regular expression that occur are a literal followed by a greedy
  group of one character class behind a first character; \<open>group_after\<close> is \<open>std::regex_search\<close> for them.
\<close>

section \<open>Data and environment\<close>

record LSB =
  lsb_ID :: string
  lsb_Release :: string
  lsb_Codename :: string
  lsb_Description :: string

record utsname =
  nodename :: string
  sysname :: string
  uts_version :: string

record ip_info =
  ip_v4 :: string
  ip_v6 :: string

record node_env =
  IsFileExist :: "string \<Rightarrow> bool"
  os_lines :: "string \<Rightarrow> (int \<times> string) list option"
  uname :: utsname
  getMachineId :: "64 word"
  GetOneIpInfo :: "ip_info option"

section \<open>Release files\<close>

text \<open>A line \<open>key=value\<close>, less the last character of the value: the value ends with the line end.\<close>

definition key_value :: "string \<Rightarrow> (string \<times> string) option" where
  "key_value s =
     (case find_char CHR ''='' s of
        None \<Rightarrow> None
      | Some pos \<Rightarrow>
          if int (length s) - int (pos + 1) - 1 < 0 then None
          else Some (take pos s, take (length s - (pos + 1) - 1) (drop (pos + 1) s)))"

definition lsb_line :: "string \<Rightarrow> LSB \<Rightarrow> LSB" where
  "lsb_line s lsb =
     (case key_value s of
        None \<Rightarrow> lsb
      | Some (key, val) \<Rightarrow>
          if key = ''DISTRIB_ID'' then lsb\<lparr>lsb_ID := val\<rparr>
          else if key = ''DISTRIB_RELEASE'' then lsb\<lparr>lsb_Release := val\<rparr>
          else if key = ''DISTRIB_CODENAME'' then lsb\<lparr>lsb_Codename := val\<rparr>
          else if key = ''DISTRIB_DESCRIPTION'' then lsb\<lparr>lsb_Description := val\<rparr>
          else lsb)"

definition getLSB :: "node_env \<Rightarrow> LSB \<Rightarrow> LSB option" where
  "getLSB E lsb =
     (if IsFileExist E ''/etc/lsb-release''
      then (case os_lines E ''/etc/lsb-release'' of
              None \<Rightarrow> None
            | Some ls \<Rightarrow> Some (fold (\<lambda>(n, s). lsb_line s) (takeWhile (\<lambda>(n, s). n > 0) ls) lsb))
      else None)"

text \<open>\<open>readLines\<close> opens a fixed file, whatever its argument.\<close>

definition readLines :: "node_env \<Rightarrow> string \<Rightarrow> string list" where
  "readLines E path =
     (case os_lines E ''/etc/oracle-release'' of
        None \<Rightarrow> []
      | Some ls \<Rightarrow> map snd (takeWhile (\<lambda>(n, s). n \<noteq> 0) ls))"

section \<open>Versions and platforms\<close>

fun group_after :: "string \<Rightarrow> (char \<Rightarrow> bool) \<Rightarrow> (char \<Rightarrow> bool) \<Rightarrow> string \<Rightarrow> string option" where
  "group_after lit P Q [] = None"
| "group_after lit P Q (c # cs) =
     (case drop (length lit) (c # cs) of
        [] \<Rightarrow> None
      | x # xs \<Rightarrow> if starts_with lit (c # cs) \<and> P x then Some (x # takeWhile Q xs) else group_after lit P Q cs)"

definition digit_or_dot :: "char \<Rightarrow> bool" where
  "digit_or_dot c \<longleftrightarrow> is_digit c \<or> c = CHR ''.''"

definition getRedhatishVersion :: "string list \<Rightarrow> string" where
  "getRedhatishVersion contents =
     (let c = lower (concat contents)
      in if find_sub ''rawhide'' c \<noteq> None then ''rawhide''
         else (case group_after ''release '' is_digit digit_or_dot c of None \<Rightarrow> [] | Some v \<Rightarrow> v))"

definition getSlackwareVersion :: "string list \<Rightarrow> string" where
  "getSlackwareVersion contents =
     (let c = lower (concat contents)
      in case find_sub ''slackware '' c of None \<Rightarrow> c | Some pos \<Rightarrow> take pos c @ drop (pos + 10) c)"

definition getRedhatishPlatform :: "string list \<Rightarrow> string" where
  "getRedhatishPlatform contents =
     (let c = lower (concat contents)
      in if find_sub ''red hat'' c \<noteq> None then ''redhat''
         else takeWhile (\<lambda>x. \<not> is_space x) (dropWhile is_space c))"

definition suse_line :: "string \<Rightarrow> string \<Rightarrow> string" where
  "suse_line line version =
     (let v = (case group_after ''VERSION = '' digit_or_dot digit_or_dot line of None \<Rightarrow> version | Some g \<Rightarrow> g)
      in case group_after ''PATCHLEVEL = '' is_digit is_digit line of
           None \<Rightarrow> v
         | Some g \<Rightarrow> if v \<noteq> [] then v @ ''.'' @ g else v)"

definition getSuseVersion :: "string list \<Rightarrow> string" where
  "getSuseVersion contents = fold suse_line contents []"

definition getSusePlatform :: "string list \<Rightarrow> string" where
  "getSusePlatform contents =
     (if find_sub ''opensuse'' (lower (concat contents)) \<noteq> None then ''opensuse'' else ''suse'')"

definition os_release_line :: "string \<Rightarrow> string \<times> string \<Rightarrow> string \<times> string" where
  "os_release_line s pv =
     (case key_value s of
        None \<Rightarrow> pv
      | Some (key, val) \<Rightarrow>
          if key = ''ID'' then (val, snd pv) else if key = ''VERSION_ID'' then (fst pv, val) else pv)"

definition getOSRelease :: "node_env \<Rightarrow> string \<times> string" where
  "getOSRelease E =
     (let (platform, version) = fold os_release_line (readLines E ''/etc/os-release'') ([], [])
      in if platform = [] then ([], [])
         else (if platform = ''amzn'' then ''amazon'' else platform, version))"

text \<open>The branches of \<open>getPlatform\<close>: the first file that exists decides.\<close>

definition debian_platform :: "node_env \<Rightarrow> LSB \<Rightarrow> string \<times> string \<Rightarrow> string \<times> string" where
  "debian_platform E lsb pv =
     (if lsb_ID lsb = ''Ubuntu'' then (''ubuntu'', lsb_Release lsb)
      else if lsb_ID lsb = ''LinuxMint'' then (''linuxmint'', lsb_Release lsb)
      else if IsFileExist E ''/usr/bin/raspi-config'' then (''raspbian'', snd pv)
      else (''debian'', snd pv))"

definition lsb_platform :: "LSB \<Rightarrow> string \<times> string \<Rightarrow> string \<times> string" where
  "lsb_platform lsb pv =
     (if lsb_ID lsb = ''RedHat'' then (''redhat'', lsb_Release lsb)
      else if lsb_ID lsb = ''Amazon'' then (''amazon'', lsb_Release lsb)
      else if lsb_ID lsb = ''ScientificSL'' then (''scientific'', lsb_Release lsb)
      else if lsb_ID lsb = ''XenServer'' then (''xenserver'', lsb_Release lsb)
      else if lsb_ID lsb \<noteq> [] then (lower (lsb_ID lsb), lsb_Release lsb)
      else pv)"

definition platform_version :: "node_env \<Rightarrow> string \<times> string" where
  "platform_version E =
     (let unknown = (''unknown'', ''unknown'');
          lsb0 = \<lparr>lsb_ID = fst unknown, lsb_Release = snd unknown, lsb_Codename = [], lsb_Description = []\<rparr>;
          lsb = (case getLSB E lsb0 of None \<Rightarrow> lsb0 | Some l \<Rightarrow> l)
      in if IsFileExist E ''/etc/oracle-release''
         then (''oracle'', getRedhatishVersion (readLines E ''/etc/oracle-release''))
         else if IsFileExist E ''/etc/enterprise-release''
         then (''oracle'', getRedhatishVersion (readLines E ''/etc/enterprise-release''))
         else if IsFileExist E ''/etc/slackware-version''
         then (''slackware'', getSlackwareVersion (readLines E ''/etc/enterprise-release''))
         else if IsFileExist E ''/etc/debian_version'' then debian_platform E lsb unknown
         else if IsFileExist E ''/etc/redhat-release''
         then let content = readLines E ''/etc/redhat-release''
              in (getRedhatishPlatform content, getRedhatishVersion content)
         else if IsFileExist E ''/etc/system-release''
         then let content = readLines E ''/etc/redhat-release''
              in (getRedhatishPlatform content, getRedhatishVersion content)
         else if IsFileExist E ''/etc/gentoo-release''
         then (''gentoo'', getRedhatishVersion (readLines E ''/etc/gentoo-release''))
         else if IsFileExist E ''/etc/SuSE-release''
         then let content = readLines E ''/etc/SuSE-release''
              in (getSusePlatform content, getSuseVersion content)
         else if IsFileExist E ''/etc/arch-release'' then (''arch'', lsb_Release lsb)
         else if IsFileExist E ''/etc/alpine-release''
         then (''alpine'', case readLines E ''/etc/gentoo-release'' of [] \<Rightarrow> snd unknown | l # ls \<Rightarrow> l)
         else if IsFileExist E ''/etc/os-release''
         then (if fst (getOSRelease E) \<noteq> [] then getOSRelease E else unknown)
         else lsb_platform lsb unknown)"

definition getPlatform :: "node_env \<Rightarrow> string" where
  "getPlatform E = fst (platform_version E) @ '' '' @ snd (platform_version E)"

section \<open>The collector\<close>

record node_collector =
  host_object_id :: "64 word"
  host_name :: string
  nc_sysname :: string
  nc_version :: string

definition node_collector_new :: "node_env \<Rightarrow> node_collector" where
  "node_collector_new E =
     \<lparr>host_object_id = getMachineId E, host_name = nodename (uname E), nc_sysname = sysname (uname E),
      nc_version = uts_version (uname E)\<rparr>"

record node_message =
  nm_host_object_id :: "64 word"
  nm_host_name :: string
  nm_system_os :: string
  nm_system_version :: string
  nm_platform :: string
  nm_ipv4 :: string
  nm_ipv6 :: string

definition node_run :: "node_env \<Rightarrow> node_collector \<Rightarrow> node_message \<Rightarrow> node_message" where
  "node_run E c info =
     (let m = info\<lparr>nm_host_object_id := host_object_id c, nm_host_name := host_name c, nm_system_os := nc_sysname c,
                   nm_system_version := nc_sysname c, nm_platform := getPlatform E\<rparr>
      in case GetOneIpInfo E of None \<Rightarrow> m | Some ip \<Rightarrow> m\<lparr>nm_ipv4 := ip_v4 ip, nm_ipv6 := ip_v6 ip\<rparr>)"

section \<open>Lemmas\<close>

lemma group_after_first:
  assumes "find_sub lit (pre @ lit @ x # xs) = Some (length pre)" "P x"
  shows "group_after lit P Q (pre @ lit @ x # xs) = Some (x # takeWhile Q xs)"
  using assms(1)
proof (induction pre)
  case Nil
  obtain c cs where c: "lit @ x # xs = c # cs" by (cases "lit @ x # xs") auto
  have "drop (length lit) (c # cs) = x # xs" "starts_with lit (c # cs)"
    using starts_with_append [of lit "x # xs"] by (simp_all flip: c)
  then show ?case using assms(2) by (simp add: c)
next
  case (Cons c pre)
  then have "find_sub lit (pre @ lit @ x # xs) = Some (length pre)" "\<not> starts_with lit (c # pre @ lit @ x # xs)"
    by (auto split: if_splits)
  moreover have "drop (length lit) (c # pre @ lit @ x # xs) \<noteq> []" by simp
  ultimately show ?case using Cons.IH by (auto split: list.split simp del: drop_eq_Nil)
qed

lemma lower_append: "lower (s @ t) = lower s @ lower t"
  by (simp add: lower_def)

lemma lower_digit_or_dot: "\<forall>c\<in>set v. digit_or_dot c \<Longrightarrow> lower v = v"
  by (auto simp: lower_def digit_or_dot_def is_digit_def intro!: map_idI)

text \<open>Without the file \<open>readLines\<close> opens, every reader of a release file works on nothing.\<close>

lemma readLines_none: "os_lines E ''/etc/oracle-release'' = None \<Longrightarrow> readLines E path = []"
  by (simp add: readLines_def)

lemma empty_release:
  "getRedhatishVersion [] = []" "getRedhatishPlatform [] = []" "getSlackwareVersion [] = []"
  "getSusePlatform [] = ''suse''" "getSuseVersion [] = []"
  by (simp_all add: getRedhatishVersion_def getRedhatishPlatform_def getSlackwareVersion_def getSusePlatform_def
      getSuseVersion_def lower_def)

lemma getOSRelease_none: "os_lines E ''/etc/oracle-release'' = None \<Longrightarrow> getOSRelease E = ([], [])"
  by (simp add: getOSRelease_def readLines_none)

lemma readLines_same: "os_lines E ''/etc/oracle-release'' = os_lines F ''/etc/oracle-release'' \<Longrightarrow> readLines E path = readLines F path"
  by (simp add: readLines_def)

text \<open>\<open>uname\<close>'s version is kept and the name of the system is reported in its place.\<close>

lemma node_run_version: "nm_system_version (node_run E (node_collector_new E) info) = sysname (uname E)"
  by (simp add: node_run_def node_collector_new_def Let_def split: option.split)

section \<open>Properties\<close>

text \<open>The version in a release file of the Red Hat family is read back: with the first
  "release " of the text in front of it and something that is neither a digit nor a dot behind it,
  and no mention of rawhide, \<open>getRedhatishVersion\<close> returns exactly the version.\<close>

lemma release_version_read:
  assumes "digits = d # v" "is_digit d" "\<forall>c\<in>set v. digit_or_dot c" "\<not> digit_or_dot stop"
    and "lower stop_text = stop # rest" "lower intro_text = pre"
    and "find_sub ''release '' (pre @ ''release '' @ digits @ stop # rest) = Some (length pre)"
    and "find_sub ''rawhide'' (pre @ ''release '' @ digits @ stop # rest) = None"
  shows "getRedhatishVersion [intro_text @ ''release '' @ digits @ stop_text] = digits"
proof -
  have lit: "lower ''release '' = ''release ''" by code_simp
  have "lower digits = digits" using assms(1-3) by (intro lower_digit_or_dot) (auto simp: digit_or_dot_def)
  then have whole: "lower (intro_text @ ''release '' @ digits @ stop_text) = pre @ ''release '' @ digits @ stop # rest"
    by (simp only: lower_append assms(5,6) lit append.assoc)
  have "group_after ''release '' is_digit digit_or_dot (pre @ ''release '' @ digits @ stop # rest) = Some digits"
    using group_after_first [of "''release ''" pre d "v @ stop # rest" is_digit digit_or_dot] assms(1-4,7)
    by (simp add: takeWhile_append2)
  then show ?thesis
    by (simp only: getRedhatishVersion_def Let_def concat.simps append_Nil2 whole assms(8) if_False simp_thms option.case)
qed

lemma release_version_read_witness:
  "getRedhatishVersion [''Red Hat Enterprise Linux '' @ ''release '' @ ''8.4'' @ '' (Ootpa)''] = ''8.4''"
  by (rule release_version_read [where d = "CHR ''8''" and v = "''.4''" and stop = "CHR '' ''" and rest = "''(ootpa)''"
        and pre = "''red hat enterprise linux ''"])
     (code_simp+)

text \<open>The release files of the distributions are never read: two machines on which the same files
  exist, with the same /etc/lsb-release and the same /etc/oracle-release, report the same platform and
  version, whatever their other release files hold.\<close>

lemma release_files_never_read:
  assumes "IsFileExist E = IsFileExist F"
    and "os_lines E ''/etc/lsb-release'' = os_lines F ''/etc/lsb-release''"
    and "os_lines E ''/etc/oracle-release'' = os_lines F ''/etc/oracle-release''"
  shows "getPlatform E = getPlatform F"
proof -
  have "readLines E path = readLines F path" for path using assms(3) by (rule readLines_same)
  moreover from this have "getOSRelease E = getOSRelease F" by (simp add: getOSRelease_def)
  moreover have "getLSB E = getLSB F" using assms(1,2) by (simp add: getLSB_def fun_eq_iff)
  ultimately show ?thesis
    using assms(1) by (simp add: getPlatform_def platform_version_def debian_platform_def Let_def)
qed

definition sample_node :: "string \<Rightarrow> string \<Rightarrow> node_env" where
  "sample_node path line =
     \<lparr>IsFileExist = (\<lambda>f. f = path), os_lines = (\<lambda>f. if f = path then Some [(1, line)] else None),
      uname = \<lparr>nodename = ''n'', sysname = ''Linux'', uts_version = ''#1''\<rparr>, getMachineId = 7, GetOneIpInfo = None\<rparr>"

lemma release_files_never_read_witness:
  "getPlatform (sample_node ''/etc/os-release'' ''ID=debian'') = getPlatform (sample_node ''/etc/os-release'' ''ID=ubuntu'')"
  by (rule release_files_never_read) (simp_all add: sample_node_def)

text \<open>Where /etc/oracle-release cannot be opened, /etc/redhat-release gives neither a name nor a version
  and /etc/os-release changes nothing.\<close>

lemma unread_release:
  assumes "os_lines E ''/etc/oracle-release'' = None"
    and "\<forall>f\<in>{''/etc/oracle-release'', ''/etc/enterprise-release'', ''/etc/slackware-version'', ''/etc/debian_version''}.
           \<not> IsFileExist E f"
  shows "IsFileExist E ''/etc/redhat-release'' \<Longrightarrow> getPlatform E = '' ''"
    and "(\<forall>f\<in>{''/etc/redhat-release'', ''/etc/system-release'', ''/etc/gentoo-release'', ''/etc/SuSE-release'',
             ''/etc/arch-release'', ''/etc/alpine-release''}. \<not> IsFileExist E f) \<Longrightarrow>
         IsFileExist E ''/etc/os-release'' \<Longrightarrow> getPlatform E = ''unknown unknown''"
  using assms by (simp_all add: getPlatform_def platform_version_def readLines_none empty_release getOSRelease_none Let_def)

end
