(* ===== verification/Trace_Pipeline.thy ===== *)
theory Trace_Pipeline
  imports Sky_Processor Topology_Listener
begin

text \<open>
  The trace chain as it is composed at run time: the recordables the SkyWalking interceptor
  (\<open>Sky_Processor\<close>) makes of a batch of segments are the events the topology interceptor
  (\<open>Topology_Listener\<close>) looks at. The lemmas say which processed spans the topology parsers can
  take, and what an entry span with exactly one link contributes.
\<close>

section \<open>Processed spans as topology events\<close>

abbreviation topology_events :: "'d otlp_recordable list \<Rightarrow> 'd recordable option list" where
  "topology_events recs \<equiv> map (\<lambda>r. Some (seen_by_topology r)) recs"

text \<open>An entry span that is not of a message queue is a server span.\<close>

definition server_entry :: "sky_env \<Rightarrow> sky_span \<Rightarrow> bool" where
  "server_entry P s \<longleftrightarrow> sw_type s = Type_Entry \<and> sw_layer s \<noteq> mq_layer P"

definition single_parent :: "sky_env \<Rightarrow> segment \<Rightarrow> bool" where
  "single_parent P object \<longleftrightarrow> (\<forall>s\<in>set (seg_spans object). server_entry P s \<longrightarrow> length (sw_refs s) \<le> 1)"

definition processed :: "sky_env \<Rightarrow> segment \<Rightarrow> sky_span \<Rightarrow> 'd otlp_recordable \<Rightarrow> bool" where
  "processed P object s r \<longleftrightarrow>
     (\<exists>au t i rs. core r = span_core P au object t i rs s) \<and> length (links (otlp r)) = max 1 (length (sw_refs s))"

lemma process_processed:
  assumes "segment_ok P object"
  shows "\<exists>recs :: 'd otlp_recordable list. process P meta (Some object) = Inr recs \<and>
           list_all2 (processed P object) (seg_spans object) recs"
proof (cases "seg_spans object = []")
  case True
  then show ?thesis by (simp add: process_def)
next
  case False
  obtain t rs au and recs :: "'d otlp_recordable list" where r: "process P meta (Some object) = Inr recs"
    "list_all2 (\<lambda>s r. \<exists>i. segmentIDToSpanID (seg_segment_id object) (sw_span_id s) (replicate 8 0) = Inr i \<and>
        core r = span_core P au object t i rs s \<and>
        length (links (otlp r)) = (if sw_refs s = [] then 1 else length (sw_refs s))) (seg_spans object) recs"
    using process_cores [OF assms False] by blast
  have "list_all2 (processed P object) (seg_spans object) recs"
  proof (rule list_all2_mono [OF r(2)], elim exE conjE)
    fix s i and r :: "'d otlp_recordable"
    assume "core r = span_core P au object t i rs s"
      and "length (links (otlp r)) = (if sw_refs s = [] then 1 else length (sw_refs s))"
    then show "processed P object s r" by (cases "sw_refs s") (auto simp: processed_def)
  qed
  with r(1) show ?thesis by blast
qed

text \<open>Every processed span carries the peer and layer attributes the exit parser needs, so only the
  number of links decides.\<close>

lemma processed_kind:
  assumes "processed P object s r"
  shows "span_kind (rec_span (seen_by_topology r)) = sky_kind P s"
    "length (links (rec_span (seen_by_topology r))) = max 1 (length (sw_refs s))"
  using assms by (auto simp: processed_def seen_by_topology_def span.truncate_def dest: span_core_simps(3))

lemma processed_layer:
  assumes "processed P object s r"
  shows "load_resource (attr_to_map (rec_span (seen_by_topology r))) rs AttributeLayer \<noteq> None"
proof -
  obtain au t i rs' where c: "core r = span_core P au object t i rs' s"
    using assms by (auto simp: processed_def)
  have "AttributeLayer \<in> fst ` set (attrs (rec_span (seen_by_topology r)))"
    by (simp add: seen_by_topology_def span.truncate_def span_core_simps(4) [OF c] span_attributes_def
        PopulateAttribute_def)
  then have "map_of (rev (attrs (rec_span (seen_by_topology r)))) AttributeLayer \<noteq> None"
    by (simp add: map_of_eq_None_iff)
  then show ?thesis by (auto simp: span_attribute_lookup split: option.splits)
qed

lemma processed_parsable:
  assumes "processed P object s r"
  shows "parsable (Some (seen_by_topology r)) \<longleftrightarrow> (server_entry P s \<longrightarrow> length (sw_refs s) \<le> 1)"
  using processed_layer [OF assms]
  by (auto simp: parsable_def processed_kind [OF assms] sky_kind_def server_entry_def Let_def
      split: sky_span_type.splits)

lemma processed_all_parsable:
  assumes "list_all2 (processed P object) ss recs" "\<forall>s\<in>set ss. server_entry P s \<longrightarrow> length (sw_refs s) \<le> 1"
  shows "\<forall>e\<in>set (topology_events recs). parsable e"
  using assms by (induction rule: list_all2_induct) (simp_all add: processed_parsable)

text \<open>A batch of segments.\<close>

definition batch_ok :: "sky_env \<Rightarrow> ((string \<Rightarrow> string option) \<times> segment option) list \<Rightarrow> bool" where
  "batch_ok P events \<longleftrightarrow>
     (\<forall>(meta, event)\<in>set events. case event of None \<Rightarrow> True | Some object \<Rightarrow> segment_ok P object \<and> single_parent P object)"

lemma event_parsable:
  assumes "case event of None \<Rightarrow> True | Some object \<Rightarrow> segment_ok P object \<and> single_parent P object"
  shows "\<exists>recs :: 'd otlp_recordable list. process P meta event = Inr recs \<and>
           (\<forall>e\<in>set (topology_events recs). parsable e)"
proof (cases event)
  case None
  then show ?thesis by (simp add: process_def)
next
  case (Some object)
  then obtain recs :: "'d otlp_recordable list" where "process P meta event = Inr recs"
    "list_all2 (processed P object) (seg_spans object) recs"
    using process_processed assms by fastforce
  then show ?thesis using processed_all_parsable assms Some by (fastforce simp: single_parent_def)
qed

lemma batch_parsable:
  assumes "batch_ok P events"
  shows "\<exists>recs :: 'd otlp_recordable list. sky_intercept P events = Inr recs \<and>
           (\<forall>e\<in>set (topology_events recs). parsable e)"
proof -
  let ?f = "\<lambda>(meta, event). process P meta event :: 'd otlp_recordable list result"
  have step: "\<exists>recs. ?f x = Inr recs \<and> (\<forall>e\<in>set (topology_events recs). parsable e)" if "x \<in> set events" for x
    using event_parsable [where event = "snd x" and P = P and meta = "fst x"] assms that by (fastforce simp: batch_ok_def case_prod_beta)
  then obtain lists where lists: "map_r ?f events = Inr lists" using map_r_total [of events ?f] by blast
  have "\<forall>recs\<in>set lists. \<forall>e\<in>set (topology_events recs). parsable e"
  proof
    fix recs assume "recs \<in> set lists"
    then obtain i where i: "i < length events" "?f (events ! i) = Inr recs"
      using lists unfolding map_r_Inr_iff by (auto simp only: list_all2_conv_all_nth in_set_conv_nth)
    then show "\<forall>e\<in>set (topology_events recs). parsable e" using step [OF nth_mem [OF i(1)]] by auto
  qed
  then show ?thesis by (auto simp: sky_intercept_def lists)
qed

section \<open>Spans with several parents\<close>

lemma intercept_event_enabled:
  assumes "intercept_event E nc e l = Inr l'"
  shows "enabled l' = enabled l"
  using assms
  by (auto simp: intercept_event_def parseEntry_def parseExit_def parseLocal_def Let_def cpp_simps
      split: option.splits if_splits)

lemma unparsable_faults:
  assumes "processed P object s r" "server_entry P s" "2 \<le> length (sw_refs s)" "enabled l" "directory_total nc"
  shows "intercept_event E nc (Some (seen_by_topology r)) l = Inl Null_Deref"
proof -
  have k: "span_kind (rec_span (seen_by_topology r)) = Kind_Server"
    using assms(2) processed_kind(1) [OF assms(1)] by (simp add: sky_kind_def server_entry_def)
  obtain x y ls where "links (rec_span (seen_by_topology r)) = x # y # ls"
    using processed_kind(2) [OF assms(1)] assms(3)
    by (cases "links (rec_span (seen_by_topology r))"; cases "tl (links (rec_span (seen_by_topology r)))") auto
  then show ?thesis
    using k server_links_fault [OF assms(4,5)] by (simp add: intercept_event_def Let_def)
qed

lemma several_parents_fault:
  assumes "list_all2 (processed P object) ss recs" "\<exists>s\<in>set ss. server_entry P s \<and> 2 \<le> length (sw_refs s)"
    and "listener_ok l" "enabled l" "directory_total nc"
  shows "fold_r (intercept_event E nc) (topology_events recs) l = Inl Null_Deref"
  using assms(1-4)
proof (induction ss recs arbitrary: l rule: list_all2_induct)
  case (Cons s ss r recs)
  show ?case
  proof (cases "server_entry P s \<and> 2 \<le> length (sw_refs s)")
    case True
    then show ?thesis using unparsable_faults [OF Cons.hyps(1) _ _ Cons.prems(3) assms(5)] by simp
  next
    case False
    then have "parsable (Some (seen_by_topology r))" using processed_parsable [OF Cons.hyps(1)] by auto
    from intercept_event_ok [OF Cons.prems(2) assms(5) this] obtain t where
      t: "intercept_event E nc (Some (seen_by_topology r)) l = Inr t" "listener_ok t" by blast
    then show ?thesis
      using False Cons.IH [OF _ t(2)] Cons.prems(1,3) intercept_event_enabled [OF t(1)] by auto
  qed
qed simp

section \<open>An entry span without references\<close>

text \<open>The stand-in link names no caller, so the observation has none.\<close>

lemma stand_in_source:
  assumes "\<not> is_mq E m" "sourceServiceName b = []" "sourceServiceInstanceName b = []"
    and "c = entry_link E span m (link_attr_to_map [(AttributeRefType, AV_Int 0)]) b"
  shows "sourceNameToKubernetesName nc (sourceServiceName c) (sourceServiceInstanceName c) c = Inr c"
    "sourceServiceName c = []" "sourceEndpointName c = UserEndpointName"
  using assms
  by (simp_all add: entry_link_source sourceNameToKubernetesName_def name_to_kubernetes_def str_or_def
      link_attr_to_map_def AttributeRefType_def AttributeParentService_def AttributeParentInstance_def
      AttributeParentEndpoint_def)

end
