(* ===== verification/Otlp_Client.thy ===== *)
theory Otlp_Client
  imports Prelude
begin

text \<open>
  The asynchronous OTLP client: app/source/common/opentelemetry/otlp_grpc_client.cc and
  app/include/common/opentelemetry/otlp_grpc_client.h, with the call object of
  export_trace_service_call_data.h. \<open>'q\<close> is the type of requests. A sink calls \<open>Export\<close> under the lock of
  its pipeline, and gRPC calls \<open>OnDone\<close> from its own threads in any order, so a run is a sequence of
  such steps. Creating channels and stubs is left to gRPC. What happens while \<open>ForceFlush\<close> waits is an
  argument: for each wait whether it was notified, how long it took and the counter after it.
\<close>

section \<open>State\<close>

record async_data =
  running_requests :: "64 word"
  start_request_counter :: "64 word"
  finished_request_counter :: "64 word"
  max_concurrent_requests :: "64 word"

record 'q otlp_client =
  is_shutdown :: bool
  async_state :: "async_data option"
  in_flight :: "(nat \<times> 'q) list"
  next_call :: nat

definition otlp_client_new :: "'q otlp_client" where
  "otlp_client_new = \<lparr>is_shutdown = False, async_state = None, in_flight = [], next_call = 0\<rparr>"

datatype export_result = kSuccess | kFailure

section \<open>Export\<close>

definition MutableAsyncData :: "64 word \<Rightarrow> 'q otlp_client \<Rightarrow> async_data" where
  "MutableAsyncData max_requests c =
     (case async_state c of
        Some d \<Rightarrow> d
      | None \<Rightarrow> \<lparr>running_requests = 0, start_request_counter = 0, finished_request_counter = 0,
                 max_concurrent_requests = max_requests\<rparr>)"

definition checkRunStatus :: "64 word \<Rightarrow> 'q otlp_client \<Rightarrow> async_data option \<times> 'q otlp_client" where
  "checkRunStatus max_requests c =
     (if is_shutdown c then (None, c)
      else let d = MutableAsyncData max_requests c; c1 = c\<lparr>async_state := Some d\<rparr>
           in if running_requests d \<ge> max_concurrent_requests d then (None, c1) else (Some d, c1))"

definition otlp_Export :: "64 word \<Rightarrow> 'q \<Rightarrow> 'q otlp_client \<Rightarrow> export_result \<times> 'q otlp_client" where
  "otlp_Export max_requests request c =
     (case checkRunStatus max_requests c of
        (None, c1) \<Rightarrow> (kFailure, c1)
      | (Some d, c1) \<Rightarrow>
          (kSuccess, c1\<lparr>async_state := Some (d\<lparr>start_request_counter := start_request_counter d + 1,
                                             running_requests := running_requests d + 1\<rparr>),
                       in_flight := in_flight c1 @ [(next_call c1, request)], next_call := Suc (next_call c1)\<rparr>))"

text \<open>The overload for metrics answers at once.\<close>

definition otlp_Export_metrics :: "'q \<Rightarrow> 'q otlp_client \<Rightarrow> export_result \<times> 'q otlp_client" where
  "otlp_Export_metrics request c = (kSuccess, c)"

text \<open>The end of a call, with any status: its object is deleted.\<close>

definition otlp_OnDone :: "nat \<Rightarrow> 'q otlp_client \<Rightarrow> 'q otlp_client" where
  "otlp_OnDone i c =
     c\<lparr>async_state := map_option (\<lambda>d. d\<lparr>running_requests := running_requests d - 1,
          finished_request_counter := finished_request_counter d + 1\<rparr>) (async_state c),
       in_flight := AList.delete i (in_flight c)\<rparr>"

section \<open>Flush and shutdown\<close>

fun flush_wait :: "64 word \<Rightarrow> 64 word \<Rightarrow> int \<Rightarrow> (bool \<times> int \<times> 64 word) list \<Rightarrow> bool option" where
  "flush_wait counter finished timeout waits =
     (if \<not> (0 < timeout \<and> finished < counter) then Some (0 < timeout)
      else case waits of
             [] \<Rightarrow> None
           | (notified, elapsed, finished') # ws \<Rightarrow>
               if notified then Some (0 < timeout) else flush_wait counter finished' (timeout - elapsed) ws)"

declare flush_wait.simps [simp del]

definition steady_max :: int where "steady_max = 2 ^ 63 - 1"

text \<open>\<open>None\<close>: still waiting when the events end. \<open>adjust\<close> is \<open>AdjustWaitForTimeout\<close> of OpenTelemetry.\<close>

definition ForceFlush ::
  "(int \<Rightarrow> int) \<Rightarrow> int \<Rightarrow> (bool \<times> int \<times> 64 word) list \<Rightarrow> 'q otlp_client \<Rightarrow> bool option" where
  "ForceFlush adjust timeout waits c =
     (case async_state c of
        None \<Rightarrow> Some True
      | Some d \<Rightarrow>
          if start_request_counter d \<le> finished_request_counter d then Some True
          else let t = adjust timeout; t1 = (if t \<le> 0 then steady_max else t)
               in flush_wait (start_request_counter d) (finished_request_counter d) t1 waits)"

definition otlp_Shutdown ::
  "(int \<Rightarrow> int) \<Rightarrow> int \<Rightarrow> (bool \<times> int \<times> 64 word) list \<Rightarrow> 'q otlp_client \<Rightarrow> bool option \<times> 'q otlp_client" where
  "otlp_Shutdown adjust timeout waits c =
     (if async_state c = None then (Some True, c)
      else let c1 = c\<lparr>is_shutdown := True\<rparr> in (ForceFlush adjust timeout waits c1, c1))"

section \<open>Runs\<close>

inductive otlp_step :: "64 word \<Rightarrow> 'q otlp_client \<Rightarrow> 'q otlp_client \<Rightarrow> bool" for m where
  Export_step: "otlp_step m c (snd (otlp_Export m request c))"
| Metrics_step: "otlp_step m c (snd (otlp_Export_metrics request c))"
| Done_step: "i \<in> fst ` set (in_flight c) \<Longrightarrow> otlp_step m c (otlp_OnDone i c)"
| Shutdown_step: "otlp_step m c (snd (otlp_Shutdown adjust timeout waits c))"

inductive otlp_reachable :: "64 word \<Rightarrow> 'q otlp_client \<Rightarrow> bool" for m where
  Reach_new: "otlp_reachable m otlp_client_new"
| Reach_step: "otlp_reachable m c \<Longrightarrow> otlp_step m c c' \<Longrightarrow> otlp_reachable m c'"

definition client_ok :: "64 word \<Rightarrow> 'q otlp_client \<Rightarrow> bool" where
  "client_ok m c \<longleftrightarrow>
     umap_ok (in_flight c) \<and> (\<forall>i\<in>fst ` set (in_flight c). i < next_call c) \<and> length (in_flight c) \<le> unat m \<and>
     (case async_state c of
        None \<Rightarrow> in_flight c = []
      | Some d \<Rightarrow> max_concurrent_requests d = m \<and> running_requests d = of_nat (length (in_flight c)) \<and>
                  start_request_counter d = finished_request_counter d + running_requests d)"

lemma client_ok_async: "client_ok m c \<Longrightarrow> client_ok m (c\<lparr>async_state := Some (MutableAsyncData m c)\<rparr>)"
  by (auto simp: client_ok_def MutableAsyncData_def split: option.splits)

lemma delete_length:
  assumes "umap_ok m" "i \<in> fst ` set m"
  shows "length m = Suc (length (AList.delete i m))"
proof -
  have "dom (map_of (AList.delete i m)) = dom (map_of m) - {i}" by (auto simp: delete_conv')
  moreover have "i \<in> dom (map_of m)" using assms(2) by (simp add: dom_map_of_conv_image_fst)
  ultimately show ?thesis
    using umap_size [OF assms(1)] umap_size [OF umap_ok_delete [OF assms(1)], of i]
    by (simp add: card_Suc_Diff1 [symmetric] finite_dom_map_of del: card_Diff_insert)
qed

lemma export_cases:
  "otlp_Export m q c =
     (if is_shutdown c then (kFailure, c)
      else let d = MutableAsyncData m c; c1 = c\<lparr>async_state := Some d\<rparr>
           in if running_requests d \<ge> max_concurrent_requests d then (kFailure, c1)
              else (kSuccess, c1\<lparr>async_state := Some (d\<lparr>start_request_counter := start_request_counter d + 1,
                                             running_requests := running_requests d + 1\<rparr>),
                       in_flight := in_flight c @ [(next_call c, q)], next_call := Suc (next_call c)\<rparr>))"
  by (simp add: otlp_Export_def checkRunStatus_def Let_def)

lemma running_below:
  assumes "client_ok m c"
  shows "running_requests (MutableAsyncData m c) \<ge> max_concurrent_requests (MutableAsyncData m c) \<longleftrightarrow>
    length (in_flight c) = unat m"
proof -
  have le: "length (in_flight c) \<le> unat m" using assms by (simp add: client_ok_def)
  then have "unat (of_nat (length (in_flight c)) :: 64 word) = length (in_flight c)"
    using le_less_trans [OF le unsigned_less [of m]] by (simp add: unat_of_nat)
  moreover have "running_requests (MutableAsyncData m c) = of_nat (length (in_flight c)) \<and>
      max_concurrent_requests (MutableAsyncData m c) = m"
    using assms by (auto simp: client_ok_def MutableAsyncData_def split: option.splits)
  ultimately show ?thesis using le by (auto simp: word_le_nat_alt)
qed

lemma export_ok:
  assumes "client_ok m c"
  shows "client_ok m (snd (otlp_Export m q c))"
proof (cases "is_shutdown c \<or> length (in_flight c) = unat m")
  case True
  then show ?thesis using assms client_ok_async [OF assms] running_below [OF assms]
    by (auto simp: export_cases Let_def)
next
  case False
  let ?d = "MutableAsyncData m c"
  have "length (in_flight c) < unat m" using assms False by (simp add: client_ok_def)
  moreover have "umap_ok (in_flight c @ [(next_call c, q)])" using assms by (auto simp: client_ok_def umap_ok_def)
  ultimately show ?thesis using False client_ok_async [OF assms] running_below [OF assms]
    by (auto simp: export_cases Let_def client_ok_def less_Suc_eq)
qed

lemma done_ok:
  assumes "client_ok m c" "i \<in> fst ` set (in_flight c)"
  shows "client_ok m (otlp_OnDone i c)"
proof -
  have u: "umap_ok (in_flight c)" using assms(1) by (simp add: client_ok_def)
  have len: "length (in_flight c) = Suc (length (AList.delete i (in_flight c)))" by (rule delete_length [OF u assms(2)])
  obtain d where d: "async_state c = Some d" using assms by (auto simp: client_ok_def split: option.splits)
  have "running_requests d - 1 = of_nat (length (AList.delete i (in_flight c)))"
    using assms(1) d len by (simp add: client_ok_def)
  moreover have "set (AList.delete i (in_flight c)) \<subseteq> set (in_flight c)" by (auto simp: AList.delete_eq)
  ultimately show ?thesis
    using assms(1) d len u umap_ok_delete [OF u] by (auto simp: client_ok_def otlp_OnDone_def)
qed

lemma reachable_ok: "otlp_reachable m c \<Longrightarrow> client_ok m c"
proof (induction rule: otlp_reachable.induct)
  case Reach_new
  then show ?case by (simp add: client_ok_def otlp_client_new_def)
next
  case (Reach_step c c')
  from Reach_step.hyps(2) show ?case
  proof (cases rule: otlp_step.cases)
    case (Export_step request)
    then show ?thesis using export_ok [OF Reach_step.IH] by simp
  next
    case (Metrics_step request)
    then show ?thesis using Reach_step.IH by (simp add: otlp_Export_metrics_def)
  next
    case (Done_step i)
    then show ?thesis using done_ok [OF Reach_step.IH] by simp
  next
    case (Shutdown_step adjust timeout waits)
    then show ?thesis using Reach_step.IH by (auto simp: otlp_Shutdown_def Let_def client_ok_def)
  qed
qed

section \<open>Properties\<close>

text \<open>C10: in every run the client has at most the configured number of calls in flight, its counters agree
  with them, and a request is started exactly when the client is not shut down and below that
  number; a started call stays in flight until gRPC ends it.\<close>

theorem otlp_calls_bounded:
  assumes "otlp_reachable m c"
  shows "length (in_flight c) \<le> unat m \<and> umap_ok (in_flight c) \<and>
    (fst (otlp_Export m q c) = kSuccess \<longleftrightarrow> \<not> is_shutdown c \<and> length (in_flight c) < unat m) \<and>
    in_flight (snd (otlp_Export m q c)) =
      (if fst (otlp_Export m q c) = kSuccess then in_flight c @ [(next_call c, q)] else in_flight c) \<and>
    (case async_state c of None \<Rightarrow> in_flight c = []
     | Some d \<Rightarrow> running_requests d = of_nat (length (in_flight c)) \<and>
                 start_request_counter d = finished_request_counter d + running_requests d)"
proof -
  note ok = reachable_ok [OF assms]
  have le: "length (in_flight c) \<le> unat m" using ok by (simp add: client_ok_def)
  show ?thesis using ok running_below [OF ok] le
    by (auto simp: export_cases Let_def client_ok_def split: option.splits)
qed

theorem otlp_calls_bounded_witness:
  "length (in_flight (snd (otlp_Export 1000 ''r'' otlp_client_new))) \<le> unat (1000 :: 64 word) \<and>
   fst (otlp_Export 1000 ''s'' (snd (otlp_Export 1000 ''r'' otlp_client_new))) = kSuccess"
proof -
  have "otlp_reachable 1000 (snd (otlp_Export 1000 ''r'' otlp_client_new))"
    by (rule Reach_step [OF Reach_new Export_step])
  from otlp_calls_bounded [OF this, of "''s''"] show ?thesis
    by (simp add: export_cases otlp_client_new_def MutableAsyncData_def)
qed

text \<open>What a flush waits for is a number of finished calls and not the calls that were running: a call
  that starts and ends meanwhile is counted for one that still runs.\<close>

lemma flush_overtaken:
  "let c = snd (otlp_Export 1000 ''second'' (snd (otlp_Export 1000 ''first'' otlp_client_new)));
       c' = otlp_OnDone 1 c
   in ForceFlush id 5 [(False, 1, finished_request_counter (the (async_state c')))]
        (snd (otlp_Export 1000 ''first'' otlp_client_new)) = Some True \<and> in_flight c' = [(0, ''first'')]"
  by (simp add: export_cases otlp_client_new_def MutableAsyncData_def otlp_OnDone_def ForceFlush_def Let_def flush_wait.simps)

text \<open>A client that never exported cannot be shut down.\<close>

lemma unused_client_stays_open: "otlp_Shutdown adjust timeout waits otlp_client_new = (Some True, otlp_client_new)"
  by (simp add: otlp_Shutdown_def otlp_client_new_def)

end
