(* ===== verification/Grpc_Receivers.thy ===== *)
theory Grpc_Receivers
  imports Pipeline Trace_Pipeline Otlp_Client
begin

text \<open>
  The SkyWalking receivers and what stands behind each: trace_server.cc, jvm_metric_report_server.cc and
  log_report_server.cc of app/source/source/skywalking/grpc/callback, wired as in
  app/source/source/skywalking/grpc/source.cc. \<open>initialized\<close> is protobuf's \<open>IsInitialized\<close>, which holds for
  every message of a proto3 file; the metadata of a call are a list of keys and values; a stream is the
  list of messages read from it. Every call is answered with OK. Where the trace sink tells resources
  and scopes apart by address, the addresses are parameters.
\<close>

section \<open>Receivers\<close>

definition authentication_of :: "(string \<times> string) list \<Rightarrow> string option" where
  "authentication_of metadata =
     (case map_of metadata ''authentication'' of None \<Rightarrow> None | Some a \<Rightarrow> if a = [] then None else Some a)"

definition event_meta :: "string option \<Rightarrow> string \<Rightarrow> string option" where
  "event_meta auth = (case auth of None \<Rightarrow> Map.empty | Some a \<Rightarrow> [''authentication'' \<mapsto> a])"

definition receive_stream ::
  "('m \<Rightarrow> bool) \<Rightarrow> ('m \<Rightarrow> 'e) \<Rightarrow> ('e, 's) interceptor list \<Rightarrow> ('e, 's) consumer list \<Rightarrow> 'm list \<Rightarrow>
     'e chain \<times> 's \<Rightarrow> ('e chain \<times> 's) result" where
  "receive_stream initialized event ics cs =
     fold_r (\<lambda>m p. if \<not> initialized m then Inr p else pipeline_push ics cs (event m) p)"

section \<open>Traces\<close>

datatype 'd trace_event =
    Segment_Event "string \<Rightarrow> string option" "segment option"
  | Span_Event "'d otlp_recordable option"

fun segment_data :: "'d trace_event \<Rightarrow> ((string \<Rightarrow> string option) \<times> segment option) result" where
  "segment_data (Segment_Event meta s) = Inr (meta, s)"
| "segment_data (Span_Event r) = Inl Dangling_Deref"

fun recordable_data :: "'d trace_event \<Rightarrow> 'd otlp_recordable option result" where
  "recordable_data (Span_Event r) = Inr r"
| "recordable_data (Segment_Event meta s) = Inl Dangling_Deref"

type_synonym ('a, 'd) trace_state = "'a listener \<times> 'd resource_spans list otlp_client"

definition sky_stage :: "sky_env \<Rightarrow> ('d trace_event, ('a, 'd) trace_state) interceptor" where
  "sky_stage P b s =
     bind_r (map_r segment_data b) (\<lambda>es.
       bind_r (sky_intercept P es) (\<lambda>recs. Inr (False, map (\<lambda>r. Span_Event (Some r)) recs, s)))"

definition topo_stage :: "'a topo_env \<Rightarrow> name_control \<Rightarrow> ('d trace_event, ('a, 'd) trace_state) interceptor" where
  "topo_stage E nc b s =
     bind_r (map_r recordable_data b) (\<lambda>rs.
       bind_r (intercept E nc (map (map_option seen_by_topology) rs) (fst s)) (\<lambda>l. Inr (False, b, (l, snd s))))"

definition span_record_of ::
  "('d otlp_recordable \<Rightarrow> nat option) \<Rightarrow> ('d otlp_recordable \<Rightarrow> nat option) \<Rightarrow> 'd otlp_recordable \<Rightarrow> 'd span_record" where
  "span_record_of ra sa r = \<lparr>sr_resource = ra r, sr_scope = sa r, sr_span = otlp r\<rparr>"

record 'd sink_env =
  span_heap :: "'d sdk_heap"
  resource_address :: "'d otlp_recordable \<Rightarrow> nat option"
  scope_address :: "'d otlp_recordable \<Rightarrow> nat option"

definition trace_limit :: "64 word" where "trace_limit = 1000"

text \<open>What \<open>Export\<close> answers is not looked at.\<close>

definition trace_sink :: "'d sink_env \<Rightarrow> ('d trace_event, ('a, 'd) trace_state) consumer" where
  "trace_sink K b s =
     bind_r (map_r recordable_data b) (\<lambda>rs.
       bind_r (trace_Consume (span_heap K) (map (map_option (span_record_of (resource_address K) (scope_address K))) rs)) (\<lambda>r.
         Inr (map (\<lambda>_. Span_Event None) b,
              (fst s, case r of None \<Rightarrow> snd s | Some q \<Rightarrow> snd (otlp_Export trace_limit q (snd s))))))"

definition trace_collect ::
  "sky_env \<Rightarrow> 'a topo_env \<Rightarrow> name_control \<Rightarrow> 'd sink_env \<Rightarrow> (segment \<Rightarrow> bool) \<Rightarrow> (string \<times> string) list \<Rightarrow> segment list \<Rightarrow>
     'd trace_event chain \<times> ('a, 'd) trace_state \<Rightarrow> ('d trace_event chain \<times> ('a, 'd) trace_state) result" where
  "trace_collect P E nc K initialized metadata =
     receive_stream initialized (\<lambda>s. Segment_Event (event_meta (authentication_of metadata)) (Some s))
       [sky_stage P, topo_stage E nc] [trace_sink K]"

section \<open>JVM metrics\<close>

text \<open>The sink hands its request to the overload for metrics.\<close>

definition metric_client_sink ::
  "(64 word \<Rightarrow> 'd) \<Rightarrow> ('d metric_event, 'd proto_resource_metrics list otlp_client) consumer" where
  "metric_client_sink to_double b s =
     bind_r (map_r metric_data_of b) (\<lambda>ms.
       bind_r (metric_Consume to_double False ms) (\<lambda>r.
         Inr (map (\<lambda>_. Metric_Event None) b,
              case r of None \<Rightarrow> s | Some q \<Rightarrow> snd (otlp_Export_metrics q s))))"

text \<open>A request that is initialized is answered at once.\<close>

definition jvm_collect ::
  "(64 word \<Rightarrow> 'd) \<Rightarrow> ('d jvm_collection \<Rightarrow> bool) \<Rightarrow> 'd jvm_collection \<Rightarrow>
     'd metric_event chain \<times> 'd proto_resource_metrics list otlp_client \<Rightarrow>
     ('d metric_event chain \<times> 'd proto_resource_metrics list otlp_client) result" where
  "jvm_collect to_double initialized request p =
     (if initialized request then Inr p
      else pipeline_push [jvm_stage] [metric_client_sink to_double] (Raw_Event (Some request)) p)"

section \<open>Logs\<close>

text \<open>Without a token the stream is not read. The message is moved into a first event that is dropped,
  so the one that is pushed has no data; interceptor and sink leave their batch alone.\<close>

datatype 'm log_event = Log_Event "'m option"

definition log_collect ::
  "('m \<Rightarrow> bool) \<Rightarrow> (string \<times> string) list \<Rightarrow> 'm list \<Rightarrow> 'm log_event chain \<times> 's \<Rightarrow> ('m log_event chain \<times> 's) result" where
  "log_collect initialized metadata requests p =
     (case authentication_of metadata of
        None \<Rightarrow> Inr p
      | Some a \<Rightarrow>
          receive_stream initialized (\<lambda>m. Log_Event None) [\<lambda>b s. Inr (False, b, s)] [\<lambda>b s. Inr (b, s)] requests p)"

section \<open>Lemmas\<close>

lemma map_r_recordables: "map_r recordable_data (map (\<lambda>r. Span_Event (Some r)) recs) = Inr (map Some recs)"
  using map_r_Inr [of "map (\<lambda>r. Span_Event (Some r)) recs" recordable_data "\<lambda>e. case e of Span_Event r \<Rightarrow> r | _ \<Rightarrow> None"]
  by (simp add: comp_def)

lemma trace_request:
  "\<exists>q. trace_Consume H (map (\<lambda>r. Some (span_record_of ra sa r)) recs) = Inr (if recs = [] then None else Some q) \<and>
     mset (request_spans q) = mset (map otlp recs)"
proof -
  let ?rs = "map (span_record_of ra sa) recs"
  let ?idx = "fold index_add ?rs []"
  have ok: "idx_ok ([] :: 'a spans_index)" by (simp add: idx_ok_def)
  have "mset (request_spans (map (add_resource_spans H) ?idx)) = mset (map otlp recs)"
    unfolding mset_request fold_add_mset [OF ok] by (simp add: index_mset_def comp_def span_record_of_def)
  moreover have "index_spans (map (\<lambda>r. Some (span_record_of ra sa r)) recs) [] = Inr ?idx"
    using index_spans_fold [of ?rs "[]"] by (simp add: comp_def)
  ultimately show ?thesis by (auto simp: trace_Consume_def PopulateTraceRequest_def)
qed

text \<open>One good segment in the trace pipeline.\<close>

definition exported :: "sky_env \<Rightarrow> (string \<Rightarrow> string option) \<Rightarrow> segment \<Rightarrow> 'd resource_spans list \<Rightarrow> bool" where
  "exported P meta seg q \<longleftrightarrow>
     (\<exists>recs :: 'd otlp_recordable list. process P meta (Some seg) = Inr recs \<and> length recs = length (seg_spans seg) \<and>
        mset (request_spans q) = mset (map otlp recs))"

lemma trace_pass:
  fixes K :: "'d sink_env" and l :: "'a listener"
  assumes "segment_ok P seg" "single_parent P seg" "directory_total nc" "listener_ok l"
  shows "\<exists>b l' q. pass [sky_stage P, topo_stage E nc] [trace_sink K] (Segment_Event meta (Some seg)) (l, c) =
      Inr (b, (l', if seg_spans seg = [] then c else snd (otlp_Export trace_limit q c))) \<and>
    listener_ok l' \<and> exported P meta seg q"
proof -
  obtain recs :: "'d otlp_recordable list" where recs: "process P meta (Some seg) = Inr recs"
    "list_all2 (processed P seg) (seg_spans seg) recs" using process_processed [OF assms(1)] by blast
  then have sky: "sky_intercept P [(meta, Some seg)] = Inr recs" by (simp add: sky_intercept_def)
  have "batch_ok P [(meta, Some seg)]" using assms(1,2) by (simp add: batch_ok_def)
  then obtain recs' :: "'d otlp_recordable list" where "sky_intercept P [(meta, Some seg)] = Inr recs'"
    "\<forall>e\<in>set (topology_events recs'). parsable e" using batch_parsable by blast
  then have par: "\<forall>e\<in>set (topology_events recs). parsable e" using sky by simp
  obtain t where t: "fold_r (intercept_event E nc) (topology_events recs) l = Inr t" "listener_ok t"
    using intercept_events_ok [OF assms(4,3) par] by blast
  obtain l1 where l1: "build E nc t = Inr l1" "listener_ok l1" using build_ok [OF t(2) assms(3)] by blast
  obtain q where q: "trace_Consume (span_heap K) (map (\<lambda>r. Some (span_record_of (resource_address K) (scope_address K) r)) recs) =
      Inr (if recs = [] then None else Some q)" "mset (request_spans q) = mset (map otlp recs)"
    using trace_request by blast
  have len: "length recs = length (seg_spans seg)" using recs(2) by (simp add: list_all2_lengthD)
  have stage1: "sky_stage P [Segment_Event meta (Some seg)] s = Inr (False, map (\<lambda>r. Span_Event (Some r)) recs, s)"
    for s :: "('a, 'd) trace_state" by (simp add: sky_stage_def sky)
  let ?l = "if recs = [] then l else l1"
  have stage2: "topo_stage E nc (map (\<lambda>r. Span_Event (Some r)) recs) (l, c) = Inr (False, map (\<lambda>r. Span_Event (Some r)) recs, (?l, c))"
    using t(1) l1(1) by (simp add: topo_stage_def map_r_recordables intercept_def comp_def)
  have sink: "trace_sink K (map (\<lambda>r. Span_Event (Some r)) recs) (?l, c) =
      Inr (map (\<lambda>_. Span_Event None) recs, (?l, if recs = [] then c else snd (otlp_Export trace_limit q c)))"
    using q(1) by (simp add: trace_sink_def map_r_recordables comp_def)
  have "seg_spans seg = [] \<longleftrightarrow> recs = []" using len by auto
  moreover have "exported P meta seg q" using recs(1) q(2) len by (auto simp: exported_def)
  ultimately show ?thesis
    using stage1 stage2 sink l1(2) assms(4)
    by (intro exI [of _ "map (\<lambda>_. Span_Event None) recs"] exI [of _ ?l] exI [of _ q]) (simp add: pass_def)
qed

lemma trace_push:
  fixes K :: "'d sink_env" and l :: "'a listener"
  assumes "segment_ok P seg" "single_parent P seg" "directory_total nc" "listener_ok l" "idle ch"
  shows "\<exists>ch' l' q. pipeline_push [sky_stage P, topo_stage E nc] [trace_sink K] (Segment_Event meta (Some seg)) (ch, (l, c)) =
      Inr (ch', (l', if seg_spans seg = [] then c else snd (otlp_Export trace_limit q c))) \<and>
    idle ch' \<and> listener_ok l' \<and> exported P meta seg q"
proof -
  obtain b l' q where "pass [sky_stage P, topo_stage E nc] [trace_sink K] (Segment_Event meta (Some seg)) (l, c) =
      Inr (b, (l', if seg_spans seg = [] then c else snd (otlp_Export trace_limit q c)))"
    "listener_ok l'" "exported P meta seg q" using trace_pass [OF assms(1-4)] by blast
  moreover have "idle (ch\<lparr>chain_buffer := [], chain_batch := b\<rparr>)" using assms(5) by (simp add: idle_def)
  ultimately show ?thesis
    using push_idle [OF assms(5), of "[trace_sink K]" "[sky_stage P, topo_stage E nc]" "Segment_Event meta (Some seg)" "(l, c)"]
    by auto
qed

lemma export_room:
  assumes "otlp_reachable m c" "\<not> is_shutdown c" "length (in_flight c) < unat m"
  shows "otlp_reachable m (snd (otlp_Export m q c))" "\<not> is_shutdown (snd (otlp_Export m q c))"
    "in_flight (snd (otlp_Export m q c)) = in_flight c @ [(next_call c, q)]"
proof -
  show "otlp_reachable m (snd (otlp_Export m q c))" by (rule Reach_step [OF assms(1) Export_step])
  have "\<not> running_requests (MutableAsyncData m c) \<ge> max_concurrent_requests (MutableAsyncData m c)"
    using running_below [OF reachable_ok [OF assms(1)]] assms(3) by simp
  then show "\<not> is_shutdown (snd (otlp_Export m q c))" "in_flight (snd (otlp_Export m q c)) = in_flight c @ [(next_call c, q)]"
    using assms(2) by (simp_all add: export_cases Let_def)
qed

section \<open>Properties\<close>

text \<open>C11: a stream of segments with decodable ids and single parents goes from the receiver through both
  interceptors to the client without a fault: one call is started for each segment that has spans, in
  the order of the stream, its request holds exactly the spans made of that segment, the topology keeps
  its bounds, and nothing stays in the buffer of the pipeline, as long as the calls fit the limit.\<close>

theorem trace_stream_exported:
  fixes K :: "'d sink_env" and l :: "'a listener"
  assumes "list_all (\<lambda>s. initialized s \<and> segment_ok P s \<and> single_parent P s) segs" "directory_total nc"
    and "listener_ok l" "idle ch" "otlp_reachable trace_limit c" "\<not> is_shutdown c"
    and "length (in_flight c) + length segs \<le> unat trace_limit"
  shows "\<exists>ch' l' c' reqs. trace_collect P E nc K initialized metadata segs (ch, (l, c)) = Inr (ch', (l', c')) \<and>
    idle ch' \<and> listener_ok l' \<and> map snd (in_flight c') = map snd (in_flight c) @ reqs \<and>
    list_all2 (exported P (event_meta (authentication_of metadata))) (filter (\<lambda>s. seg_spans s \<noteq> []) segs) reqs"
  using assms(1,3-7)
proof (induction segs arbitrary: ch l c)
  case Nil
  then show ?case by (auto simp: trace_collect_def receive_stream_def)
next
  case (Cons seg segs)
  let ?meta = "event_meta (authentication_of metadata)"
  have seg: "segment_ok P seg" "single_parent P seg" "initialized seg"
    and segs: "list_all (\<lambda>s. initialized s \<and> segment_ok P s \<and> single_parent P s) segs" using Cons.prems(1) by auto
  obtain ch1 l1 q where push: "pipeline_push [sky_stage P, topo_stage E nc] [trace_sink K] (Segment_Event ?meta (Some seg)) (ch, (l, c)) =
      Inr (ch1, (l1, if seg_spans seg = [] then c else snd (otlp_Export trace_limit q c)))"
    "idle ch1" "listener_ok l1" "exported P ?meta seg q"
    using trace_push [OF seg(1,2) assms(2) Cons.prems(2,3)] by blast
  let ?c1 = "if seg_spans seg = [] then c else snd (otlp_Export trace_limit q c)"
  have "length (in_flight c) < unat trace_limit" using Cons.prems(6) by simp
  note room = export_room [OF Cons.prems(4,5) this, of q]
  have c1: "otlp_reachable trace_limit ?c1" "\<not> is_shutdown ?c1" "length (in_flight ?c1) + length segs \<le> unat trace_limit"
    using room Cons.prems(4-6) by auto
  obtain ch' l' c' reqs where ih: "trace_collect P E nc K initialized metadata segs (ch1, (l1, ?c1)) = Inr (ch', (l', c'))"
    "idle ch'" "listener_ok l'" "map snd (in_flight c') = map snd (in_flight ?c1) @ reqs"
    "list_all2 (exported P ?meta) (filter (\<lambda>s. seg_spans s \<noteq> []) segs) reqs"
    using Cons.IH [OF segs push(3,2) c1] by blast
  have "trace_collect P E nc K initialized metadata (seg # segs) (ch, (l, c)) = Inr (ch', (l', c'))"
    using push(1) ih(1) seg(3) by (simp add: trace_collect_def receive_stream_def)
  then show ?case using ih(2-5) room(3) push(4)
    by (cases "seg_spans seg = []") (auto intro!: exI [of _ "q # reqs"] exI [of _ reqs])
qed

text \<open>C15: no JVM metric leaves the agent. Whatever JVM reports arrive, the client starts no call, since its
  overload for metrics sends nothing; and reports that are initialized, as every proto3 message is,
  do not even enter the pipeline.\<close>

theorem jvm_metrics_never_leave:
  "\<exists>ch. fold_r (jvm_collect to_double initialized) reqs (chain_new, c) = Inr (ch, c) \<and>
     (if list_all initialized reqs then ch = chain_new else idle ch)"
proof -
  have push: "\<exists>ch'. pipeline_push [jvm_stage] [metric_client_sink to_double] (Raw_Event (Some r)) (ch, c) = Inr (ch', c) \<and> idle ch'"
    if "idle ch" for r ch
    using push_idle [OF that, of "[metric_client_sink to_double]" "[jvm_stage]" "Raw_Event (Some r)" c]
      jvm_batch_exported [of "[r]" to_double] that
    by (auto simp: pass_def jvm_stage_def metric_client_sink_def jvm_intercept_def otlp_Export_metrics_def idle_def)
  have "\<exists>ch'. fold_r (jvm_collect to_double initialized) reqs (ch, c) = Inr (ch', c) \<and> idle ch' \<and>
      (list_all initialized reqs \<longrightarrow> ch' = ch)" if "idle ch" for ch
    using that
  proof (induction reqs arbitrary: ch)
    case (Cons r reqs)
    show ?case
    proof (cases "initialized r")
      case True
      then show ?thesis using Cons.IH [OF Cons.prems] by (auto simp: jvm_collect_def)
    next
      case False
      then obtain ch1 where ch1: "jvm_collect to_double initialized r (ch, c) = Inr (ch1, c)" "idle ch1"
        using push [OF Cons.prems] by (auto simp: jvm_collect_def)
      from Cons.IH [OF ch1(2)] show ?thesis using ch1(1) False by auto
    qed
  qed simp
  moreover have "idle chain_new" by (simp add: idle_def chain_new_def)
  ultimately show ?thesis by auto
qed

text \<open>A log event reaches the sink without data, and nothing is sent.\<close>

lemma log_stream_without_data:
  "\<exists>ch. log_collect initialized metadata requests (chain_new, s) = Inr (ch, s) \<and> list_all (\<lambda>e. e = Log_Event None) (chain_batch ch)"
proof (cases "authentication_of metadata")
  case None
  then show ?thesis by (simp add: log_collect_def chain_new_def)
next
  case (Some a)
  let ?push = "\<lambda>m p. if \<not> initialized m then Inr p
      else pipeline_push [\<lambda>b s. Inr (False, b, s)] [\<lambda>b s. Inr (b, s)] (Log_Event None :: 'a log_event) p"
  have "\<exists>ch'. fold_r ?push requests (ch, s) = Inr (ch', s) \<and> list_all (\<lambda>e. e = Log_Event None) (chain_batch ch')"
    if "idle ch" "list_all (\<lambda>e. e = Log_Event None) (chain_batch ch)" for ch
    using that
  proof (induction requests arbitrary: ch)
    case (Cons m ms)
    then show ?case
      using Cons.IH [of "ch\<lparr>chain_buffer := [], chain_batch := [Log_Event None]\<rparr>"]
      by (auto simp: push_idle pass_def idle_def)
  qed simp
  then show ?thesis using Some
    by (simp add: log_collect_def receive_stream_def idle_def chain_new_def)
qed

definition sample_sink :: "unit sink_env" where
  "sample_sink =
     \<lparr>span_heap = \<lparr>resource_at = (\<lambda>_. ([], [])), scope_at = (\<lambda>_. ([], [], []))\<rparr>,
      resource_address = (\<lambda>_. None), scope_address = (\<lambda>_. None)\<rparr>"

theorem trace_stream_exported_witness:
  "\<exists>ch' l' c' q. trace_collect sample_sky_env sample_env name_control_new sample_sink (\<lambda>_. True) [(''authentication'', ''t'')]
       [sample_sky_segment [sample_sky_span 0 Type_Entry [sample_sky_ref]]]
       (chain_new, ((processor_new :: (64 word) listener), otlp_client_new)) = Inr (ch', (l', c')) \<and>
     map snd (in_flight c') = [q]"
proof -
  let ?o = "sample_sky_segment [sample_sky_span 0 Type_Entry [sample_sky_ref]]"
  have "segment_ok sample_sky_env ?o" by (rule sample_segment_ok) (simp add: sample_sky_span_def)
  moreover have "single_parent sample_sky_env ?o" by (simp add: single_parent_def sample_sky_segment_def sample_sky_span_def)
  ultimately have good: "list_all (\<lambda>s. True \<and> segment_ok sample_sky_env s \<and> single_parent sample_sky_env s) [?o]" by simp
  have spans: "seg_spans ?o \<noteq> []" by (simp add: sample_sky_segment_def)
  have idle: "idle chain_new" by (simp add: idle_def chain_new_def)
  have c: "\<not> is_shutdown (otlp_client_new :: unit resource_spans list otlp_client)"
    "length (in_flight (otlp_client_new :: unit resource_spans list otlp_client)) + length [?o] \<le> unat trace_limit"
    by (simp_all add: otlp_client_new_def trace_limit_def)
  from trace_stream_exported [OF good directory_total_new listener_ok_new idle Reach_new c,
      where E = sample_env and K = sample_sink and metadata = "[(''authentication'', ''t'')]"]
  show ?thesis using spans by (fastforce simp: otlp_client_new_def list_all2_Cons1)
qed

end
