(* ===== verification/Host_Source.thy ===== *)
theory Host_Source
  imports Iostat_Handler Gpu_Reader
begin

text \<open>
  The host source: app/source/source/host/source.cc and source.h, with the gauges that
  network_collector.cc and iostat_collector.cc install, start and stop. The timer fires once for each
  time it is enabled; each thread of the pool runs its tasks in the order they were given. What a round
  collects is the subject of the theories of the collectors; here it is a step.
\<close>

section \<open>State\<close>

datatype host_task = First_Report | Round

record host_source =
  timer_armed :: bool
  task_queue :: "host_task list"
  task_running :: "host_task option"
  network_device_metrics :: "string list"
  iostat_metrics :: "string list"
  observed :: "string list"
  reported :: bool
  rounds :: nat

text \<open>Creating the source makes the collectors, without gauges; \<open>observed\<close> are the gauges whose callback
  was added, once for each time.\<close>

definition host_source_new :: host_source where
  "host_source_new =
     \<lparr>timer_armed = False, task_queue = [], task_running = None, network_device_metrics = [], iostat_metrics = [],
      observed = [], reported = False, rounds = 0\<rparr>"

definition network_gauges :: "string list" where
  "network_gauges =
     [''rx_packets'', ''rx_dev_packets'', ''tx_packets'', ''rx_bytes'', ''tx_bytes'', ''rx_packets_bps'', ''tx_packets_bps'',
      ''rx_bytes_bps'', ''tx_bytes_bps'']"

definition iostat_gauges :: "string list" where
  "iostat_gauges =
     [''disk_io_tps'', ''disk_io_read_bps'', ''disk_io_write_bps'', ''disk_io_dscd_bps'', ''disk_io_read_bytes'',
      ''disk_io_write_bytes'', ''disk_io_dscd_bytes'']"

definition network_install :: "host_source \<Rightarrow> host_source" where
  "network_install h = h\<lparr>network_device_metrics := network_device_metrics h @ network_gauges\<rparr>"

definition iostat_install :: "host_source \<Rightarrow> host_source" where
  "iostat_install h = h\<lparr>iostat_metrics := iostat_metrics h @ iostat_gauges\<rparr>"

definition network_start :: "host_source \<Rightarrow> host_source" where
  "network_start h = h\<lparr>observed := observed h @ network_device_metrics h\<rparr>"

definition iostat_start :: "host_source \<Rightarrow> host_source" where
  "iostat_start h = h\<lparr>observed := observed h @ iostat_metrics h\<rparr>"

text \<open>Both stop functions start the gauges.\<close>

definition network_stop :: "host_source \<Rightarrow> host_source" where
  "network_stop h = h\<lparr>observed := observed h @ network_device_metrics h\<rparr>"

definition iostat_stop :: "host_source \<Rightarrow> host_source" where
  "iostat_stop h = h\<lparr>observed := observed h @ iostat_metrics h\<rparr>"

section \<open>Operations\<close>

text \<open>The thread is always the first, since \<open>count\<close> stays 0; an empty pool divides by zero.\<close>

definition host_init :: "nat \<Rightarrow> host_source \<Rightarrow> host_source result" where
  "host_init threads h =
     (if threads = 0 then Inl Division_By_Zero
      else let h1 = network_install (network_install h) in Inr (h1\<lparr>task_queue := task_queue h1 @ [First_Report]\<rparr>))"

definition host_start :: "host_source \<Rightarrow> host_source" where
  "host_start h = network_start (iostat_start (h\<lparr>timer_armed := True\<rparr>))"

definition host_stop :: "host_source \<Rightarrow> host_source" where
  "host_stop h = network_stop (iostat_stop (h\<lparr>timer_armed := False\<rparr>))"

definition timer_fire :: "nat \<Rightarrow> host_source \<Rightarrow> host_source" where
  "timer_fire threads h =
     (let h1 = h\<lparr>timer_armed := False\<rparr> in if threads = 0 then h1 else h1\<lparr>task_queue := task_queue h1 @ [Round]\<rparr>)"

definition task_done :: "host_task \<Rightarrow> host_source \<Rightarrow> host_source" where
  "task_done t h =
     (case t of
        First_Report \<Rightarrow> h\<lparr>task_running := None, reported := True\<rparr>
      | Round \<Rightarrow> h\<lparr>task_running := None, timer_armed := True, rounds := Suc (rounds h)\<rparr>)"

inductive host_step :: "nat \<Rightarrow> host_source \<Rightarrow> host_source \<Rightarrow> bool" for threads where
  Fire: "timer_armed h \<Longrightarrow> host_step threads h (timer_fire threads h)"
| Begin: "task_running h = None \<Longrightarrow> task_queue h = t # ts \<Longrightarrow>
    host_step threads h (h\<lparr>task_running := Some t, task_queue := ts\<rparr>)"
| Done: "task_running h = Some t \<Longrightarrow> host_step threads h (task_done t h)"
| Stop: "host_step threads h (host_stop h)"

inductive host_run :: "nat \<Rightarrow> host_source \<Rightarrow> bool" for threads where
  Started: "host_init threads host_source_new = Inr h \<Longrightarrow> host_run threads (host_start h)"
| Step: "host_run threads h \<Longrightarrow> host_step threads h h' \<Longrightarrow> host_run threads h'"

section \<open>Invariant\<close>

text \<open>Whatever is not yet done of the first report and of a round, in the order the thread takes them.\<close>

definition pending :: "host_source \<Rightarrow> host_task list" where
  "pending h = (case task_running h of None \<Rightarrow> [] | Some t \<Rightarrow> [t]) @ task_queue h @ (if timer_armed h then [Round] else [])"

definition host_ok :: "host_source \<Rightarrow> bool" where
  "host_ok h \<longleftrightarrow>
     (if reported h then pending h \<in> {[], [Round]} else pending h \<in> {[First_Report], [First_Report, Round]} \<and> rounds h = 0) \<and>
     iostat_metrics h = [] \<and> network_device_metrics h = network_gauges @ network_gauges \<and>
     set (observed h) \<subseteq> set network_gauges"

lemma host_ok_start: "host_init threads host_source_new = Inr h \<Longrightarrow> host_ok (host_start h)"
  by (auto simp: host_init_def host_source_new_def network_install_def host_start_def network_start_def iostat_start_def
      host_ok_def pending_def Let_def split: if_splits)

lemma host_ok_stop: "host_ok h \<Longrightarrow> host_ok (host_stop h)"
  by (cases "task_running h"; cases "task_queue h")
    (auto simp: host_ok_def pending_def host_stop_def network_stop_def iostat_stop_def split: if_splits)

text \<open>Firing and taking a task change nothing about what is pending.\<close>

lemma pending_fire: "0 < threads \<Longrightarrow> timer_armed h \<Longrightarrow> pending (timer_fire threads h) = pending h"
  by (simp add: pending_def timer_fire_def Let_def)

lemma pending_begin:
  "task_running h = None \<Longrightarrow> task_queue h = t # ts \<Longrightarrow> pending (h\<lparr>task_running := Some t, task_queue := ts\<rparr>) = pending h"
  by (simp add: pending_def)

lemma host_ok_fire: "0 < threads \<Longrightarrow> timer_armed h \<Longrightarrow> host_ok h \<Longrightarrow> host_ok (timer_fire threads h)"
  using pending_fire [of threads h] by (auto simp: host_ok_def timer_fire_def Let_def split: if_splits)

lemma host_ok_begin:
  "task_running h = None \<Longrightarrow> task_queue h = t # ts \<Longrightarrow> host_ok h \<Longrightarrow> host_ok (h\<lparr>task_running := Some t, task_queue := ts\<rparr>)"
  using pending_begin [of h t ts] by (auto simp: host_ok_def split: if_splits)

lemma host_ok_done: "task_running h = Some t \<Longrightarrow> host_ok h \<Longrightarrow> host_ok (task_done t h)"
  by (cases t) (auto simp: host_ok_def pending_def task_done_def split: if_splits)

lemma host_run_ok:
  assumes "host_run threads h"
  shows "0 < threads \<and> host_ok h"
  using assms
proof (induction rule: host_run.induct)
  case (Started h)
  then show ?case using host_ok_start by (auto simp: host_init_def split: if_splits)
next
  case (Step h h')
  from Step.hyps(2) show ?case
    using Step.IH host_ok_fire host_ok_begin host_ok_done host_ok_stop by cases auto
qed

section \<open>Properties\<close>

text \<open>C14: in every run at most one round is armed, queued or running, so rounds never overlap; no round
  starts before the first report, which reads the name of the host that rounds send, is done; and no
  gauge of the disks is ever observed, since their collector is never installed.\<close>

theorem host_rounds_sequential:
  assumes "host_run threads h"
  shows "length (filter (\<lambda>t. t = Round) (pending h)) \<le> 1 \<and>
    (reported h = (First_Report \<notin> set (pending h))) \<and> (reported h \<or> rounds h = 0 \<and> task_running h \<noteq> Some Round) \<and>
    set (observed h) \<inter> set iostat_gauges = {}"
proof -
  have ok: "host_ok h" using host_run_ok [OF assms] by simp
  have "set network_gauges \<inter> set iostat_gauges = {}" by (simp add: network_gauges_def iostat_gauges_def)
  then have "set (observed h) \<inter> set iostat_gauges = {}" using ok by (auto simp: host_ok_def)
  moreover have "reported h \<or> rounds h = 0 \<and> task_running h \<noteq> Some Round"
    using ok by (auto simp: host_ok_def pending_def split: option.splits if_splits)
  ultimately show ?thesis using ok by (auto simp: host_ok_def split: if_splits)
qed

theorem host_rounds_sequential_witness:
  "\<exists>h h'. host_init 2 host_source_new = Inr h \<and> host_step 2 (host_start h) h' \<and>
     length (filter (\<lambda>t. t = Round) (pending h')) \<le> 1 \<and> task_queue h' = [First_Report, Round]"
proof -
  obtain h where h: "host_init 2 host_source_new = Inr h" "task_queue (host_start h) = [First_Report]" "timer_armed (host_start h)"
    by (simp add: host_init_def host_source_new_def network_install_def host_start_def network_start_def iostat_start_def)
  have step: "host_step 2 (host_start h) (timer_fire 2 (host_start h))" by (rule Fire [OF h(3)])
  have "host_run 2 (timer_fire 2 (host_start h))" by (rule Step [OF Started [OF h(1)] step])
  from host_rounds_sequential [OF this] show ?thesis using h step by (auto simp: timer_fire_def)
qed

text \<open>A stop during a round is undone at its end.\<close>

lemma stop_is_undone:
  "task_running h = Some Round \<Longrightarrow> timer_armed (task_done Round (host_stop h))"
  by (simp add: task_done_def)

end
