(* ===== verification/Spec2Isabelle.thy ===== *)
theory Spec2Isabelle
  imports Sky_Ownership Agent_Start Cri_Calls Hex_Numbers Topology_Timers Iostat_Irq Iostat_Terminal Ipv6_Routes Call_Data Topology_Other Kube_Watch Runner Machine_Id Node_Client Net_Address Cpu_Feature Otlp_Env Proc_Reader Cgroup Disk_Collector Node_Platform Container_Collector Grpc_Receivers Host_Source
begin

text \<open>
  Verification library of nova-agent, an agent that collects traces, metrics and the state of a machine and
  reports them over gRPC. Paths are relative to src/app. The library follows the three ways data take
  through the program and the parts they share.

  \<^bold>\<open>Shared vocabulary.\<close>
  \<^item> Prelude: the faults of a C++ program as values (\<open>'a result\<close>, with \<open>bind_r\<close> and \<open>fold_r\<close>), ordered maps
    as sorted association lists, the collections \<open>cpp_simps\<close> and \<open>inv_intros\<close>.
  \<^item> Cpp_Strings, C_Scan, C_Stdio: the parts of std::string, the C string functions, sscanf and fgets that
    the code calls. Parser_Util: include/common/parser.h. Util_Names: source/common/util.cc.
  \<^item> Json_Api: RapidJSON through the record of its accessors, a parameter.

  \<^bold>\<open>Traces.\<close> A SkyWalking segment is received, becomes OpenTelemetry spans, feeds the service topology and is
  sent to the OTLP client.
  \<^item> Sky_Ids (include/common/hex.h, skywalkingproto_to_traces_util.cc), Trace_Model (include/common/const.h),
    Otlp_Recordable (recordable.cc, otlp_populate_attribute_utils.cc), Sky_Processor
    (intercept/opentelemetry/trace/skywlking/processor.cc): ids, spans and the conversion of a batch.
    Sky_Ownership follows the resource its spans share to the sink that drops it.
  \<^item> Topology_Source, Topology_Metrics, Topology_Listener (intercept/opentelemetry/trace/topology,
    sink/topology): observations, the two aggregators, the listener with its caches, the sink.
    Lru_Cache is include/common/lrucache.h with node identities, so a stale iterator would be a fault.
    Topology_Other has the list of listeners with the two that are not registered, Topology_Timers the two
    timers of the processor and the logic endpoints. Hex_Numbers are the readers of hex.h without a caller.
  \<^item> Trace_Pipeline, Otlp_Export, Otlp_Client, Pipeline, Grpc_Receivers: the chain as it is composed, the
    requests made of it, the asynchronous client as a sequence of calls and endings, push and flush, and the
    three services of source/skywalking/grpc wired together. Jvm_Metrics is the metric interceptor.
    Call_Data has the call objects of the asynchronous server under its completion queue.
  \<^item> Otlp_Env, Grpc_Options: exporter defaults from the environment, options and channels.

  \<^bold>\<open>Names.\<close> Kube_Objects, Name_Control and Kube_Watch (common/kubernetes, source/kubernetes): the objects, the
  directory with its raw pointers into a heap of live objects, the watcher thread as a step relation. The
  topology asks the directory for the names of peers.

  \<^bold>\<open>The machine.\<close>
  \<^item> Host_Source, Node_Client, Runner: the rounds of the host source, the calls a round makes, and what the
    runner starts, waits for and stops; Agent_Start is what starting and stopping a part does, with the metric
    exporter and the HTTP source (source/http, prometheus). Machine_Id is include/common/machine.h.
  \<^item> Proc_Reader (process/proc_reader), Cgroup (cgroup/cgroup_collector), Mount_List (common/file.cc, fs), Disk_Collector
    (disk), Host_Metrics (oltp, cpu_usage, memory), Gpu_Reader (gpu), Cpu_Feature (cpu_feature, cpu_topology), Node_Platform (node).
  \<^item> Net_Interface, Net_Collector, Net_Address, Ipv6_Routes (network): the interface list, rates, addresses and their
    names, address families and the tables of IPv6 routes.
  \<^item> Iostat_Common, Iostat_Conf, Iostat_Names, Iostat_Stats, Iostat_Irq, Iostat_Handler, Iostat_Terminal (iostat): the
    port of sysstat; Iostat_Irq and Iostat_Terminal, with its replacements of system calls, have no caller.
  \<^item> Docker_Client, Container_Collector, Cri_Calls (container): the HTTP client as a system with libevent's answers
    as events, the two clients behind the collector, and the calls of the CRI client.

  \<^bold>\<open>How the model corresponds to the code.\<close> A class is a record of its members, a method a function that
  returns the new record; exceptions, null and stale pointers, writes behind a buffer and \<open>exit\<close> are values of
  \<open>fault\<close>. Counters keep their width as words. Concurrency is a sequence of steps: of events and calls in
  any order (Otlp_Client, Docker_Client, Node_Client, Cri_Calls, Call_Data), of seconds and timers
  (Topology_Timers), or of two threads with a program each (Kube_Watch, Runner). Locks are not modelled; an operation under a lock is one step. Generated
  messages and the classes of the SDK are records of the fields the code touches. What the code gets from the
  kernel, from libraries or from a file is an argument, collected in a record per component (\<open>net_env\<close>,
  \<open>node_env\<close>, \<open>filesys\<close>, \<open>topo_env\<close>, \<open>json_api\<close>, \<open>machine_env\<close>).

  \<^bold>\<open>Interfaces.\<close> \<open>recency_cache\<close> (Lru_Cache) is what the listener asks of a cache, interpreted on the model of
  lrucache.h. \<open>object_index\<close> (Name_Control) is a directory under events, interpreted for pods, endpoints
  and, while peers are stable, services. \<open>metric_aggregator\<close> (Topology_Metrics) is interpreted four times, for the
  requests and the errors of both aggregators. \<open>stages\<close> (Pipeline) is what a pipeline asks of its interceptors and
  consumers, interpreted on the JVM pipeline. \<open>weak_order\<close> (Util_Names) is what an ordered container asks of its
  comparison, interpreted on interface names and on header names. \<open>memo_store\<close> (Net_Address) is a memo whose
  entries stay valid, interpreted on the cache of names.

  \<^bold>\<open>What is shown.\<close> Operations do not fault on the inputs the code meant to take, and where they do on others
  the fault is a theorem or a lemma and a finding of the manifest. Invariants are preserved by every operation (cache,
  directory, topology, process table, mount tree, calls in flight). Texts that the kernel prints are read
  back. Histories of the cache, the pipeline and the name memo refine their specifications. Each component's
  function is stated on all its branches in its own theory; this theory holds the statements about several.

  \<^bold>\<open>Bounds.\<close> No definition runs on fuel. The loops that might not end are partial functions: \<open>conf_loop\<close>
  (Net_Interface) ends since the buffer doubles until the kernel's list fits, \<open>fill_loop\<close>
  (Gpu_Reader) since a doubled buffer holds up to \<open>2 ^ 31\<close> processes after 21 rounds, and \<open>gzip_loop\<close>
  (Cpu_Feature) when the stream of the compressor does, which \<open>deflates\<close> describes; \<open>parseLogicEndpoints\<close>
  (Topology_Timers) does not once it finds an endpoint, which is a lemma. \<open>trace_limit\<close> is the sink's 1000 calls; a call to the node service
  ends within its deadline of five seconds and rounds are ten seconds apart, which bounds the open calls.
  Fixed buffers of the C code have their declared size.

  \<^bold>\<open>Not modelled.\<close> What is left are calls of libraries (creating instruments, channels, stubs, contexts and servers,
  building an evhttp request, loading the Kubernetes configuration), the processor features of other
  architectures, which fill a map that is dropped, structures and macros of sysstat that nothing reads
  (rd_stats.h, common.h), the headings of printed tables, memory allocation that fails and log output. Locks are not
  modelled; where the code reads without the lock its writers take, the manifest has a finding.
\<close>

section \<open>From segments to the topology\<close>

text \<open>C7: a batch of SkyWalking segments with decodable ids goes through the trace interceptor and then
  through the topology interceptor without a fault, and the topology keeps its bounds, provided no
  entry span (outside message queues) has more than one parent.\<close>

theorem sky_to_topology_safe:
  assumes "batch_ok P events" "directory_total nc" "listener_ok l"
  shows "\<exists>(recs :: 'd otlp_recordable list) l'. sky_intercept P events = Inr recs \<and>
           intercept E nc (topology_events recs) l = Inr l' \<and> listener_ok l'"
proof -
  obtain recs :: "'d otlp_recordable list" where recs: "sky_intercept P events = Inr recs"
    "\<forall>e\<in>set (topology_events recs). parsable e"
    using batch_parsable [OF assms(1)] by blast
  obtain t where t: "fold_r (intercept_event E nc) (topology_events recs) l = Inr t" "listener_ok t"
    using intercept_events_ok [OF assms(3,2) recs(2)] by blast
  obtain l' where "build E nc t = Inr l'" "listener_ok l'" using build_ok [OF t(2) assms(2)] by blast
  then show ?thesis using recs(1) t(1) assms(3) by (auto simp: intercept_def)
qed

theorem sky_to_topology_safe_witness:
  "\<exists>(recs :: unit otlp_recordable list) l'.
     sky_intercept sample_sky_env [(Map.empty, Some (sample_sky_segment [sample_sky_span 0 Type_Entry [sample_sky_ref]]))] = Inr recs \<and>
     intercept sample_env name_control_new (topology_events recs) processor_new = Inr l' \<and> listener_ok l'"
proof (rule sky_to_topology_safe [OF _ directory_total_new listener_ok_new])
  let ?o = "sample_sky_segment [sample_sky_span 0 Type_Entry [sample_sky_ref]]"
  have "segment_ok sample_sky_env ?o" by (rule sample_segment_ok) (simp add: sample_sky_span_def)
  moreover have "single_parent sample_sky_env ?o"
    by (simp add: single_parent_def sample_sky_segment_def sample_sky_span_def)
  ultimately show "batch_ok sample_sky_env [(Map.empty, Some ?o)]" by (simp add: batch_ok_def)
qed

text \<open>C13: one entry span with two parents, as batch consumers produce, stops the agent: the segment is
  processed, and the topology interceptor then writes through a null pointer.\<close>

theorem several_parents_stop_the_agent:
  assumes "segment_ok P object" "directory_total nc" "listener_ok l" "enabled l"
    and "\<exists>s\<in>set (seg_spans object). server_entry P s \<and> 2 \<le> length (sw_refs s)"
  shows "\<exists>recs :: 'd otlp_recordable list. process P meta (Some object) = Inr recs \<and>
           intercept E nc (topology_events recs) l = Inl Null_Deref"
proof -
  obtain recs :: "'d otlp_recordable list" where r: "process P meta (Some object) = Inr recs"
    "list_all2 (processed P object) (seg_spans object) recs"
    using process_processed [OF assms(1)] by blast
  have "recs \<noteq> []" using r(2) assms(5) by (cases recs) auto
  then show ?thesis
    using r(1) several_parents_fault [OF r(2) assms(5,3,4,2), of E] by (simp add: intercept_def)
qed

theorem several_parents_stop_the_agent_witness:
  "\<exists>recs :: unit otlp_recordable list.
     process sample_sky_env Map.empty (Some (sample_sky_segment [sample_sky_span 0 Type_Entry [sample_sky_ref, sample_sky_ref]])) = Inr recs \<and>
     intercept sample_env name_control_new (topology_events recs) (processor_new :: (64 word) listener) = Inl Null_Deref"
proof (rule several_parents_stop_the_agent [OF _ directory_total_new listener_ok_new])
  show "segment_ok sample_sky_env (sample_sky_segment [sample_sky_span 0 Type_Entry [sample_sky_ref, sample_sky_ref]])"
    by (rule sample_segment_ok) (simp add: sample_sky_span_def)
  show "enabled (processor_new :: (64 word) listener)" by (simp add: processor_new_def listener_new_def)
  show "\<exists>s\<in>set (seg_spans (sample_sky_segment [sample_sky_span 0 Type_Entry [sample_sky_ref, sample_sky_ref]])).
      server_entry sample_sky_env s \<and> 2 \<le> length (sw_refs s)"
    by (simp add: sample_sky_segment_def sample_sky_span_def server_entry_def sample_sky_env_def)
qed

text \<open>A request that enters the system without a caller is never attributed to the user: the trace
  interceptor gives such an entry span a stand-in link, so the topology parser takes the branch
  for linked spans, and the observation has the endpoint \<open>User\<close> and an empty source service.\<close>

lemma root_entry_has_no_caller:
  assumes "process_span P au object t rs s = Inr r" "server_entry P s" "sw_refs s = []"
    and "\<not> is_mq E (load_resource (attr_to_map (rec_span (seen_by_topology r))) (resource (seen_by_topology r)))"
    and "enabled l" "directory_total nc"
  shows "\<exists>b. intercept_event E nc (Some (seen_by_topology r)) l = Inr (l\<lparr>callingInTraffic := callingInTraffic l @ [b]\<rparr>) \<and>
             sourceServiceName b = [] \<and> sourceEndpointName b = ''User''"
proof -
  let ?span = "rec_span (seen_by_topology r)"
  let ?m = "load_resource (attr_to_map ?span) (resource (seen_by_topology r))"
  let ?b = "entry_base ?span ?m"
  obtain i where "core r = span_core P au object t i rs s" using process_span_core [OF assms(1)] by blast
  then have kind: "span_kind ?span = Kind_Server"
    using assms(2) by (simp add: seen_by_topology_def span.truncate_def span_core_simps(3) sky_kind_def server_entry_def)
  have link: "links ?span = [[(AttributeRefType, AV_Int 0)]]"
    using process_span_stand_in [OF assms(1,3)] by (simp add: seen_by_topology_def span.truncate_def)
  obtain d where d: "destNameToKubernetesName nc (destServiceName ?b) (destServiceInstanceName ?b) ?b = Inr d"
    using destName_total [OF assms(6)] by blast
  let ?d = "d\<lparr>detectPoint := DP_SERVER\<rparr>"
  have src: "sourceServiceName ?d = []" "sourceServiceInstanceName ?d = []"
    using destName_frame [OF d] by (simp_all add: entry_base_def traffic_new_def)
  note c = stand_in_source [OF assms(4) src refl]
  have "parseEntry E nc ?span ?m l =
      Inr (l\<lparr>callingInTraffic := callingInTraffic l @ [entry_link E ?span ?m (link_attr_to_map [(AttributeRefType, AV_Int 0)]) ?d]\<rparr>)"
    by (rule parseEntry_link [OF assms(5) link assms(4) d c(1) refl])
  then show ?thesis using c(2,3) kind by (auto simp: intercept_event_def Let_def UserEndpointName_def)
qed

lemma root_entry_has_no_caller_witness:
  "\<exists>(r :: unit otlp_recordable) b.
     process_span sample_sky_env [] (sample_sky_segment [sample_sky_span 0 Type_Entry []]) (replicate 16 1) []
       (sample_sky_span 0 Type_Entry []) = Inr r \<and>
     intercept_event sample_env name_control_new (Some (seen_by_topology r)) (processor_new :: (64 word) listener) =
       Inr (processor_new\<lparr>callingInTraffic := [b]\<rparr>) \<and>
     sourceServiceName b = [] \<and> sourceEndpointName b = ''User''"
proof -
  let ?s = "sample_sky_span 0 Type_Entry []"
  let ?o = "sample_sky_segment [?s]"
  have "segment_ok sample_sky_env ?o" by (rule sample_segment_ok) (simp add: sample_sky_span_def)
  moreover have "?s \<in> set (seg_spans ?o)" by (simp add: sample_sky_segment_def)
  ultimately obtain r :: "unit otlp_recordable" where
    r: "process_span sample_sky_env [] ?o (replicate 16 1) [] ?s = Inr r"
    using process_span_total by blast
  obtain i where core: "core r = span_core sample_sky_env [] ?o (replicate 16 1) i [] ?s"
    using process_span_core [OF r] by blast
  have layer: "load_resource (attr_to_map (rec_span (seen_by_topology r))) (resource (seen_by_topology r)) AttributeLayer =
      Some (AV_Int 3)"
    by (simp add: span_attribute_lookup seen_by_topology_def span.truncate_def span_core_simps(4,5) [OF core]
        span_attributes_def PopulateAttribute_def sample_sky_span_def AttributeLayer_def)
  have mq: "\<not> is_mq sample_env (load_resource (attr_to_map (rec_span (seen_by_topology r))) (resource (seen_by_topology r)))"
    by (simp add: is_mq_def layer) (simp add: sample_env_def)
  have entry: "server_entry sample_sky_env ?s" "sw_refs ?s = []"
    by (simp_all add: server_entry_def sample_sky_env_def sample_sky_span_def)
  have en: "enabled (processor_new :: (64 word) listener)" by (simp add: processor_new_def listener_new_def)
  show ?thesis
    using root_entry_has_no_caller [OF r entry mq en directory_total_new] r
    unfolding callingIn_new append_Nil by (intro exI [of _ r]) simp
qed

text \<open>C17: a dual-stack service takes over the traffic of unknown callers. Its second cluster IP is stored
  as an empty string, so the directory maps the empty peer to it; and a caller whose service the
  directory does not know and whose instance has no address after an \<open>@\<close> is looked up under just
  that key.\<close>

theorem dual_stack_service_takes_unknown_callers:
  assumes "service_parse J d empty_service = Inr (True, s)"
    and "json_path J d [''object'', ''spec'', ''clusterIPs''] = Some a" "2 \<le> length (array_elems J a)"
    and "set_service s nc = Inr nc'" "svc_name s \<noteq> []" "directory_total nc'"
    and "enabled l" "links span = [link]" "\<not> is_mq E m"
    and "str_or (link_attr_to_map link) AttributeParentService [] = p" "find_service_name nc' p = Inr ([], [])"
    and "str_or (link_attr_to_map link) AttributeParentInstance [] = i" "i \<noteq> []" "CHR ''@'' \<notin> set i"
  shows "\<exists>b. parseEntry E nc' span m l = Inr (l\<lparr>callingInTraffic := callingInTraffic l @ [b]\<rparr>) \<and>
             sourceServiceName b = svc_name s \<and> sourceNamespace b = svc_namespace s"
proof -
  have p: "peers s = service_peers (s\<lparr>peers := []\<rparr>)"
    "cluster_ips s = stored_cluster_ips (map (string_val J) (array_elems J a))"
    using service_parse_stored [OF assms(1)] assms(2) by auto
  have "[] \<in> set (cluster_ips s)"
    using assms(3) by (cases "array_elems J a") (auto simp: p(2) stored_cluster_ips_def)
  then have "[] \<in> set (peers s)" by (subst p(1)) (auto simp: service_peers_def)
  moreover have "to_peer s = Inr (peers s, s)" using calculation by (auto simp: to_peer_def)
  ultimately have empty: "find_service_name nc' [] = Inr (svc_name s, svc_namespace s)"
    using set_service_found [OF _ assms(4)] by simp
  let ?b = "entry_base span m"
  obtain t where t: "destNameToKubernetesName nc' (destServiceName ?b) (destServiceInstanceName ?b) ?b = Inr t"
    using destName_total [OF assms(6)] by blast
  let ?c = "entry_link E span m (link_attr_to_map link) (t\<lparr>detectPoint := DP_SERVER\<rparr>)"
  have src: "sourceServiceName ?c = p" "sourceServiceInstanceName ?c = i"
    using assms(10,12) destName_frame [OF t]
    by (simp_all add: entry_link_source [OF assms(9)] entry_base_def traffic_new_def)
  have "instanceToIp i = Inr []" using find_char_None [THEN iffD2, OF assms(14)] by (simp add: instanceToIp_def)
  then have "sourceNameToKubernetesName nc' (sourceServiceName ?c) (sourceServiceInstanceName ?c) ?c =
      Inr (?c\<lparr>sourceServiceName := svc_name s, sourceNamespace := svc_namespace s\<rparr>)"
    using assms(5,11,13) empty by (simp add: src sourceNameToKubernetesName_def name_to_kubernetes_def)
  from parseEntry_link [OF assms(7-9) t this refl] show ?thesis by auto
qed

lemma dual_stack_sample:
  "\<exists>s. service_parse json_dom (sample_service (JUint 8080) [JString ''10.0.0.9'', JString ''fd00::9'']) empty_service
         = Inr (True, s) \<and> svc_name s = ''web'' \<and>
       peers s = [''web.shop.svc.cluster.local'', ''fd00::9'', ''fd00::9:80'', ''web.shop.svc.cluster.local:80'',
                  [], '':80'', ''web.shop.svc.cluster.local:80'']"
  by (simp add: sample_service_def service_parse_def parse_service_head_def has_member_def
      member_value_def get_string_def Let_def parse_spec_ports_def get_array_def get_uint_def
      then_parse_def parse_selector_def parse_spec_addresses_def parse_spec_policies_def
      empty_service_def to_peer_def deref_port_def service_domain_def port_peers_def dec_of_nat.simps digit_char_def char_of_def bit_0)

definition gateway_link :: "unit attributes" where
  "gateway_link = [(AttributeParentService, AV_String ''gateway''), (AttributeParentInstance, AV_String ''gw-1'')]"

theorem dual_stack_service_takes_unknown_callers_witness:
  "\<exists>nc' b. parseEntry sample_env nc' (sample_span Kind_Server [] [gateway_link]) Map.empty
          (processor_new :: (64 word) listener) = Inr (processor_new\<lparr>callingInTraffic := [b]\<rparr>) \<and>
        sourceServiceName b = ''web''"
proof -
  let ?d = "sample_service (JUint 8080) [JString ''10.0.0.9'', JString ''fd00::9'']"
  let ?m = "Map.empty :: unit attr_map"
  obtain s where s: "service_parse json_dom ?d empty_service = Inr (True, s)" "svc_name s = ''web''"
    "peers s = [''web.shop.svc.cluster.local'', ''fd00::9'', ''fd00::9:80'', ''web.shop.svc.cluster.local:80'',
                  [], '':80'', ''web.shop.svc.cluster.local:80'']"
    using dual_stack_sample by blast
  have c: "json_path json_dom ?d [''object'', ''spec'', ''clusterIPs''] = Some (JArray [JString ''10.0.0.9'', JString ''fd00::9''])"
    by (simp add: sample_service_def json_path.simps)
  have tp: "to_peer s = Inr (peers s, s)" by (simp add: to_peer_def s(3))
  obtain nc where nc: "set_service s name_control_new = Inr nc" "peer_to_services nc ''gateway'' = None"
    "ip_to_endpoints nc ''gateway'' = None" "pod_ip_map nc ''gateway'' = None"
    by (simp add: set_service_def tp Let_def name_control_new_def s(3))
  have u: "find_service_name nc ''gateway'' = Inr ([], [])"
    using nc by (simp add: find_service_name_def find_service_def find_endpoint_def find_pod_def)
  have tot: "directory_total nc" by (rule directory_total_announced [OF tp nc(1)])
  have h: "enabled (processor_new :: (64 word) listener)" "links (sample_span Kind_Server [] [gateway_link]) = [gateway_link]"
    "\<not> is_mq sample_env ?m" "2 \<le> length (array_elems json_dom (JArray [JString ''10.0.0.9'', JString ''fd00::9'']))"
    by (simp_all add: processor_new_def listener_new_def sample_span_def is_mq_def)
  have a: "str_or (link_attr_to_map gateway_link) AttributeParentService [] = ''gateway''"
    "str_or (link_attr_to_map gateway_link) AttributeParentInstance [] = ''gw-1''"
    by (simp_all add: gateway_link_def link_attr_to_map_def str_or_def AttributeParentService_def AttributeParentInstance_def)
  have ne: "svc_name s \<noteq> []" "''gw-1'' \<noteq> []" "CHR ''@'' \<notin> set ''gw-1''" by (simp_all add: s(2))
  from dual_stack_service_takes_unknown_callers [OF s(1) c h(4) nc(1) ne(1) tot h(1-3) a(1) u a(2) ne(2,3)]
  obtain b where
    "parseEntry sample_env nc (sample_span Kind_Server [] [gateway_link]) ?m processor_new = Inr (processor_new\<lparr>callingInTraffic := [] @ [b]\<rparr>)"
    "sourceServiceName b = svc_name s"
    unfolding callingIn_new by blast
  then show ?thesis unfolding s(2) append_Nil by blast
qed

end
